(* ===== verification/Prelude.thy ===== *)
theory Prelude
  imports Main "HOL-Library.Code_Target_Nat" "HOL-Library.AList" "HOL-Library.Char_ord" "HOL-Library.List_Lexorder"
begin

section \<open>Shared vocabulary of the development\<close>

text \<open>
  The generic material every component uses: the lemma collections, Go maps as association
  lists, the "append unless already seen" accumulator the Go code writes with a \<open>seen\<close> map, and
  a few facts on filters and sorted lists.

  A Go map is an association list with distinct keys. Go iterates a map in an order of its own
  choice; the model iterates the list from left to right, and because every theorem holds for
  every list with distinct keys, it holds for every iteration order.
\<close>

named_theorems frame \<open>fields of the state an operation leaves alone\<close>
named_theorems table_simps \<open>lookup after insert, delete and map over a Go map\<close>

subsection \<open>Go maps\<close>

type_synonym ('k, 'v) table = "('k \<times> 'v) list"

abbreviation keys :: "('k, 'v) table \<Rightarrow> 'k list" where
  "keys m \<equiv> map fst m"

abbreviation put :: "'k \<Rightarrow> 'v \<Rightarrow> ('k, 'v) table \<Rightarrow> ('k, 'v) table" where
  "put \<equiv> AList.update"

abbreviation del :: "'k \<Rightarrow> ('k, 'v) table \<Rightarrow> ('k, 'v) table" where
  "del \<equiv> AList.delete"

definition has_key :: "('k, 'v) table \<Rightarrow> 'k \<Rightarrow> bool" where
  "has_key m k = (map_of m k \<noteq> None)"

text \<open>Reading a missing key of a Go map gives the zero value of the element type.\<close>

definition get_or :: "'v \<Rightarrow> ('k, 'v) table \<Rightarrow> 'k \<Rightarrow> 'v" where
  "get_or d m k = (case map_of m k of None \<Rightarrow> d | Some v \<Rightarrow> v)"

text \<open>A loop that rewrites every element of a map in place.\<close>

definition map_vals :: "('k \<Rightarrow> 'v \<Rightarrow> 'w) \<Rightarrow> ('k, 'v) table \<Rightarrow> ('k, 'w) table" where
  "map_vals f m = map (\<lambda>p. (fst p, f (fst p) (snd p))) m"

lemma map_of_map_vals [table_simps, simp]:
  "map_of (map_vals f m) k = map_option (f k) (map_of m k)"
  by (induction m) (auto simp: map_vals_def)

lemma keys_map_vals [simp]: "keys (map_vals f m) = keys m"
  by (simp add: map_vals_def)

lemma fst_set_map_vals [simp]: "fst ` set (map_vals f m) = fst ` set m"
  by (force simp: map_vals_def image_iff)

lemma map_vals_map_vals: "map_vals f (map_vals g m) = map_vals (\<lambda>k v. f k (g k v)) m"
  by (simp add: map_vals_def)

lemma map_vals_id: "(\<And>k v. (k, v) \<in> set m \<Longrightarrow> f k v = v) \<Longrightarrow> map_vals f m = m"
  by (induction m) (auto simp: map_vals_def)

lemma snd_in_map_vals:
  "p \<in> set (map_vals f m) \<longleftrightarrow> (\<exists>k v. (k, v) \<in> set m \<and> p = (k, f k v))"
  by (force simp: map_vals_def)

lemma map_of_put [table_simps, simp]: "map_of (put k v m) = (map_of m)(k \<mapsto> v)"
  by (rule update_conv')

lemma map_of_del [table_simps, simp]: "map_of (del k m) = (map_of m)(k := None)"
  by (rule delete_conv')

lemma distinct_put [intro, simp]: "distinct (keys m) \<Longrightarrow> distinct (keys (put k v m))"
  by (rule distinct_update)

lemma distinct_del [intro, simp]: "distinct (keys m) \<Longrightarrow> distinct (keys (del k m))"
  by (rule distinct_delete)

lemma set_keys_put [simp]: "set (keys (put k v m)) = insert k (set (keys m))"
  by (simp add: dom_update)

lemma set_keys_del [simp]: "set (keys (del k m)) = set (keys m) - {k}"
  by (simp add: delete_keys flip: set_map)

lemma has_key_iff: "has_key m k \<longleftrightarrow> k \<in> set (keys m)"
  by (simp add: has_key_def map_of_eq_None_iff)

lemma has_key_put [simp]: "has_key (put k v m) k' \<longleftrightarrow> k' = k \<or> has_key m k'"
  by (simp add: has_key_def)

lemma has_key_del [simp]: "has_key (del k m) k' \<longleftrightarrow> k' \<noteq> k \<and> has_key m k'"
  by (simp add: has_key_def)

lemma has_key_map_vals [simp]: "has_key (map_vals f m) k = has_key m k"
  by (simp add: has_key_def)

lemma in_set_del [simp]: "p \<in> set (del k m) \<longleftrightarrow> p \<in> set m \<and> fst p \<noteq> k"
  by (cases p) (auto simp: AList.delete_eq)

lemma in_set_put:
  "distinct (keys m) \<Longrightarrow>
   p \<in> set (put k v m) \<longleftrightarrow> p = (k, v) \<or> p \<in> set m \<and> fst p \<noteq> k"
  by (induction m) (auto simp: image_iff)

lemma in_set_putD: "p \<in> set (put k v m) \<Longrightarrow> p = (k, v) \<or> p \<in> set m"
  by (induction m) (auto split: if_splits)

lemma length_put: "length (put k v m) = (if has_key m k then length m else Suc (length m))"
  by (induction m) (auto simp: has_key_def)

lemma length_del_le: "length (del k m) \<le> length m"
  by (simp add: AList.delete_eq)

lemma map_of_in_set [dest]: "map_of m k = Some v \<Longrightarrow> (k, v) \<in> set m"
  by (rule map_of_SomeD)

lemma map_of_iff_set: "distinct (keys m) \<Longrightarrow> map_of m k = Some v \<longleftrightarrow> (k, v) \<in> set m"
  by (rule map_of_eq_Some_iff)

lemma get_or_put [table_simps, simp]:
  "get_or d (put k v m) k' = (if k' = k then v else get_or d m k')"
  by (simp add: get_or_def)

lemma get_or_del [table_simps, simp]:
  "get_or d (del k m) k' = (if k' = k then d else get_or d m k')"
  by (simp add: get_or_def)

lemma get_or_Nil [simp]: "get_or d [] k = d"
  by (simp add: get_or_def)

lemma get_or_Cons [simp]: "get_or d ((k, v) # m) k' = (if k' = k then v else get_or d m k')"
  by (simp add: get_or_def)

lemma get_or_None: "map_of m k = None \<Longrightarrow> get_or d m k = d"
  by (simp add: get_or_def)

lemma get_or_Some: "map_of m k = Some v \<Longrightarrow> get_or d m k = v"
  by (simp add: get_or_def)

subsection \<open>The interface of a Go map\<close>

text \<open>
  What the components rely on when they keep a table: the three laws of lookup, insert and
  delete. The client lemmas below are proved from the laws alone; the interpretation on the
  association lists of the model discharges them.
\<close>

locale keyed_table =
  fixes look :: "'m \<Rightarrow> 'k \<Rightarrow> 'v option"
    and ins :: "'k \<Rightarrow> 'v \<Rightarrow> 'm \<Rightarrow> 'm"
    and rem :: "'k \<Rightarrow> 'm \<Rightarrow> 'm"
  assumes look_ins: "look (ins k v m) = (look m)(k \<mapsto> v)"
    and look_rem: "look (rem k m) = (look m)(k := None)"
begin

lemma ins_ins_same: "look (ins k v (ins k w m)) = look (ins k v m)"
  by (simp add: look_ins)

lemma rem_ins_fresh: "look m k = None \<Longrightarrow> look (rem k (ins k v m)) = look m"
  by (simp add: look_ins look_rem fun_eq_iff)

lemma ins_commute: "k \<noteq> l \<Longrightarrow> look (ins k v (ins l w m)) = look (ins l w (ins k v m))"
  by (simp add: look_ins fun_upd_twist)

lemma look_fold_ins_other:
  "k \<notin> set ks \<Longrightarrow> look (fold (\<lambda>i. ins i (f i)) ks m) k = look m k"
  by (induction ks arbitrary: m) (simp_all add: look_ins)

lemma look_fold_rem:
  "look (fold rem ks m) k = (if k \<in> set ks then None else look m k)"
  by (induction ks arbitrary: m) (auto simp: look_rem)

end

interpretation go_map: keyed_table map_of AList.update AList.delete
  by unfold_locales (simp_all add: update_conv' delete_conv')

subsection \<open>Appending an element unless it was seen\<close>

definition add_once :: "'a \<Rightarrow> 'a list \<Rightarrow> 'a list" where
  "add_once x xs = (if x \<in> set xs then xs else xs @ [x])"

lemma set_add_once [simp]: "set (add_once x xs) = insert x (set xs)"
  by (auto simp: add_once_def)

lemma distinct_add_once [simp]: "distinct (add_once x xs) = distinct xs"
  by (simp add: add_once_def)

lemma set_fold_add_once: "set (fold (\<lambda>x. add_once (f x)) xs acc) = f ` set xs \<union> set acc"
  by (induction xs arbitrary: acc) auto

lemma distinct_fold_add_once: "distinct (fold (\<lambda>x. add_once (f x)) xs acc) = distinct acc"
  by (induction xs arbitrary: acc) auto

subsection \<open>Lists\<close>

lemma remove1_eq_filter: "distinct xs \<Longrightarrow> remove1 x xs = filter (\<lambda>y. y \<noteq> x) xs"
  by (simp add: distinct_remove1_removeAll removeAll_filter_not_eq eq_commute [of x])

lemma sorted_wrt_snoc:
  "sorted_wrt P (xs @ [x]) \<longleftrightarrow> sorted_wrt P xs \<and> (\<forall>y \<in> set xs. P y x)"
  by (simp add: sorted_wrt_append)

lemma map_insort_key: "map f (insort_key f x xs) = insort (f x) (map f xs)"
  by (induction xs) auto

lemma map_sort_key: "map f (sort_key f xs) = sort (map f xs)"
  by (induction xs) (auto simp: map_insort_key)

subsection \<open>Loops that keep the first few results\<close>

text \<open>The Go loop that appends what it accepts and breaks once the output has \<open>n\<close> elements.\<close>

fun collect :: "nat \<Rightarrow> ('a \<Rightarrow> 'b option) \<Rightarrow> 'a list \<Rightarrow> 'b list" where
  "collect n f [] = []"
| "collect n f (x # xs) =
     (case f x of
        None \<Rightarrow> collect n f xs
      | Some y \<Rightarrow> y # (if n \<le> 1 then [] else collect (n - 1) f xs))"

lemma collect_take: "0 < n \<Longrightarrow> collect n f xs = take n (List.map_filter f xs)"
  by (induction n f xs rule: collect.induct)
     (auto simp: List.map_filter_simps take_Cons' split: option.splits)

lemma collect_bounds:
  "0 < n \<Longrightarrow> length (collect n f xs) \<le> n"
  "0 < n \<Longrightarrow> y \<in> set (collect n f xs) \<Longrightarrow> \<exists>x \<in> set xs. f x = Some y"
  by (simp add: collect_take)
     (force simp: collect_take List.map_filter_def dest!: in_set_takeD)

end
