(* ===== verification/GoText.thy ===== *)
theory GoText
  imports Prelude
begin

section \<open>Go strings\<close>

text \<open>
  A Go string is a sequence of bytes; \<open>string\<close> (a list of 8-bit characters) is exactly that.
  This theory models the parts of Go's \<open>strings\<close>, \<open>unicode/utf8\<close> and string conversions the server
  uses: decoding into runes, counting and truncating runes, trimming white space, lower-casing,
  prefixes, substring search, splitting and joining. Lower-casing and case folding act on ASCII
  letters and leave every other byte alone.
\<close>

subsection \<open>UTF-8\<close>

definition byte :: "char \<Rightarrow> nat" where
  "byte c = of_char c"

definition between :: "nat \<Rightarrow> nat \<Rightarrow> char \<Rightarrow> bool" where
  "between lo hi c = (lo \<le> byte c \<and> byte c \<le> hi)"

text \<open>
  The number of bytes of the well-formed encoding at the head of a string, 0 when the head is
  not one (an empty string, a stray continuation byte, a truncated or overlong sequence, a
  surrogate, a value above U+10FFFF).
\<close>

definition lead_len :: "char \<Rightarrow> nat" where
  "lead_len a =
     (if byte a < 128 then 1 else if between 194 223 a then 2
      else if between 224 239 a then 3 else if between 240 244 a then 4 else 0)"

definition second_ok :: "char \<Rightarrow> char \<Rightarrow> bool" where
  "second_ok a b =
     between (if byte a = 224 then 160 else if byte a = 240 then 144 else 128)
             (if byte a = 237 then 159 else if byte a = 244 then 143 else 191) b"

fun rune_len :: "string \<Rightarrow> nat" where
  "rune_len [] = 0"
| "rune_len (a # s) =
     (if lead_len a \<le> 1 then lead_len a
      else if lead_len a \<le> Suc (length s) \<and> second_ok a (hd s)
              \<and> list_all (between 128 191) (take (lead_len a - 2) (tl s))
      then lead_len a else 0)"

text \<open>Ranging over a string: one item per rune, an ill-formed byte being an item of its own.\<close>

definition rune_step :: "string \<Rightarrow> nat" where
  "rune_step s = max 1 (rune_len s)"

function runes :: "string \<Rightarrow> string list" where
  "runes s = (if s = [] then [] else take (rune_step s) s # runes (drop (rune_step s) s))"
  by pat_completeness auto
termination
  by (relation "measure length") (auto simp: rune_step_def)

declare runes.simps [simp del]

lemma runes_Nil [simp]: "runes [] = []"
  by (simp add: runes.simps)

lemma runes_step: "s \<noteq> [] \<Longrightarrow> runes s = take (rune_step s) s # runes (drop (rune_step s) s)"
  by (subst runes.simps) simp

lemma rune_len_bounds: "rune_len s \<le> length s" "rune_len s \<le> 4"
  by (cases s; auto simp: lead_len_def)+

lemma concat_runes [simp]: "concat (runes s) = s"
  by (induction s rule: runes.induct) (subst runes.simps, auto)

lemma rune_nonempty: "r \<in> set (runes s) \<Longrightarrow> r \<noteq> []"
  by (induction s rule: runes.induct)
    (subst (asm) (2) runes.simps, auto simp: rune_step_def split: if_splits)

definition rune_count :: "string \<Rightarrow> nat" where
  "rune_count s = length (runes s)"

definition valid_utf8 :: "string \<Rightarrow> bool" where
  "valid_utf8 s = (\<forall>r \<in> set (runes s). rune_len r \<noteq> 0)"

text \<open>\<open>string(r[:max])\<close> writes an ill-formed byte back as U+FFFD.\<close>

definition encode_rune :: "string \<Rightarrow> string" where
  "encode_rune r = (if rune_len r = 0 then [CHR 0xEF, CHR 0xBF, CHR 0xBD] else r)"

lemma length_runes_le: "length (runes s) \<le> length s"
proof (induction s rule: runes.induct)
  case (1 s)
  show ?case
  proof (cases "s = []")
    case False
    then have "Suc (length (runes (drop (rune_step s) s))) \<le> length s"
      using 1 by (auto simp: rune_step_def Suc_le_eq neq_Nil_conv intro: le_less_trans)
    then show ?thesis using False by (simp add: runes_step)
  qed simp
qed

lemma rune_count_le: "rune_count s \<le> length s"
  by (simp add: rune_count_def length_runes_le)

text \<open>Cutting a string at a rune boundary does not change how its parts are read.\<close>

lemma rune_len_prefix:
  assumes "rune_len (t @ u) \<le> length t" "t \<noteq> []"
  shows "rune_len t = rune_len (t @ u)"
proof -
  obtain a t1 where t: "t = a # t1" using assms(2) by (cases t) auto
  show ?thesis
  proof (cases "2 \<le> lead_len a \<and> lead_len a \<le> length t")
    case True
    then obtain b t2 where "t1 = b # t2" using t by (cases t1) auto
    then show ?thesis using t True by simp
  next
    case False
    then show ?thesis using assms(1) t by (auto split: if_splits)
  qed
qed

lemma rune_step_prefix:
  assumes "rune_step (t @ u) \<le> length t" "t \<noteq> []"
  shows "rune_step t = rune_step (t @ u)"
  using assms rune_len_prefix [of t u] by (auto simp: rune_step_def)

lemma rune_step_le: "s \<noteq> [] \<Longrightarrow> rune_step s \<le> length s"
  using rune_len_bounds(1) [of s] by (cases s) (auto simp: rune_step_def)

lemma runes_prefix: "runes s = ps @ qs \<Longrightarrow> runes (concat ps) = ps"
proof (induction ps arbitrary: s)
  case Nil
  then show ?case by simp
next
  case (Cons r ps)
  then have ne: "s \<noteq> []" by auto
  have r: "r = take (rune_step s) s" and rest: "runes (drop (rune_step s) s) = ps @ qs"
    using Cons.prems runes_step [OF ne] by auto
  have s: "s = (r @ concat ps) @ concat qs"
    using Cons.prems concat_runes [of s] by simp
  have len: "rune_step s = length r"
    using rune_step_le [OF ne] r by simp
  then have "r \<noteq> []" by (auto simp: rune_step_def)
  have "rune_step (r @ concat ps) = rune_step s"
    using rune_step_prefix [of "r @ concat ps" "concat qs"] s len \<open>r \<noteq> []\<close> by simp
  then show ?case
    using runes_step [of "r @ concat ps"] \<open>r \<noteq> []\<close> len Cons.IH [OF rest] by simp
qed

lemma runes_suffix: "runes s = ps @ qs \<Longrightarrow> runes (concat qs) = qs"
proof (induction ps arbitrary: s)
  case Nil
  then show ?case using concat_runes [of s] by simp
next
  case (Cons r ps)
  then have ne: "s \<noteq> []" by auto
  then have "runes (drop (rune_step s) s) = ps @ qs"
    using Cons.prems runes_step [OF ne] by auto
  then show ?case by (rule Cons.IH)
qed

lemma runes_infix: "runes s = ps @ ys @ qs \<Longrightarrow> runes (concat ys) = ys"
  by (metis runes_prefix runes_suffix)

subsection \<open>Trimming white space\<close>

text \<open>
  \<open>unicode.IsSpace\<close>: the six ASCII characters, U+0085, U+00A0, U+1680, U+2000 to U+200A,
  U+2028, U+2029, U+202F, U+205F and U+3000, each as its UTF-8 encoding.
\<close>

definition is_space :: "string \<Rightarrow> bool" where
  "is_space r =
     (case map byte r of
        [a] \<Rightarrow> 9 \<le> a \<and> a \<le> 13 \<or> a = 32
      | [a, b] \<Rightarrow> a = 194 \<and> (b = 133 \<or> b = 160)
      | [a, b, c] \<Rightarrow>
          a = 225 \<and> b = 154 \<and> c = 128
          \<or> a = 226 \<and> b = 128 \<and> (128 \<le> c \<and> c \<le> 138 \<or> c = 168 \<or> c = 169 \<or> c = 175)
          \<or> a = 226 \<and> b = 129 \<and> c = 159
          \<or> a = 227 \<and> b = 128 \<and> c = 128
      | _ \<Rightarrow> False)"

definition strip :: "('a \<Rightarrow> bool) \<Rightarrow> 'a list \<Rightarrow> 'a list" where
  "strip P xs = rev (dropWhile P (rev (dropWhile P xs)))"

definition trim_space :: "string \<Rightarrow> string" where
  "trim_space s = concat (strip is_space (runes s))"

lemma strip_infix: "\<exists>ps qs. xs = ps @ strip P xs @ qs"
proof -
  have "xs = takeWhile P xs @ dropWhile P xs" by simp
  moreover have "dropWhile P xs = strip P xs @ rev (takeWhile P (rev (dropWhile P xs)))"
    by (metis rev_append rev_rev_ident strip_def takeWhile_dropWhile_id)
  ultimately show ?thesis by metis
qed

lemma strip_ends: "strip P xs \<noteq> [] \<Longrightarrow> \<not> P (hd (strip P xs)) \<and> \<not> P (last (strip P xs))"
proof -
  assume ne: "strip P xs \<noteq> []"
  let ?d = "dropWhile P xs"
  have l: "\<not> P (last (strip P xs))"
    using ne unfolding strip_def by (metis hd_dropWhile last_rev rev_is_Nil_conv)
  have "?d = strip P xs @ rev (takeWhile P (rev ?d))"
    by (metis rev_append rev_rev_ident strip_def takeWhile_dropWhile_id)
  then have "hd ?d = hd (strip P xs)" and "?d \<noteq> []"
    using ne by (metis hd_append2) (use ne in \<open>auto simp: strip_def dest: set_dropWhileD\<close>)
  then show ?thesis using l hd_dropWhile [of P xs] by simp
qed

lemma strip_fixed: "xs = [] \<or> \<not> P (hd xs) \<and> \<not> P (last xs) \<Longrightarrow> strip P xs = xs"
  by (cases xs) (auto simp: strip_def dropWhile_eq_self_iff hd_rev simp flip: rev.simps(2))

lemma strip_idem [simp]: "strip P (strip P xs) = strip P xs"
  using strip_ends strip_fixed by metis

lemma runes_trim_space: "runes (trim_space s) = strip is_space (runes s)"
  unfolding trim_space_def by (metis runes_infix strip_infix)

lemma trim_space_idem [simp]: "trim_space (trim_space s) = trim_space s"
  by (simp add: trim_space_def [of "trim_space s"] runes_trim_space) (simp add: trim_space_def)

lemma length_strip_le: "length (strip P xs) \<le> length xs"
  unfolding strip_def by (metis le_trans length_dropWhile_le length_rev)

lemma trim_space_Nil [simp]: "trim_space [] = []"
  by (simp add: trim_space_def strip_def)

lemma length_trim_space_le: "length (trim_space s) \<le> length s"
proof -
  obtain ps qs where "runes s = ps @ strip is_space (runes s) @ qs"
    using strip_infix by blast
  then have "s = concat ps @ trim_space s @ concat qs"
    by (metis concat_append concat_runes trim_space_def)
  then show ?thesis by (metis le_add1 le_add2 le_trans length_append)
qed

subsection \<open>Truncating to a number of runes\<close>

definition truncate_runes :: "string \<Rightarrow> nat \<Rightarrow> string" where
  "truncate_runes s n =
     (if n = 0 then []
      else if rune_count s \<le> n then s
      else concat (map encode_rune (take n (runes s))))"

subsection \<open>Letter case\<close>

definition lower_char :: "char \<Rightarrow> char" where
  "lower_char c = (if between 65 90 c then char_of (byte c + 32) else c)"

definition to_lower :: "string \<Rightarrow> string" where
  "to_lower s = map lower_char s"

definition equal_fold :: "string \<Rightarrow> string \<Rightarrow> bool" where
  "equal_fold a b = (to_lower a = to_lower b)"

lemma byte_less: "byte c < 256"
  by (simp add: byte_def)

lemma byte_char_of [simp]: "n < 256 \<Longrightarrow> byte (char_of n) = n"
  by (simp add: byte_def)

lemma lower_char_idem [simp]: "lower_char (lower_char c) = lower_char c"
  by (auto simp: lower_char_def between_def)

lemma to_lower_idem [simp]: "to_lower (to_lower s) = to_lower s"
  by (simp add: to_lower_def)

lemma length_to_lower [simp]: "length (to_lower s) = length s"
  by (simp add: to_lower_def)

lemma to_lower_append [simp]: "to_lower (s @ t) = to_lower s @ to_lower t"
  by (simp add: to_lower_def)

lemma to_lower_Nil_iff [simp]: "to_lower s = [] \<longleftrightarrow> s = []"
  by (simp add: to_lower_def)

lemma equal_fold_refl [simp]: "equal_fold s s"
  by (simp add: equal_fold_def)

lemma equal_fold_lower [simp]:
  "equal_fold (to_lower s) t = equal_fold s t" "equal_fold s (to_lower t) = equal_fold s t"
  by (simp_all add: equal_fold_def)

subsection \<open>Prefixes, searching, splitting and joining\<close>

fun has_prefix :: "string \<Rightarrow> string \<Rightarrow> bool" where
  "has_prefix s [] = True"
| "has_prefix [] (p # ps) = False"
| "has_prefix (c # s) (p # ps) = (c = p \<and> has_prefix s ps)"

lemma has_prefix_iff: "has_prefix s p \<longleftrightarrow> (\<exists>t. s = p @ t)"
  by (induction s p rule: has_prefix.induct) auto

lemma has_prefix_append [simp]: "has_prefix (p @ t) p"
  by (simp add: has_prefix_iff)

fun index_of :: "string \<Rightarrow> string \<Rightarrow> nat option" where
  "index_of s p =
     (if has_prefix s p then Some 0
      else case s of [] \<Rightarrow> None | _ # t \<Rightarrow> map_option Suc (index_of t p))"

declare index_of.simps [simp del]

definition contains :: "string \<Rightarrow> string \<Rightarrow> bool" where
  "contains s p = (index_of s p \<noteq> None)"

lemma index_of_Some: "index_of s p = Some i \<Longrightarrow> has_prefix (drop i s) p \<and> i \<le> length s"
proof (induction s arbitrary: i)
  case Nil
  then show ?case by (auto simp: index_of.simps [of "[]"] split: if_splits)
next
  case (Cons c s)
  then show ?case by (auto simp: index_of.simps [of "c # s"] split: if_splits)
qed

lemma contains_append: "contains (u @ p @ v) p"
proof (induction u)
  case Nil
  show ?case by (simp add: contains_def index_of.simps [of "p @ v"])
next
  case (Cons c u)
  then show ?case by (auto simp: contains_def index_of.simps [of "c # u @ p @ v"])
qed

lemma contains_iff: "contains s p \<longleftrightarrow> (\<exists>u v. s = u @ p @ v)"
proof
  assume "contains s p"
  then obtain i where "index_of s p = Some i" by (auto simp: contains_def)
  then have "has_prefix (drop i s) p" by (simp add: index_of_Some)
  then show "\<exists>u v. s = u @ p @ v"
    by (metis append_take_drop_id has_prefix_iff)
qed (auto simp: contains_append)

fun split_on :: "char \<Rightarrow> string \<Rightarrow> string list" where
  "split_on d [] = [[]]"
| "split_on d (c # s) =
     (if c = d then [] # split_on d s
      else case split_on d s of [] \<Rightarrow> [[c]] | w # ws \<Rightarrow> (c # w) # ws)"

fun join_with :: "string \<Rightarrow> string list \<Rightarrow> string" where
  "join_with d [] = []"
| "join_with d [w] = w"
| "join_with d (w # v # ws) = w @ d @ join_with d (v # ws)"

lemma split_on_nonempty [simp]: "split_on d s \<noteq> []"
  by (cases s) (auto split: list.splits)

lemma join_Cons_first:
  "ws \<noteq> [] \<Longrightarrow> join_with d ((c # w) # ws) = c # join_with d (w # ws)"
  by (cases ws) auto

lemma join_split: "join_with [d] (split_on d s) = s"
proof (induction s)
  case (Cons c s)
  obtain w ws where w: "split_on d s = w # ws"
    using split_on_nonempty by (meson neq_Nil_conv)
  then show ?case using Cons
    by (cases ws) auto
qed simp

lemma split_on_no_sep: "w \<in> set (split_on d s) \<Longrightarrow> d \<notin> set w"
  by (induction s arbitrary: w) (auto split: if_splits list.splits)

definition trim_right :: "string \<Rightarrow> string \<Rightarrow> string" where
  "trim_right s cs = rev (dropWhile (\<lambda>c. c \<in> set cs) (rev s))"

lemma trim_right_last:
  "trim_right s cs \<noteq> [] \<Longrightarrow> last (trim_right s cs) \<notin> set cs"
  unfolding trim_right_def by (metis hd_dropWhile last_rev rev_is_Nil_conv)

subsection \<open>Decimal numbers\<close>

fun digits_of :: "nat \<Rightarrow> string" where
  "digits_of n =
     (if n < 10 then [char_of (48 + n)] else digits_of (n div 10) @ [char_of (48 + n mod 10)])"

declare digits_of.simps [simp del]

definition show_int :: "int \<Rightarrow> string" where
  "show_int i = (if i < 0 then CHR ''-'' # digits_of (nat (- i)) else digits_of (nat i))"

definition digit :: "char \<Rightarrow> nat" where
  "digit c = byte c - 48"

definition number_of :: "string \<Rightarrow> nat" where
  "number_of s = foldl (\<lambda>n c. 10 * n + digit c) 0 s"

lemma number_of_digits: "number_of (digits_of n) = n"
proof (induction n rule: digits_of.induct)
  case (1 n)
  then show ?case
    by (subst digits_of.simps) (auto simp: number_of_def digit_def)
qed

lemma digits_of_inject: "digits_of m = digits_of n \<longleftrightarrow> m = n"
  by (metis number_of_digits)

subsection \<open>Counting the runes of a cut text\<close>

lemma rune_len_append:
  assumes "r \<noteq> []" "rune_len r = length r"
  shows "rune_len (r @ t) = length r"
proof -
  obtain a s where r: "r = a # s" using assms(1) by (cases r) auto
  have l: "lead_len a = Suc (length s)"
    using assms(2) r by (auto split: if_splits)
  then show ?thesis using assms(2) r by (cases s) (auto split: if_splits)
qed

lemma rune_well_formed:
  assumes "r \<in> set (runes s)" "rune_len r \<noteq> 0"
  shows "rune_len r = length r"
  using assms
proof (induction s rule: runes.induct)
  case (1 s)
  have ne: "s \<noteq> []" using 1(2) by auto
  let ?n = "rune_step s"
  consider "r = take ?n s" | "r \<in> set (runes (drop ?n s))"
    using 1(2) ne by (subst (asm) runes_step) auto
  then show ?case
  proof cases
    case 1
    have len: "length (take ?n s) = ?n" using rune_step_le [OF ne] by simp
    have "rune_step (take ?n s) = rune_step (take ?n s @ drop ?n s)"
      using len rune_step_le [OF ne] ne by (intro rune_step_prefix) (auto simp: rune_step_def)
    then show ?thesis
      using 1 len \<open>rune_len r \<noteq> 0\<close> by (auto simp: rune_step_def max_def split: if_splits)
  next
    case 2
    then show ?thesis using 1(1) ne 1(3) by simp
  qed
qed

lemma encode_rune_well_formed:
  "r \<in> set (runes s) \<Longrightarrow> encode_rune r \<noteq> [] \<and> rune_len (encode_rune r) = length (encode_rune r)"
  using rune_well_formed [of r s] rune_nonempty [of r s]
  by (auto simp: encode_rune_def lead_len_def between_def byte_def second_ok_def)

lemma runes_concat:
  "\<forall>r \<in> set rs. r \<noteq> [] \<and> rune_len r = length r \<Longrightarrow> runes (concat rs) = rs"
proof (induction rs)
  case (Cons r rs)
  then have "rune_step (r @ concat rs) = length r" "r \<noteq> []"
    by (auto simp: rune_step_def rune_len_append max_def Suc_le_eq)
  then show ?case using Cons by (simp add: runes_step)
qed simp

lemma rune_count_truncate: "rune_count (truncate_runes s n) \<le> n"
proof -
  have "runes (concat (map encode_rune (take n (runes s)))) = map encode_rune (take n (runes s))"
    by (rule runes_concat) (auto dest!: in_set_takeD encode_rune_well_formed)
  then show ?thesis by (auto simp: truncate_runes_def rune_count_def)
qed

lemma truncate_runes_Nil_iff: "0 < n \<Longrightarrow> truncate_runes s n = [] \<longleftrightarrow> s = []"
proof
  assume n: "0 < n" and e: "truncate_runes s n = []"
  show "s = []"
  proof (rule ccontr)
    assume ne: "s \<noteq> []"
    then obtain r rs where rs: "runes s = r # rs" by (metis concat.simps(1) concat_runes list.exhaust)
    have "encode_rune r \<noteq> []" using encode_rune_well_formed [of r s] rs by simp
    then show False using e n ne rs by (cases n) (auto simp: truncate_runes_def split: if_splits)
  qed
qed (simp add: truncate_runes_def rune_count_def)

end
