(* ===== verification/Store.thy ===== *)
theory Store
  imports GoText
begin

section \<open>The data model and the state of the bus\<close>

text \<open>
  The wire and storage types of \<open>internal/types/types.go\<close>, the \<open>store\<close> struct of
  \<open>internal/server/store.go\<close>, the tables of the SQLite file as the server writes them
  (\<open>internal/server/sqlite.go\<close>), and the buffered channels behind the SSE and WebSocket
  subscriptions.
\<close>

subsection \<open>Time\<close>

text \<open>
  A clock reading is a number of nanoseconds. A stored timestamp is RFC 3339 text with second
  precision: \<open>At t\<close> is the text of second \<open>t\<close>, \<open>Unreadable\<close> a text that \<open>time.Parse\<close> rejects.
\<close>

datatype stamp = At int | Unreadable string

definition second :: int where "second = 1000000000"

definition stamp_of :: "int \<Rightarrow> stamp" where
  "stamp_of t = At (t div second)"

fun parse_stamp :: "stamp \<Rightarrow> int option" where
  "parse_stamp (At t) = Some (t * second)"
| "parse_stamp (Unreadable _) = None"

lemma parse_stamp_of: "parse_stamp (stamp_of t) = Some (t - t mod second)"
  by (simp add: stamp_of_def minus_mod_eq_div_mult)

subsection \<open>Types\<close>

record room =
  r_id :: string
  r_members :: "string list"
  r_created :: stamp
  r_created_by :: string
  r_roles :: "(string, string) table"
  r_memory :: "bool option"

record open_question =
  oq_question :: string
  oq_description :: string
  oq_options :: "string list"

record plan_block =
  pb_id :: string
  pb_type :: string
  pb_title :: string
  pb_data :: string
  pb_order :: int

record appendix_page =
  ap_title :: string
  ap_body :: string

record attachment =
  at_id :: string
  at_mime :: string
  at_name :: string
  at_size :: int
  at_width :: int
  at_height :: int
  at_hint :: string

record reaction =
  re_agent :: string
  re_emoji :: string
  re_created :: stamp

record reaction_summary =
  rs_emoji :: string
  rs_count :: int
  rs_agents :: "string list"
  rs_me :: bool

text \<open>\<open>m_targets\<close> is \<open>None\<close> for a nil slice: a message whose addressees were never decided.\<close>

record message =
  m_id :: int
  m_room :: string
  m_from :: string
  m_from_kind :: string
  m_from_harness :: string
  m_from_model :: string
  m_body :: string
  m_created :: stamp
  m_reply_to :: int
  m_targets :: "string list option"
  m_attention :: bool
  m_answers :: "string list"
  m_questions :: "open_question list"
  m_plan :: "plan_block list"
  m_appendix :: "appendix_page list"
  m_attachments :: "attachment list"
  m_reactions :: "reaction_summary list"

datatype agent_state =
    NoState | Bootstrapping | Idle | Thinking | ToolCall | Respawning | Failed | Stopped
  | Stale | Offline

record agent =
  a_id :: string
  a_name :: string
  a_kind :: string
  a_model :: string
  a_harness :: string
  a_project :: string
  a_meta :: "(string, string) table"
  a_state :: agent_state
  a_state_at :: "int option"
  a_pending :: agent_state
  a_overlay :: bool
  a_warnings :: "string list"
  a_registered :: stamp
  a_last_seen :: stamp
  a_cursors :: "(string, int) table"

record agent_session =
  se_full_id :: string
  se_origin :: string
  se_harness :: string
  se_model :: string
  se_project :: string
  se_cwd :: string
  se_harness_session :: string
  se_resume :: string
  se_registered :: "int option"
  se_last_seen :: int

record attachment_entry =
  ae_id :: string
  ae_name :: string
  ae_mime :: string
  ae_size :: int
  ae_width :: int
  ae_height :: int
  ae_uploaded :: stamp
  ae_ext :: string

record memory_record =
  mr_id :: string
  mr_scope :: string
  mr_key :: string
  mr_body :: string
  mr_version :: int
  mr_author :: string
  mr_source :: int
  mr_created :: string
  mr_updated :: string

record room_pref =
  rp_hidden :: bool
  rp_pinned :: bool

text \<open>Both \<open>roleOverrideEntry\<close> and \<open>customRoleEntry\<close>: the two structs have the same fields.\<close>

record role_entry =
  ro_label :: string
  ro_description :: string
  ro_emoji :: string
  ro_icon :: string
  ro_body :: string
  ro_cardinality :: string
  ro_extends :: string

record settings =
  st_agent_id_default :: string
  st_theme :: string
  st_show_system :: "bool option"
  st_debug_button :: "bool option"
  st_memory :: "bool option"
  st_leaderboard :: "bool option"
  st_notification :: "bool option"
  st_sound :: string
  st_volume :: "int option"
  st_stale_agent_window :: "int option"
  st_liveness_sweep :: "int option"
  st_agent_stale_window :: "int option"
  st_agent_offline_window :: "int option"
  st_cleanup_interval :: "int option"
  st_expired_after :: "int option"
  st_inline_plan :: string

record sound_entry =
  so_uuid :: string
  so_name :: string
  so_size :: int
  so_uploaded :: stamp
  so_ext :: string

record fleet_agent =
  fa_command :: string
  fa_wrap :: "bool option"
  fa_auto_cwd :: "bool option"

record rating_card =
  rc_model :: string
  rc_harness :: string
  rc_self :: bool
  rc_ratings :: "(string, int option) table"
  rc_created :: string

definition no_settings :: settings where
  "no_settings =
     \<lparr>st_agent_id_default = [], st_theme = [], st_show_system = None, st_debug_button = None,
      st_memory = None, st_leaderboard = None, st_notification = None, st_sound = [],
      st_volume = None, st_stale_agent_window = None, st_liveness_sweep = None,
      st_agent_stale_window = None, st_agent_offline_window = None, st_cleanup_interval = None,
      st_expired_after = None, st_inline_plan = []\<rparr>"

subsection \<open>Buffered channels\<close>

text \<open>
  \<open>make(chan T, 64)\<close>. A publisher writes with a \<open>select\<close> that has a \<open>default\<close> branch: a full
  channel drops the value.
\<close>

record 'a chan =
  ch_id :: nat
  ch_buf :: "'a list"

definition chan_cap :: nat where "chan_cap = 64"

definition offer :: "'a \<Rightarrow> 'a chan \<Rightarrow> 'a chan" where
  "offer x c = (if length (ch_buf c) < chan_cap then c\<lparr>ch_buf := ch_buf c @ [x]\<rparr> else c)"

definition publish :: "'a \<Rightarrow> 'a chan list \<Rightarrow> 'a chan list" where
  "publish x cs = map (offer x) cs"

fun drop_chan :: "nat \<Rightarrow> 'a chan list \<Rightarrow> 'a chan list" where
  "drop_chan n [] = []"
| "drop_chan n (c # cs) = (if ch_id c = n then cs else c # drop_chan n cs)"

text \<open>
  The contract a subscriber relies on: a bounded mailbox keeps what it accepted in order and
  accepts as long as there is room.
\<close>

locale mailbox =
  fixes push :: "'a \<Rightarrow> 'c \<Rightarrow> 'c"
    and content :: "'c \<Rightarrow> 'a list"
    and cap :: nat
  assumes content_push:
    "content (push x c) = (if length (content c) < cap then content c @ [x] else content c)"
begin

lemma push_bounded: "length (content c) \<le> cap \<Longrightarrow> length (content (push x c)) \<le> cap"
  by (simp add: content_push)

lemma content_pushes:
  "length (content c) \<le> cap \<Longrightarrow>
   content (fold push xs c) = content c @ take (cap - length (content c)) xs"
proof (induction xs arbitrary: c)
  case (Cons x xs)
  then show ?case
    using push_bounded [of c x] Suc_diff_Suc [of "length (content c)" cap]
    by (cases "length (content c) < cap") (auto simp: content_push simp flip: Suc_diff_Suc)
qed simp

lemma pushes_lossless:
  "length (content c) + length xs \<le> cap \<Longrightarrow> content (fold push xs c) = content c @ xs"
  by (simp add: content_pushes)

end

interpretation go_chan: mailbox offer ch_buf chan_cap
  by unfold_locales (simp add: offer_def)

subsection \<open>Meta events\<close>

datatype meta_event =
    RoomUpdate "room list"
  | AgentUpdate "agent list"
  | AttentionEvent string message
  | ReadUpdate string string int
  | Presence string string int bool stamp
  | ReactionChanged string int string string string "reaction_summary list"
  | RolesUpdated
  | MacrosUpdated
  | FleetsUpdated
  | LeaderboardUpdated

subsection \<open>The SQLite file\<close>

text \<open>
  The rows of the tables the core writes. A write either happens or is reported in the log
  and dropped by the server; the model takes every write as done.
\<close>

record database =
  db_rooms :: "(string, room) table"
  db_agents :: "(string, agent) table"
  db_messages :: "message list"
  db_sessions :: "(string, agent_session) table"
  db_prefs :: "((string \<times> string) \<times> room_pref) list"
  db_reactions :: "(int, reaction list) table"
  db_attachments :: "(string, attachment_entry) table"
  db_memory :: "(string, memory_record) table"
  db_role_overrides :: "(string, role_entry) table"
  db_role_custom :: "(string, role_entry) table"
  db_settings :: settings
  db_macros :: "(string, string \<times> bool) table"
  db_prompts :: "(string, string) table"
  db_fleets :: "(string, fleet_agent list) table"
  db_sounds :: "sound_entry list"
  db_cards :: "rating_card list"

subsection \<open>The store\<close>

text \<open>
  The struct \<open>store\<close>, and in \<open>s_role_defaults\<close> the package variable \<open>compiledRoleDefaults\<close>
  that \<open>SetRoleDefaults\<close> fills before the server starts. Locks, wait groups, the data
  directory and the ticker channel have no counterpart.
\<close>

record store =
  s_rooms :: "(string, room) table"
  s_messages :: "(string, message list) table"
  s_agents :: "(string, agent) table"
  s_sessions :: "(string, agent_session) table"
  s_next_id :: int
  s_room_subs :: "(string, message chan list) table"
  s_global_subs :: "message chan list"
  s_meta_subs :: "meta_event chan list"
  s_next_chan :: nat
  s_open_waits :: "(string, (string, int) table) table"
  s_open_ws :: "(string, int) table"
  s_prefs :: "(string, (string, room_pref) table) table"
  s_reactions :: "(int, reaction list) table"
  s_attachments :: "(string, attachment_entry) table"
  s_memory :: "(string, memory_record) table"
  s_role_overrides :: "(string, role_entry) table"
  s_role_custom :: "(string, role_entry) table"
  s_settings :: settings
  s_role_defaults :: "(string, string) table"
  s_macros :: "(string, string) table"
  s_seen_defaults :: "string list"
  s_prompts :: "(string, string) table"
  s_fleets :: "(string, fleet_agent list) table"
  s_sounds :: "sound_entry list"
  s_cards :: "rating_card list"
  s_warned_legacy :: "string list"
  s_warned_attention :: "string list"
  s_warned_ambiguous :: "string list"
  s_db :: database

definition empty_db :: database where
  "empty_db =
     \<lparr>db_rooms = [], db_agents = [], db_messages = [], db_sessions = [], db_prefs = [],
      db_reactions = [], db_attachments = [], db_memory = [], db_role_overrides = [],
      db_role_custom = [], db_settings = no_settings, db_macros = [],
      db_prompts = [], db_fleets = [], db_sounds = [], db_cards = []\<rparr>"

definition empty_store :: store where
  "empty_store =
     \<lparr>s_rooms = [], s_messages = [], s_agents = [], s_sessions = [], s_next_id = 0,
      s_room_subs = [], s_global_subs = [], s_meta_subs = [], s_next_chan = 0,
      s_open_waits = [], s_open_ws = [], s_prefs = [], s_reactions = [], s_attachments = [],
      s_memory = [], s_role_overrides = [], s_role_custom = [], s_settings = no_settings,
      s_role_defaults = [], s_macros = [], s_seen_defaults = [], s_prompts = [], s_fleets = [],
      s_sounds = [], s_cards = [],
      s_warned_legacy = [], s_warned_attention = [], s_warned_ambiguous = [], s_db = empty_db\<rparr>"

subsection \<open>Persistence\<close>

text \<open>The activity state of an agent is runtime only: the row is written without it.\<close>

definition agent_row :: "agent \<Rightarrow> agent" where
  "agent_row a = a\<lparr>a_state := NoState, a_state_at := None, a_pending := NoState\<rparr>"

definition persist :: "store \<Rightarrow> store" where
  "persist s =
     s\<lparr>s_db := (s_db s)\<lparr>db_rooms := s_rooms s,
                        db_agents := map_vals (\<lambda>_. agent_row) (s_agents s)\<rparr>\<rparr>"

definition persist_full_core :: "store \<Rightarrow> store" where
  "persist_full_core s =
     (persist s)\<lparr>s_db := (s_db (persist s))
        \<lparr>db_messages := concat (map snd (sort_key fst (s_messages s))),
         db_sessions := s_sessions s\<rparr>\<rparr>"

definition insert_message_row :: "message \<Rightarrow> store \<Rightarrow> store" where
  "insert_message_row m s = s\<lparr>s_db := (s_db s)\<lparr>db_messages := db_messages (s_db s) @ [m]\<rparr>\<rparr>"

definition delete_room_messages_rows :: "string \<Rightarrow> store \<Rightarrow> store" where
  "delete_room_messages_rows rid s =
     s\<lparr>s_db := (s_db s)\<lparr>db_messages := filter (\<lambda>m. m_room m \<noteq> rid) (db_messages (s_db s))\<rparr>\<rparr>"

definition persist_prefs :: "store \<Rightarrow> store" where
  "persist_prefs s =
     s\<lparr>s_db := (s_db s)\<lparr>db_prefs :=
        concat (map (\<lambda>(aid, ps). map (\<lambda>(rid, p). ((aid, rid), p))
                      (filter (\<lambda>(rid, p). rp_hidden p \<or> rp_pinned p) ps)) (s_prefs s))\<rparr>\<rparr>"

definition persist_session_row :: "agent_session \<Rightarrow> store \<Rightarrow> store" where
  "persist_session_row se s =
     (if se_full_id se = [] then s
      else s\<lparr>s_db := (s_db s)\<lparr>db_sessions := put (se_full_id se) se (db_sessions (s_db s))\<rparr>\<rparr>)"

lemma store_writes_frame [frame, simp]:
  "s_rooms (persist s) = s_rooms s" "s_agents (persist s) = s_agents s"
  "s_messages (persist s) = s_messages s" "s_next_id (persist s) = s_next_id s"
  "s_sessions (persist s) = s_sessions s" "s_prefs (persist s) = s_prefs s"
  "s_reactions (persist s) = s_reactions s" "s_meta_subs (persist s) = s_meta_subs s"
  "s_room_subs (persist s) = s_room_subs s" "s_global_subs (persist s) = s_global_subs s"
  "s_open_waits (persist s) = s_open_waits s" "s_open_ws (persist s) = s_open_ws s"
  "s_role_custom (persist s) = s_role_custom s"
  "s_role_overrides (persist s) = s_role_overrides s"
  "s_memory (persist s) = s_memory s" "s_attachments (persist s) = s_attachments s"
  "s_settings (persist s) = s_settings s"
  by (simp_all add: persist_def)

subsection \<open>Subscriptions\<close>

definition subscribe_room :: "string \<Rightarrow> store \<Rightarrow> nat \<times> store" where
  "subscribe_room rid s =
     (let n = s_next_chan s; c = \<lparr>ch_id = n, ch_buf = []\<rparr>
      in (n, s\<lparr>s_next_chan := Suc n,
              s_room_subs := put rid (get_or [] (s_room_subs s) rid @ [c]) (s_room_subs s)\<rparr>))"

definition unsubscribe_room :: "string \<Rightarrow> nat \<Rightarrow> store \<Rightarrow> store" where
  "unsubscribe_room rid n s =
     s\<lparr>s_room_subs := put rid (drop_chan n (get_or [] (s_room_subs s) rid)) (s_room_subs s)\<rparr>"

definition subscribe_global :: "store \<Rightarrow> nat \<times> store" where
  "subscribe_global s =
     (let n = s_next_chan s
      in (n, s\<lparr>s_next_chan := Suc n,
              s_global_subs := s_global_subs s @ [\<lparr>ch_id = n, ch_buf = []\<rparr>]\<rparr>))"

definition unsubscribe_global :: "nat \<Rightarrow> store \<Rightarrow> store" where
  "unsubscribe_global n s = s\<lparr>s_global_subs := drop_chan n (s_global_subs s)\<rparr>"

definition subscribe_meta :: "store \<Rightarrow> nat \<times> store" where
  "subscribe_meta s =
     (let n = s_next_chan s
      in (n, s\<lparr>s_next_chan := Suc n,
              s_meta_subs := s_meta_subs s @ [\<lparr>ch_id = n, ch_buf = []\<rparr>]\<rparr>))"

definition unsubscribe_meta :: "nat \<Rightarrow> store \<Rightarrow> store" where
  "unsubscribe_meta n s = s\<lparr>s_meta_subs := drop_chan n (s_meta_subs s)\<rparr>"

definition broadcast_meta :: "meta_event \<Rightarrow> store \<Rightarrow> store" where
  "broadcast_meta e s = s\<lparr>s_meta_subs := publish e (s_meta_subs s)\<rparr>"

definition notify_message :: "string \<Rightarrow> message \<Rightarrow> store \<Rightarrow> store" where
  "notify_message rid m s =
     s\<lparr>s_room_subs :=
          (case map_of (s_room_subs s) rid of
             None \<Rightarrow> s_room_subs s
           | Some cs \<Rightarrow> put rid (publish m cs) (s_room_subs s)),
       s_global_subs := publish m (s_global_subs s)\<rparr>"

end
