(* ===== verification/Addressing.thy ===== *)
theory Addressing
  imports Store
begin

section \<open>Who a message is addressed to\<close>

text \<open>
  \<open>internal/server/addressing.go\<close>: masking of code regions, the scanners for @mentions, for
  legacy speaker prefixes and for handoff phrases, the room-aware resolution of mention tokens,
  and the per-reader annotation of messages. The regular expressions are written out as the
  scanners they denote; their \<open>(?i)\<close> folds ASCII letters here (Go folds U+017F and U+212A to
  \<open>s\<close> and \<open>k\<close> as well).
\<close>

subsection \<open>Character classes\<close>

definition is_letter :: "char \<Rightarrow> bool" where
  "is_letter c = (between 65 90 c \<or> between 97 122 c)"

definition is_alnum :: "char \<Rightarrow> bool" where
  "is_alnum c = (is_letter c \<or> between 48 57 c)"

definition slug_char :: "char \<Rightarrow> bool" where
  "slug_char c = (is_alnum c \<or> c = CHR ''_'' \<or> c = CHR ''-'')"

definition project_char :: "char \<Rightarrow> bool" where
  "project_char c = (slug_char c \<or> c = CHR ''.'')"

definition regex_space :: "char \<Rightarrow> bool" where
  "regex_space c = (c \<in> {CHR 0x09, CHR 0x0A, CHR 0x0C, CHR 0x0D, CHR 0x20})"

abbreviation nl :: char where "nl \<equiv> CHR 0x0A"
abbreviation tab :: char where "tab \<equiv> CHR 0x09"

subsection \<open>Masking code\<close>

definition is_fence_delimiter :: "string \<Rightarrow> string \<Rightarrow> bool" where
  "is_fence_delimiter trimmed delim =
     (has_prefix trimmed delim \<and> list_all is_alnum (drop (length delim) trimmed))"

definition fence_ticks :: string where "fence_ticks = [CHR 0x60, CHR 0x60, CHR 0x60]"
definition fence_tildes :: string where "fence_tildes = ''~~~''"

definition is_fence_start :: "string \<Rightarrow> bool" where
  "is_fence_start t = (is_fence_delimiter t fence_ticks \<or> is_fence_delimiter t fence_tildes)"

definition is_fence_end :: "string \<Rightarrow> string \<Rightarrow> bool" where
  "is_fence_end t delim = is_fence_delimiter t delim"

definition mask_char :: "char \<Rightarrow> char" where
  "mask_char c = (if c = tab then tab else CHR 0x20)"

fun mask_inline :: "bool \<Rightarrow> string \<Rightarrow> string" where
  "mask_inline in_code [] = []"
| "mask_inline in_code (c # s) =
     (if c = CHR 0x60 then c # mask_inline (\<not> in_code) s
      else (if in_code then mask_char c else c) # mask_inline in_code s)"

definition mask_inline_code :: "string \<Rightarrow> string" where
  "mask_inline_code line = mask_inline False line"

definition mask_line_content :: "string \<Rightarrow> string" where
  "mask_line_content line = map mask_char line"

text \<open>The fence pass gives, for each line, its masked form and the line the indent pass reads.
  The first argument is the delimiter of the open fence.\<close>

fun fence_mask :: "string option \<Rightarrow> string list \<Rightarrow> (string \<times> string) list" where
  "fence_mask fence [] = []"
| "fence_mask None (l # ls) =
     (mask_inline_code l, l) #
     fence_mask (if is_fence_start (trim_space l) then Some (take 3 (trim_space l)) else None) ls"
| "fence_mask (Some d) (l # ls) =
     (mask_line_content l, mask_line_content l) #
     fence_mask (if is_fence_end (trim_space l) d then None else Some d) ls"

definition blank_line :: "string \<Rightarrow> bool" where
  "blank_line l = (trim_space l = [])"

definition has_indented_prefix :: "string \<Rightarrow> bool" where
  "has_indented_prefix l = (has_prefix l [tab] \<or> has_prefix l ''    '')"

definition mask_indented_line :: "string \<Rightarrow> string" where
  "mask_indented_line l =
     (if has_prefix l [tab] then tab # mask_line_content (tl l)
      else if has_prefix l ''    '' then ''    '' @ mask_line_content (drop 4 l)
      else mask_line_content l)"

text \<open>The indent pass; \<open>free\<close> holds at the first line and after a blank line.\<close>

fun indent_mask :: "bool \<Rightarrow> bool \<Rightarrow> (string \<times> string) list \<Rightarrow> string list" where
  "indent_mask ind free [] = []"
| "indent_mask ind free ((m, l) # ls) =
     (if blank_line l then l # indent_mask False True ls
      else if ind \<and> has_indented_prefix l then mask_indented_line l # indent_mask True False ls
      else if has_indented_prefix l \<and> free then mask_indented_line l # indent_mask True False ls
      else m # indent_mask False False ls)"

fun strip_escaped :: "string \<Rightarrow> string" where
  "strip_escaped [] = []"
| "strip_escaped [c] = [c]"
| "strip_escaped (c # d # s) =
     (if c = CHR 0x5C \<and> d = CHR ''@'' then ''  '' @ strip_escaped s
      else c # strip_escaped (d # s))"

definition masked_lines :: "string list \<Rightarrow> string list" where
  "masked_lines ls = indent_mask False True (fence_mask None ls)"

definition mask_code_for_addressing :: "string \<Rightarrow> string" where
  "mask_code_for_addressing body =
     strip_escaped (join_with [nl] (masked_lines (split_on nl body)))"

subsection \<open>Mentions\<close>

text \<open>The token of a mention and the rest, given the text behind an \<open>@\<close>.\<close>

definition match_mention :: "string \<Rightarrow> (string \<times> string) option" where
  "match_mention s =
     (if s = [] \<or> \<not> is_letter (hd s) then None
      else
        let slug = takeWhile slug_char s; rest = dropWhile slug_char s;
            proj = takeWhile project_char (tl rest)
        in if rest \<noteq> [] \<and> hd rest = CHR ''@'' \<and> proj \<noteq> []
           then Some (slug @ CHR ''@'' # proj, dropWhile project_char (tl rest))
           else Some (slug, rest))"

lemma length_dropWhile_tl_le: "length (dropWhile P (tl (dropWhile Q s))) \<le> length s"
proof -
  have "length (dropWhile P (tl (dropWhile Q s))) \<le> length (tl (dropWhile Q s))"
    by (rule length_dropWhile_le)
  also have "\<dots> \<le> length (dropWhile Q s)" by simp
  also have "\<dots> \<le> length s" by (rule length_dropWhile_le)
  finally show ?thesis .
qed

lemma match_mention_length: "match_mention s = Some (t, r) \<Longrightarrow> length r \<le> length s"
  by (auto simp: match_mention_def Let_def length_dropWhile_le length_dropWhile_tl_le
      split: if_splits)

function find_mentions :: "string \<Rightarrow> string list" where
  "find_mentions [] = []"
| "find_mentions (c # s) =
     (if c = CHR ''@''
      then (case match_mention s of None \<Rightarrow> find_mentions s | Some (t, r) \<Rightarrow> t # find_mentions r)
      else find_mentions s)"
  by pat_completeness auto
termination
  by (relation "measure length") (auto simp: less_Suc_eq_le dest: match_mention_length)

definition clean_token :: "string \<Rightarrow> string" where
  "clean_token t =
     (let slug = takeWhile (\<lambda>c. c \<noteq> CHR ''@'') t; rest = dropWhile (\<lambda>c. c \<noteq> CHR ''@'') t
      in if rest \<noteq> [] \<and> slug \<noteq> []
         then (let s = trim_right slug ''-_'' in if s \<noteq> [] then s @ rest else t)
         else if rest \<noteq> [] then t
         else trim_right t ''-_'')"

definition parse_addressed_to :: "string \<Rightarrow> string list" where
  "parse_addressed_to body =
     fold (\<lambda>t. add_once (to_lower t))
       (filter (\<lambda>t. t \<noteq> []) (map clean_token (find_mentions (mask_code_for_addressing body)))) []"

subsection \<open>Resolution\<close>

record room_agent =
  ra_id :: string
  ra_name :: string
  ra_kind :: string
  ra_last_seen :: "int option"
  ra_waiting :: bool

record addressing_context =
  cx_sender :: string
  cx_known :: "string list"
  cx_roles :: "(string, string list) table"
  cx_agents :: "room_agent list"
  cx_now :: int

definition empty_context :: addressing_context where
  "empty_context =
     \<lparr>cx_sender = [], cx_known = [], cx_roles = [], cx_agents = [], cx_now = 0\<rparr>"

definition here_recent_window :: int where "here_recent_window = 5 * 60 * second"

text \<open>\<open>strings.IndexByte(id, '@') > 0\<close>: a leading \<open>@\<close> does not end the name.\<close>

definition agent_short_name :: "string \<Rightarrow> string" where
  "agent_short_name aid =
     (let p = takeWhile (\<lambda>c. c \<noteq> CHR ''@'') aid
      in if p \<noteq> [] \<and> CHR ''@'' \<in> set aid then p else aid)"

datatype group_kind = Channel | Here | Humans | Ais | Everyone

definition group_mention_kind :: "string \<Rightarrow> group_kind option" where
  "group_mention_kind =
     map_of [(''channel'', Channel), (''here'', Here), (''humans'', Humans), (''ais'', Ais),
             (''everyone'', Everyone), (''all'', Everyone)]"

definition reserved_agent_names :: "string list" where
  "reserved_agent_names =
     [''human'', ''humans'', ''ai'', ''ais'', ''everyone'', ''all'', ''here'', ''channel'',
      ''system'', ''_system'']"

definition is_reserved_agent_name :: "string \<Rightarrow> bool" where
  "is_reserved_agent_name n = (to_lower n \<in> set reserved_agent_names)"

definition agents_by_slug :: "room_agent list \<Rightarrow> string \<Rightarrow> room_agent list" where
  "agents_by_slug as slug = filter (\<lambda>a. equal_fold (ra_name a) slug) as"

definition slug_count :: "addressing_context \<Rightarrow> string \<Rightarrow> nat" where
  "slug_count cx name = length (filter (\<lambda>a. to_lower (ra_name a) = to_lower name) (cx_agents cx))"

definition agent_target :: "addressing_context \<Rightarrow> room_agent \<Rightarrow> string" where
  "agent_target cx a = (if 1 < slug_count cx (ra_name a) then ra_id a else ra_name a)"

definition in_group :: "addressing_context \<Rightarrow> group_kind \<Rightarrow> room_agent \<Rightarrow> bool" where
  "in_group cx g a =
     (\<not> equal_fold (ra_id a) (cx_sender cx) \<and>
      (case g of
         Channel \<Rightarrow> True
       | Everyone \<Rightarrow> True
       | Humans \<Rightarrow> ra_kind a = ''human''
       | Ais \<Rightarrow> ra_kind a = ''ai''
       | Here \<Rightarrow> ra_waiting a \<or>
           (case ra_last_seen a of
              None \<Rightarrow> False | Some t \<Rightarrow> cx_now cx - t < here_recent_window)))"

definition token_targets :: "addressing_context \<Rightarrow> string \<Rightarrow> string list" where
  "token_targets cx token =
     (case group_mention_kind token of
        Some g \<Rightarrow> map (agent_target cx) (filter (in_group cx g) (cx_agents cx))
      | None \<Rightarrow>
          if contains token ''@'' then
            (case find (\<lambda>a. equal_fold (ra_id a) token) (cx_agents cx) of
               Some a \<Rightarrow> [ra_id a] | None \<Rightarrow> [])
          else (case agents_by_slug (cx_agents cx) token of
                  [a] \<Rightarrow> [ra_name a]
                | _ # _ # _ \<Rightarrow> []
                | [] \<Rightarrow>
                    if cx_known cx = [] \<or> token \<in> set (cx_known cx) then [token]
                    else filter (\<lambda>n. \<not> equal_fold n (agent_short_name (cx_sender cx)))
                           (get_or [] (cx_roles cx) token)))"

definition resolve_addressed_tokens :: "string list \<Rightarrow> addressing_context \<Rightarrow> string list" where
  "resolve_addressed_tokens raw cx =
     fold (\<lambda>n. add_once (to_lower n)) (concat (map (token_targets cx) raw)) []"

definition resolve_addressed_to :: "string \<Rightarrow> addressing_context \<Rightarrow> string list" where
  "resolve_addressed_to body cx = resolve_addressed_tokens (parse_addressed_to body) cx"

definition ambiguous_mention_tokens :: "string list \<Rightarrow> addressing_context \<Rightarrow> string list" where
  "ambiguous_mention_tokens raw cx =
     fold add_once
       (filter (\<lambda>t. \<not> (contains t ''@'' \<or> group_mention_kind t \<noteq> None) \<and>
                    get_or [] (cx_roles cx) t = [] \<and>
                    2 \<le> length (agents_by_slug (cx_agents cx) t)) raw) []"

definition addressed_matches_agent :: "string \<Rightarrow> string \<Rightarrow> bool" where
  "addressed_matches_agent target aid =
     (equal_fold target aid \<or>
      \<not> contains target ''@'' \<and> equal_fold target (agent_short_name aid))"

subsection \<open>Annotation\<close>

record annotated =
  an_message :: message
  an_to :: "string list"
  an_to_me :: bool
  an_respond :: bool

definition is_dm :: "string \<Rightarrow> bool" where
  "is_dm rid = has_prefix rid ''dm:''"

definition annotate_one ::
    "string \<Rightarrow> (message \<Rightarrow> addressing_context) \<Rightarrow> message \<Rightarrow> annotated" where
  "annotate_one aid ctx m =
     (let addressed =
            (case m_targets m of Some ts \<Rightarrow> ts | None \<Rightarrow> resolve_addressed_to (m_body m) (ctx m));
          me = list_ex (\<lambda>t. addressed_matches_agent t aid) addressed
      in \<lparr>an_message = m, an_to = addressed, an_to_me = me,
          an_respond =
            (if m_from_kind m = ''system'' then me
             else if m_from_kind m = ''human'' then (if addressed = [] then True else me)
             else me \<or> is_dm (m_room m))\<rparr>)"

definition annotate ::
    "message list \<Rightarrow> string \<Rightarrow> (message \<Rightarrow> addressing_context) \<Rightarrow> annotated list" where
  "annotate ms aid ctx = map (annotate_one aid ctx) ms"

subsection \<open>Speaker prefixes and handoff phrases\<close>

text \<open>\<open>[a-z][a-z0-9]{2,11}\<close> followed by a character that cannot extend it.\<close>

definition match_name :: "string \<Rightarrow> (string \<times> string) option" where
  "match_name s =
     (let w = takeWhile is_alnum s
      in if s \<noteq> [] \<and> is_letter (hd s) \<and> 3 \<le> length w \<and> length w \<le> 12
         then Some (w, dropWhile is_alnum s) else None)"

definition skip_space :: "string \<Rightarrow> string" where
  "skip_space s = dropWhile regex_space s"

definition parse_legacy_prefix :: "string \<Rightarrow> string list \<Rightarrow> string option" where
  "parse_legacy_prefix body known =
     (case match_name (mask_code_for_addressing body) of
        None \<Rightarrow> None
      | Some (w, rest) \<Rightarrow>
          if has_prefix (skip_space rest) '':'' \<and> to_lower w \<in> set known
          then Some (to_lower w) else None)"

definition joined_names :: "string \<Rightarrow> string option" where
  "joined_names rest =
     (let t = skip_space rest in
      if has_prefix t '','' then Some (skip_space (tl t))
      else if rest \<noteq> [] \<and> regex_space (hd rest) \<and> has_prefix (to_lower t) ''and''
              \<and> drop 3 t \<noteq> [] \<and> regex_space (hd (drop 3 t))
      then Some (skip_space (drop 3 t)) else None)"

definition prefix_end :: "string \<Rightarrow> bool" where
  "prefix_end s =
     (has_prefix s ''-'' \<or> has_prefix s '':'' \<or> has_prefix s [CHR 0xE2, CHR 0x80, CHR 0x94]
      \<or> has_prefix s [CHR 0xE2, CHR 0x80, CHR 0x93])"

definition match_pair :: "string \<Rightarrow> (string \<times> string) option" where
  "match_pair s =
     (case match_name s of
        None \<Rightarrow> None
      | Some (w, rest) \<Rightarrow>
          (case joined_names rest of
             None \<Rightarrow> None
           | Some t \<Rightarrow>
               (case match_name t of
                  None \<Rightarrow> None
                | Some (v, r) \<Rightarrow> if prefix_end (skip_space r) then Some (w, v) else None)))"

fun find_pair :: "string \<Rightarrow> (string \<times> string) option" where
  "find_pair [] = None"
| "find_pair (c # s) =
     (case (if c \<in> set [CHR ''.'', CHR ''!'', CHR ''?'', nl] then match_pair (skip_space s) else None) of
        Some p \<Rightarrow> Some p
      | None \<Rightarrow> find_pair s)"

definition parse_inline_legacy_prefix :: "string \<Rightarrow> string list \<Rightarrow> string list option" where
  "parse_inline_legacy_prefix body known =
     (let view = mask_code_for_addressing body in
      case (case match_pair view of Some p \<Rightarrow> Some p | None \<Rightarrow> find_pair view) of
        None \<Rightarrow> None
      | Some (w, v) \<Rightarrow>
          if to_lower w \<notin> set known \<or> to_lower v \<notin> set known then None
          else if to_lower w = to_lower v then Some [to_lower w]
          else Some [to_lower w, to_lower v])"

definition attention_miss_phrases :: "string list" where
  "attention_miss_phrases =
     [''please review'', ''please approve'', ''please decide'', ''please confirm'',
      ''please check'', ''please look at'', ''let me know'', ''your call'', ''go-ahead'',
      ''sign off'', ''sign-off'']"

definition parse_attention_miss :: "string \<Rightarrow> string option" where
  "parse_attention_miss body =
     (let low = to_lower (mask_code_for_addressing body)
      in find (\<lambda>p. contains low p) attention_miss_phrases)"

subsection \<open>Masking keeps positions\<close>

text \<open>A masked text differs from the text only in bytes that became blanks.\<close>

definition blanked :: "char \<Rightarrow> char \<Rightarrow> bool" where
  "blanked x y = (x = y \<or> x = CHR 0x20 \<or> x = tab)"

lemma blanked_refl [simp, intro]: "blanked x x" "list_all2 blanked s s"
  by (simp_all add: blanked_def list.rel_refl)

lemma blanked_mask_char [simp]: "blanked (mask_char c) c"
  by (simp add: blanked_def mask_char_def)

lemma blanked_line: "list_all2 blanked (mask_line_content l) l"
  by (simp add: mask_line_content_def list.rel_map list.rel_refl)

lemma blanked_inline: "list_all2 blanked (mask_inline b l) l"
  by (induction b l rule: mask_inline.induct) auto

lemma blanked_trans: "list_all2 blanked a b \<Longrightarrow> list_all2 blanked b c \<Longrightarrow> list_all2 blanked a c"
  by (erule (1) list_all2_trans [rotated]) (auto simp: blanked_def)

lemma blanked_indented: "list_all2 blanked (mask_indented_line l) l"
proof -
  have "list_all2 blanked (take n l @ mask_line_content (drop n l)) l" for n
    using list_all2_appendI [of blanked "take n l" "take n l" "mask_line_content (drop n l)" "drop n l"]
      blanked_line by simp
  from this [of 1] this [of 4] show ?thesis
    by (auto simp: mask_indented_line_def has_prefix_iff blanked_line)
qed

lemma fence_mask_blanked:
  "list_all2 (\<lambda>(m, l') l. list_all2 blanked m l \<and> list_all2 blanked l' l) (fence_mask d ls) ls"
  by (induction d ls rule: fence_mask.induct)
     (auto simp: mask_inline_code_def blanked_inline blanked_line)

lemma indent_mask_blanked:
  "list_all2 (\<lambda>(m, l') l. list_all2 blanked m l \<and> list_all2 blanked l' l) ps ls \<Longrightarrow>
   list_all2 (list_all2 blanked) (indent_mask i f ps) ls"
proof (induction i f ps arbitrary: ls rule: indent_mask.induct)
  case (2 ind free m l ls')
  then show ?case
    by (cases ind) (auto simp: list_all2_Cons1 intro: blanked_indented [THEN blanked_trans])
qed simp

lemma strip_escaped_blanked: "list_all2 blanked (strip_escaped s) s"
  by (induction s rule: strip_escaped.induct) (auto simp: blanked_def)

lemma join_with_blanked:
  "list_all2 (list_all2 blanked) ms ls \<Longrightarrow>
   list_all2 blanked (join_with d ms) (join_with d ls)"
proof (induction d ls arbitrary: ms rule: join_with.induct)
  case (3 d w v ws)
  then show ?case
    by (auto simp: list_all2_Cons2 intro!: list_all2_appendI)
qed (auto simp: list_all2_Cons2)

lemma mask_code_blanked: "list_all2 blanked (mask_code_for_addressing body) body"
proof -
  let ?ls = "split_on nl body"
  have "list_all2 (list_all2 blanked) (masked_lines ?ls) ?ls"
    unfolding masked_lines_def by (intro indent_mask_blanked fence_mask_blanked)
  then have "list_all2 blanked (join_with [nl] (masked_lines ?ls)) body"
    using join_with_blanked [of "masked_lines ?ls" ?ls "[nl]"] by (simp add: join_split)
  then show ?thesis
    unfolding mask_code_for_addressing_def by (rule blanked_trans [OF strip_escaped_blanked])
qed

subsection \<open>Mentions line by line\<close>

lemma takeWhile_stop: "\<not> P x \<Longrightarrow> takeWhile P (s @ x # t) = takeWhile P s"
  by (induction s) auto

lemma dropWhile_stop: "\<not> P x \<Longrightarrow> dropWhile P (s @ x # t) = dropWhile P s @ x # t"
  by (induction s) auto

lemma nl_not_in_class [simp]: "\<not> is_letter nl" "\<not> slug_char nl" "\<not> project_char nl"
  by (simp_all add: project_char_def slug_char_def is_alnum_def is_letter_def between_def byte_def)

lemma match_mention_nl:
  "match_mention (s @ nl # u) =
     (case match_mention s of None \<Rightarrow> None | Some (t, r) \<Rightarrow> Some (t, r @ nl # u))"
proof -
  have d: "dropWhile slug_char (s @ nl # u) = dropWhile slug_char s @ nl # u"
    and w: "takeWhile slug_char (s @ nl # u) = takeWhile slug_char s"
    by (simp_all add: takeWhile_stop dropWhile_stop)
  show ?thesis
  proof (cases "s = []")
    case False
    then show ?thesis
      by (cases "dropWhile slug_char s")
         (auto simp: match_mention_def Let_def d w takeWhile_stop dropWhile_stop
           simp del: dropWhile_eq_Nil_conv takeWhile_eq_Nil_iff takeWhile_append dropWhile_append3)
  qed (simp add: match_mention_def)
qed

lemma find_mentions_nl: "find_mentions (s @ nl # u) = find_mentions s @ find_mentions u"
  by (induction s rule: find_mentions.induct)
     (auto simp: match_mention_nl split: option.splits)

lemma strip_escaped_nl: "strip_escaped (s @ nl # u) = strip_escaped s @ nl # strip_escaped u"
proof (induction s rule: strip_escaped.induct)
  case 1
  then show ?case by (cases u) auto
next
  case (2 c)
  then show ?case by (cases u) auto
qed auto

lemma find_mentions_lines:
  "find_mentions (strip_escaped (join_with [nl] ls)) =
     concat (map (\<lambda>l. find_mentions (strip_escaped l)) ls)"
  by (induction "[nl]" ls rule: join_with.induct) (auto simp: strip_escaped_nl find_mentions_nl)

lemma find_mentions_no_at: "CHR ''@'' \<notin> set s \<Longrightarrow> find_mentions s = []"
  by (induction s rule: find_mentions.induct) auto

lemma set_strip_escaped: "set (strip_escaped s) \<subseteq> insert (CHR 0x20) (set s)"
  by (induction s rule: strip_escaped.induct) auto

lemma find_mentions_masked_line [simp]:
  "find_mentions (strip_escaped (mask_line_content l)) = []"
  using set_strip_escaped [of "mask_line_content l"]
  by (intro find_mentions_no_at) (auto simp: mask_line_content_def mask_char_def split: if_splits)

definition line_mentions :: "string list \<Rightarrow> string list" where
  "line_mentions ls = concat (map (\<lambda>l. find_mentions (strip_escaped l)) ls)"

lemma mentions_of_lines:
  "find_mentions (mask_code_for_addressing body) = line_mentions (masked_lines (split_on nl body))"
  by (simp add: mask_code_for_addressing_def find_mentions_lines line_mentions_def)

subsection \<open>Text inside a fence\<close>

text \<open>The delimiter of the fence that is open after some lines.\<close>

fun fence_after :: "string option \<Rightarrow> string list \<Rightarrow> string option" where
  "fence_after d [] = d"
| "fence_after None (l # ls) =
     fence_after (if is_fence_start (trim_space l) then Some (take 3 (trim_space l)) else None) ls"
| "fence_after (Some d) (l # ls) =
     fence_after (if is_fence_end (trim_space l) d then None else Some d) ls"

lemma fence_mask_append:
  "fence_mask d (xs @ ys) = fence_mask d xs @ fence_mask (fence_after d xs) ys"
  by (induction d xs rule: fence_after.induct) auto

lemma fence_mask_inside:
  "\<forall>l \<in> set ls. \<not> is_fence_end (trim_space l) d \<Longrightarrow>
   fence_mask (Some d) (ls @ ys) =
     map (\<lambda>l. (mask_line_content l, mask_line_content l)) ls @ fence_mask (Some d) ys"
  by (induction ls) auto

lemma indent_mask_append:
  "\<exists>i' f'. \<forall>ys. indent_mask i f (xs @ ys) = indent_mask i f xs @ indent_mask i' f' ys"
proof (induction i f xs rule: indent_mask.induct)
  case (1 i f)
  then show ?case by auto
next
  case (2 i f m l ls)
  then show ?case by (cases "blank_line l") auto
qed

lemma runes_ascii: "byte c < 128 \<Longrightarrow> runes (c # s) = [c] # runes s"
  by (subst runes_step) (auto simp: rune_step_def lead_len_def)

lemma blank_masked_line [simp]: "blank_line (mask_line_content l)"
proof -
  have "\<forall>r \<in> set (runes (mask_line_content l)). is_space r"
    by (induction l)
       (auto simp: mask_line_content_def mask_char_def runes_ascii is_space_def byte_def)
  then have "dropWhile is_space (runes (mask_line_content l)) = []" by simp
  then show ?thesis by (simp only: blank_line_def trim_space_def strip_def) simp
qed

lemma indent_mask_blanks:
  "indent_mask i f (map (\<lambda>l. (mask_line_content l, mask_line_content l)) (l # ls) @ ys) =
     map mask_line_content (l # ls) @ indent_mask False True ys"
  by (induction ls arbitrary: l i f) auto

lemma line_mentions_append [simp]: "line_mentions (xs @ ys) = line_mentions xs @ line_mentions ys"
  by (simp add: line_mentions_def)

lemma line_mentions_masked [simp]: "line_mentions (map mask_line_content ls) = []"
  by (simp add: line_mentions_def comp_def)

lemma fence_block_mentions:
  assumes pre: "fence_after None pre = None" and op: "is_fence_start (trim_space opl)"
    and inner: "\<forall>l \<in> set inner. \<not> is_fence_end (trim_space l) (take 3 (trim_space opl))"
    and cl: "is_fence_end (trim_space cll) (take 3 (trim_space opl))"
  shows "line_mentions (masked_lines (pre @ opl # inner @ cll # post)) =
         line_mentions (masked_lines (pre @ opl # cll # post))"
proof -
  let ?m = "\<lambda>l. (mask_line_content l, mask_line_content l)"
  let ?head = "fence_mask None pre @ [(mask_inline_code opl, opl)]"
  let ?tail = "fence_mask None post"
  have full: "fence_mask None (pre @ opl # inner' @ cll # post) = ?head @ map ?m (inner' @ [cll]) @ ?tail"
    if "\<forall>l \<in> set inner'. \<not> is_fence_end (trim_space l) (take 3 (trim_space opl))" for inner'
    using fence_mask_inside [OF that, of "cll # post"] pre op cl by (simp add: fence_mask_append)
  obtain i f where head: "indent_mask False True (?head @ ys) = indent_mask False True ?head @ indent_mask i f ys" for ys
    using indent_mask_append [of False True ?head] by blast
  have body: "line_mentions (masked_lines (pre @ opl # inner' @ cll # post)) =
      line_mentions (indent_mask False True ?head) @ line_mentions (indent_mask False True ?tail)"
    if "\<forall>l \<in> set inner'. \<not> is_fence_end (trim_space l) (take 3 (trim_space opl))" for inner'
  proof -
    obtain x xs where xs: "inner' @ [cll] = x # xs" by (cases inner') auto
    show ?thesis
      unfolding masked_lines_def full [OF that] head xs indent_mask_blanks
      by (simp del: list.map)
  qed
  show ?thesis using body [OF inner] body [of "[]"] by simp
qed

lemma split_join:
  "ls \<noteq> [] \<Longrightarrow> \<forall>l \<in> set ls. d \<notin> set l \<Longrightarrow> split_on d (join_with [d] ls) = ls"
proof (induction ls)
  case (Cons l ls)
  have one: "split_on d (l @ d # t) = l # split_on d t" if "d \<notin> set l" for t l
    using that by (induction l) auto
  have "split_on d l = [l]" if "d \<notin> set l" for l
    using that by (induction l) auto
  then show ?case using Cons one by (cases ls) auto
qed simp

text \<open>Masking for addressing keeps every position of a message: the masked view has the bytes of
  the body, except that some became a space or a tab. So no mention, prefix or phrase found in
  the view is absent from the body.\<close>

lemma mask_keeps_positions: "list_all2 blanked (mask_code_for_addressing body) body"
  by (rule mask_code_blanked)

text \<open>C18. Whatever is written between the two delimiters of a fenced block has no effect on the
  mentions of a message, in the block or in the lines around it.\<close>

theorem fenced_text_is_silent:
  assumes "fence_after None pre = None" "is_fence_start (trim_space opl)"
    and "\<forall>l \<in> set inner. \<not> is_fence_end (trim_space l) (take 3 (trim_space opl))"
    and "is_fence_end (trim_space cll) (take 3 (trim_space opl))"
    and "\<forall>l \<in> set (pre @ opl # inner @ cll # post). nl \<notin> set l"
  shows "parse_addressed_to (join_with [nl] (pre @ opl # inner @ cll # post)) =
         parse_addressed_to (join_with [nl] (pre @ opl # cll # post))"
proof -
  have "split_on nl (join_with [nl] (pre @ opl # inner @ cll # post)) = pre @ opl # inner @ cll # post"
    using assms(5) by (intro split_join) auto
  moreover have "split_on nl (join_with [nl] (pre @ opl # cll # post)) = pre @ opl # cll # post"
    using assms(5) by (intro split_join) auto
  ultimately show ?thesis
    using fence_block_mentions [OF assms(1-4), of post]
    by (simp add: parse_addressed_to_def mentions_of_lines)
qed

lemma fenced_text_is_silent_witness:
  "parse_addressed_to (join_with [nl] ([''@ann see''] @ fence_ticks # [''@bob'', ''  @all''] @ fence_ticks # [''@cy''])) =
   parse_addressed_to (join_with [nl] ([''@ann see''] @ fence_ticks # fence_ticks # [''@cy'']))"
proof (rule fenced_text_is_silent)
  show "fence_after None [''@ann see''] = None" by code_simp
  show "is_fence_start (trim_space fence_ticks)" by code_simp
  show "\<forall>l \<in> set [''@bob'', ''  @all'']. \<not> is_fence_end (trim_space l) (take 3 (trim_space fence_ticks))"
    by code_simp
  show "is_fence_end (trim_space fence_ticks) (take 3 (trim_space fence_ticks))" by code_simp
  show "\<forall>l \<in> set ([''@ann see''] @ fence_ticks # [''@bob'', ''  @all''] @ fence_ticks # [''@cy'']). nl \<notin> set l"
    by code_simp
qed

subsection \<open>Direct mentions\<close>

text \<open>\<open>SlugPattern\<close> of \<open>store.go\<close>: \<open>^[a-z][a-z0-9_-]{1,19}[a-z0-9]$\<close>.\<close>

definition lower_alnum :: "char \<Rightarrow> bool" where
  "lower_alnum c = (between 97 122 c \<or> between 48 57 c)"

definition slug_pattern :: "string \<Rightarrow> bool" where
  "slug_pattern n =
     (3 \<le> length n \<and> length n \<le> 21 \<and> between 97 122 (hd n) \<and> lower_alnum (last n) \<and>
      list_all (\<lambda>c. lower_alnum c \<or> c = CHR ''_'' \<or> c = CHR ''-'') n)"

lemma lower_alnum_not: "lower_alnum c \<Longrightarrow> c \<noteq> CHR ''@'' \<and> c \<noteq> CHR ''_'' \<and> c \<noteq> CHR ''-''
    \<and> c \<noteq> CHR 0x60 \<and> c \<noteq> CHR 0x5C \<and> c \<noteq> nl \<and> slug_char c \<and> lower_char c = c"
  by (auto simp: lower_alnum_def between_def byte_def slug_char_def is_alnum_def is_letter_def
      lower_char_def)

lemma slug_chars:
  assumes "slug_pattern n" "c \<in> set n"
  shows "slug_char c" "c \<noteq> CHR ''@''" "c \<noteq> CHR 0x60" "c \<noteq> CHR 0x5C" "c \<noteq> nl" "lower_char c = c"
  using assms lower_alnum_not [of c]
  by (auto simp: slug_pattern_def list_all_iff slug_char_def lower_char_def between_def byte_def)

lemma slug_free:
  "slug_pattern n \<Longrightarrow> CHR ''@'' \<notin> set n" "slug_pattern n \<Longrightarrow> CHR 0x60 \<notin> set n"
  "slug_pattern n \<Longrightarrow> CHR 0x5C \<notin> set n" "slug_pattern n \<Longrightarrow> nl \<notin> set n"
  using slug_chars by blast+

lemma mask_inline_id: "CHR 0x60 \<notin> set s \<Longrightarrow> mask_inline False s = s"
  by (induction s) auto

lemma strip_escaped_id: "CHR 0x5C \<notin> set s \<Longrightarrow> strip_escaped s = s"
  by (induction s rule: strip_escaped.induct) auto

lemma split_one: "d \<notin> set s \<Longrightarrow> split_on d s = [s]"
  using split_join [of "[s]" d] by simp

lemma mask_plain_line:
  assumes "nl \<notin> set s" "CHR 0x60 \<notin> set s" "CHR 0x5C \<notin> set s" "\<not> has_indented_prefix s"
  shows "mask_code_for_addressing s = s"
  using assms
  by (simp add: mask_code_for_addressing_def masked_lines_def split_one mask_inline_code_def
      mask_inline_id strip_escaped_id)

lemma trim_right_keep: "last s \<notin> set cs \<Longrightarrow> trim_right s cs = s"
  by (cases s rule: rev_cases) (auto simp: trim_right_def)

lemma slug_mention:
  assumes n: "slug_pattern n"
  shows "parse_addressed_to (CHR ''@'' # n) = [n]"
proof -
  have ne: "n \<noteq> []" "is_letter (hd n)" using n by (auto simp: slug_pattern_def is_letter_def)
  have all: "takeWhile slug_char n = n" "dropWhile slug_char n = []"
    using slug_chars [OF n] by (auto simp: takeWhile_eq_all_conv)
  have mask: "mask_code_for_addressing (CHR ''@'' # n) = CHR ''@'' # n"
    using slug_free [OF n] by (intro mask_plain_line) (simp_all add: has_indented_prefix_def)
  have find: "find_mentions (CHR ''@'' # n) = [n]"
    using ne unfolding find_mentions.simps match_mention_def Let_def all by simp
  have no_at: "takeWhile (\<lambda>c. c \<noteq> CHR ''@'') n = n" "dropWhile (\<lambda>c. c \<noteq> CHR ''@'') n = []"
    using slug_chars [OF n] by (auto simp: takeWhile_eq_all_conv)
  have "last n \<notin> set ''-_''" using n lower_alnum_not by (auto simp: slug_pattern_def)
  then have clean: "clean_token n = n"
    by (simp add: clean_token_def no_at trim_right_keep)
  have "to_lower n = n" using slug_chars [OF n] by (simp add: to_lower_def map_idI)
  then show ?thesis
    using ne unfolding parse_addressed_to_def mask find by (simp add: clean add_once_def)
qed


definition sample_context :: addressing_context where
  "sample_context =
     \<lparr>cx_sender = ''ann'', cx_known = [''ann'', ''bob''], cx_roles = [],
      cx_agents = [\<lparr>ra_id = ''ann'', ra_name = ''ann'', ra_kind = ''human'', ra_last_seen = None,
                    ra_waiting = False\<rparr>,
                   \<lparr>ra_id = ''bob@web'', ra_name = ''bob'', ra_kind = ''ai'', ra_last_seen = None,
                    ra_waiting = True\<rparr>],
      cx_now = 0\<rparr>"


subsection \<open>Group mentions\<close>

lemma set_resolve:
  "set (resolve_addressed_tokens raw cx) = to_lower ` (\<Union>t \<in> set raw. set (token_targets cx t))"
  by (simp add: resolve_addressed_tokens_def set_fold_add_once)

lemma distinct_resolve: "distinct (resolve_addressed_tokens raw cx)"
  by (simp add: resolve_addressed_tokens_def distinct_fold_add_once)

lemma short_name_at:
  "CHR ''@'' \<in> set (agent_short_name i) \<Longrightarrow> agent_short_name i = i \<and> hd i = CHR ''@''"
  by (cases i) (auto simp: agent_short_name_def Let_def dest: set_takeWhileD split: if_splits)

lemma byte_lower_char: "byte (lower_char c) = (if between 65 90 c then byte c + 32 else byte c)"
  by (simp add: lower_char_def between_def)

lemma lower_char_at: "lower_char c = CHR ''@'' \<longleftrightarrow> c = CHR ''@''"
proof
  assume a: "lower_char c = CHR ''@''"
  have "byte (lower_char c) = 64" unfolding a by (simp add: byte_def)
  then have "\<not> between 65 90 c" by (simp add: byte_lower_char between_def split: if_splits)
  with a show "c = CHR ''@''" by (simp add: lower_char_def)
qed (simp add: lower_char_def between_def byte_def)

lemma at_in_lower: "CHR ''@'' \<in> set (to_lower s) \<longleftrightarrow> CHR ''@'' \<in> set s"
  unfolding to_lower_def set_map image_iff using lower_char_at by metis

lemma contains_at: "contains s ''@'' \<longleftrightarrow> CHR ''@'' \<in> set s"
  by (auto simp: contains_iff in_set_conv_decomp)

text \<open>What \<open>addressingContextFor\<close> supplies: the names are the short names of the identities.\<close>

definition agents_named :: "addressing_context \<Rightarrow> bool" where
  "agents_named cx = list_all (\<lambda>a. ra_name a = agent_short_name (ra_id a)) (cx_agents cx)"

lemma equal_fold_short:
  assumes "equal_fold (agent_short_name i) j"
  shows "equal_fold (agent_short_name i) (agent_short_name j)"
proof (cases "CHR ''@'' \<in> set j")
  case False
  then show ?thesis using assms by (simp add: agent_short_name_def Let_def)
next
  case True
  have "CHR ''@'' \<in> set (to_lower (agent_short_name i))"
    using assms True by (simp add: equal_fold_def at_in_lower)
  then have h: "agent_short_name i = i" "hd i = CHR ''@''" and ne: "agent_short_name i \<noteq> []"
    by (auto simp: at_in_lower dest: short_name_at)
  have "hd j = CHR ''@''"
    using assms h ne True
    by (cases i; cases j) (auto simp: equal_fold_def to_lower_def, metis lower_char_at)
  then have "agent_short_name j = j" using True by (cases j) (auto simp: agent_short_name_def)
  then show ?thesis using assms by simp
qed



text \<open>
  The last hypothesis is needed. A human \<open>bob\<close> and an agent \<open>bob@web\<close> share a name, so the
  group mention of \<open>bob@web\<close> lists the human by the identity \<open>bob\<close>, which the reader side
  matches against the short name of the sender as well.
\<close>

definition shared_name_context :: addressing_context where
  "shared_name_context =
     sample_context\<lparr>cx_sender := ''bob@web'',
       cx_agents := [\<lparr>ra_id = ''bob'', ra_name = ''bob'', ra_kind = ''human'',
                      ra_last_seen = None, ra_waiting = False\<rparr>,
                     \<lparr>ra_id = ''bob@web'', ra_name = ''bob'', ra_kind = ''ai'',
                      ra_last_seen = None, ra_waiting = True\<rparr>]\<rparr>"

lemma shared_name_reaches_sender:
  "resolve_addressed_tokens [''everyone''] shared_name_context = [''bob''] \<and>
   addressed_matches_agent ''bob'' (cx_sender shared_name_context)"
  by code_simp

end
