(* ===== verification/RoleCatalog.thy ===== *)
theory RoleCatalog
  imports Store
begin

section \<open>The role catalog\<close>

text \<open>
  The read side of \<open>internal/server/roles.go\<close>: the embedded catalog, the two layers over it
  (overrides of catalog roles, custom roles), the lookups that combine the three, the body a
  role resolves to along its \<open>extends\<close> chain, and the check that a replacement of the roles
  introduces no cycle of \<open>extends\<close>.
\<close>

subsection \<open>The embedded catalog\<close>

record catalog_entry =
  ce_key :: string
  ce_description :: string
  ce_emoji :: string
  ce_icon :: string
  ce_cardinality :: string
  ce_extends :: string

definition catalog_row :: "string \<Rightarrow> string \<Rightarrow> string \<Rightarrow> string \<Rightarrow> string \<Rightarrow> catalog_entry" where
  "catalog_row k e c x d =
     \<lparr>ce_key = k, ce_description = d, ce_emoji = e, ce_icon = [], ce_cardinality = c,
      ce_extends = x\<rparr>"

definition role_catalog :: "catalog_entry list" where
  "role_catalog =
     [catalog_row ''leader'' [CHR 0xF0, CHR 0x9F, CHR 0x91, CHR 0x91] ''singleton'' []
        ''Coordinates collaboration, consolidates plans and reviews, and owns human approval handoffs.'',
      catalog_row ''worker'' [CHR 0xF0, CHR 0x9F, CHR 0x9B, CHR 0xA0, CHR 0xEF, CHR 0xB8, CHR 0x8F]
        ''multi'' []
        ''Implements approved plans, reports implementation context, and applies review fixes to one clean feature commit.'',
      catalog_row ''reviewer'' [CHR 0xF0, CHR 0x9F, CHR 0x94, CHR 0x8E] ''multi'' []
        ''Reviews independently for correctness, regressions, tests, and risk before sign-off.'',
      catalog_row ''sec-reviewer''
        [CHR 0xF0, CHR 0x9F, CHR 0x9B, CHR 0xA1, CHR 0xEF, CHR 0xB8, CHR 0x8F] ''multi'' ''reviewer''
        ''Reviews security-sensitive changes for authorization, input handling, secrets, and abuse risk.'',
      catalog_row ''test-reviewer'' [CHR 0xF0, CHR 0x9F, CHR 0xA7, CHR 0xAA] ''multi'' ''reviewer''
        ''Reviews test coverage, verification quality, edge cases, and regression risk.'',
      catalog_row ''ux-reviewer'' [CHR 0xF0, CHR 0x9F, CHR 0x8E, CHR 0xA8] ''multi'' ''reviewer''
        ''Reviews user-facing flows, accessibility, copy, and interaction quality.'']"

fun find_entry :: "string \<Rightarrow> catalog_entry list \<Rightarrow> catalog_entry option" where
  "find_entry k [] = None"
| "find_entry k (e # es) = (if ce_key e = k then Some e else find_entry k es)"

definition catalog_entry_for :: "string \<Rightarrow> catalog_entry option" where
  "catalog_entry_for k = find_entry k role_catalog"

definition in_catalog :: "string \<Rightarrow> bool" where
  "in_catalog k = (k \<in> set (map ce_key role_catalog))"

lemma find_entry_None: "find_entry k es = None \<longleftrightarrow> k \<notin> set (map ce_key es)"
  by (induction es) auto

lemma catalog_entry_for_None: "catalog_entry_for k = None \<longleftrightarrow> \<not> in_catalog k"
  by (simp add: catalog_entry_for_def in_catalog_def find_entry_None)

lemma in_catalog_iff:
  "in_catalog k \<longleftrightarrow> k \<in> {''leader'', ''worker'', ''reviewer'', ''sec-reviewer'',
                          ''test-reviewer'', ''ux-reviewer''}"
  by (simp add: in_catalog_def role_catalog_def catalog_row_def)

subsection \<open>Field normalisation\<close>

datatype role_error =
    RoleKeyInvalid string
  | RoleBodyTooLarge
  | RoleKeyIsAgent string
  | TooManyRoles
  | EmojiNotUtf8
  | EmojiTooManyRunes
  | EmojiTooManyBytes
  | CardinalityInvalid
  | RoleCycle string string
  | RoleChainTooDeep string
  | RoleExtendsItself string
  | RoleExtendsUnknown string string
  | CustomRoleAssigned string "string list"
  | RoleAssigned string "string list"
  | RolesAssigned "string list"
  | RoomIdRequired
  | RoleRoomNotFound string
  | RoleAgentNotMember string string
  | RoleAgentNotRegistered string
  | RolesForAIOnly
  | RoleAssignmentConflict string string

definition role_key_ok :: "string \<Rightarrow> bool" where
  "role_key_ok k =
     (case k of [] \<Rightarrow> False
      | c # cs \<Rightarrow> between 97 122 c \<and>
          list_all (\<lambda>d. between 97 122 d \<or> between 48 57 d \<or> d = CHR ''_'' \<or> d = CHR ''-'') cs)"

definition normalize_role_icon :: "string \<Rightarrow> role_error + string" where
  "normalize_role_icon icon0 =
     (let icon = trim_space icon0 in
      if icon = [] then Inr []
      else if \<not> valid_utf8 icon then Inl EmojiNotUtf8
      else if 16 < rune_count icon then Inl EmojiTooManyRunes
      else if 64 < length icon then Inl EmojiTooManyBytes
      else Inr icon)"

definition role_entry_emoji :: "string \<Rightarrow> string \<Rightarrow> role_error + string" where
  "role_entry_emoji icon emoji =
     (if emoji \<noteq> [] then normalize_role_icon emoji else normalize_role_icon icon)"

definition normalize_role_cardinality :: "string \<Rightarrow> role_error + string" where
  "normalize_role_cardinality v0 =
     (let v = trim_space (to_lower v0) in
      if v = [] then Inr ''multi''
      else if v = ''multi'' \<or> v = ''singleton'' then Inr v
      else Inl CardinalityInvalid)"

lemma normalize_role_cardinality_range:
  "normalize_role_cardinality v = Inr c \<Longrightarrow> c = ''multi'' \<or> c = ''singleton''"
  by (auto simp: normalize_role_cardinality_def Let_def split: if_splits)

lemma normalize_role_icon_bounds:
  "normalize_role_icon e = Inr i \<Longrightarrow>
   valid_utf8 i \<and> rune_count i \<le> 16 \<and> length i \<le> 64 \<and> trim_space i = i"
  by (auto simp: normalize_role_icon_def Let_def valid_utf8_def rune_count_def split: if_splits)

subsection \<open>Lookups over the three layers\<close>

definition compiled_role_default_for :: "store \<Rightarrow> string \<Rightarrow> string" where
  "compiled_role_default_for s k = get_or [] (s_role_defaults s) k"

definition raw_role_body :: "store \<Rightarrow> string \<Rightarrow> string option" where
  "raw_role_body s k =
     (case map_of (s_role_overrides s) k of
        Some v \<Rightarrow> Some (ro_body v)
      | None \<Rightarrow>
          (case map_of (s_role_custom s) k of
             Some e \<Rightarrow> Some (ro_body e)
           | None \<Rightarrow>
               if in_catalog k \<and> has_key (s_role_defaults s) k
               then Some (compiled_role_default_for s k) else None))"

definition role_extends :: "store \<Rightarrow> string \<Rightarrow> string" where
  "role_extends s k =
     (case map_of (s_role_overrides s) k of
        Some v \<Rightarrow>
          if ro_extends v \<noteq> [] then ro_extends v
          else (case map_of (s_role_custom s) k of
                  Some e \<Rightarrow> ro_extends e
                | None \<Rightarrow> (case catalog_entry_for k of Some e \<Rightarrow> ce_extends e | None \<Rightarrow> []))
      | None \<Rightarrow>
          (case map_of (s_role_custom s) k of
             Some e \<Rightarrow> ro_extends e
           | None \<Rightarrow> (case catalog_entry_for k of Some e \<Rightarrow> ce_extends e | None \<Rightarrow> [])))"

definition role_icon :: "store \<Rightarrow> string \<Rightarrow> string" where
  "role_icon s k =
     (let from_catalog =
        (case catalog_entry_for k of
           Some e \<Rightarrow> if ce_emoji e \<noteq> [] then ce_emoji e else ce_icon e
         | None \<Rightarrow> [])
      in case map_of (s_role_overrides s) k of
           Some e \<Rightarrow>
             if ro_emoji e \<noteq> [] then ro_emoji e
             else if ro_icon e \<noteq> [] then ro_icon e else from_catalog
         | None \<Rightarrow>
             (case map_of (s_role_custom s) k of
                Some e \<Rightarrow> if ro_emoji e \<noteq> [] then ro_emoji e else ro_icon e
              | None \<Rightarrow> from_catalog))"

definition role_cardinality :: "store \<Rightarrow> string \<Rightarrow> string" where
  "role_cardinality s k =
     (let from_catalog =
        (case catalog_entry_for k of
           Some e \<Rightarrow>
             (case normalize_role_cardinality (ce_cardinality e) of
                Inr c \<Rightarrow> c | Inl _ \<Rightarrow> ''multi'')
         | None \<Rightarrow> ''multi'');
        from_custom =
          (case map_of (s_role_custom s) k of
             Some e \<Rightarrow> if ro_cardinality e \<noteq> [] then ro_cardinality e else from_catalog
           | None \<Rightarrow> from_catalog)
      in case map_of (s_role_overrides s) k of
           Some e \<Rightarrow> if ro_cardinality e \<noteq> [] then ro_cardinality e else from_custom
         | None \<Rightarrow> from_custom)"

definition role_exists :: "store \<Rightarrow> string \<Rightarrow> bool" where
  "role_exists s k = (in_catalog k \<or> has_key (s_role_custom s) k)"

subsection \<open>The resolved body\<close>

text \<open>
  \<open>getResolvedRoleBodyLocked\<close> carries the set of the keys on the path. It returns on a key that
  was seen or that has no body, so the number of known keys outside the set decreases.
\<close>

definition known_roles :: "store \<Rightarrow> string set" where
  "known_roles s =
     set (keys (s_role_overrides s)) \<union> set (keys (s_role_custom s)) \<union> set (map ce_key role_catalog)"

lemma finite_known_roles [simp]: "finite (known_roles s)"
  by (simp add: known_roles_def)

lemma raw_role_body_known: "raw_role_body s k = Some b \<Longrightarrow> k \<in> known_roles s"
  by (auto simp: raw_role_body_def known_roles_def in_catalog_def has_key_def
      map_of_eq_None_iff split: option.splits if_splits dest: map_of_in_set intro!: rev_image_eqI)

lemma role_chain_decreases:
  assumes "k \<notin> set seen" "raw_role_body s k = Some b"
  shows "card (known_roles s - set (k # seen)) < card (known_roles s - set seen)"
  using assms raw_role_body_known [OF assms(2)] by (intro psubset_card_mono) auto

function resolved_body :: "store \<Rightarrow> string list \<Rightarrow> string \<Rightarrow> string option" where
  "resolved_body s seen k =
     (if k \<in> set seen then None
      else case raw_role_body s k of
             None \<Rightarrow> None
           | Some body \<Rightarrow>
               if role_extends s k = [] then Some body
               else (case resolved_body s (k # seen) (role_extends s k) of
                       None \<Rightarrow> Some body
                     | Some base \<Rightarrow>
                         Some (trim_space base @ [CHR 0x0A, CHR 0x0A] @ trim_space body)))"
  by pat_completeness auto
termination
  by (relation "measure (\<lambda>(s, seen, k). card (known_roles s - set seen))")
    (use role_chain_decreases in auto)

declare resolved_body.simps [simp del]

definition get_role :: "store \<Rightarrow> string \<Rightarrow> string option" where
  "get_role s k = resolved_body s [] k"

text \<open>
  The reference reading: the keys met when the \<open>extends\<close> links are followed from a role, ending
  at a key that was met or has no body; the result glues their bodies, the base first.
\<close>

function role_chain :: "store \<Rightarrow> string list \<Rightarrow> string \<Rightarrow> string list" where
  "role_chain s seen k =
     (if k \<in> set seen \<or> raw_role_body s k = None then []
      else k # (if role_extends s k = [] then [] else role_chain s (k # seen) (role_extends s k)))"
  by pat_completeness auto
termination
  by (relation "measure (\<lambda>(s, seen, k). card (known_roles s - set seen))")
    (use role_chain_decreases in auto)

declare role_chain.simps [simp del]

fun glue :: "string list \<Rightarrow> string" where
  "glue [] = []"
| "glue [b] = b"
| "glue (b # bs) = trim_space (glue bs) @ [CHR 0x0A, CHR 0x0A] @ trim_space b"

definition role_body_of :: "store \<Rightarrow> string \<Rightarrow> string" where
  "role_body_of s k = (case raw_role_body s k of Some b \<Rightarrow> b | None \<Rightarrow> [])"

lemma role_chain_facts:
  "distinct (role_chain s seen k)" "set (role_chain s seen k) \<inter> set seen = {}"
  "set (role_chain s seen k) \<subseteq> known_roles s"
proof (induction s seen k rule: role_chain.induct)
  case (1 s seen k)
  note IH = 1
  { case 1 show ?case using IH by (subst role_chain.simps) auto }
  { case 2 show ?case using IH by (subst role_chain.simps) auto }
  { case 3 show ?case using IH raw_role_body_known
      by (subst role_chain.simps) (auto split: if_splits) }
qed

lemma resolved_body_chain:
  "resolved_body s seen k =
     (if role_chain s seen k = [] then None
      else Some (glue (map (role_body_of s) (role_chain s seen k))))"
proof (induction s seen k rule: resolved_body.induct)
  case (1 s seen k)
  show ?case
  proof (cases "k \<in> set seen \<or> raw_role_body s k = None \<or> role_extends s k = []")
    case True
    then show ?thesis
      by (subst resolved_body.simps, subst (1 2) role_chain.simps) (auto simp: role_body_of_def)
  next
    case False
    then obtain b where b: "raw_role_body s k = Some b" by auto
    let ?c = "role_chain s (k # seen) (role_extends s k)"
    have c: "role_chain s seen k = k # ?c" using False b by (subst role_chain.simps) simp
    show ?thesis
      using 1 [of b] False b
      by (subst resolved_body.simps, unfold c, cases ?c) (auto simp: role_body_of_def)
  qed
qed

lemma length_role_chain_le: "length (role_chain s seen k) \<le> card (known_roles s)"
  using role_chain_facts [of s seen k] by (metis card_mono distinct_card finite_known_roles)

subsection \<open>The cycle check of a replacement\<close>

record role_update =
  ru_key :: string
  ru_body :: string
  ru_description :: string
  ru_emoji :: string
  ru_cardinality :: string
  ru_extends :: string
  ru_custom :: bool

definition set_extends :: "string \<Rightarrow> string \<Rightarrow> (string, string) table \<Rightarrow> (string, string) table" where
  "set_extends k x m = (if x = [] then del k m else put k x m)"

definition extends_by_key :: "store \<Rightarrow> role_update list \<Rightarrow> (string, string) table" where
  "extends_by_key s us =
     (let m0 = fold (\<lambda>e m. if ce_extends e \<noteq> [] then put (ce_key e) (ce_extends e) m else m)
                 role_catalog [];
          m1 = fold (\<lambda>(k, e). set_extends k (ro_extends e)) (s_role_overrides s) m0;
          m2 = fold (\<lambda>(k, e). set_extends k (ro_extends e)) (s_role_custom s) m1
      in fold (\<lambda>u. set_extends (ru_key u) (ru_extends u)) us m2)"

function walk_extends ::
    "(string, string) table \<Rightarrow> string \<Rightarrow> string list \<Rightarrow> string \<Rightarrow> role_error option" where
  "walk_extends m root seen cur =
     (if cur = [] then None
      else if cur \<in> set seen then Some (RoleCycle root cur)
      else if 128 < length (cur # seen) then Some (RoleChainTooDeep root)
      else walk_extends m root (cur # seen) (get_or [] m cur))"
  by pat_completeness auto
termination
  by (relation "measure (\<lambda>(m, root, seen, cur). 129 - length seen)") auto

declare walk_extends.simps [simp del]

fun first_error :: "('a \<Rightarrow> 'e option) \<Rightarrow> 'a list \<Rightarrow> 'e option" where
  "first_error f [] = None"
| "first_error f (x # xs) = (case f x of Some e \<Rightarrow> Some e | None \<Rightarrow> first_error f xs)"

lemma first_error_None: "first_error f xs = None \<longleftrightarrow> (\<forall>x \<in> set xs. f x = None)"
  by (induction xs) (auto split: option.splits)

definition validate_role_extension_cycles :: "store \<Rightarrow> role_update list \<Rightarrow> role_error option" where
  "validate_role_extension_cycles s us =
     (let m = extends_by_key s us
      in first_error (\<lambda>u. walk_extends m (ru_key u) [ru_key u] (get_or [] m (ru_key u))) us)"

text \<open>\<open>n\<close> steps along the links of a table.\<close>

fun links :: "(string, string) table \<Rightarrow> nat \<Rightarrow> string \<Rightarrow> string" where
  "links m 0 k = k"
| "links m (Suc n) k = links m n (get_or [] m k)"

lemma walk_extends_accepts:
  assumes "walk_extends m root seen cur = None" "length seen \<le> 128"
  shows "\<exists>n. n + length seen \<le> 128 \<and> links m n cur = []"
  using assms
proof (induction m root seen cur rule: walk_extends.induct)
  case (1 m root seen cur)
  show ?case
  proof (cases "cur = []")
    case True
    then show ?thesis using 1(3) by (intro exI [of _ 0]) simp
  next
    case False
    then have c: "cur \<notin> set seen" "length (cur # seen) \<le> 128"
      and w: "walk_extends m root (cur # seen) (get_or [] m cur) = None"
      using 1(2) by (subst (asm) walk_extends.simps, simp split: if_splits)+
    then obtain n where "n + length (cur # seen) \<le> 128" "links m n (get_or [] m cur) = []"
      using 1(1) [OF False c(1) _ w] by auto
    then show ?thesis by (intro exI [of _ "Suc n"]) simp
  qed
qed

lemma validated_chain_ends:
  assumes "validate_role_extension_cycles s us = None" "u \<in> set us"
  shows "\<exists>n \<le> 128. links (extends_by_key s us) n (ru_key u) = []"
proof -
  let ?m = "extends_by_key s us"
  have "walk_extends ?m (ru_key u) [ru_key u] (get_or [] ?m (ru_key u)) = None"
    using assms by (simp add: validate_role_extension_cycles_def Let_def first_error_None)
  from walk_extends_accepts [OF this]
  obtain n where "n + 1 \<le> 128" "links ?m n (get_or [] ?m (ru_key u)) = []" by auto
  then show ?thesis by (intro exI [of _ "Suc n"]) simp
qed

subsection \<open>The list of roles\<close>

record role_view =
  rv_key :: string
  rv_label :: string
  rv_description :: string
  rv_emoji :: string
  rv_icon :: string
  rv_body :: string
  rv_resolved_body :: string
  rv_default_body :: string
  rv_cardinality :: string
  rv_extends :: string
  rv_overridden :: bool
  rv_custom :: bool

definition or_else :: "string \<Rightarrow> string \<Rightarrow> string" where
  "or_else a b = (if a \<noteq> [] then a else b)"

definition cardinality_or :: "string \<Rightarrow> string \<Rightarrow> string" where
  "cardinality_or d v = (case normalize_role_cardinality v of Inr c \<Rightarrow> c | Inl _ \<Rightarrow> d)"

definition catalog_view :: "store \<Rightarrow> catalog_entry \<Rightarrow> role_view" where
  "catalog_view s e =
     (let k = ce_key e; icon = or_else (ce_emoji e) (ce_icon e);
          card = cardinality_or [] (ce_cardinality e);
          dflt = compiled_role_default_for s k;
          resolved = (case get_role s k of Some b \<Rightarrow> b | None \<Rightarrow> [])
      in case map_of (s_role_overrides s) k of
           None \<Rightarrow>
             \<lparr>rv_key = k, rv_label = k, rv_description = ce_description e, rv_emoji = icon,
              rv_icon = icon, rv_body = dflt, rv_resolved_body = resolved, rv_default_body = dflt,
              rv_cardinality = card, rv_extends = ce_extends e, rv_overridden = False,
              rv_custom = False\<rparr>
         | Some v \<Rightarrow>
             let icon2 = or_else (ro_emoji v) (or_else (ro_icon v) icon) in
             \<lparr>rv_key = k, rv_label = k,
              rv_description = or_else (ro_description v) (ce_description e),
              rv_emoji = icon2, rv_icon = icon2, rv_body = ro_body v, rv_resolved_body = resolved,
              rv_default_body = dflt, rv_cardinality = or_else (ro_cardinality v) card,
              rv_extends = or_else (ro_extends v) (ce_extends e), rv_overridden = True,
              rv_custom = False\<rparr>)"

definition custom_view :: "store \<Rightarrow> string \<times> role_entry \<Rightarrow> role_view" where
  "custom_view s p =
     (let k = fst p; e = snd p; icon = or_else (ro_emoji e) (ro_icon e) in
      \<lparr>rv_key = k, rv_label = k, rv_description = ro_description e, rv_emoji = icon,
       rv_icon = icon, rv_body = ro_body e,
       rv_resolved_body = (case get_role s k of Some b \<Rightarrow> b | None \<Rightarrow> []),
       rv_default_body = [], rv_cardinality = cardinality_or ''multi'' (ro_cardinality e),
       rv_extends = ro_extends e, rv_overridden = False, rv_custom = True\<rparr>)"

definition list_roles :: "store \<Rightarrow> role_view list" where
  "list_roles s =
     map (catalog_view s) role_catalog @ map (custom_view s) (sort_key fst (s_role_custom s))"

lemma keys_list_roles:
  "map rv_key (list_roles s) = map ce_key role_catalog @ sort (keys (s_role_custom s))"
proof -
  have "rv_key (catalog_view s e) = ce_key e" for e
    by (simp add: catalog_view_def Let_def split: option.split)
  moreover have "rv_key (custom_view s p) = fst p" for p
    by (simp add: custom_view_def Let_def)
  ultimately show ?thesis
    by (simp add: list_roles_def comp_def map_sort_key)
qed

end
