(* ===== verification/MessageParts.thy ===== *)
theory MessageParts
  imports Store
begin

section \<open>The structured parts of a message\<close>

text \<open>
  The normalisation of what a sender attaches to a message, from
  \<open>internal/server/store_helpers.go\<close>: proposed answers and open questions are cleaned and cut,
  plan blocks and appendix pages are checked against limits and refused with an error.

  \<open>json.Valid\<close> of the third-party JSON package is the parameter \<open>json_ok\<close>, the random ids drawn
  for plan blocks are the parameter \<open>gen\<close>, one per position.
\<close>

definition max_proposed_answers :: nat where "max_proposed_answers = 4"
definition max_open_questions :: nat where "max_open_questions = 10"
definition max_question_options :: nat where "max_question_options = 8"
definition max_question_runes :: nat where "max_question_runes = 500"
definition max_description_runes :: nat where "max_description_runes = 1000"
definition max_plan_blocks :: nat where "max_plan_blocks = 80"
definition max_block_title_runes :: nat where "max_block_title_runes = 160"
definition max_block_data_bytes :: nat where "max_block_data_bytes = 64000"
definition max_appendix_pages :: nat where "max_appendix_pages = 10"
definition max_page_body_bytes :: nat where "max_page_body_bytes = 32000"
definition max_page_title_runes :: nat where "max_page_title_runes = 160"
definition max_appendix_bytes :: nat where "max_appendix_bytes = 128000"

lemmas part_limits =
  max_proposed_answers_def max_open_questions_def max_question_options_def max_question_runes_def
  max_description_runes_def max_plan_blocks_def max_block_title_runes_def max_block_data_bytes_def
  max_appendix_pages_def max_page_body_bytes_def max_page_title_runes_def max_appendix_bytes_def

subsection \<open>Proposed answers\<close>

definition clean_answer :: "string \<Rightarrow> string option" where
  "clean_answer a = (let t = trim_space a in if t = [] then None else Some t)"

definition clean_proposed_answers :: "string list \<Rightarrow> string list" where
  "clean_proposed_answers xs = collect max_proposed_answers clean_answer xs"

lemma map_filter_id: "\<forall>x \<in> set xs. f x = Some x \<Longrightarrow> List.map_filter f xs = xs"
  by (induction xs) (auto simp: List.map_filter_simps)

lemma clean_proposed_answers_kept:
  "\<forall>a \<in> set (clean_proposed_answers xs). a \<noteq> [] \<and> trim_space a = a"
  using collect_bounds(2) [of max_proposed_answers _ clean_answer xs]
  by (fastforce simp: clean_proposed_answers_def clean_answer_def Let_def part_limits split: if_splits)

subsection \<open>Open questions\<close>

definition clean_option :: "string \<Rightarrow> string option" where
  "clean_option a =
     (let t = truncate_runes (trim_space a) max_question_runes in if t = [] then None else Some t)"

definition clean_question :: "open_question \<Rightarrow> open_question option" where
  "clean_question q =
     (let question = truncate_runes (trim_space (oq_question q)) max_question_runes;
          description = truncate_runes (trim_space (oq_description q)) max_description_runes
      in if question = [] then None
         else
           let options = collect max_question_options clean_option (oq_options q)
           in if length options < 2 then None
              else Some \<lparr>oq_question = question, oq_description = description,
                         oq_options = options\<rparr>)"

definition clean_open_questions :: "open_question list \<Rightarrow> open_question list" where
  "clean_open_questions qs = collect max_open_questions clean_question qs"

definition question_ok :: "open_question \<Rightarrow> bool" where
  "question_ok q =
     (oq_question q \<noteq> [] \<and> rune_count (oq_question q) \<le> max_question_runes \<and>
      rune_count (oq_description q) \<le> max_description_runes \<and>
      2 \<le> length (oq_options q) \<and> length (oq_options q) \<le> max_question_options \<and>
      list_all (\<lambda>x. x \<noteq> [] \<and> rune_count x \<le> max_question_runes) (oq_options q))"

lemma clean_option_ok:
  "clean_option a = Some t \<Longrightarrow> t \<noteq> [] \<and> rune_count t \<le> max_question_runes"
  using rune_count_truncate by (auto simp: clean_option_def Let_def split: if_splits)

lemma clean_question_ok: "clean_question q = Some r \<Longrightarrow> question_ok r"
  using rune_count_truncate collect_bounds(1) [of max_question_options clean_option "oq_options q"]
    collect_bounds(2) [of max_question_options _ clean_option "oq_options q"]
  by (fastforce simp: clean_question_def Let_def question_ok_def list_all_iff max_question_options_def
      dest: clean_option_ok split: if_splits)

subsection \<open>Plan blocks\<close>

datatype part_error =
    TooManyPlanBlocks
  | PlanTypeRequired
  | PlanTitleTooLong nat
  | PlanDataTooLong nat
  | PlanDataInvalid string
  | TooManyPages
  | PageBodyRequired
  | PageTitleTooLong nat
  | PageBodyTooLong nat
  | PagesTooLong nat

definition normalize_plan_block ::
    "(string \<Rightarrow> bool) \<Rightarrow> (nat \<Rightarrow> string) \<Rightarrow> nat \<Rightarrow> plan_block \<Rightarrow> part_error + plan_block" where
  "normalize_plan_block json_ok gen i b =
     (let ty = trim_space (pb_type b); title = trim_space (pb_title b);
          bid = (if pb_id b = [] then gen i else pb_id b);
          dat = (if pb_data b = [] then ''{}'' else pb_data b)
      in if ty = [] then Inl PlanTypeRequired
         else if max_block_title_runes < rune_count title then Inl (PlanTitleTooLong (rune_count title))
         else if max_block_data_bytes < length dat then Inl (PlanDataTooLong (length dat))
         else if \<not> json_ok dat then Inl (PlanDataInvalid ty)
         else Inr \<lparr>pb_id = bid, pb_type = ty, pb_title = title, pb_data = dat,
                   pb_order = int i\<rparr>)"

fun normalize_plan_from ::
    "(string \<Rightarrow> bool) \<Rightarrow> (nat \<Rightarrow> string) \<Rightarrow> nat \<Rightarrow> plan_block list \<Rightarrow> part_error + plan_block list" where
  "normalize_plan_from json_ok gen i [] = Inr []"
| "normalize_plan_from json_ok gen i (b # bs) =
     (case normalize_plan_block json_ok gen i b of
        Inl e \<Rightarrow> Inl e
      | Inr c \<Rightarrow>
          (case normalize_plan_from json_ok gen (Suc i) bs of
             Inl e \<Rightarrow> Inl e
           | Inr cs \<Rightarrow> Inr (c # cs)))"

definition normalize_plan_blocks ::
    "(string \<Rightarrow> bool) \<Rightarrow> (nat \<Rightarrow> string) \<Rightarrow> plan_block list \<Rightarrow> part_error + plan_block list" where
  "normalize_plan_blocks json_ok gen bs =
     (if bs = [] then Inr []
      else if max_plan_blocks < length bs then Inl TooManyPlanBlocks
      else normalize_plan_from json_ok gen 0 bs)"

definition block_ok :: "(string \<Rightarrow> bool) \<Rightarrow> plan_block \<Rightarrow> bool" where
  "block_ok json_ok b =
     (pb_type b \<noteq> [] \<and> trim_space (pb_type b) = pb_type b \<and>
      rune_count (pb_title b) \<le> max_block_title_runes \<and>
      length (pb_data b) \<le> max_block_data_bytes \<and> json_ok (pb_data b))"

lemma normalize_plan_block_ok:
  "normalize_plan_block json_ok gen i b = Inr c \<Longrightarrow> block_ok json_ok c \<and> pb_order c = int i"
  by (auto simp: normalize_plan_block_def Let_def block_ok_def split: if_splits)

lemma normalize_plan_from_Cons:
  assumes "normalize_plan_from json_ok gen i (b # bs) = Inr cs"
  obtains c ds where "normalize_plan_block json_ok gen i b = Inr c" "cs = c # ds"
    "normalize_plan_from json_ok gen (Suc i) bs = Inr ds"
  using assms by (auto split: sum.splits)

lemma normalize_plan_from_ok:
  "normalize_plan_from json_ok gen i bs = Inr cs \<Longrightarrow>
   list_all (block_ok json_ok) cs \<and> map pb_order cs = map int [i..<i + length bs]"
proof (induction bs arbitrary: i cs)
  case (Cons b bs)
  obtain c ds where c: "normalize_plan_block json_ok gen i b = Inr c" "cs = c # ds"
    and ds: "normalize_plan_from json_ok gen (Suc i) bs = Inr ds"
    using Cons.prems by (rule normalize_plan_from_Cons)
  have "[i..<i + length (b # bs)] = i # [Suc i..<Suc i + length bs]"
    by (subst upt_conv_Cons) simp_all
  then show ?case
    using Cons.IH [OF ds] normalize_plan_block_ok [OF c(1)] c(2) by (simp only:) simp
qed simp

lemma normalize_plan_from_fixed:
  "normalize_plan_from json_ok gen i bs = Inr cs \<Longrightarrow> \<forall>n. gen n \<noteq> [] \<Longrightarrow>
   normalize_plan_from json_ok gen' i cs = Inr cs"
proof (induction json_ok gen i bs arbitrary: cs rule: normalize_plan_from.induct)
  case (2 json_ok gen i b bs)
  obtain c ds where c: "normalize_plan_block json_ok gen i b = Inr c" "cs = c # ds"
    and ds: "normalize_plan_from json_ok gen (Suc i) bs = Inr ds"
    using 2(2) by (rule normalize_plan_from_Cons)
  have "normalize_plan_block json_ok gen' i c = Inr c"
    using c(1) 2(3) by (auto simp: normalize_plan_block_def Let_def split: if_splits)
  then show ?case using 2(1) [OF c(1) ds 2(3)] c(2) by simp
qed simp

subsection \<open>Appendix pages\<close>

fun normalize_pages_from ::
    "nat \<Rightarrow> appendix_page list \<Rightarrow> part_error + appendix_page list" where
  "normalize_pages_from sofar [] = Inr []"
| "normalize_pages_from sofar (p # ps) =
     (let title = trim_space (ap_title p); body = trim_space (ap_body p);
          sum2 = sofar + length body
      in if title = [] \<and> body = [] then normalize_pages_from sofar ps
         else if body = [] then Inl PageBodyRequired
         else if max_page_title_runes < rune_count title then Inl (PageTitleTooLong (rune_count title))
         else if max_page_body_bytes < length body then Inl (PageBodyTooLong (length body))
         else if max_appendix_bytes < sum2 then Inl (PagesTooLong sum2)
         else (case normalize_pages_from sum2 ps of
                 Inl e \<Rightarrow> Inl e
               | Inr qs \<Rightarrow> Inr (\<lparr>ap_title = title, ap_body = body\<rparr> # qs)))"

definition normalize_appendix_pages ::
    "appendix_page list \<Rightarrow> part_error + appendix_page list" where
  "normalize_appendix_pages ps =
     (if ps = [] then Inr []
      else if max_appendix_pages < length ps then Inl TooManyPages
      else normalize_pages_from 0 ps)"

definition page_ok :: "appendix_page \<Rightarrow> bool" where
  "page_ok p =
     (ap_body p \<noteq> [] \<and> length (ap_body p) \<le> max_page_body_bytes \<and>
      rune_count (ap_title p) \<le> max_page_title_runes \<and>
      trim_space (ap_title p) = ap_title p \<and> trim_space (ap_body p) = ap_body p)"

definition pages_size :: "appendix_page list \<Rightarrow> nat" where
  "pages_size ps = sum_list (map (length \<circ> ap_body) ps)"

lemma normalize_pages_from_Cons:
  assumes "normalize_pages_from n (p # ps) = Inr qs"
  obtains "normalize_pages_from n ps = Inr qs"
  | q rs where "page_ok q" "qs = q # rs" "n + length (ap_body q) \<le> max_appendix_bytes"
      "normalize_pages_from (n + length (ap_body q)) ps = Inr rs"
proof (cases "trim_space (ap_title p) = [] \<and> trim_space (ap_body p) = []")
  case True
  then show ?thesis using assms that(1) by (simp add: Let_def)
next
  case False
  let ?q = "\<lparr>ap_title = trim_space (ap_title p), ap_body = trim_space (ap_body p)\<rparr>"
  show ?thesis
    by (rule that(2) [of ?q "tl qs"])
       (use assms False in \<open>auto simp: Let_def page_ok_def split: if_splits sum.splits\<close>)
qed

lemma normalize_pages_from_ok:
  "normalize_pages_from n ps = Inr qs \<Longrightarrow> n \<le> max_appendix_bytes \<Longrightarrow>
   list_all page_ok qs \<and> n + pages_size qs \<le> max_appendix_bytes \<and> length qs \<le> length ps"
proof (induction ps arbitrary: n qs)
  case (Cons p ps)
  from Cons.prems(1) show ?case
  proof (rule normalize_pages_from_Cons)
    assume "normalize_pages_from n ps = Inr qs"
    then show ?thesis using Cons.IH [of n qs] Cons.prems(2) by simp
  next
    fix q rs
    assume *: "page_ok q" "qs = q # rs" "n + length (ap_body q) \<le> max_appendix_bytes"
      "normalize_pages_from (n + length (ap_body q)) ps = Inr rs"
    then show ?thesis using Cons.IH [OF *(4,3)] by (simp add: pages_size_def)
  qed
qed (simp add: pages_size_def)

lemma normalize_pages_from_fixed:
  "list_all page_ok qs \<Longrightarrow> sofar + pages_size qs \<le> max_appendix_bytes \<Longrightarrow>
   normalize_pages_from sofar qs = Inr qs"
  by (induction sofar qs rule: normalize_pages_from.induct)
     (auto simp: page_ok_def pages_size_def Let_def split: sum.splits)

subsection \<open>The limits hold\<close>

text \<open>What a message carries after normalisation respects every documented limit: at most 4
  non-empty answers, at most 10 questions each with 2 to 8 non-empty options and bounded texts.\<close>

lemma cleaned_parts_bounded:
  "length (clean_proposed_answers xs) \<le> 4 \<and> [] \<notin> set (clean_proposed_answers xs) \<and>
   length (clean_open_questions qs) \<le> 10 \<and> list_all question_ok (clean_open_questions qs)"
proof -
  have "question_ok q" if q: "q \<in> set (clean_open_questions qs)" for q
    using collect_bounds(2) [of max_open_questions q clean_question qs] q clean_question_ok
    by (auto simp: clean_open_questions_def part_limits)
  then show ?thesis
    using clean_proposed_answers_kept [of xs]
      collect_bounds(1) [of max_proposed_answers clean_answer xs]
      collect_bounds(1) [of max_open_questions clean_question qs]
    by (auto simp: clean_proposed_answers_def clean_open_questions_def list_all_iff part_limits)
qed

text \<open>Accepted plan blocks are within the limits, carry valid JSON and are numbered 0, 1, 2 in
  the order of the request; accepted appendix pages have a body, are within the limits one by
  one, and in total hold at most 128000 bytes.\<close>

lemma accepted_blocks_and_pages:
  assumes "normalize_plan_blocks json_ok gen bs = Inr cs" "normalize_appendix_pages ps = Inr qs"
  shows "length cs \<le> 80 \<and> list_all (block_ok json_ok) cs \<and>
         map pb_order cs = map int [0..<length bs] \<and>
         length qs \<le> 10 \<and> list_all page_ok qs \<and> pages_size qs \<le> 128000"
proof -
  have "length cs \<le> 80 \<and> list_all (block_ok json_ok) cs \<and> map pb_order cs = map int [0..<length bs]"
  proof (cases "bs = []")
    case False
    then have n: "normalize_plan_from json_ok gen 0 bs = Inr cs" "length bs \<le> 80"
      using assms(1) by (auto simp: normalize_plan_blocks_def part_limits split: if_splits)
    moreover from normalize_plan_from_ok [OF n(1)] have "length cs = length bs"
      by (metis add_0 length_map length_upt minus_nat.diff_0)
    ultimately show ?thesis using normalize_plan_from_ok [OF n(1)] by simp
  qed (use assms(1) in \<open>simp add: normalize_plan_blocks_def\<close>)
  moreover have "length qs \<le> 10 \<and> list_all page_ok qs \<and> pages_size qs \<le> 128000"
    using assms(2) normalize_pages_from_ok [of 0 ps qs]
    by (auto simp: normalize_appendix_pages_def pages_size_def part_limits split: if_splits)
  ultimately show ?thesis by blast
qed

lemma accepted_blocks_and_pages_witness:
  "length [\<lparr>pb_id = ''g'', pb_type = ''task'', pb_title = ''T'', pb_data = ''{}'', pb_order = 0\<rparr>] \<le> (80::nat)"
  using accepted_blocks_and_pages
    [where json_ok = "\<lambda>d. d = ''{}''" and gen = "\<lambda>_. ''g''"
      and bs = "[\<lparr>pb_id = [], pb_type = '' task'', pb_title = ''T'', pb_data = [], pb_order = 7\<rparr>]"
      and cs = "[\<lparr>pb_id = ''g'', pb_type = ''task'', pb_title = ''T'', pb_data = ''{}'', pb_order = 0\<rparr>]"
      and ps = "[\<lparr>ap_title = [], ap_body = '' x ''\<rparr>]"
      and qs = "[\<lparr>ap_title = [], ap_body = ''x''\<rparr>]"]
  by code_simp

subsection \<open>Small helpers\<close>

definition append_target_dedup :: "string list \<Rightarrow> string \<Rightarrow> string list" where
  "append_target_dedup targets target =
     (if target = [] then targets
      else if list_ex (\<lambda>e. equal_fold e target) targets then targets
      else targets @ [target])"

definition member_in_room :: "room \<Rightarrow> string \<Rightarrow> bool" where
  "member_in_room r aid = (aid \<in> set (r_members r))"

definition liveness_subject :: "string \<Rightarrow> string \<Rightarrow> string" where
  "liveness_subject role aid = (if trim_space role = [] then aid else role @ '' '' @ aid)"

definition format_duration :: "int \<Rightarrow> string" where
  "format_duration d =
     (if d mod (60 * second) = 0 then show_int (d div (60 * second)) @ ''m''
      else show_int (d div second) @ ''s'')"

definition valid_uuid :: "string \<Rightarrow> bool" where
  "valid_uuid i = (length i = 32 \<and> list_all (\<lambda>c. between 48 57 c \<or> between 97 102 c) i)"

end
