(* ===== verification/Bus.thy ===== *)
theory Bus
  imports Addressing RoleCatalog MessageParts
begin

section \<open>Presence, snapshots, events and preferences\<close>

text \<open>
  What every operation of the store uses: membership and cursor reads, the snapshots of rooms and
  agents with the live-presence overlay, the pushes to the meta subscribers, the counters of open
  waits and WebSockets, the system messages, and the per-human room preferences
  (\<open>store_agents.go\<close>, \<open>store_rooms.go\<close>, \<open>store_messages.go\<close>, \<open>store_room_prefs.go\<close>).

  Operations that read the clock take the reading \<open>t\<close>. A broadcast that the code starts in a
  goroutine of its own is done in place.
\<close>

subsection \<open>Reading rooms and agents\<close>

definition room_members :: "store \<Rightarrow> string \<Rightarrow> string list" where
  "room_members s rid = (case map_of (s_rooms s) rid of None \<Rightarrow> [] | Some r \<Rightarrow> r_members r)"

definition is_member :: "store \<Rightarrow> string \<Rightarrow> string \<Rightarrow> bool" where
  "is_member s rid aid =
     (case map_of (s_rooms s) rid of None \<Rightarrow> False | Some r \<Rightarrow> aid \<in> set (r_members r))"

definition get_room :: "store \<Rightarrow> string \<Rightarrow> room option" where
  "get_room s rid = map_of (s_rooms s) rid"

definition list_rooms :: "store \<Rightarrow> room list" where
  "list_rooms s = map snd (s_rooms s)"

definition has_agent :: "store \<Rightarrow> string \<Rightarrow> bool" where
  "has_agent s aid = has_key (s_agents s) aid"

definition agent_is_ai :: "store \<Rightarrow> string \<Rightarrow> bool" where
  "agent_is_ai s aid =
     (aid \<noteq> [] \<and> (case map_of (s_agents s) aid of None \<Rightarrow> False | Some a \<Rightarrow> a_kind a = ''ai''))"

definition agent_name_exists :: "store \<Rightarrow> string \<Rightarrow> bool" where
  "agent_name_exists s n =
     list_ex (\<lambda>p. a_kind (snd p) = ''ai'' \<and> a_name (snd p) = n) (s_agents s)"

definition known_agent_names :: "store \<Rightarrow> string list" where
  "known_agent_names s = map agent_short_name (keys (s_agents s))"

definition known_human_names :: "store \<Rightarrow> string list" where
  "known_human_names s =
     map (agent_short_name \<circ> fst) (filter (\<lambda>p. a_kind (snd p) = ''human'') (s_agents s))"

definition room_log :: "store \<Rightarrow> string \<Rightarrow> message list" where
  "room_log s rid = get_or [] (s_messages s) rid"

definition room_head :: "store \<Rightarrow> string \<Rightarrow> int" where
  "room_head s rid = (let ms = room_log s rid in if ms = [] then 0 else m_id (last ms))"

definition cursor_for :: "store \<Rightarrow> string \<Rightarrow> string \<Rightarrow> int" where
  "cursor_for s aid rid =
     (if aid = [] then 0
      else case map_of (s_agents s) aid of
             None \<Rightarrow> 0 | Some a \<Rightarrow> get_or 0 (a_cursors a) rid)"

subsection \<open>Live presence\<close>

definition wait_count :: "store \<Rightarrow> string \<times> string \<Rightarrow> int" where
  "wait_count s k = get_or 0 (get_or [] (s_open_waits s) (fst k)) (snd k)"

definition has_open_wait :: "store \<Rightarrow> string \<Rightarrow> bool" where
  "has_open_wait s aid = (get_or [] (s_open_waits s) aid \<noteq> [])"

definition ws_count :: "store \<Rightarrow> string \<Rightarrow> int" where
  "ws_count s aid = get_or 0 (s_open_ws s) aid"

definition waiting_in :: "store \<Rightarrow> string \<Rightarrow> string \<Rightarrow> bool" where
  "waiting_in s aid rid = (0 < wait_count s (aid, rid) \<or> 0 < wait_count s (aid, []))"

definition wait_overlay :: "store \<Rightarrow> agent \<Rightarrow> agent" where
  "wait_overlay s a =
     (if a_kind a = ''ai'' \<and> (has_open_wait s (a_id a) \<or> 0 < ws_count s (a_id a))
      then a\<lparr>a_state := Idle, a_overlay := True\<rparr> else a)"

definition collision_warning :: "string \<Rightarrow> string" where
  "collision_warning name =
     ''agent name '' @ [CHR 0x22] @ name @ [CHR 0x22] @
     '' collides with a role key; legacy exact-name mention precedence is preserved, but new collisions are rejected''"

definition list_agents :: "store \<Rightarrow> agent list" where
  "list_agents s =
     map (\<lambda>p. let a = wait_overlay s (snd p) in
                if a_kind a = ''ai'' \<and> role_exists s (a_name a)
                then a\<lparr>a_warnings := a_warnings a @ [collision_warning (a_name a)]\<rparr> else a)
       (s_agents s)"

record member_presence =
  mp_agent :: string
  mp_cursor :: int
  mp_waiting :: bool

definition room_presence :: "store \<Rightarrow> string \<Rightarrow> member_presence list" where
  "room_presence s rid =
     map (\<lambda>m. \<lparr>mp_agent = m,
               mp_cursor = (case map_of (s_agents s) m of
                              None \<Rightarrow> 0 | Some a \<Rightarrow> get_or 0 (a_cursors a) rid),
               mp_waiting = waiting_in s m rid\<rparr>)
       (room_members s rid)"

subsection \<open>Pushes to the meta subscribers\<close>

definition broadcast_room_update :: "store \<Rightarrow> store" where
  "broadcast_room_update s = broadcast_meta (RoomUpdate (list_rooms s)) s"

definition broadcast_agent_update :: "store \<Rightarrow> store" where
  "broadcast_agent_update s = broadcast_meta (AgentUpdate (list_agents s)) s"

definition broadcast_roles_updated :: "store \<Rightarrow> store" where
  "broadcast_roles_updated s = broadcast_meta RolesUpdated s"

definition broadcast_macros_updated :: "store \<Rightarrow> store" where
  "broadcast_macros_updated s = broadcast_meta MacrosUpdated s"

definition broadcast_presence :: "int \<Rightarrow> string \<Rightarrow> string \<Rightarrow> int \<Rightarrow> bool \<Rightarrow> store \<Rightarrow> store" where
  "broadcast_presence t aid rid cur waiting s =
     broadcast_meta (Presence aid rid cur waiting (stamp_of t)) s"

definition broadcast_read_update :: "int \<Rightarrow> string \<Rightarrow> string \<Rightarrow> int \<Rightarrow> store \<Rightarrow> store" where
  "broadcast_read_update t aid rid cur s =
     (let s1 = broadcast_meta (ReadUpdate aid rid cur) s
      in broadcast_presence t aid rid cur (0 < wait_count s1 (aid, rid)) s1)"

text \<open>A push only fills the queues of the meta subscribers.\<close>

lemma broadcast_meta_frame [frame, simp]:
  "s_rooms (broadcast_meta e s) = s_rooms s" "s_messages (broadcast_meta e s) = s_messages s"
  "s_agents (broadcast_meta e s) = s_agents s" "s_sessions (broadcast_meta e s) = s_sessions s"
  "s_next_id (broadcast_meta e s) = s_next_id s" "s_room_subs (broadcast_meta e s) = s_room_subs s"
  "s_global_subs (broadcast_meta e s) = s_global_subs s"
  "s_open_waits (broadcast_meta e s) = s_open_waits s" "s_open_ws (broadcast_meta e s) = s_open_ws s"
  "s_prefs (broadcast_meta e s) = s_prefs s" "s_reactions (broadcast_meta e s) = s_reactions s"
  "s_attachments (broadcast_meta e s) = s_attachments s" "s_memory (broadcast_meta e s) = s_memory s"
  "s_role_overrides (broadcast_meta e s) = s_role_overrides s"
  "s_role_custom (broadcast_meta e s) = s_role_custom s"
  "s_role_defaults (broadcast_meta e s) = s_role_defaults s"
  "s_settings (broadcast_meta e s) = s_settings s" "s_db (broadcast_meta e s) = s_db s"
  "s_warned_legacy (broadcast_meta e s) = s_warned_legacy s"
  "s_warned_attention (broadcast_meta e s) = s_warned_attention s"
  "s_warned_ambiguous (broadcast_meta e s) = s_warned_ambiguous s"
  "s_macros (broadcast_meta e s) = s_macros s"
  "s_seen_defaults (broadcast_meta e s) = s_seen_defaults s"
  "s_prompts (broadcast_meta e s) = s_prompts s" "s_fleets (broadcast_meta e s) = s_fleets s"
  "s_sounds (broadcast_meta e s) = s_sounds s" "s_cards (broadcast_meta e s) = s_cards s"
  by (simp_all add: broadcast_meta_def)

lemmas broadcasts =
  broadcast_room_update_def broadcast_agent_update_def broadcast_roles_updated_def
  broadcast_macros_updated_def broadcast_presence_def broadcast_read_update_def

subsection \<open>The counters of open waits and WebSockets\<close>

definition enter_wait :: "int \<Rightarrow> string \<Rightarrow> string \<Rightarrow> store \<Rightarrow> store" where
  "enter_wait t aid rid s =
     (if aid = [] then s
      else
        let scopes = get_or [] (s_open_waits s) aid;
            had = (scopes \<noteq> []);
            s1 = s\<lparr>s_open_waits := put aid (put rid (get_or 0 scopes rid + 1) scopes) (s_open_waits s)\<rparr>;
            cur = (if rid = [] then -1 else cursor_for s1 aid rid);
            s2 = broadcast_presence t aid rid cur True s1
        in if had then s2 else broadcast_agent_update s2)"

definition leave_wait :: "int \<Rightarrow> string \<Rightarrow> string \<Rightarrow> store \<Rightarrow> store" where
  "leave_wait t aid rid s =
     (if aid = [] then s
      else
        let scopes = get_or [] (s_open_waits s) aid
        in if 0 < get_or 0 scopes rid then
             let left = get_or 0 scopes rid - 1;
                 scopes1 = (if left = 0 then del rid scopes else put rid left scopes);
                 s1 = s\<lparr>s_open_waits :=
                          (if scopes1 = [] then del aid (s_open_waits s)
                           else put aid scopes1 (s_open_waits s))\<rparr>
             in if left = 0 then
                  let cur = (if rid = [] then -1 else cursor_for s1 aid rid);
                      s2 = broadcast_presence t aid rid cur False s1
                  in if has_open_wait s1 aid then s2 else broadcast_agent_update s2
                else s1
           else s)"

definition enter_ws :: "string \<Rightarrow> store \<Rightarrow> store" where
  "enter_ws aid s =
     (if aid = [] then s
      else
        let had = has_open_wait s aid \<or> 0 < ws_count s aid;
            s1 = s\<lparr>s_open_ws := put aid (ws_count s aid + 1) (s_open_ws s)\<rparr>
        in if had then s1 else broadcast_agent_update s1)"

definition leave_ws :: "string \<Rightarrow> store \<Rightarrow> store" where
  "leave_ws aid s =
     (if aid = [] then s
      else
        let s1 = (if 0 < ws_count s aid then
                    let n = ws_count s aid - 1
                    in s\<lparr>s_open_ws := (if n = 0 then del aid (s_open_ws s) else put aid n (s_open_ws s))\<rparr>
                  else s)
        in if has_open_wait s1 aid \<or> 0 < ws_count s1 aid then s1 else broadcast_agent_update s1)"

text \<open>
  The contract of a counter that handlers raise on entry and lower in a deferred call: the client
  lemma is about any interleaving of entries and exits of several handlers.
\<close>

datatype 'k gauge_event = Enter 'k | Leave 'k

locale gauge =
  fixes up :: "'k \<Rightarrow> 's \<Rightarrow> 's"
    and down :: "'k \<Rightarrow> 's \<Rightarrow> 's"
    and level :: "'s \<Rightarrow> 'k \<Rightarrow> int"
    and key_ok :: "'k \<Rightarrow> bool"
  assumes level_up: "key_ok k \<Longrightarrow> level (up k s) j = level s j + (if j = k then 1 else 0)"
    and level_down:
      "key_ok k \<Longrightarrow> level (down k s) j = level s j - (if j = k \<and> 0 < level s k then 1 else 0)"
begin

fun run :: "'k gauge_event list \<Rightarrow> 's \<Rightarrow> 's" where
  "run [] s = s"
| "run (Enter k # es) s = run es (up k s)"
| "run (Leave k # es) s = run es (down k s)"

fun net :: "'k \<Rightarrow> 'k gauge_event list \<Rightarrow> int" where
  "net k [] = 0"
| "net k (Enter j # es) = net k es + (if j = k then 1 else 0)"
| "net k (Leave j # es) = net k es - (if j = k then 1 else 0)"

text \<open>Every exit of \<open>k\<close> has an entry of \<open>k\<close> before it.\<close>

fun paired :: "'k \<Rightarrow> int \<Rightarrow> 'k gauge_event list \<Rightarrow> bool" where
  "paired k n [] = True"
| "paired k n (Enter j # es) = paired k (if j = k then n + 1 else n) es"
| "paired k n (Leave j # es) = (if j = k then 0 < n \<and> paired k (n - 1) es else paired k n es)"

fun keys_ok :: "'k gauge_event list \<Rightarrow> bool" where
  "keys_ok [] = True"
| "keys_ok (Enter k # es) = (key_ok k \<and> keys_ok es)"
| "keys_ok (Leave k # es) = (key_ok k \<and> keys_ok es)"

lemma level_run:
  "keys_ok es \<Longrightarrow> paired k (level s k) es \<Longrightarrow> level (run es s) k = level s k + net k es"
  by (induction es s rule: run.induct) (auto simp: level_up level_down split: if_splits)

lemma balanced_run:
  "keys_ok es \<Longrightarrow> paired k (level s k) es \<Longrightarrow> net k es = 0 \<Longrightarrow> level (run es s) k = level s k"
  by (simp add: level_run)

end

lemma wait_count_frame [simp]: "wait_count (broadcast_meta e s) k = wait_count s k"
  by (simp add: wait_count_def)

lemma wait_count_enter:
  "aid \<noteq> [] \<Longrightarrow> wait_count (enter_wait t aid rid s) j = wait_count s j + (if j = (aid, rid) then 1 else 0)"
  by (cases j) (auto simp: enter_wait_def Let_def broadcasts wait_count_def)

lemma del_Nil_get_or: "del k m = [] \<Longrightarrow> get_or d m j = (if j = k then get_or d m k else d)"
proof -
  assume "del k m = []"
  then have "map_of (del k m) j = None" by simp
  then show ?thesis by (auto simp: get_or_def split: if_splits)
qed

lemma wait_count_leave:
  assumes "aid \<noteq> []"
  shows "wait_count (leave_wait t aid rid s) j =
           wait_count s j - (if j = (aid, rid) \<and> 0 < wait_count s (aid, rid) then 1 else 0)"
proof (cases "0 < get_or 0 (get_or [] (s_open_waits s) aid) rid")
  case False
  then show ?thesis using assms by (auto simp: leave_wait_def wait_count_def)
next
  case True
  let ?sc = "get_or [] (s_open_waits s) aid"
  let ?n = "get_or 0 ?sc rid - 1"
  have "get_or 0 (get_or [] (s_open_waits (leave_wait t aid rid s)) a) r =
      (if a = aid \<and> r = rid then ?n else get_or 0 (get_or [] (s_open_waits s) a) r)" for a r
    using assms True del_Nil_get_or [of rid ?sc 0 r]
    by (auto simp: leave_wait_def Let_def broadcasts)
  then show ?thesis using True by (cases j) (auto simp: wait_count_def)
qed

interpretation wait_gauge: gauge
  "\<lambda>k. enter_wait t (fst k) (snd k)" "\<lambda>k. leave_wait t (fst k) (snd k)" wait_count "\<lambda>k. fst k \<noteq> []"
  by unfold_locales (auto simp: wait_count_enter wait_count_leave)

lemma ws_count_enter: "aid \<noteq> [] \<Longrightarrow> ws_count (enter_ws aid s) j = ws_count s j + (if j = aid then 1 else 0)"
  by (auto simp: enter_ws_def Let_def broadcasts ws_count_def)

lemma ws_count_leave:
  "aid \<noteq> [] \<Longrightarrow>
   ws_count (leave_ws aid s) j = ws_count s j - (if j = aid \<and> 0 < ws_count s aid then 1 else 0)"
  by (auto simp: leave_ws_def Let_def broadcasts ws_count_def)

interpretation ws_gauge: gauge enter_ws leave_ws ws_count "\<lambda>k. k \<noteq> []"
  by unfold_locales (auto simp: ws_count_enter ws_count_leave)

text \<open>No zero counter and no empty scope map is kept, so an agent counts as waiting exactly when
  one of its counters is positive.\<close>

definition wait_table_ok :: "(string, (string, int) table) table \<Rightarrow> bool" where
  "wait_table_ok w =
     (distinct (keys w) \<and>
      (\<forall>(aid, scopes) \<in> set w.
         scopes \<noteq> [] \<and> distinct (keys scopes) \<and> (\<forall>(rid, n) \<in> set scopes. 0 < n)))"

definition waits_ok :: "store \<Rightarrow> bool" where
  "waits_ok s = wait_table_ok (s_open_waits s)"

lemma wait_table_scopes:
  assumes "wait_table_ok w"
  shows "distinct (keys (get_or [] w aid))" "(rid, n) \<in> set (get_or [] w aid) \<Longrightarrow> 0 < n"
  using assms by (fastforce simp: wait_table_ok_def get_or_def split: option.splits dest!: map_of_in_set)+

lemma wait_table_put:
  "wait_table_ok w \<Longrightarrow> sc \<noteq> [] \<Longrightarrow> distinct (keys sc) \<Longrightarrow> (\<And>r n. (r, n) \<in> set sc \<Longrightarrow> 0 < n) \<Longrightarrow>
   wait_table_ok (put aid sc w)"
  by (fastforce simp: wait_table_ok_def dest!: in_set_putD)

lemma wait_table_del: "wait_table_ok w \<Longrightarrow> wait_table_ok (del aid w)"
  by (auto simp: wait_table_ok_def)

lemma put_not_Nil [simp]: "put k v m \<noteq> []"
  by (cases m) auto

lemma waits_ok_enter: "waits_ok s \<Longrightarrow> waits_ok (enter_wait t aid rid s)"
proof (cases "aid = []")
  case False
  assume ok: "waits_ok s"
  let ?sc = "get_or [] (s_open_waits s) aid"
  note sc = wait_table_scopes [OF ok [unfolded waits_ok_def], where aid = aid]
  have pos: "0 \<le> get_or 0 ?sc rid"
    using sc by (fastforce simp: get_or_def [of 0] split: option.splits)
  have "wait_table_ok (put aid (put rid (get_or 0 ?sc rid + 1) ?sc) (s_open_waits s))"
    using ok sc pos by (intro wait_table_put) (auto simp: waits_ok_def dest!: in_set_putD)
  moreover have "s_open_waits (enter_wait t aid rid s) =
      put aid (put rid (get_or 0 ?sc rid + 1) ?sc) (s_open_waits s)"
    using False by (simp only: enter_wait_def Let_def broadcasts if_False if_distrib [of s_open_waits]
        broadcast_meta_frame if_cancel) simp
  ultimately show ?thesis by (simp only: waits_ok_def)
qed (simp add: enter_wait_def)

lemma waits_ok_leave: "waits_ok s \<Longrightarrow> waits_ok (leave_wait t aid rid s)"
proof (cases "aid = [] \<or> \<not> 0 < get_or 0 (get_or [] (s_open_waits s) aid) rid")
  case False
  assume ok: "waits_ok s"
  let ?sc = "get_or [] (s_open_waits s) aid"
  note sc = wait_table_scopes [OF ok [unfolded waits_ok_def], where aid = aid]
  show ?thesis
  proof (cases "get_or 0 ?sc rid - 1 = 0")
    case True
    have "wait_table_ok (if del rid ?sc = [] then del aid (s_open_waits s)
                         else put aid (del rid ?sc) (s_open_waits s))"
      using ok sc by (auto simp: waits_ok_def intro!: wait_table_put wait_table_del)
    then show ?thesis
      using False True
      by (simp add: leave_wait_def Let_def broadcasts waits_ok_def split: if_splits)
  next
    case pos: False
    have "wait_table_ok (put aid (put rid (get_or 0 ?sc rid - 1) ?sc) (s_open_waits s))"
      using ok sc False pos by (intro wait_table_put) (auto simp: waits_ok_def dest!: in_set_putD)
    then show ?thesis
      using False pos by (simp add: leave_wait_def Let_def broadcasts waits_ok_def)
  qed
qed (auto simp: leave_wait_def)

lemma has_open_wait_iff:
  assumes "waits_ok s"
  shows "has_open_wait s aid \<longleftrightarrow> (\<exists>rid. 0 < wait_count s (aid, rid))"
proof
  assume "has_open_wait s aid"
  then obtain rid n where p: "(rid, n) \<in> set (get_or [] (s_open_waits s) aid)"
    by (cases "get_or [] (s_open_waits s) aid") (auto simp: has_open_wait_def)
  then have "map_of (get_or [] (s_open_waits s) aid) rid = Some n"
    using wait_table_scopes(1) [OF assms [unfolded waits_ok_def]] by simp
  moreover have "0 < n" using wait_table_scopes(2) [OF assms [unfolded waits_ok_def] p] .
  ultimately show "\<exists>rid. 0 < wait_count s (aid, rid)"
    by (auto simp: wait_count_def get_or_def [of 0] intro!: exI [of _ rid])
next
  assume "\<exists>rid. 0 < wait_count s (aid, rid)"
  then show "has_open_wait s aid"
    by (auto simp: has_open_wait_def wait_count_def get_or_def [of 0] split: option.splits)
qed

text \<open>C17. Presence counters balance: after any interleaving of handler entries and exits in which
  every exit follows an entry of its own, the counter of open waits of each agent and scope is
  what it was plus the entries minus the exits; in particular closed waits leave no trace.\<close>

theorem presence_counters_balance:
  assumes "wait_gauge.keys_ok es" "wait_gauge.paired k (wait_count s k) es"
  shows "wait_count (wait_gauge.run t es s) k = wait_count s k + wait_gauge.net k es"
  using assms by (rule wait_gauge.level_run)

lemma presence_counters_balance_witness:
  "wait_count (wait_gauge.run 0 [Enter (''a'', ''r''), Enter (''a'', []), Leave (''a'', ''r'')] empty_store)
     (''a'', ''r'') = 0"
proof -
  have e: "wait_count empty_store (''a'', ''r'') = 0"
    by (simp add: wait_count_def empty_store_def)
  show ?thesis
    using presence_counters_balance
      [of "[Enter (''a'', ''r''), Enter (''a'', []), Leave (''a'', ''r'')]" "(''a'', ''r'')" empty_store 0]
    by (simp add: e)
qed

subsection \<open>System messages\<close>

definition blank_message :: message where
  "blank_message =
     \<lparr>m_id = 0, m_room = [], m_from = [], m_from_kind = [], m_from_harness = [], m_from_model = [],
      m_body = [], m_created = At 0, m_reply_to = 0, m_targets = None, m_attention = False,
      m_answers = [], m_questions = [], m_plan = [], m_appendix = [], m_attachments = [],
      m_reactions = []\<rparr>"

definition append_message :: "string \<Rightarrow> message \<Rightarrow> store \<Rightarrow> store" where
  "append_message rid m s =
     insert_message_row m (s\<lparr>s_messages := put rid (room_log s rid @ [m]) (s_messages s)\<rparr>)"

definition publish_message :: "string \<Rightarrow> message \<Rightarrow> store \<Rightarrow> store" where
  "publish_message rid m s =
     (let s1 = notify_message rid m s
      in if m_attention m then broadcast_meta (AttentionEvent rid m) s1 else s1)"

definition system_message ::
    "int \<Rightarrow> int \<Rightarrow> string \<Rightarrow> string \<Rightarrow> string list option \<Rightarrow> bool \<Rightarrow> message" where
  "system_message t i rid body targets attention =
     blank_message\<lparr>m_id := i, m_room := rid, m_from := ''_system'', m_from_kind := ''system'',
       m_body := body, m_created := stamp_of t, m_targets := targets, m_attention := attention\<rparr>"

definition emit_system_full ::
    "int \<Rightarrow> string \<Rightarrow> string \<Rightarrow> string list option \<Rightarrow> bool \<Rightarrow> store \<Rightarrow> store" where
  "emit_system_full t rid body targets attention s =
     (let i = s_next_id s + 1; s1 = s\<lparr>s_next_id := i\<rparr>;
          m = system_message t i rid body targets attention
      in if \<not> has_key (s_rooms s1) rid then s1
         else publish_message rid m (append_message rid m s1))"

definition emit_system_to ::
    "int \<Rightarrow> string \<Rightarrow> string \<Rightarrow> string list option \<Rightarrow> store \<Rightarrow> store" where
  "emit_system_to t rid body targets s = emit_system_full t rid body targets False s"

definition emit_system :: "int \<Rightarrow> string \<Rightarrow> string \<Rightarrow> store \<Rightarrow> store" where
  "emit_system t rid body s = emit_system_to t rid body None s"

definition emit_to_actor_rooms :: "int \<Rightarrow> string \<Rightarrow> string \<Rightarrow> store \<Rightarrow> store" where
  "emit_to_actor_rooms t actor body s =
     fold (\<lambda>rid. emit_system t rid body)
       (map fst (filter (\<lambda>(rid, r). rid \<noteq> ''_system'' \<and> \<not> is_dm rid \<and> actor \<in> set (r_members r))
                   (s_rooms s))) s"

definition system_room :: string where "system_room = ''_system''"

subsection \<open>Room preferences\<close>

definition no_pref :: room_pref where
  "no_pref = \<lparr>rp_hidden = False, rp_pinned = False\<rparr>"

definition room_pref_of :: "store \<Rightarrow> string \<Rightarrow> string \<Rightarrow> room_pref" where
  "room_pref_of s aid rid = get_or no_pref (get_or [] (s_prefs s) aid) rid"

definition room_has_other_member :: "store \<Rightarrow> string \<Rightarrow> string \<Rightarrow> bool" where
  "room_has_other_member s rid aid =
     (case map_of (s_rooms s) rid of
        None \<Rightarrow> False | Some r \<Rightarrow> list_ex (\<lambda>m. m \<noteq> aid) (r_members r))"

definition room_has_ai_agent :: "store \<Rightarrow> string \<Rightarrow> bool" where
  "room_has_ai_agent s rid =
     (case map_of (s_rooms s) rid of
        None \<Rightarrow> False
      | Some r \<Rightarrow>
          list_ex (\<lambda>m. case map_of (s_agents s) m of None \<Rightarrow> False | Some a \<Rightarrow> a_kind a = ''ai'')
            (r_members r))"

definition set_room_pref ::
    "string \<Rightarrow> string \<Rightarrow> bool option \<Rightarrow> bool option \<Rightarrow> store \<Rightarrow> room_pref \<times> store" where
  "set_room_pref aid rid hidden pinned s =
     (let prefs = get_or [] (s_prefs s) aid; p0 = get_or no_pref prefs rid;
          p1 = (case hidden of None \<Rightarrow> p0 | Some h \<Rightarrow> p0\<lparr>rp_hidden := h\<rparr>);
          p = (case pinned of None \<Rightarrow> p1 | Some b \<Rightarrow> p1\<lparr>rp_pinned := b\<rparr>);
          all = (if \<not> rp_hidden p \<and> \<not> rp_pinned p
                 then (let rest = del rid prefs
                       in if rest = [] then del aid (s_prefs s) else put aid rest (s_prefs s))
                 else put aid (put rid p prefs) (s_prefs s))
      in (p, persist_prefs (s\<lparr>s_prefs := all\<rparr>)))"

definition unhide_entry :: "string \<Rightarrow> (string, room_pref) table \<Rightarrow> (string, room_pref) table" where
  "unhide_entry rid prefs =
     (case map_of prefs rid of
        None \<Rightarrow> prefs
      | Some p \<Rightarrow>
          if rp_hidden p
          then (if rp_pinned p then put rid (p\<lparr>rp_hidden := False\<rparr>) prefs else del rid prefs)
          else prefs)"

definition hidden_in :: "string \<Rightarrow> (string, room_pref) table \<Rightarrow> bool" where
  "hidden_in rid prefs = (case map_of prefs rid of None \<Rightarrow> False | Some p \<Rightarrow> rp_hidden p)"

definition clear_hidden_for_room :: "string \<Rightarrow> store \<Rightarrow> bool \<times> store" where
  "clear_hidden_for_room rid s =
     (list_ex (\<lambda>(aid, prefs). hidden_in rid prefs) (s_prefs s),
      s\<lparr>s_prefs := map_vals (\<lambda>_. unhide_entry rid) (s_prefs s)\<rparr>)"

definition unhide_for_addressed :: "string \<Rightarrow> string list \<Rightarrow> store \<Rightarrow> bool \<times> store" where
  "unhide_for_addressed rid targets s =
     (let hit = (\<lambda>aid. list_ex (\<lambda>t. addressed_matches_agent t aid) targets)
      in (list_ex (\<lambda>(aid, prefs). hidden_in rid prefs \<and> hit aid) (s_prefs s),
          s\<lparr>s_prefs :=
              map_vals (\<lambda>aid prefs. if hit aid then unhide_entry rid prefs else prefs) (s_prefs s)\<rparr>))"

definition clear_all_prefs :: "store \<Rightarrow> store" where
  "clear_all_prefs s = (if s_prefs s = [] then s else persist_prefs (s\<lparr>s_prefs := []\<rparr>))"

text \<open>The join paths unhide the room and save the preferences when that changed one.\<close>

definition unhide_room :: "string \<Rightarrow> store \<Rightarrow> store" where
  "unhide_room rid s =
     (let (changed, s1) = clear_hidden_for_room rid s in if changed then persist_prefs s1 else s1)"

lemma room_pref_set:
  assumes "set_room_pref aid rid hidden pinned s = (p, s')"
  shows "room_pref_of s' aid rid = p"
    and "(a, r) \<noteq> (aid, rid) \<Longrightarrow> room_pref_of s' a r = room_pref_of s a r"
proof -
  let ?pf = "get_or [] (s_prefs s) aid"
  have no: "p = no_pref" if "\<not> rp_hidden p" "\<not> rp_pinned p"
    using that by (cases p) (simp add: no_pref_def)
  show "room_pref_of s' aid rid = p"
    using assms no del_Nil_get_or [of rid ?pf no_pref rid]
    by (auto simp: set_room_pref_def Let_def room_pref_of_def persist_prefs_def split: if_splits)
  show "room_pref_of s' a r = room_pref_of s a r" if "(a, r) \<noteq> (aid, rid)"
    using assms that del_Nil_get_or [of rid ?pf no_pref r]
    by (auto simp: set_room_pref_def Let_def room_pref_of_def persist_prefs_def split: if_splits)
qed

lemma unhide_entry_pref:
  "get_or no_pref (unhide_entry rid prefs) r =
     (if r = rid then (get_or no_pref prefs rid)\<lparr>rp_hidden := False\<rparr> else get_or no_pref prefs r)"
proof (cases "map_of prefs rid")
  case None
  then show ?thesis by (simp add: unhide_entry_def get_or_None) (simp add: no_pref_def)
next
  case (Some p)
  then show ?thesis
    by (cases p) (auto simp: unhide_entry_def no_pref_def get_or_Some)
qed

lemma room_pref_unhide:
  "room_pref_of (unhide_room rid s) a r =
     (if r = rid then (room_pref_of s a rid)\<lparr>rp_hidden := False\<rparr> else room_pref_of s a r)"
proof -
  have e: "s_prefs (unhide_room rid s) = map_vals (\<lambda>_. unhide_entry rid) (s_prefs s)"
    by (simp add: unhide_room_def clear_hidden_for_room_def persist_prefs_def)
  have "get_or no_pref (get_or [] (map_vals (\<lambda>_. unhide_entry rid) (s_prefs s)) a) r =
      get_or no_pref (unhide_entry rid (get_or [] (s_prefs s) a)) r"
    by (cases "map_of (s_prefs s) a") (simp_all add: get_or_def unhide_entry_def)
  then show ?thesis by (simp add: room_pref_of_def e unhide_entry_pref)
qed

end
