(* ===== verification/StoreInv.thy ===== *)
theory StoreInv
  imports Bus
begin

section \<open>The invariant of the store\<close>

text \<open>
  The well-formedness of the store in four parts, each a predicate of the fields it is about, so
  that an operation that leaves the fields alone keeps the part by its frame lemma. Then the
  frame and preservation lemmas of the building blocks of \<open>Bus\<close>.
\<close>

subsection \<open>The parts\<close>

definition room_ok :: "(string, agent) table \<Rightarrow> string \<Rightarrow> room \<Rightarrow> bool" where
  "room_ok ags k r =
     (r_id r = k \<and> distinct (r_members r) \<and> set (r_members r) \<subseteq> set (keys ags) \<and>
      distinct (keys (r_roles r)) \<and> set (keys (r_roles r)) \<subseteq> set (r_members r))"

definition rooms_ok :: "(string, room) table \<Rightarrow> (string, agent) table \<Rightarrow> bool" where
  "rooms_ok rooms ags = (distinct (keys rooms) \<and> (\<forall>(k, r) \<in> set rooms. room_ok ags k r))"

definition agents_ok :: "(string, agent) table \<Rightarrow> bool" where
  "agents_ok ags = (distinct (keys ags) \<and> (\<forall>(k, a) \<in> set ags. a_id a = k))"

definition all_logged :: "(string, message list) table \<Rightarrow> message list" where
  "all_logged msgs = concat (map snd msgs)"

definition log_ok :: "(string, message list) table \<Rightarrow> (string, room) table \<Rightarrow> int \<Rightarrow> bool" where
  "log_ok msgs rooms n =
     (distinct (keys msgs) \<and> set (keys msgs) \<subseteq> set (keys rooms) \<and> 0 \<le> n \<and>
      distinct (map m_id (all_logged msgs)) \<and>
      (\<forall>(k, ms) \<in> set msgs. sorted_wrt (<) (map m_id ms) \<and>
         (\<forall>m \<in> set ms. m_room m = k \<and> 0 < m_id m \<and> m_id m \<le> n)))"

definition reactions_ok :: "(int, reaction list) table \<Rightarrow> (string, message list) table \<Rightarrow> bool" where
  "reactions_ok rs msgs =
     (distinct (keys rs) \<and> set (keys rs) \<subseteq> m_id ` set (all_logged msgs) \<and>
      (\<forall>(i, xs) \<in> set rs. xs \<noteq> [] \<and> distinct (map (\<lambda>x. (re_agent x, re_emoji x)) xs)))"

definition store_ok :: "store \<Rightarrow> bool" where
  "store_ok s =
     (rooms_ok (s_rooms s) (s_agents s) \<and> agents_ok (s_agents s) \<and>
      log_ok (s_messages s) (s_rooms s) (s_next_id s) \<and> reactions_ok (s_reactions s) (s_messages s))"

named_theorems inv \<open>preservation of the parts of the store invariant\<close>

subsection \<open>Rooms and agents under the table operations\<close>

lemma rooms_ok_lookup: "rooms_ok rooms ags \<Longrightarrow> map_of rooms k = Some r \<Longrightarrow> room_ok ags k r"
  by (auto simp: rooms_ok_def dest!: map_of_in_set)

lemma rooms_ok_put [inv]: "rooms_ok rooms ags \<Longrightarrow> room_ok ags k r \<Longrightarrow> rooms_ok (put k r rooms) ags"
  by (auto simp: rooms_ok_def dest!: in_set_putD)

lemma rooms_ok_del [inv]: "rooms_ok rooms ags \<Longrightarrow> rooms_ok (del k rooms) ags"
  by (auto simp: rooms_ok_def)

lemma room_ok_mono: "room_ok ags k r \<Longrightarrow> set (keys ags) \<subseteq> set (keys ags') \<Longrightarrow> room_ok ags' k r"
  by (auto simp: room_ok_def)

lemma rooms_ok_mono: "rooms_ok rooms ags \<Longrightarrow> set (keys ags) \<subseteq> set (keys ags') \<Longrightarrow> rooms_ok rooms ags'"
  unfolding rooms_ok_def by (auto intro: room_ok_mono simp del: set_map)

lemma rooms_ok_put_agent [inv]: "rooms_ok rooms ags \<Longrightarrow> rooms_ok rooms (put k a ags)"
  by (erule rooms_ok_mono) (auto simp del: set_map)

lemma rooms_ok_map_agents [inv]: "rooms_ok rooms ags \<Longrightarrow> rooms_ok rooms (map_vals f ags)"
  by (erule rooms_ok_mono) simp

lemma agents_ok_put [inv]: "agents_ok ags \<Longrightarrow> a_id a = k \<Longrightarrow> agents_ok (put k a ags)"
  by (auto simp: agents_ok_def dest!: in_set_putD)

lemma agents_ok_del [inv]: "agents_ok ags \<Longrightarrow> agents_ok (del k ags)"
  by (auto simp: agents_ok_def)

lemma agents_ok_lookup: "agents_ok ags \<Longrightarrow> map_of ags k = Some a \<Longrightarrow> a_id a = k"
  by (auto simp: agents_ok_def dest!: map_of_in_set)

lemma agents_ok_map [inv]: "agents_ok ags \<Longrightarrow> (\<And>k a. a_id (f k a) = a_id a) \<Longrightarrow> agents_ok (map_vals f ags)"
  by (fastforce simp: agents_ok_def snd_in_map_vals)

lemma room_ok_empty [simp]:
  "room_ok ags k \<lparr>r_id = k, r_members = [], r_created = c, r_created_by = b, r_roles = [], r_memory = x\<rparr>"
  by (simp add: room_ok_def)

lemma room_ok_join:
  "room_ok ags k r \<Longrightarrow> aid \<in> set (keys ags) \<Longrightarrow> aid \<notin> set (r_members r) \<Longrightarrow>
   room_ok ags k (r\<lparr>r_members := r_members r @ [aid]\<rparr>)"
  by (auto simp: room_ok_def)

lemma room_ok_leave:
  "room_ok ags k r \<Longrightarrow>
   room_ok ags k (r\<lparr>r_members := remove1 aid (r_members r), r_roles := del aid (r_roles r)\<rparr>)"
  using set_remove1_subset [of aid "r_members r"]
  by (simp add: room_ok_def set_remove1_eq del: set_map) blast

subsection \<open>The message logs\<close>

lemma set_all_logged: "set (all_logged msgs) = (\<Union>p \<in> set msgs. set (snd p))"
  by (auto simp: all_logged_def)

lemma set_put: "distinct (keys m) \<Longrightarrow> set (put k v m) = insert (k, v) {p \<in> set m. fst p \<noteq> k}"
  by (auto simp: in_set_put)

lemma set_del: "set (del k m) = {p \<in> set m. fst p \<noteq> k}"
  by auto

lemma all_logged_put:
  "distinct (keys msgs) \<Longrightarrow>
   set (all_logged (put k ms msgs)) = set ms \<union> set (all_logged (del k msgs))"
  by (simp only: set_all_logged set_put set_del) auto

lemma all_logged_split:
  assumes "distinct (keys msgs)"
  shows "set (all_logged msgs) = set (get_or [] msgs k) \<union> set (all_logged (del k msgs))"
proof (cases "map_of msgs k")
  case None
  then have "del k msgs = msgs" by (simp add: delete_idem map_of_eq_None_iff)
  then show ?thesis using None by (simp add: get_or_None)
next
  case (Some ys)
  then have "put k ys msgs = msgs"
    by (induction msgs) (auto split: if_splits)
  then show ?thesis
    using all_logged_put [OF assms, of k ys] Some by (simp add: get_or_Some)
qed

lemma distinct_split: "distinct (keys msgs) \<Longrightarrow>
   distinct (map f (all_logged msgs)) \<longleftrightarrow>
   distinct (map f (get_or [] msgs k)) \<and> distinct (map f (all_logged (del k msgs))) \<and>
   f ` set (get_or [] msgs k) \<inter> f ` set (all_logged (del k msgs)) = {}"
proof (induction msgs)
  case Nil
  then show ?case by (simp add: all_logged_def)
next
  case (Cons p msgs)
  obtain k' ms where p: "p = (k', ms)" by (cases p)
  have nk: "k' \<notin> set (keys msgs)" and d: "distinct (keys msgs)" using Cons.prems p by auto
  show ?case
  proof (cases "k' = k")
    case True
    have "del k msgs = msgs" using nk True by (simp add: delete_idem)
    then show ?thesis using True p by (auto simp: all_logged_def)
  next
    case False
    have *: "all_logged (p # msgs) = ms @ all_logged msgs"
      "all_logged (del k (p # msgs)) = ms @ all_logged (del k msgs)"
      "get_or [] (p # msgs) k = get_or [] msgs k"
      using False p by (simp_all add: all_logged_def)
    show ?thesis
      unfolding * map_append distinct_append set_map set_append image_Un
        all_logged_split [OF d, of k] Cons.IH [OF d]
      by blast
  qed
qed

lemma log_ok_del [inv]: "log_ok msgs rooms n \<Longrightarrow> log_ok (del k msgs) (del k rooms) n"
  using distinct_split [of msgs m_id k] by (auto simp: log_ok_def simp del: set_map)

lemma log_ok_rooms: "log_ok msgs rooms n \<Longrightarrow> set (keys rooms) \<subseteq> set (keys rooms') \<Longrightarrow> log_ok msgs rooms' n"
  unfolding log_ok_def by blast

lemma log_ok_put_room [inv]: "log_ok msgs rooms n \<Longrightarrow> log_ok msgs (put k r rooms) n"
  by (erule log_ok_rooms) (auto simp del: set_map)

lemma log_ok_map_rooms [inv]: "log_ok msgs rooms n \<Longrightarrow> log_ok msgs (map_vals f rooms) n"
  by (erule log_ok_rooms) simp

lemma log_ok_next: "log_ok msgs rooms n \<Longrightarrow> n \<le> n' \<Longrightarrow> log_ok msgs rooms n'"
  unfolding log_ok_def by fastforce

lemma log_ok_log:
  assumes "log_ok msgs rooms n"
  shows "sorted_wrt (<) (map m_id (get_or [] msgs k))"
    "m \<in> set (get_or [] msgs k) \<Longrightarrow> m_room m = k \<and> 0 < m_id m \<and> m_id m \<le> n"
  using assms by (cases "map_of msgs k"; fastforce simp: log_ok_def get_or_def)+

lemma logged_bound:
  "log_ok msgs rooms n \<Longrightarrow> m \<in> set (all_logged msgs) \<Longrightarrow> 0 < m_id m \<and> m_id m \<le> n"
  by (fastforce simp: log_ok_def set_all_logged)

text \<open>Appending a message with the next id: ids stay strictly increasing along every room.\<close>

lemma log_ok_append:
  assumes ok: "log_ok msgs rooms n" and k: "k \<in> set (keys rooms)" and m: "m_room m = k" "m_id m = n + 1"
  shows "log_ok (put k (get_or [] msgs k @ [m]) msgs) rooms (n + 1)"
proof -
  let ?ms = "get_or [] msgs k @ [m]"
  have d: "distinct (keys msgs)" and n: "0 \<le> n" using ok by (auto simp: log_ok_def)
  have log: "sorted_wrt (<) (map m_id ?ms)" "\<forall>x \<in> set ?ms. m_room x = k \<and> 0 < m_id x \<and> m_id x \<le> n + 1"
    using log_ok_log [OF ok, where k = k] m n by (fastforce simp: sorted_wrt_append)+
  have del: "del k (put k ?ms msgs) = del k msgs" by (rule delete_update_same)
  have rest: "distinct (map m_id (all_logged (del k msgs)))"
    using log_ok_del [OF ok, of k] by (simp add: log_ok_def)
  have bound: "m_id x \<le> n" if "x \<in> set (all_logged (del k msgs))" for x
    using that logged_bound [OF log_ok_del [OF ok, of k]] by blast
  have old: "distinct (map m_id (get_or [] msgs k))"
    "m_id ` set (get_or [] msgs k) \<inter> m_id ` set (all_logged (del k msgs)) = {}"
    using distinct_split [OF d, of m_id k] ok by (simp_all add: log_ok_def)
  have old_bound: "m_id x \<le> n" if "x \<in> set (get_or [] msgs k)" for x
    using that log_ok_log(2) [OF ok, where k = k] by blast
  have "distinct (map m_id ?ms)" using old(1) old_bound m(2) by fastforce
  moreover have "m_id ` set ?ms \<inter> m_id ` set (all_logged (del k msgs)) = {}"
    using old(2) bound m(2) by fastforce
  ultimately have "distinct (map m_id (all_logged (put k ?ms msgs)))"
    using rest distinct_split [OF distinct_put [OF d, of k ?ms], of m_id k] by (simp add: del)
  moreover have "sorted_wrt (<) (map m_id ms) \<and> (\<forall>x \<in> set ms. m_room x = j \<and> 0 < m_id x \<and> m_id x \<le> n + 1)"
    if "(j, ms) \<in> set (put k ?ms msgs)" for j ms
    using in_set_putD [OF that] log ok unfolding log_ok_def by fastforce
  ultimately show ?thesis
    using ok k n unfolding log_ok_def by (auto simp del: set_map)
qed

subsection \<open>Reactions\<close>

lemma reactions_ok_mono:
  "reactions_ok rs msgs \<Longrightarrow> set (all_logged msgs) \<subseteq> set (all_logged msgs') \<Longrightarrow> reactions_ok rs msgs'"
  unfolding reactions_ok_def by blast

lemma reactions_ok_append [inv]:
  "distinct (keys msgs) \<Longrightarrow> reactions_ok rs msgs \<Longrightarrow>
   reactions_ok rs (put k (get_or [] msgs k @ [m]) msgs)"
proof (erule reactions_ok_mono)
  assume d: "distinct (keys msgs)"
  show "set (all_logged msgs) \<subseteq> set (all_logged (put k (get_or [] msgs k @ [m]) msgs))"
    using all_logged_split [OF d, of k] all_logged_put [OF d, of k "get_or [] msgs k @ [m]"] by auto
qed

subsection \<open>Frames\<close>

text \<open>The building blocks touch the fields their name says, and the queues of the subscribers.\<close>

lemma persist_frame [frame, simp]:
  "s_room_subs (persist s) = s_room_subs s" "s_role_defaults (persist s) = s_role_defaults s"
  "db_messages (s_db (persist s)) = db_messages (s_db s)"
  "db_rooms (s_db (persist s)) = s_rooms s" "db_prefs (s_db (persist s)) = db_prefs (s_db s)"
  "keys (db_agents (s_db (persist s))) = keys (s_agents s)"
  by (simp_all add: persist_def)

lemma persist_prefs_frame [frame, simp]:
  "s_rooms (persist_prefs s) = s_rooms s" "s_messages (persist_prefs s) = s_messages s"
  "s_agents (persist_prefs s) = s_agents s" "s_next_id (persist_prefs s) = s_next_id s"
  "s_reactions (persist_prefs s) = s_reactions s" "s_prefs (persist_prefs s) = s_prefs s"
  "s_open_waits (persist_prefs s) = s_open_waits s" "s_sessions (persist_prefs s) = s_sessions s"
  "s_role_custom (persist_prefs s) = s_role_custom s"
  "s_role_overrides (persist_prefs s) = s_role_overrides s"
  "s_attachments (persist_prefs s) = s_attachments s" "s_memory (persist_prefs s) = s_memory s"
  "s_settings (persist_prefs s) = s_settings s"
  by (simp_all add: persist_prefs_def)

lemma unhide_room_frame [frame, simp]:
  "s_rooms (unhide_room rid s) = s_rooms s" "s_messages (unhide_room rid s) = s_messages s"
  "s_agents (unhide_room rid s) = s_agents s" "s_next_id (unhide_room rid s) = s_next_id s"
  "s_reactions (unhide_room rid s) = s_reactions s" "s_sessions (unhide_room rid s) = s_sessions s"
  "s_role_custom (unhide_room rid s) = s_role_custom s" "s_settings (unhide_room rid s) = s_settings s"
  "s_role_overrides (unhide_room rid s) = s_role_overrides s"
  "s_attachments (unhide_room rid s) = s_attachments s" "s_memory (unhide_room rid s) = s_memory s"
  "s_open_waits (unhide_room rid s) = s_open_waits s"
  by (simp_all add: unhide_room_def clear_hidden_for_room_def)

lemma publish_frame [frame, simp]:
  "s_rooms (publish_message rid m s) = s_rooms s" "s_messages (publish_message rid m s) = s_messages s"
  "s_agents (publish_message rid m s) = s_agents s" "s_next_id (publish_message rid m s) = s_next_id s"
  "s_reactions (publish_message rid m s) = s_reactions s" "s_prefs (publish_message rid m s) = s_prefs s"
  "s_sessions (publish_message rid m s) = s_sessions s" "s_db (publish_message rid m s) = s_db s"
  "s_role_custom (publish_message rid m s) = s_role_custom s"
  "s_role_overrides (publish_message rid m s) = s_role_overrides s"
  "s_settings (publish_message rid m s) = s_settings s"
  "s_attachments (publish_message rid m s) = s_attachments s"
  "s_memory (publish_message rid m s) = s_memory s"
  "s_open_waits (publish_message rid m s) = s_open_waits s"
  by (simp_all add: publish_message_def notify_message_def Let_def)

lemma append_message_frame [frame, simp]:
  "s_rooms (append_message rid m s) = s_rooms s" "s_agents (append_message rid m s) = s_agents s"
  "s_next_id (append_message rid m s) = s_next_id s" "s_prefs (append_message rid m s) = s_prefs s"
  "s_reactions (append_message rid m s) = s_reactions s"
  "s_sessions (append_message rid m s) = s_sessions s"
  "s_role_custom (append_message rid m s) = s_role_custom s"
  "s_role_overrides (append_message rid m s) = s_role_overrides s"
  "s_settings (append_message rid m s) = s_settings s"
  "s_attachments (append_message rid m s) = s_attachments s"
  "s_memory (append_message rid m s) = s_memory s"
  "s_open_waits (append_message rid m s) = s_open_waits s"
  "s_messages (append_message rid m s) = put rid (room_log s rid @ [m]) (s_messages s)"
  by (simp_all add: append_message_def insert_message_row_def)

lemma emit_frame [frame, simp]:
  "s_rooms (emit_system_full t rid b ts att s) = s_rooms s"
  "s_agents (emit_system_full t rid b ts att s) = s_agents s"
  "s_prefs (emit_system_full t rid b ts att s) = s_prefs s"
  "s_reactions (emit_system_full t rid b ts att s) = s_reactions s"
  "s_sessions (emit_system_full t rid b ts att s) = s_sessions s"
  "s_role_custom (emit_system_full t rid b ts att s) = s_role_custom s"
  "s_role_overrides (emit_system_full t rid b ts att s) = s_role_overrides s"
  "s_settings (emit_system_full t rid b ts att s) = s_settings s"
  "s_attachments (emit_system_full t rid b ts att s) = s_attachments s"
  "s_memory (emit_system_full t rid b ts att s) = s_memory s"
  "s_open_waits (emit_system_full t rid b ts att s) = s_open_waits s"
  "s_next_id (emit_system_full t rid b ts att s) = s_next_id s + 1"
  by (simp_all add: emit_system_full_def Let_def)

lemma emit_messages:
  "s_messages (emit_system_full t rid b ts att s) =
     (if has_key (s_rooms s) rid
      then put rid (room_log s rid @ [system_message t (s_next_id s + 1) rid b ts att]) (s_messages s)
      else s_messages s)"
  by (simp add: emit_system_full_def Let_def room_log_def)

lemmas emits = emit_system_def emit_system_to_def

subsection \<open>Preservation by the building blocks\<close>

lemma store_ok_cong:
  "s_rooms s' = s_rooms s \<Longrightarrow> s_agents s' = s_agents s \<Longrightarrow> s_messages s' = s_messages s \<Longrightarrow>
   s_next_id s' = s_next_id s \<Longrightarrow> s_reactions s' = s_reactions s \<Longrightarrow> store_ok s' = store_ok s"
  by (simp add: store_ok_def)

lemma store_ok_blocks [inv, simp]:
  "store_ok (broadcast_meta e s) = store_ok s" "store_ok (persist s) = store_ok s"
  "store_ok (persist_prefs s) = store_ok s" "store_ok (unhide_room rid s) = store_ok s"
  "store_ok (publish_message rid m s) = store_ok s"
  by (rule store_ok_cong; simp)+

lemma store_ok_broadcasts [inv, simp]:
  "store_ok (broadcast_room_update s) = store_ok s" "store_ok (broadcast_agent_update s) = store_ok s"
  "store_ok (broadcast_roles_updated s) = store_ok s" "store_ok (broadcast_macros_updated s) = store_ok s"
  "store_ok (broadcast_presence t a r c w s) = store_ok s"
  "store_ok (broadcast_read_update t a r c s) = store_ok s"
  by (simp_all add: broadcasts Let_def)

lemma store_ok_append:
  assumes "store_ok s" "has_key (s_rooms s) rid" "m_room m = rid" "m_id m = s_next_id s + 1"
  shows "store_ok (append_message rid m (s\<lparr>s_next_id := s_next_id s + 1\<rparr>))"
  using assms log_ok_append [of "s_messages s" "s_rooms s" "s_next_id s" rid m]
  by (auto simp: store_ok_def room_log_def has_key_iff log_ok_def [of "s_messages s"]
      intro: reactions_ok_append simp del: set_map)

lemma store_ok_emit [inv]:
  assumes "store_ok s"
  shows "store_ok (emit_system_full t rid b ts att s)"
proof (cases "has_key (s_rooms s) rid")
  case True
  then show ?thesis
    using store_ok_append [OF assms True, of "system_message t (s_next_id s + 1) rid b ts att"]
    by (simp add: emit_system_full_def Let_def system_message_def)
next
  case False
  then show ?thesis
    using assms log_ok_next [of "s_messages s" "s_rooms s" "s_next_id s" "s_next_id s + 1"]
    by (simp add: emit_system_full_def Let_def store_ok_def)
qed

lemma store_ok_emits [inv]:
  "store_ok s \<Longrightarrow> store_ok (emit_system t rid b s)" "store_ok s \<Longrightarrow> store_ok (emit_system_to t rid b ts s)"
  by (simp_all add: emits store_ok_emit)

lemma store_ok_fold: "(\<And>x s. store_ok s \<Longrightarrow> store_ok (f x s)) \<Longrightarrow> store_ok s \<Longrightarrow> store_ok (fold f xs s)"
  by (induction xs arbitrary: s) auto

lemma store_ok_waits [inv]:
  "store_ok (enter_wait t a r s) = store_ok s" "store_ok (leave_wait t a r s) = store_ok s"
  by (rule store_ok_cong; simp add: enter_wait_def leave_wait_def Let_def broadcasts)+

lemma store_ok_set_pref [inv]: "store_ok (snd (set_room_pref a r h p s)) = store_ok s"
  by (rule store_ok_cong; simp add: set_room_pref_def Let_def)

lemma has_key_lookup: "has_key m k \<Longrightarrow> \<exists>v. map_of m k = Some v"
  by (auto simp: has_key_def)

lemma store_ok_empty: "store_ok empty_store"
  by (simp add: store_ok_def rooms_ok_def agents_ok_def log_ok_def reactions_ok_def all_logged_def
      empty_store_def)

subsection \<open>A small store\<close>

definition sample_agent :: "string \<Rightarrow> string \<Rightarrow> string \<Rightarrow> agent" where
  "sample_agent aid kind model =
     \<lparr>a_id = aid, a_name = agent_short_name aid, a_kind = kind, a_model = model,
      a_harness = (if kind = ''ai'' then ''codex'' else []), a_project = [], a_meta = [],
      a_state = NoState, a_state_at = None, a_pending = NoState, a_overlay = False,
      a_warnings = [], a_registered = At 0, a_last_seen = At 0, a_cursors = []\<rparr>"

definition sample_message :: "int \<Rightarrow> string \<Rightarrow> string \<Rightarrow> string \<Rightarrow> message" where
  "sample_message i rid who body =
     blank_message\<lparr>m_id := i, m_room := rid, m_from := who, m_from_kind := ''ai'', m_body := body\<rparr>"

definition sample_store :: store where
  "sample_store =
     empty_store\<lparr>s_agents :=
       [(''ann'', sample_agent ''ann'' ''human'' []),
        (''bob@web'', sample_agent ''bob@web'' ''ai'' ''m1''),
        (''cleo@web'', sample_agent ''cleo@web'' ''ai'' ''m2'')],
       s_rooms :=
         [(''dev'', \<lparr>r_id = ''dev'', r_members = [''ann'', ''bob@web'', ''cleo@web''],
             r_created = At 0, r_created_by = ''ann'', r_roles = [(''bob@web'', ''worker'')],
             r_memory = None\<rparr>),
          (''_system'', \<lparr>r_id = ''_system'', r_members = [''ann''], r_created = At 0,
             r_created_by = ''_system'', r_roles = [], r_memory = None\<rparr>)],
       s_messages := [(''dev'', [sample_message 2 ''dev'' ''bob@web'' ''hello'',
                                sample_message 4 ''dev'' ''cleo@web'' ''hi''])],
       s_reactions := [(2, [\<lparr>re_agent = ''ann'', re_emoji = ''x'', re_created = At 0\<rparr>])],
       s_next_id := 5\<rparr>"

lemma store_ok_sample: "store_ok sample_store"
  by code_simp

text \<open>
  A transition system whose steps keep a predicate keeps it along every run. The interpretation
  on the operations of the bus is in the root theory.
\<close>

locale invariant_machine =
  fixes step :: "'o \<Rightarrow> 's \<Rightarrow> 's" and good :: "'s \<Rightarrow> bool"
  assumes step_good: "good s \<Longrightarrow> good (step x s)"
begin

lemma run_good: "good s \<Longrightarrow> good (fold step xs s)"
  by (induction xs arbitrary: s) (simp_all add: step_good)

lemma run_append: "good s \<Longrightarrow> good (fold step (xs @ ys) s)"
  by (rule run_good)

end

text \<open>The same for a relation, which a machine is a case of.\<close>

locale invariant_relation =
  fixes step :: "'s \<Rightarrow> 's \<Rightarrow> bool" and good :: "'s \<Rightarrow> bool"
  assumes step_kept: "step s s' \<Longrightarrow> good s \<Longrightarrow> good s'"
begin

lemma reachable_good: "step\<^sup>*\<^sup>* s s' \<Longrightarrow> good s \<Longrightarrow> good s'"
  by (induction rule: rtranclp_induct) (auto intro: step_kept)

end

sublocale invariant_machine \<subseteq> machine_relation: invariant_relation "\<lambda>s s'. \<exists>x. s' = step x s" good
  by unfold_locales (auto intro: step_good)

end
