(* ===== verification/Rooms.thy ===== *)
theory Rooms
  imports StoreInv
begin

section \<open>Rooms, membership and direct messages\<close>

text \<open>
  The operations of \<open>internal/server/store_rooms.go\<close>: creation, deletion, joining, leaving,
  kicking, the internal joins, the DM rooms and the per-agent room views, with the memory switch
  of a room. An operation that can fail returns a \<open>room_error\<close> or its result, and the store.
\<close>

datatype room_error =
    ReservedRoom string
  | NotRegistered string
  | SenderNotRegistered string
  | RecipientNotRegistered string
  | RoomNotFound string
  | NotInRoom string string
  | HideConflict string

definition fresh_room :: "int \<Rightarrow> string \<Rightarrow> string \<Rightarrow> string list \<Rightarrow> room" where
  "fresh_room t rid by ms =
     \<lparr>r_id = rid, r_members = ms, r_created = stamp_of t, r_created_by = by, r_roles = [],
      r_memory = None\<rparr>"

definition reserved_room :: "string \<Rightarrow> bool" where
  "reserved_room rid = has_prefix rid ''_''"

subsection \<open>Reactions of deleted messages\<close>

definition live_message_ids :: "store \<Rightarrow> int list" where
  "live_message_ids s = map m_id (all_logged (s_messages s))"

definition persist_reactions :: "store \<Rightarrow> store" where
  "persist_reactions s =
     s\<lparr>s_db := (s_db s)\<lparr>db_reactions := filter (\<lambda>p. snd p \<noteq> []) (s_reactions s)\<rparr>\<rparr>"

definition cleanup_reactions :: "store \<Rightarrow> store" where
  "cleanup_reactions s =
     (let live = live_message_ids s;
          kept = filter (\<lambda>p. fst p \<in> set live) (s_reactions s)
      in if kept = s_reactions s then s else persist_reactions (s\<lparr>s_reactions := kept\<rparr>))"

lemma cleanup_reactions_frame [frame, simp]:
  "s_rooms (cleanup_reactions s) = s_rooms s" "s_messages (cleanup_reactions s) = s_messages s"
  "s_agents (cleanup_reactions s) = s_agents s" "s_next_id (cleanup_reactions s) = s_next_id s"
  "s_prefs (cleanup_reactions s) = s_prefs s" "s_role_custom (cleanup_reactions s) = s_role_custom s"
  "s_reactions (cleanup_reactions s) =
     filter (\<lambda>p. fst p \<in> set (live_message_ids s)) (s_reactions s)"
  by (simp_all add: cleanup_reactions_def persist_reactions_def Let_def)

subsection \<open>Creation and deletion\<close>

text \<open>\<open>gen\<close> is the random id that \<open>randomID\<close> draws when the request names none.\<close>

definition create_room ::
    "int \<Rightarrow> string \<Rightarrow> string \<Rightarrow> string \<Rightarrow> store \<Rightarrow> (room_error + room) \<times> store" where
  "create_room t gen rid0 by s =
     (let rid = (if rid0 = [] then gen else rid0) in
      if reserved_room rid then (Inl (ReservedRoom rid), s)
      else case map_of (s_rooms s) rid of
             Some r \<Rightarrow> (Inr r, s)
           | None \<Rightarrow>
               let room = fresh_room t rid by [];
                   s1 = persist (s\<lparr>s_rooms := put rid room (s_rooms s)\<rparr>);
                   s2 = broadcast_room_update s1;
                   s3 = (if \<not> is_dm rid
                         then emit_system t system_room (''room '' @ rid @ '' created'') s2 else s2)
               in (Inr room, s3))"

definition delete_room :: "int \<Rightarrow> string \<Rightarrow> store \<Rightarrow> bool \<times> store" where
  "delete_room t rid s =
     (if \<not> has_key (s_rooms s) rid then (False, s)
      else
        let s1 = s\<lparr>s_rooms := del rid (s_rooms s), s_messages := del rid (s_messages s)\<rparr>;
            s2 = persist (delete_room_messages_rows rid s1);
            s3 = broadcast_room_update (cleanup_reactions s2)
        in (True, if \<not> reserved_room rid \<and> \<not> is_dm rid
                  then emit_system t system_room (''room '' @ rid @ '' deleted'') s3 else s3))"

definition set_room_memory ::
    "string \<Rightarrow> bool option \<Rightarrow> store \<Rightarrow> (room_error + room) \<times> store" where
  "set_room_memory rid enabled s =
     (case map_of (s_rooms s) rid of
        None \<Rightarrow> (Inl (RoomNotFound rid), s)
      | Some r \<Rightarrow>
          let r1 = r\<lparr>r_memory := enabled\<rparr>
          in (Inr r1, broadcast_room_update (persist (s\<lparr>s_rooms := put rid r1 (s_rooms s)\<rparr>))))"

definition ensure_system_room :: "int \<Rightarrow> store \<Rightarrow> store" where
  "ensure_system_room t s =
     (if has_key (s_rooms s) system_room then s
      else persist (s\<lparr>s_rooms := put system_room (fresh_room t system_room system_room []) (s_rooms s)\<rparr>))"

subsection \<open>Joining and leaving\<close>

definition join_room ::
    "int \<Rightarrow> string \<Rightarrow> string \<Rightarrow> store \<Rightarrow> (room_error + room) \<times> store" where
  "join_room t rid aid s =
     (if reserved_room rid then (Inl (ReservedRoom rid), s)
      else if \<not> has_key (s_agents s) aid then (Inl (NotRegistered aid), s)
      else
        let fresh = \<not> has_key (s_rooms s) rid;
            room = (case map_of (s_rooms s) rid of Some r \<Rightarrow> r | None \<Rightarrow> fresh_room t rid aid [])
        in if aid \<in> set (r_members room)
           then (Inr room, s\<lparr>s_rooms := (if fresh then put rid room (s_rooms s) else s_rooms s)\<rparr>)
           else
             let room1 = room\<lparr>r_members := r_members room @ [aid]\<rparr>;
                 s1 = s\<lparr>s_rooms := put rid room1 (s_rooms s)\<rparr>;
                 s2 = broadcast_room_update (persist (unhide_room rid s1));
                 s3 = (if fresh \<and> \<not> is_dm rid
                       then emit_system t system_room (''room '' @ rid @ '' created'') s2 else s2)
             in (Inr room1, emit_system t rid (aid @ '' joined'') s3))"

definition leave_room_with_event ::
    "int \<Rightarrow> string \<Rightarrow> string \<Rightarrow> bool \<Rightarrow> store \<Rightarrow> (room_error + unit) \<times> store" where
  "leave_room_with_event t rid aid kicked s =
     (case map_of (s_rooms s) rid of
        None \<Rightarrow> (Inl (RoomNotFound rid), s)
      | Some r \<Rightarrow>
          if aid \<notin> set (r_members r) then (Inl (NotInRoom aid rid), s)
          else
            let r1 = r\<lparr>r_members := remove1 aid (r_members r), r_roles := del aid (r_roles r)\<rparr>;
                s1 = persist (s\<lparr>s_rooms := put rid r1 (s_rooms s)\<rparr>);
                s2 = broadcast_room_update s1
            in (Inr (), emit_system t rid (aid @ (if kicked then '' was kicked'' else '' left'')) s2))"

definition kickable_member :: "store \<Rightarrow> string \<Rightarrow> bool" where
  "kickable_member s aid =
     (case map_of (s_agents s) aid of None \<Rightarrow> False | Some a \<Rightarrow> a_kind a = ''ai'')"

fun kick_each :: "int \<Rightarrow> string \<Rightarrow> string list \<Rightarrow> store \<Rightarrow> string list \<times> store" where
  "kick_each t rid [] s = ([], s)"
| "kick_each t rid (a # as) s =
     (case leave_room_with_event t rid a True s of
        (Inl _, s1) \<Rightarrow> kick_each t rid as s1
      | (Inr _, s1) \<Rightarrow> (let (ks, s2) = kick_each t rid as s1 in (a # ks, s2)))"

definition kick_agents ::
    "int \<Rightarrow> string \<Rightarrow> store \<Rightarrow> (room_error + string list \<times> string list) \<times> store" where
  "kick_agents t rid s =
     (case map_of (s_rooms s) rid of
        None \<Rightarrow> (Inl (RoomNotFound rid), s)
      | Some r \<Rightarrow>
          let (kicked, s1) = kick_each t rid (filter (kickable_member s) (r_members r)) s
          in (Inr (kicked, filter (kickable_member s1) (room_members s1 rid)), s1))"

definition join_internal_locked :: "int \<Rightarrow> string \<Rightarrow> string \<Rightarrow> store \<Rightarrow> bool \<times> store" where
  "join_internal_locked t rid aid s =
     (if \<not> has_key (s_agents s) aid then (False, s)
      else
        let room = (case map_of (s_rooms s) rid of Some r \<Rightarrow> r | None \<Rightarrow> fresh_room t rid aid []);
            s0 = s\<lparr>s_rooms := (if has_key (s_rooms s) rid then s_rooms s else put rid room (s_rooms s))\<rparr>
        in if aid \<in> set (r_members room) then (False, s0)
           else (True, unhide_room rid
                   (s0\<lparr>s_rooms := put rid (room\<lparr>r_members := r_members room @ [aid]\<rparr>) (s_rooms s0)\<rparr>)))"

definition join_internal :: "int \<Rightarrow> string \<Rightarrow> string \<Rightarrow> store \<Rightarrow> store" where
  "join_internal t rid aid s =
     (let (changed, s1) = join_internal_locked t rid aid s
      in if changed then broadcast_room_update (persist s1) else s1)"

subsection \<open>Direct messages\<close>

definition dm_members :: "string \<Rightarrow> string \<Rightarrow> string list" where
  "dm_members a b = sort [a, b]"

definition dm_id :: "string \<Rightarrow> string \<Rightarrow> string" where
  "dm_id a b = ''dm:'' @ dm_members a b ! 0 @ '':'' @ dm_members a b ! 1"

definition find_or_create_dm ::
    "int \<Rightarrow> string \<Rightarrow> string \<Rightarrow> store \<Rightarrow> (room_error + room) \<times> store" where
  "find_or_create_dm t a b s =
     (let rid = dm_id a b in
      if \<not> has_key (s_agents s) a then (Inl (SenderNotRegistered a), s)
      else if \<not> has_key (s_agents s) b then (Inl (RecipientNotRegistered b), s)
      else case map_of (s_rooms s) rid of
             Some room \<Rightarrow>
               let (ja, s1) = join_internal_locked t rid a s;
                   (jb, s2) = join_internal_locked t rid b s1;
                   joined = (if ja then [a] else []) @ (if jb then [b] else []);
                   s3 = (if joined \<noteq> [] then persist s2 else s2);
                   result = (case map_of (s_rooms s3) rid of Some r \<Rightarrow> r | None \<Rightarrow> room);
                   s4 = (if joined \<noteq> []
                         then fold (\<lambda>x. emit_system t rid (x @ '' joined'')) joined
                                (broadcast_room_update s3)
                         else s3)
               in (Inr result, s4)
           | None \<Rightarrow>
               let room = fresh_room t rid a (dm_members a b);
                   s1 = persist (s\<lparr>s_rooms := put rid room (s_rooms s)\<rparr>)
               in (Inr room, broadcast_room_update s1))"

subsection \<open>Room views\<close>

record room_view =
  vw_room :: room
  vw_unread :: nat
  vw_attention :: nat
  vw_last_id :: int
  vw_cursor :: int
  vw_hidden :: bool
  vw_pinned :: bool

definition room_view_of :: "store \<Rightarrow> string \<Rightarrow> room \<Rightarrow> room_view" where
  "room_view_of s aid r =
     (let rid = r_id r;
          cur = (case map_of (s_agents s) aid of None \<Rightarrow> 0 | Some a \<Rightarrow> get_or 0 (a_cursors a) rid);
          unread = filter (\<lambda>m. cur < m_id m) (room_log s rid);
          p = room_pref_of s aid rid
      in \<lparr>vw_room = r, vw_unread = length unread,
          vw_attention = length (filter (\<lambda>m. m_attention m \<and> m_from m \<noteq> aid) unread),
          vw_last_id = room_head s rid, vw_cursor = cur, vw_hidden = rp_hidden p,
          vw_pinned = rp_pinned p\<rparr>)"

definition agent_room_views :: "store \<Rightarrow> string \<Rightarrow> room_view list" where
  "agent_room_views s aid =
     map (room_view_of s aid \<circ> snd) (filter (\<lambda>(k, r). aid \<in> set (r_members r)) (s_rooms s))"

subsection \<open>The invariant\<close>

lemma store_ok_put_room [inv]:
  "store_ok s \<Longrightarrow> room_ok (s_agents s) k r \<Longrightarrow> store_ok (s\<lparr>s_rooms := put k r (s_rooms s)\<rparr>)"
  by (simp add: store_ok_def rooms_ok_put log_ok_put_room)

lemma store_ok_room: "store_ok s \<Longrightarrow> map_of (s_rooms s) k = Some r \<Longrightarrow> room_ok (s_agents s) k r"
  by (auto simp: store_ok_def dest: rooms_ok_lookup)

lemma room_ok_fresh [simp]: "room_ok ags k (fresh_room t k b [])"
  by (simp add: fresh_room_def)

lemma store_ok_cleanup:
  assumes "rooms_ok (s_rooms s) (s_agents s)" "agents_ok (s_agents s)"
    and "log_ok (s_messages s) (s_rooms s) (s_next_id s)" "reactions_ok (s_reactions s) msgs"
  shows "store_ok (cleanup_reactions s)"
proof -
  have "distinct (keys (filter P m))" if "distinct (keys m)" for P and m :: "(int, reaction list) table"
    using that by (rule distinct_map_filter)
  then show ?thesis
    using assms by (auto simp: store_ok_def reactions_ok_def live_message_ids_def)
qed

lemma delete_room_rows_frame [simp]:
  "s_rooms (delete_room_messages_rows rid s) = s_rooms s"
  "s_agents (delete_room_messages_rows rid s) = s_agents s"
  "s_messages (delete_room_messages_rows rid s) = s_messages s"
  "s_next_id (delete_room_messages_rows rid s) = s_next_id s"
  "s_reactions (delete_room_messages_rows rid s) = s_reactions s"
  "s_prefs (delete_room_messages_rows rid s) = s_prefs s"
  by (simp_all add: delete_room_messages_rows_def)

lemma create_room_ok [inv]: "store_ok s \<Longrightarrow> store_ok (snd (create_room t g rid by s))"
  by (auto simp: create_room_def Let_def emits intro!: inv split: option.split)

lemma delete_room_ok [inv]: "store_ok s \<Longrightarrow> store_ok (snd (delete_room t rid s))"
proof -
  assume ok: "store_ok s"
  let ?s1 = "s\<lparr>s_rooms := del rid (s_rooms s), s_messages := del rid (s_messages s)\<rparr>"
  have "store_ok (cleanup_reactions (persist (delete_room_messages_rows rid ?s1)))"
    by (rule store_ok_cleanup [where msgs = "s_messages s"])
       (use ok in \<open>simp_all add: store_ok_def rooms_ok_del log_ok_del\<close>)
  with ok show ?thesis by (simp add: delete_room_def Let_def emits store_ok_emit)
qed

lemma set_room_memory_ok [inv]: "store_ok s \<Longrightarrow> store_ok (snd (set_room_memory rid e s))"
  by (auto simp: set_room_memory_def Let_def room_ok_def dest!: store_ok_room
      intro!: store_ok_put_room split: option.split)

lemma ensure_system_room_ok [inv]: "store_ok s \<Longrightarrow> store_ok (ensure_system_room t s)"
  by (auto simp: ensure_system_room_def intro!: store_ok_put_room)

lemma room_ok_or_fresh:
  "store_ok s \<Longrightarrow>
   room_ok (s_agents s) rid (case map_of (s_rooms s) rid of Some r \<Rightarrow> r | None \<Rightarrow> fresh_room t rid b [])"
  by (auto dest: store_ok_room split: option.split)

lemma join_room_ok [inv]: "store_ok s \<Longrightarrow> store_ok (snd (join_room t rid aid s))"
  using room_ok_or_fresh [of s rid t aid]
  by (auto simp: join_room_def Let_def emits has_key_iff simp del: set_map
      intro!: store_ok_emit store_ok_put_room room_ok_join)

lemma leave_room_ok [inv]: "store_ok s \<Longrightarrow> store_ok (snd (leave_room_with_event t rid aid k s))"
  by (auto simp: leave_room_with_event_def Let_def emits dest: store_ok_room
      intro!: store_ok_emit store_ok_put_room room_ok_leave split: option.split)

lemma kick_each_ok: "store_ok s \<Longrightarrow> store_ok (snd (kick_each t rid as s))"
proof (induction t rid as s rule: kick_each.induct)
  case (2 t rid a as s)
  obtain res s1 where l: "leave_room_with_event t rid a True s = (res, s1)" by fastforce
  then have "store_ok s1" using leave_room_ok [OF 2(3), of t rid a True] by simp
  then show ?case using 2(1,2) l by (auto split: sum.split prod.split)
qed simp

lemma kick_agents_ok [inv]: "store_ok s \<Longrightarrow> store_ok (snd (kick_agents t rid s))"
  using kick_each_ok by (auto simp: kick_agents_def Let_def split: option.split prod.split) (metis snd_conv)

lemma store_ok_put_absent_room:
  "store_ok s \<Longrightarrow> room_ok (s_agents s) rid r \<Longrightarrow>
   store_ok (s\<lparr>s_rooms := (if has_key (s_rooms s) rid then s_rooms s else put rid r (s_rooms s))\<rparr>)"
  by (auto intro: store_ok_put_room)

lemma join_internal_locked_ok: "store_ok s \<Longrightarrow> store_ok (snd (join_internal_locked t rid aid s))"
proof -
  assume ok: "store_ok s"
  let ?r = "case map_of (s_rooms s) rid of Some r \<Rightarrow> r | None \<Rightarrow> fresh_room t rid aid []"
  let ?s0 = "s\<lparr>s_rooms := (if has_key (s_rooms s) rid then s_rooms s else put rid ?r (s_rooms s))\<rparr>"
  have r: "room_ok (s_agents s) rid ?r" using ok by (rule room_ok_or_fresh)
  have s0: "store_ok ?s0" using ok r by (rule store_ok_put_absent_room)
  have "store_ok (?s0\<lparr>s_rooms := put rid (?r\<lparr>r_members := r_members ?r @ [aid]\<rparr>) (s_rooms ?s0)\<rparr>)"
    if "has_key (s_agents s) aid" "aid \<notin> set (r_members ?r)"
    using that r by (intro store_ok_put_room [OF s0]) (auto simp: has_key_iff intro!: room_ok_join simp del: set_map)
  then show ?thesis using ok s0 by (simp add: join_internal_locked_def Let_def)
qed

lemma join_internal_ok [inv]: "store_ok s \<Longrightarrow> store_ok (join_internal t rid aid s)"
  using join_internal_locked_ok [of s t rid aid]
  by (auto simp: join_internal_def split: prod.split)

text \<open>A DM of an agent with itself would list the agent twice; see \<open>self_dm_ghost\<close>.\<close>

lemma find_or_create_dm_ok [inv]:
  assumes ok: "store_ok s" and ne: "a \<noteq> b"
  shows "store_ok (snd (find_or_create_dm t a b s))"
proof (cases "map_of (s_rooms s) (dm_id a b)")
  case None
  have "room_ok (s_agents s) (dm_id a b) (fresh_room t (dm_id a b) a (dm_members a b))"
    if "has_key (s_agents s) a" "has_key (s_agents s) b"
    using that ne by (auto simp: room_ok_def fresh_room_def dm_members_def has_key_iff simp del: set_map)
  then show ?thesis
    using ok None by (auto simp: find_or_create_dm_def Let_def intro!: store_ok_put_room)
next
  case (Some r)
  obtain ja s1 where 1: "join_internal_locked t (dm_id a b) a s = (ja, s1)" by fastforce
  obtain jb s2 where 2: "join_internal_locked t (dm_id a b) b s1 = (jb, s2)" by fastforce
  have "store_ok s1" using join_internal_locked_ok [OF ok] 1 by (metis snd_conv)
  then have "store_ok s2" using join_internal_locked_ok 2 by (metis snd_conv)
  then show ?thesis
    using ok Some 1 2
    by (auto simp: find_or_create_dm_def Let_def split: prod.split intro!: store_ok_emits)
qed

subsection \<open>Effects\<close>

lemma leave_effect:
  assumes "map_of (s_rooms s) rid = Some r" "aid \<in> set (r_members r)"
    "leave_room_with_event t rid aid k s = (res, s')"
  shows "res = Inr ()" "s_agents s' = s_agents s"
    "s_rooms s' = put rid (r\<lparr>r_members := remove1 aid (r_members r), r_roles := del aid (r_roles r)\<rparr>) (s_rooms s)"
  using assms by (auto simp: leave_room_with_event_def Let_def emits broadcasts)

lemma kick_each_effect:
  assumes "map_of (s_rooms s) rid = Some r" "distinct (r_members r)" "distinct as"
    "set as \<subseteq> set (r_members r)" "kick_each t rid as s = (ks, s')"
  shows "ks = as" "s_agents s' = s_agents s"
    "\<exists>r'. map_of (s_rooms s') rid = Some r' \<and>
       r_members r' = filter (\<lambda>m. m \<notin> set as) (r_members r)"
  using assms
proof (induction as arbitrary: s r ks)
  case Nil
  { case 1 then show ?case by simp }
  { case 2 then show ?case by simp }
  { case 3 then show ?case by simp }
next
  case (Cons a as)
  have step: "ks = a # as \<and> s_agents s' = s_agents s \<and>
      (\<exists>r'. map_of (s_rooms s') rid = Some r' \<and>
       r_members r' = filter (\<lambda>m. m \<notin> set (a # as)) (r_members r))"
    if *: "map_of (s_rooms s) rid = Some r" "distinct (r_members r)" "distinct (a # as)"
      "set (a # as) \<subseteq> set (r_members r)" "kick_each t rid (a # as) s = (ks, s')"
    for s r ks
  proof -
    obtain res s1 where l: "leave_room_with_event t rid a True s = (res, s1)" by fastforce
    have a: "a \<in> set (r_members r)" using * by simp
    note e = leave_effect [OF *(1) a l]
    let ?r1 = "r\<lparr>r_members := remove1 a (r_members r), r_roles := del a (r_roles r)\<rparr>"
    obtain ks1 where k: "kick_each t rid as s1 = (ks1, s')" "ks = a # ks1"
      using *(5) l e(1) by (auto split: prod.splits)
    have r1: "map_of (s_rooms s1) rid = Some ?r1" "distinct (r_members ?r1)" "distinct as"
      "set as \<subseteq> set (r_members ?r1)"
      using e * by (auto simp: set_remove1_eq)
    note ih = Cons.IH [OF r1 k(1)]
    have "filter (\<lambda>m. m \<notin> set as) (remove1 a (r_members r)) =
        filter (\<lambda>m. m \<notin> set (a # as)) (r_members r)"
      using *(2) by (simp add: remove1_eq_filter conj_commute)
    then show ?thesis using ih e(2) k(2) by simp
  qed
  { case 1 show ?case using step [OF 1] by (rule conjunct1) }
  { case 2 show ?case using step [OF 2] by (rule conjunct1 [OF conjunct2]) }
  { case 3 show ?case using step [OF 3] by (rule conjunct2 [OF conjunct2]) }
qed

text \<open>Kicking the agents of a room removes every AI member and nobody else: the call reports
  exactly the AI members, in order, reports none remaining, and the members left are the others
  in their order, so a human alone with agents is alone afterwards.\<close>

lemma kick_agents_clears_ai:
  assumes ok: "store_ok s" and r: "map_of (s_rooms s) rid = Some r"
  shows "\<exists>s'. kick_agents t rid s = (Inr (filter (kickable_member s) (r_members r), []), s') \<and>
           room_members s' rid = filter (\<lambda>m. \<not> kickable_member s m) (r_members r)"
proof -
  let ?as = "filter (kickable_member s) (r_members r)"
  obtain ks s' where k: "kick_each t rid ?as s = (ks, s')" by fastforce
  have d: "distinct (r_members r)" using store_ok_room [OF ok r] by (simp add: room_ok_def)
  note e = kick_each_effect [OF r d _ _ k]
  obtain r' where r': "map_of (s_rooms s') rid = Some r'"
    "r_members r' = filter (\<lambda>m. m \<notin> set ?as) (r_members r)"
    using e(3) d by auto
  have same: "kickable_member s' = kickable_member s"
    using e(2) d by (simp add: kickable_member_def fun_eq_iff)
  have left: "r_members r' = filter (\<lambda>m. \<not> kickable_member s m) (r_members r)"
    unfolding r'(2) by (rule filter_cong) auto
  have "ks = ?as" using e(1) d by simp
  then show ?thesis
    using k r r'(1) left same by (simp add: kick_agents_def room_members_def)
qed

lemma kick_agents_clears_ai_witness:
  "\<exists>s'. kick_agents 0 ''dev'' sample_store = (Inr ([''bob@web'', ''cleo@web''], []), s') \<and>
        room_members s' ''dev'' = [''ann'']"
proof -
  obtain r where r: "map_of (s_rooms sample_store) ''dev'' = Some r"
    "filter (kickable_member sample_store) (r_members r) = [''bob@web'', ''cleo@web'']"
    "filter (\<lambda>m. \<not> kickable_member sample_store m) (r_members r) = [''ann'']"
    by (auto simp: sample_store_def kickable_member_def sample_agent_def)
  show ?thesis using kick_agents_clears_ai [OF store_ok_sample r(1), of 0] unfolding r .
qed

subsection \<open>Direct messages\<close>

lemma dm_members_commute: "dm_members a b = dm_members b a"
  by (simp add: dm_members_def) (metis linorder_linear order_antisym)

lemma dm_id_commute: "dm_id a b = dm_id b a"
  by (simp add: dm_id_def dm_members_commute [of a b])

lemma set_dm_members [simp]: "set (dm_members a b) = {a, b}"
  by (auto simp: dm_members_def)

lemma join_internal_locked_member:
  "map_of (s_rooms s) rid = Some r \<Longrightarrow> aid \<in> set (r_members r) \<Longrightarrow>
   join_internal_locked t rid aid s = (False, s)"
  by (auto simp: join_internal_locked_def has_key_def Let_def)

lemma join_internal_locked_room:
  assumes "map_of (s_rooms s) rid = Some r" "has_key (s_agents s) aid"
    "join_internal_locked t rid aid s = (j, s')"
  shows "s_agents s' = s_agents s"
    "\<exists>r'. map_of (s_rooms s') rid = Some r' \<and> r_id r' = r_id r \<and>
       set (r_members r') = insert aid (set (r_members r))"
  using assms by (auto simp: join_internal_locked_def Let_def has_key_def split: if_splits)

lemma dm_settled:
  assumes "has_key (s_agents s) a" "has_key (s_agents s) b"
    "map_of (s_rooms s) (dm_id a b) = Some r" "a \<in> set (r_members r)" "b \<in> set (r_members r)"
  shows "find_or_create_dm t a b s = (Inr r, s)"
  using assms by (simp add: find_or_create_dm_def Let_def join_internal_locked_member)

lemma emit_fold_frame [simp]:
  "s_rooms (fold (\<lambda>x. emit_system t rid (f x)) xs s) = s_rooms s"
  "s_agents (fold (\<lambda>x. emit_system t rid (f x)) xs s) = s_agents s"
  "s_prefs (fold (\<lambda>x. emit_system t rid (f x)) xs s) = s_prefs s"
  by (induction xs arbitrary: s) (simp_all add: emits)

text \<open>A direct message room is shared: whichever side opens it, and whoever was kicked before,
  the room is the one named by the sorted pair, both sides are members afterwards, and opening it
  again from the other side returns it and changes nothing.\<close>

lemma dm_room_shared:
  assumes "has_key (s_agents s) a" "has_key (s_agents s) b"
  shows "\<exists>r s'. find_or_create_dm t a b s = (Inr r, s') \<and>
           map_of (s_rooms s') (dm_id a b) = Some r \<and> {a, b} \<subseteq> set (r_members r) \<and>
           find_or_create_dm t' b a s' = (Inr r, s')"
proof -
  have "\<exists>r s'. find_or_create_dm t a b s = (Inr r, s') \<and> s_agents s' = s_agents s \<and>
           map_of (s_rooms s') (dm_id a b) = Some r \<and> {a, b} \<subseteq> set (r_members r)"
  proof (cases "map_of (s_rooms s) (dm_id a b)")
    case None
    then show ?thesis
      using assms by (simp add: find_or_create_dm_def Let_def broadcasts fresh_room_def)
  next
    case (Some r)
    obtain ja s1 where 1: "join_internal_locked t (dm_id a b) a s = (ja, s1)" by fastforce
    obtain r1 where r1: "map_of (s_rooms s1) (dm_id a b) = Some r1" "a \<in> set (r_members r1)"
      "s_agents s1 = s_agents s"
      using join_internal_locked_room [OF Some assms(1) 1] by auto
    obtain jb s2 where 2: "join_internal_locked t (dm_id a b) b s1 = (jb, s2)" by fastforce
    obtain r2 where r2: "map_of (s_rooms s2) (dm_id a b) = Some r2" "{a, b} \<subseteq> set (r_members r2)"
      "s_agents s2 = s_agents s"
      using join_internal_locked_room [OF r1(1) _ 2] r1 assms(2) by auto
    show ?thesis
      using Some assms 1 2 r2 by (simp add: find_or_create_dm_def Let_def broadcasts)
  qed
  then show ?thesis
    using dm_settled [of _ b a _ t'] assms by (fastforce simp: dm_id_commute [of b a])
qed

lemma dm_room_shared_witness:
  "\<exists>r s'. find_or_create_dm 0 ''cleo@web'' ''ann'' sample_store = (Inr r, s') \<and>
     map_of (s_rooms s') (dm_id ''cleo@web'' ''ann'') = Some r \<and>
     {''cleo@web'', ''ann''} \<subseteq> set (r_members r) \<and>
     find_or_create_dm 9 ''ann'' ''cleo@web'' s' = (Inr r, s')"
  by (rule dm_room_shared) (simp_all add: sample_store_def has_key_def)

text \<open>
  A DM of an agent with itself is not refused. It lists the agent twice; leaving removes one
  entry only, so the agent is still a member.
\<close>

lemma self_dm_ghost:
  "room_members (snd (leave_room_with_event 1 (dm_id ''ann'' ''ann'') ''ann'' False
     (snd (find_or_create_dm 0 ''ann'' ''ann'' sample_store)))) (dm_id ''ann'' ''ann'') = [''ann'']"
  by code_simp

subsection \<open>Hidden rooms\<close>

text \<open>The handler of \<open>POST /agents/{id}/rooms/{room_id}/prefs\<close>.\<close>

definition post_room_prefs ::
    "string \<Rightarrow> string \<Rightarrow> bool option \<Rightarrow> bool option \<Rightarrow> store \<Rightarrow> (room_error + room_pref) \<times> store" where
  "post_room_prefs aid rid hidden pinned s =
     (if hidden = Some True \<and> room_has_other_member s rid aid then (Inl (HideConflict rid), s)
      else (let (p, s1) = set_room_pref aid rid hidden pinned s in (Inr p, s1)))"

text \<open>The rule the code states: a room is hidden for an agent only while no other agent is in it.\<close>

definition hide_ok :: "store \<Rightarrow> bool" where
  "hide_ok s = (\<forall>aid rid. rp_hidden (room_pref_of s aid rid) \<longrightarrow> set (room_members s rid) \<subseteq> {aid})"

lemma room_has_other_iff: "room_has_other_member s rid aid \<longleftrightarrow> \<not> set (room_members s rid) \<subseteq> {aid}"
  by (auto simp: room_has_other_member_def room_members_def list_ex_iff split: option.split)

lemma hide_ok_shrink:
  assumes "hide_ok s" "s_prefs s' = s_prefs s"
    "\<And>rid. set (room_members s' rid) \<subseteq> set (room_members s rid)"
  shows "hide_ok s'"
  using assms by (fastforce simp: hide_ok_def room_pref_of_def)

lemma hide_ok_unhide:
  assumes "hide_ok s" "\<And>a r. room_pref_of s' a r =
      (if r = rid then (room_pref_of s a rid)\<lparr>rp_hidden := False\<rparr> else room_pref_of s a r)"
    "\<And>r. r \<noteq> rid \<Longrightarrow> room_members s' r = room_members s r"
  shows "hide_ok s'"
  using assms by (auto simp: hide_ok_def)

lemma hide_ok_post: "hide_ok s \<Longrightarrow> hide_ok (snd (post_room_prefs aid rid h p s))"
proof (cases "h = Some True \<and> room_has_other_member s rid aid")
  case False
  assume ok: "hide_ok s"
  obtain q s' where q: "set_room_pref aid rid h p s = (q, s')" by fastforce
  have rooms: "s_rooms s' = s_rooms s" using q by (auto simp: set_room_pref_def Let_def)
  have "rp_hidden q \<longrightarrow> h = Some True \<or> rp_hidden (room_pref_of s aid rid)"
    using q by (auto simp: set_room_pref_def Let_def room_pref_of_def split: option.splits)
  then have alone: "rp_hidden q \<longrightarrow> set (room_members s rid) \<subseteq> {aid}"
    using ok False by (auto simp: hide_ok_def room_has_other_iff)
  have "set (room_members s r) \<subseteq> {a}" if "rp_hidden (room_pref_of s' a r)" for a r
    using that alone ok room_pref_set(1) [OF q] room_pref_set(2) [OF q, of a r]
    by (cases "(a, r) = (aid, rid)") (auto simp: hide_ok_def)
  then have "hide_ok s'" by (simp add: hide_ok_def room_members_def rooms)
  with False q show ?thesis by (auto simp: post_room_prefs_def)
qed (simp add: post_room_prefs_def)

lemma prefs_congs:
  "s_prefs s' = s_prefs s \<Longrightarrow> room_pref_of s' = room_pref_of s"
  "s_rooms s' = s_rooms s \<Longrightarrow> room_members s' = room_members s"
  by (auto simp: room_pref_of_def room_members_def fun_eq_iff)

lemma broadcast_update_frame [frame, simp]:
  "s_prefs (broadcast_room_update s) = s_prefs s" "s_rooms (broadcast_room_update s) = s_rooms s"
  "s_agents (broadcast_room_update s) = s_agents s"
  "s_messages (broadcast_room_update s) = s_messages s"
  by (simp_all add: broadcasts)

lemma hide_ok_join: "hide_ok s \<Longrightarrow> hide_ok (snd (join_room t rid aid s))"
proof -
  assume ok: "hide_ok s"
  let ?r = "case map_of (s_rooms s) rid of Some r \<Rightarrow> r | None \<Rightarrow> fresh_room t rid aid []"
  show ?thesis
  proof (cases "reserved_room rid \<or> \<not> has_key (s_agents s) aid \<or> aid \<in> set (r_members ?r)")
    case True
    have "hide_ok (s\<lparr>s_rooms := put rid ?r (s_rooms s)\<rparr>)"
      by (rule hide_ok_shrink [OF ok])
         (auto simp: room_members_def fresh_room_def split: option.splits)
    then show ?thesis using ok True by (auto simp: join_room_def Let_def)
  next
    case False
    let ?s1 = "s\<lparr>s_rooms := put rid (?r\<lparr>r_members := r_members ?r @ [aid]\<rparr>) (s_rooms s)\<rparr>"
    have p: "s_prefs (snd (join_room t rid aid s)) = s_prefs (unhide_room rid ?s1)"
      and r: "s_rooms (snd (join_room t rid aid s)) = s_rooms ?s1"
      using False by (simp_all add: join_room_def Let_def emits)
    show ?thesis
      by (rule hide_ok_unhide [OF ok, where rid = rid])
         (simp_all add: prefs_congs(1) [OF p] room_pref_unhide prefs_congs(2) [OF r],
          simp_all add: room_pref_of_def room_members_def)
  qed
qed

lemma hide_ok_join_locked: "hide_ok s \<Longrightarrow> hide_ok (snd (join_internal_locked t rid aid s))"
proof -
  assume ok: "hide_ok s"
  let ?r = "case map_of (s_rooms s) rid of Some r \<Rightarrow> r | None \<Rightarrow> fresh_room t rid aid []"
  let ?s0 = "s\<lparr>s_rooms := (if has_key (s_rooms s) rid then s_rooms s else put rid ?r (s_rooms s))\<rparr>"
  have s0: "hide_ok ?s0"
    by (rule hide_ok_shrink [OF ok])
       (auto simp: room_members_def fresh_room_def has_key_def split: option.splits)
  have s1: "hide_ok (unhide_room rid (?s0\<lparr>s_rooms := put rid (?r\<lparr>r_members := r_members ?r @ [aid]\<rparr>) (s_rooms ?s0)\<rparr>))"
    by (rule hide_ok_unhide [OF s0, where rid = rid])
       (simp_all add: room_pref_unhide prefs_congs(2) [OF unhide_room_frame(1)],
        simp_all add: room_pref_of_def room_members_def)
  show ?thesis
    unfolding join_internal_locked_def Let_def
    by (cases "has_key (s_agents s) aid"; cases "aid \<in> set (r_members ?r)")
       (simp_all only: ok s0 s1 snd_conv if_True if_False not_True_eq_False not_False_eq_True)
qed

lemma hide_ok_frame:
  "s_prefs s' = s_prefs s \<Longrightarrow> s_rooms s' = s_rooms s \<Longrightarrow> hide_ok s' = hide_ok s"
  by (simp add: hide_ok_def prefs_congs(1) [of s' s] prefs_congs(2) [of s' s])

lemma hide_ok_join_internal: "hide_ok s \<Longrightarrow> hide_ok (join_internal t rid aid s)"
proof -
  assume ok: "hide_ok s"
  obtain j s1 where j: "join_internal_locked t rid aid s = (j, s1)" by fastforce
  then have "hide_ok s1" using hide_ok_join_locked [OF ok, of t rid aid] by simp
  moreover have "hide_ok (join_internal t rid aid s) = hide_ok s1"
    by (rule hide_ok_frame) (simp_all add: join_internal_def j)
  ultimately show ?thesis by simp
qed

lemma hide_ok_leave: "hide_ok s \<Longrightarrow> hide_ok (snd (leave_room_with_event t rid aid k s))"
  by (erule hide_ok_shrink)
     (auto simp: leave_room_with_event_def Let_def emits room_members_def
       dest: set_remove1_subset [THEN subsetD] split: option.splits if_splits)

lemma hide_ok_delete: "hide_ok s \<Longrightarrow> hide_ok (snd (delete_room t rid s))"
  by (erule hide_ok_shrink)
     (auto simp: delete_room_def Let_def emits room_members_def split: option.splits if_splits)

lemma hide_ok_create: "hide_ok s \<Longrightarrow> hide_ok (snd (create_room t g rid by s))"
  by (erule hide_ok_shrink)
     (auto simp: create_room_def Let_def emits room_members_def fresh_room_def
       split: option.splits if_splits)



text \<open>
  The creation of a new DM room is the exception: it neither clears nor checks preferences, and
  deleting a room leaves them behind. Ann is alone in the DM after Bob left, hides it, the room
  is deleted, and Bob opens the DM again: the new room holds both and is hidden for Ann.
\<close>

definition hidden_dm_story :: store where
  "hidden_dm_story =
     (let rid = dm_id ''ann'' ''bob@web'';
          s1 = snd (find_or_create_dm 0 ''ann'' ''bob@web'' sample_store);
          s2 = snd (leave_room_with_event 0 rid ''bob@web'' False s1);
          s3 = snd (post_room_prefs ''ann'' rid (Some True) None s2);
          s4 = snd (delete_room 0 rid s3)
      in snd (find_or_create_dm 0 ''bob@web'' ''ann'' s4))"

lemma new_dm_stays_hidden:
  "rp_hidden (room_pref_of hidden_dm_story ''ann'' (dm_id ''ann'' ''bob@web'')) \<and>
   room_members hidden_dm_story (dm_id ''ann'' ''bob@web'') = [''ann'', ''bob@web'']"
  by code_simp


end
