(* ===== verification/RoleOps.thy ===== *)
theory RoleOps
  imports Rooms
begin

section \<open>Assigning and replacing roles\<close>

text \<open>
  The write side of \<open>internal/server/roles.go\<close> and the handlers \<open>PUT /roles\<close>,
  \<open>DELETE /roles\<close>, \<open>DELETE /roles/{key}\<close> and \<open>POST /rooms/{id}/roles\<close> of
  \<open>internal/server/server.go\<close>. A decoded JSON value of \<open>PUT /roles\<close> is a text, an object or
  something else; a JSON object has distinct keys.
\<close>

subsection \<open>Assignments\<close>

definition rooms_with_role :: "store \<Rightarrow> string \<Rightarrow> string list" where
  "rooms_with_role s k = map fst (filter (\<lambda>(rid, r). k \<in> snd ` set (r_roles r)) (s_rooms s))"

definition set_room_roles :: "string \<Rightarrow> room \<Rightarrow> (string, string) table \<Rightarrow> store \<Rightarrow> store" where
  "set_room_roles rid r roles s =
     broadcast_room_update (persist (s\<lparr>s_rooms := put rid (r\<lparr>r_roles := roles\<rparr>) (s_rooms s)\<rparr>))"

text \<open>The other holders that a singleton role must not have.\<close>

definition role_clash :: "string \<Rightarrow> (string, string) table \<Rightarrow> string \<Rightarrow> string \<Rightarrow> (string \<times> string) list" where
  "role_clash cn roles aid k =
     (if cn = ''singleton'' then filter (\<lambda>p. snd p = k \<and> fst p \<noteq> aid) roles else [])"

definition assign_role ::
    "int \<Rightarrow> string \<Rightarrow> string \<Rightarrow> string \<Rightarrow> store \<Rightarrow> (role_error + unit) \<times> store" where
  "assign_role t rid aid k s =
     (if rid = [] then (Inl RoomIdRequired, s)
      else
        let cn = (if k \<noteq> [] then role_cardinality s k else []) in
        case map_of (s_rooms s) rid of
          None \<Rightarrow> (Inl (RoleRoomNotFound rid), s)
        | Some r \<Rightarrow>
            if aid \<noteq> [] \<and> k \<noteq> [] \<and> aid \<notin> set (r_members r) then (Inl (RoleAgentNotMember aid rid), s)
            else if aid = [] then
              (Inr (), set_room_roles rid r (filter (\<lambda>p. snd p \<noteq> k) (r_roles r)) s)
            else if k = [] then
              if has_key (r_roles r) aid
              then (Inr (), emit_system_to t rid (aid @ '' role cleared'') (Some [agent_short_name aid])
                              (set_room_roles rid r (del aid (r_roles r)) s))
              else (Inr (), s)
            else
              (case map_of (s_agents s) aid of
                 None \<Rightarrow> (Inl (RoleAgentNotRegistered aid), s)
               | Some a \<Rightarrow>
                   if a_kind a = ''human'' then (Inl RolesForAIOnly, s)
                   else
                     (case role_clash cn (r_roles r) aid k of
                        p # _ \<Rightarrow> (Inl (RoleAssignmentConflict k (fst p)), s)
                      | [] \<Rightarrow>
                          if map_of (r_roles r) aid = Some k then (Inr (), s)
                          else (Inr (), emit_system_to t rid (aid @ '' was assigned as '' @ k)
                                          (Some [agent_short_name aid])
                                          (set_room_roles rid r (put aid k (r_roles r)) s)))))"

text \<open>The internal cascade: \<open>assignRole\<close> without an agent, its error ignored.\<close>

definition cascade_unassign :: "int \<Rightarrow> string \<Rightarrow> string list \<Rightarrow> store \<Rightarrow> store" where
  "cascade_unassign t k rids s = fold (\<lambda>rid s. snd (assign_role t rid [] k s)) rids s"

definition propagate_role_update :: "int \<Rightarrow> string \<Rightarrow> string \<Rightarrow> store \<Rightarrow> store" where
  "propagate_role_update t k body s =
     broadcast_roles_updated
       (fold (\<lambda>rid. emit_system t rid
                 (if body \<noteq> [] then ''role '' @ k @ '' updated'' @ [CHR 0x0A, CHR 0x0A] @ body
                  else ''role '' @ k @ '' updated''))
          (rooms_with_role s k) s)"

subsection \<open>The two layers\<close>

definition save_roles :: "store \<Rightarrow> store" where
  "save_roles s =
     s\<lparr>s_db := (s_db s)\<lparr>db_role_overrides := s_role_overrides s, db_role_custom := s_role_custom s\<rparr>\<rparr>"

definition no_role_entry :: role_entry where
  "no_role_entry =
     \<lparr>ro_label = [], ro_description = [], ro_emoji = [], ro_icon = [], ro_body = [],
      ro_cardinality = [], ro_extends = []\<rparr>"

definition max_role_body :: nat where "max_role_body = 16 * 1024"
definition max_roles :: nat where "max_roles = 64"

definition set_role_override :: "int \<Rightarrow> string \<Rightarrow> string \<Rightarrow> store \<Rightarrow> (role_error + unit) \<times> store" where
  "set_role_override t k body s =
     (if \<not> role_key_ok k then (Inl (RoleKeyInvalid k), s)
      else if max_role_body < length body then (Inl RoleBodyTooLarge, s)
      else if \<not> in_catalog k \<and> agent_name_exists s k then (Inl (RoleKeyIsAgent k), s)
      else if \<not> in_catalog k then
        if \<not> has_key (s_role_custom s) k \<and>
           max_roles \<le> length role_catalog + length (s_role_custom s)
        then (Inl TooManyRoles, s)
        else
          let e = get_or no_role_entry (s_role_custom s) k;
              e1 = e\<lparr>ro_body := body, ro_label := k,
                     ro_cardinality := (if ro_cardinality e = [] then ''multi'' else ro_cardinality e)\<rparr>
          in (Inr (), propagate_role_update t k body
                        (save_roles (s\<lparr>s_role_custom := put k e1 (s_role_custom s)\<rparr>)))
      else
        let e = get_or no_role_entry (s_role_overrides s) k
        in (Inr (), propagate_role_update t k body
                      (save_roles (s\<lparr>s_role_overrides :=
                                       put k (e\<lparr>ro_body := body\<rparr>) (s_role_overrides s)\<rparr>))))"

definition set_custom_role ::
    "int \<Rightarrow> string \<Rightarrow> string \<Rightarrow> string \<Rightarrow> string \<Rightarrow> store \<Rightarrow> (role_error + unit) \<times> store" where
  "set_custom_role t k description icon body s =
     (if \<not> role_key_ok k then (Inl (RoleKeyInvalid k), s)
      else if max_role_body < length body then (Inl RoleBodyTooLarge, s)
      else
        case normalize_role_icon icon of
          Inl e \<Rightarrow> (Inl e, s)
        | Inr ic \<Rightarrow>
            if \<not> in_catalog k \<and> agent_name_exists s k then (Inl (RoleKeyIsAgent k), s)
            else if \<not> in_catalog k \<and> \<not> has_key (s_role_custom s) k \<and>
                    max_roles \<le> length role_catalog + length (s_role_custom s)
            then (Inl TooManyRoles, s)
            else
              let e = \<lparr>ro_label = k, ro_description = description, ro_emoji = ic, ro_icon = ic,
                       ro_body = body, ro_cardinality = ''multi'', ro_extends = []\<rparr>
              in (Inr (), propagate_role_update t k body
                            (save_roles (s\<lparr>s_role_custom := put k e (s_role_custom s)\<rparr>))))"

subsection \<open>Replacing everything\<close>

definition check_update :: "store \<Rightarrow> role_update list \<Rightarrow> role_update \<Rightarrow> role_error option" where
  "check_update s us u =
     (if ru_custom u \<and> agent_name_exists s (ru_key u) then Some (RoleKeyIsAgent (ru_key u))
      else if ru_extends u \<noteq> [] \<and> ru_extends u = ru_key u then Some (RoleExtendsItself (ru_key u))
      else if ru_extends u \<noteq> [] \<and> \<not> role_exists s (ru_extends u) \<and>
              ru_extends u \<notin> set (map ru_key us)
      then Some (RoleExtendsUnknown (ru_key u) (ru_extends u))
      else None)"

definition update_entry :: "role_update \<Rightarrow> role_entry" where
  "update_entry u =
     \<lparr>ro_label = (if ru_custom u then ru_key u else []), ro_description = ru_description u,
      ro_emoji = ru_emoji u, ro_icon = ru_emoji u, ro_body = ru_body u,
      ro_cardinality = ru_cardinality u, ro_extends = ru_extends u\<rparr>"

definition new_layer :: "bool \<Rightarrow> role_update list \<Rightarrow> (string, role_entry) table" where
  "new_layer custom us =
     fold (\<lambda>u. put (ru_key u) (update_entry u)) (filter (\<lambda>u. ru_custom u = custom) us) []"

definition old_bodies :: "store \<Rightarrow> (string, string) table" where
  "old_bodies s =
     fold (\<lambda>(k, e). put k (ro_body e)) (s_role_custom s)
       (fold (\<lambda>(k, e). put k (ro_body e)) (s_role_overrides s) [])"

text \<open>The first pass over the removed keys; the result lists the removed overrides in use.\<close>

fun retire_roles ::
    "int \<Rightarrow> string list \<Rightarrow> string list \<Rightarrow> bool \<Rightarrow> string list \<Rightarrow> store \<Rightarrow>
     (role_error + string list) \<times> store" where
  "retire_roles t new customs force [] s = (Inr [], s)"
| "retire_roles t new customs force (k # ks) s =
     (if k \<in> set new then retire_roles t new customs force ks s
      else
        let rooms = rooms_with_role s k in
        if rooms = [] then retire_roles t new customs force ks s
        else if k \<in> set customs then
          if \<not> force then (Inl (CustomRoleAssigned k rooms), s)
          else retire_roles t new customs force ks (cascade_unassign t k rooms s)
        else
          (case retire_roles t new customs force ks s of
             (Inl e, s') \<Rightarrow> (Inl e, s')
           | (Inr rest, s') \<Rightarrow> (Inr (k # rest), s')))"

definition replace_roles ::
    "int \<Rightarrow> role_update list \<Rightarrow> bool \<Rightarrow> store \<Rightarrow> (role_error + unit) \<times> store" where
  "replace_roles t us force s =
     (case validate_role_extension_cycles s us of
        Some e \<Rightarrow> (Inl e, s)
      | None \<Rightarrow>
          (case first_error (check_update s us) us of
             Some e \<Rightarrow> (Inl e, s)
           | None \<Rightarrow>
               let old = old_bodies s in
               (case retire_roles t (map ru_key us) (keys (s_role_custom s)) force (keys old) s of
                  (Inl e, s1) \<Rightarrow> (Inl e, s1)
                | (Inr removed, s1) \<Rightarrow>
                    let s2 = save_roles (s1\<lparr>s_role_overrides := new_layer False us,
                                            s_role_custom := new_layer True us\<rparr>);
                        s3 = fold (\<lambda>k s. propagate_role_update t k (compiled_role_default_for s k) s)
                               removed s2;
                        s4 = fold (\<lambda>u. propagate_role_update t (ru_key u) (ru_body u))
                               (filter (\<lambda>u. ru_body u \<noteq> get_or [] old (ru_key u)) us) s3
                    in (Inr (), broadcast_roles_updated s4))))"

subsection \<open>Deleting\<close>

definition delete_role_override ::
    "int \<Rightarrow> string \<Rightarrow> bool \<Rightarrow> store \<Rightarrow> (role_error + unit) \<times> store" where
  "delete_role_override t k force s =
     (let rooms = rooms_with_role s k in
      if in_catalog k then
        let s1 = save_roles (s\<lparr>s_role_overrides := del k (s_role_overrides s)\<rparr>)
        in (Inr (), if rooms \<noteq> [] then propagate_role_update t k (compiled_role_default_for s1 k) s1
                    else broadcast_roles_updated s1)
      else if rooms \<noteq> [] \<and> \<not> force then (Inl (RoleAssigned k rooms), s)
      else
        let s1 = (if force \<and> rooms \<noteq> [] then cascade_unassign t k rooms s else s);
            s2 = s1\<lparr>s_role_overrides := del k (s_role_overrides s1),
                    s_role_custom := del k (s_role_custom s1)\<rparr>
        in (Inr (), broadcast_roles_updated (save_roles s2)))"

definition assigned_rooms :: "store \<Rightarrow> string list" where
  "assigned_rooms s = map (r_id \<circ> snd) (filter (\<lambda>p. r_roles (snd p) \<noteq> []) (s_rooms s))"

definition clear_assignments :: "store \<Rightarrow> store" where
  "clear_assignments s =
     broadcast_room_update
       (persist (s\<lparr>s_rooms := map_vals (\<lambda>_ r. r\<lparr>r_roles := []\<rparr>) (s_rooms s)\<rparr>))"

definition delete_all_role_overrides :: "bool \<Rightarrow> store \<Rightarrow> (role_error + unit) \<times> store" where
  "delete_all_role_overrides force s =
     (if \<not> force \<and> assigned_rooms s \<noteq> [] then (Inl (RolesAssigned (assigned_rooms s)), s)
      else
        let s1 = (if force then clear_assignments s else s)
        in (Inr (), broadcast_roles_updated
                      (save_roles (s1\<lparr>s_role_overrides := [], s_role_custom := []\<rparr>))))"

definition clear_roles :: "store \<Rightarrow> store" where
  "clear_roles s =
     s\<lparr>s_role_overrides := [], s_role_custom := [],
       s_db := (s_db s)\<lparr>db_role_overrides := [], db_role_custom := []\<rparr>\<rparr>"

subsection \<open>The handlers\<close>

datatype role_value = RoleText string | RoleObject role_entry | RoleJunk

datatype role_refusal =
    RoleRefused role_error
  | RoleValueInvalid string
  | RoleExtendsInvalid string
  | UnknownRoleKey string
  | RoleAgentRequired

fun map_result :: "('a \<Rightarrow> 'e + 'b) \<Rightarrow> 'a list \<Rightarrow> 'e + 'b list" where
  "map_result f [] = Inr []"
| "map_result f (x # xs) =
     (case f x of Inl e \<Rightarrow> Inl e
      | Inr y \<Rightarrow> (case map_result f xs of Inl e \<Rightarrow> Inl e | Inr ys \<Rightarrow> Inr (y # ys)))"

definition catalog_emoji :: "catalog_entry \<Rightarrow> string" where
  "catalog_emoji e = (if ce_emoji e \<noteq> [] then ce_emoji e else ce_icon e)"

text \<open>The fields as the request gives them, with the catalog's where the request leaves them out.\<close>

definition raw_update :: "string \<Rightarrow> role_value \<Rightarrow> role_refusal + role_update" where
  "raw_update k v =
     (let blank = \<lparr>ru_key = k, ru_body = [], ru_description = [], ru_emoji = [], ru_cardinality = [],
                   ru_extends = [], ru_custom = \<not> in_catalog k\<rparr>
      in case v of
           RoleText body \<Rightarrow>
             (case catalog_entry_for k of
                None \<Rightarrow> Inr (blank\<lparr>ru_body := body\<rparr>)
              | Some e \<Rightarrow>
                  Inr (blank\<lparr>ru_body := body, ru_description := ce_description e,
                         ru_emoji := catalog_emoji e, ru_cardinality := ce_cardinality e,
                         ru_extends := ce_extends e\<rparr>))
         | RoleJunk \<Rightarrow> Inl (RoleValueInvalid k)
         | RoleObject ro \<Rightarrow>
             let u = blank\<lparr>ru_body := ro_body ro, ru_description := ro_description ro,
                       ru_emoji := (if ro_emoji ro \<noteq> [] then ro_emoji ro else ro_icon ro),
                       ru_cardinality := ro_cardinality ro, ru_extends := ro_extends ro\<rparr>
             in (case catalog_entry_for k of
                   None \<Rightarrow> Inr u
                 | Some e \<Rightarrow>
                     Inr (u\<lparr>ru_emoji := (if ru_emoji u = [] then catalog_emoji e else ru_emoji u),
                            ru_cardinality := (if ru_cardinality u = [] then ce_cardinality e
                                               else ru_cardinality u)\<rparr>)))"

definition decode_update :: "string \<times> role_value \<Rightarrow> role_refusal + role_update" where
  "decode_update p =
     (if \<not> role_key_ok (fst p) then Inl (RoleRefused (RoleKeyInvalid (fst p)))
      else case raw_update (fst p) (snd p) of
        Inl e \<Rightarrow> Inl e
      | Inr u \<Rightarrow>
          if max_role_body < length (ru_body u) then Inl (RoleRefused RoleBodyTooLarge)
          else (case normalize_role_icon (ru_emoji u) of
                  Inl e \<Rightarrow> Inl (RoleRefused e)
                | Inr ic \<Rightarrow>
                    (case normalize_role_cardinality (ru_cardinality u) of
                       Inl e \<Rightarrow> Inl (RoleRefused e)
                     | Inr c \<Rightarrow>
                         if ru_extends u \<noteq> [] \<and> \<not> role_key_ok (ru_extends u)
                         then Inl (RoleExtendsInvalid (fst p))
                         else Inr (u\<lparr>ru_emoji := ic, ru_cardinality := c\<rparr>))))"

definition refuse :: "(role_error + unit) \<times> store \<Rightarrow> (role_refusal + unit) \<times> store" where
  "refuse r = (case fst r of Inl e \<Rightarrow> Inl (RoleRefused e) | Inr u \<Rightarrow> Inr u, snd r)"

definition put_roles ::
    "int \<Rightarrow> (string, role_value) table \<Rightarrow> bool \<Rightarrow> store \<Rightarrow> (role_refusal + unit) \<times> store" where
  "put_roles t payload force s =
     (if max_roles < length payload then (Inl (RoleRefused TooManyRoles), s)
      else case map_result decode_update payload of
             Inl e \<Rightarrow> (Inl e, s)
           | Inr us \<Rightarrow> refuse (replace_roles t us force s))"

definition delete_role :: "int \<Rightarrow> string \<Rightarrow> bool \<Rightarrow> store \<Rightarrow> (role_refusal + unit) \<times> store" where
  "delete_role t k force s =
     (if \<not> role_exists s k then (Inl (UnknownRoleKey k), s)
      else refuse (delete_role_override t k force s))"

definition post_room_role ::
    "int \<Rightarrow> string \<Rightarrow> string \<Rightarrow> string \<Rightarrow> store \<Rightarrow> (role_refusal + room option) \<times> store" where
  "post_room_role t rid aid k s =
     (if aid = [] then (Inl RoleAgentRequired, s)
      else if k \<noteq> [] \<and> \<not> role_exists s k then (Inl (UnknownRoleKey k), s)
      else case assign_role t rid aid k s of
             (Inl e, s') \<Rightarrow> (Inl (RoleRefused e), s')
           | (Inr _, s') \<Rightarrow> (Inr (get_room s' rid), s'))"

subsection \<open>What the operations leave alone\<close>

lemma set_room_roles_frame [frame, simp]:
  "s_agents (set_room_roles rid r ro s) = s_agents s" "s_messages (set_room_roles rid r ro s) = s_messages s"
  "s_next_id (set_room_roles rid r ro s) = s_next_id s" "s_reactions (set_room_roles rid r ro s) = s_reactions s"
  "s_role_custom (set_room_roles rid r ro s) = s_role_custom s"
  "s_role_overrides (set_room_roles rid r ro s) = s_role_overrides s"
  "s_rooms (set_room_roles rid r ro s) = put rid (r\<lparr>r_roles := ro\<rparr>) (s_rooms s)"
  by (simp_all add: set_room_roles_def broadcasts)

lemma save_roles_frame [frame, simp]:
  "s_rooms (save_roles s) = s_rooms s" "s_agents (save_roles s) = s_agents s"
  "s_messages (save_roles s) = s_messages s" "s_next_id (save_roles s) = s_next_id s"
  "s_reactions (save_roles s) = s_reactions s" "s_role_custom (save_roles s) = s_role_custom s"
  "s_role_overrides (save_roles s) = s_role_overrides s"
  by (simp_all add: save_roles_def)

lemma fold_frame: "(\<And>x s. f (g x s) = f s) \<Longrightarrow> f (fold g xs s) = f s"
  by (induction xs arbitrary: s) auto

lemma propagate_frame [frame, simp]:
  "s_rooms (propagate_role_update t k b s) = s_rooms s"
  "s_agents (propagate_role_update t k b s) = s_agents s"
  "s_role_custom (propagate_role_update t k b s) = s_role_custom s"
  "s_role_overrides (propagate_role_update t k b s) = s_role_overrides s"
  by (simp_all add: propagate_role_update_def broadcasts emits fold_frame [of s_rooms]
      fold_frame [of s_agents] fold_frame [of s_role_custom] fold_frame [of s_role_overrides])

lemma assign_role_cases:
  obtains (same) "snd (assign_role t rid aid k s) = s"
  | (silent) r ro where "map_of (s_rooms s) rid = Some r"
      "snd (assign_role t rid aid k s) = set_room_roles rid r ro s"
  | (told) r ro b ts where "map_of (s_rooms s) rid = Some r"
      "snd (assign_role t rid aid k s) = emit_system_full t rid b ts False (set_room_roles rid r ro s)"
proof (cases "rid = [] \<or> map_of (s_rooms s) rid = None")
  case True
  then show ?thesis by (intro same) (auto simp: assign_role_def Let_def)
next
  case False
  then obtain r where r: "rid \<noteq> []" "map_of (s_rooms s) rid = Some r" by auto
  show ?thesis
  proof (cases "aid = [] \<or> k = []")
    case True
    then show ?thesis
      using r same silent told by (cases "aid = []"; cases "has_key (r_roles r) aid")
        (simp_all add: assign_role_def emit_system_to_def)
  next
    case assign: False
    show ?thesis
    proof (cases "aid \<in> set (r_members r) \<and> (\<exists>a. map_of (s_agents s) aid = Some a \<and> a_kind a \<noteq> ''human'') \<and>
        role_clash (role_cardinality s k) (r_roles r) aid k = [] \<and> map_of (r_roles r) aid \<noteq> Some k")
      case True
      then show ?thesis using r assign
        by (intro told [OF r(2)]) (auto simp: assign_role_def emit_system_to_def)
    next
      case False
      then show ?thesis using r assign
        by (intro same) (auto simp: assign_role_def Let_def split: option.split list.split)
    qed
  qed
qed

lemma assign_role_frame [frame, simp]:
  "s_agents (snd (assign_role t rid aid k s)) = s_agents s"
  "s_role_custom (snd (assign_role t rid aid k s)) = s_role_custom s"
  "s_role_overrides (snd (assign_role t rid aid k s)) = s_role_overrides s"
  by (cases rule: assign_role_cases [of t rid aid k s]; simp)+

lemma cascade_frame [frame, simp]:
  "s_agents (cascade_unassign t k rids s) = s_agents s"
  "s_role_custom (cascade_unassign t k rids s) = s_role_custom s"
  "s_role_overrides (cascade_unassign t k rids s) = s_role_overrides s"
  by (simp_all add: cascade_unassign_def fold_frame [of s_agents] fold_frame [of s_role_custom]
      fold_frame [of s_role_overrides])

lemma retire_frame [frame, simp]:
  "s_agents (snd (retire_roles t new cs force ks s)) = s_agents s"
  "s_role_custom (snd (retire_roles t new cs force ks s)) = s_role_custom s"
  "s_role_overrides (snd (retire_roles t new cs force ks s)) = s_role_overrides s"
proof (induction t new cs force ks s rule: retire_roles.induct)
  case (2 t new cs force k ks s)
  note IH = 2
  { case 1 show ?case using IH by (cases "retire_roles t new cs force ks s"; cases "fst (retire_roles t new cs force ks s)")
      (auto simp: Let_def) }
  { case 2 show ?case using IH by (cases "retire_roles t new cs force ks s"; cases "fst (retire_roles t new cs force ks s)")
      (auto simp: Let_def) }
  { case 3 show ?case using IH by (cases "retire_roles t new cs force ks s"; cases "fst (retire_roles t new cs force ks s)")
      (auto simp: Let_def) }
qed simp_all

subsection \<open>The store invariant\<close>

lemma room_ok_roles:
  "room_ok ags k r \<Longrightarrow> distinct (keys ro) \<Longrightarrow> set (keys ro) \<subseteq> set (r_members r) \<Longrightarrow>
   room_ok ags k (r\<lparr>r_roles := ro\<rparr>)"
  by (simp add: room_ok_def)

lemma distinct_keys_filter: "distinct (keys m) \<Longrightarrow> distinct (keys (filter P m))"
  by (simp add: distinct_map_filter)

lemma set_room_roles_ok:
  assumes "store_ok s" "map_of (s_rooms s) rid = Some r" "distinct (keys ro)"
    "set (keys ro) \<subseteq> set (r_members r)"
  shows "store_ok (set_room_roles rid r ro s)"
proof -
  have r: "room_ok (s_agents s) rid r"
    using assms(1,2) by (auto simp: store_ok_def intro: rooms_ok_lookup)
  have "rooms_ok (put rid (r\<lparr>r_roles := ro\<rparr>) (s_rooms s)) (s_agents s)"
    using assms r by (intro rooms_ok_put room_ok_roles) (auto simp: store_ok_def)
  then show ?thesis using assms(1) by (simp add: store_ok_def log_ok_put_room)
qed

lemma assign_role_ok [inv]:
  assumes "store_ok s" shows "store_ok (snd (assign_role t rid aid k s))"
proof (cases "rid = [] \<or> map_of (s_rooms s) rid = None")
  case True
  then show ?thesis using assms by (auto simp: assign_role_def Let_def)
next
  case False
  then obtain r where r: "rid \<noteq> []" "map_of (s_rooms s) rid = Some r" by auto
  have rok: "distinct (keys (r_roles r))" "set (keys (r_roles r)) \<subseteq> set (r_members r)"
    using assms r rooms_ok_lookup [of "s_rooms s" "s_agents s" rid r] by (simp_all add: store_ok_def room_ok_def)
  show ?thesis
  proof (cases "aid = []")
    case True
    have "store_ok (set_room_roles rid r (filter (\<lambda>p. snd p \<noteq> k) (r_roles r)) s)"
      using rok by (intro set_room_roles_ok assms r distinct_keys_filter) auto
    then show ?thesis using True r by (simp add: assign_role_def)
  next
    case aid: False
    show ?thesis
    proof (cases "k = []")
      case True
      have "store_ok (set_room_roles rid r (del aid (r_roles r)) s)"
        using rok by (intro set_room_roles_ok assms r) (auto simp del: set_map)
      then show ?thesis using True aid r assms by (simp add: assign_role_def emits store_ok_emit)
    next
      case k: False
      show ?thesis
      proof (cases "aid \<in> set (r_members r)")
        case True
        have "store_ok (set_room_roles rid r (put aid k (r_roles r)) s)"
          using rok True by (intro set_room_roles_ok assms r) (auto simp del: set_map)
        then show ?thesis using True k aid r assms
          by (simp add: assign_role_def Let_def emits store_ok_emit split: option.split list.split)
      next
        case False
        then show ?thesis using k aid r assms by (simp add: assign_role_def)
      qed
    qed
  qed
qed

lemma store_ok_save_roles [inv, simp]: "store_ok (save_roles s) = store_ok s"
  by (rule store_ok_cong) simp_all

lemma store_ok_layers [simp]:
  "store_ok (s\<lparr>s_role_overrides := a\<rparr>) = store_ok s" "store_ok (s\<lparr>s_role_custom := b\<rparr>) = store_ok s"
  by (rule store_ok_cong; simp)+

lemma propagate_ok [inv]: "store_ok s \<Longrightarrow> store_ok (propagate_role_update t k b s)"
  by (simp add: propagate_role_update_def store_ok_fold emits store_ok_emit)

lemma cascade_ok [inv]: "store_ok s \<Longrightarrow> store_ok (cascade_unassign t k rids s)"
  unfolding cascade_unassign_def by (intro store_ok_fold) (auto intro: assign_role_ok)

lemma retire_ok [inv]: "store_ok s \<Longrightarrow> store_ok (snd (retire_roles t new cs force ks s))"
proof (induction t new cs force ks s rule: retire_roles.induct)
  case (2 t new cs force k ks s)
  then show ?case
    by (cases "retire_roles t new cs force ks s"; cases "fst (retire_roles t new cs force ks s)")
      (auto simp: Let_def cascade_ok)
qed simp

lemma replace_roles_ok [inv]:
  assumes "store_ok s" shows "store_ok (snd (replace_roles t us force s))"
proof -
  obtain res s1 where r: "retire_roles t (map ru_key us) (keys (s_role_custom s)) force (keys (old_bodies s)) s = (res, s1)"
    by fastforce
  then have "store_ok s1" using retire_ok [OF assms] by (metis snd_conv)
  then show ?thesis using assms r
    by (simp add: replace_roles_def store_ok_fold propagate_ok split: option.split sum.split)
qed

lemma delete_role_override_ok [inv]:
  "store_ok s \<Longrightarrow> store_ok (snd (delete_role_override t k force s))"
  by (simp add: delete_role_override_def Let_def propagate_ok cascade_ok)

lemma clear_assignments_ok:
  assumes "store_ok s" shows "store_ok (clear_assignments s)"
proof -
  have "room_ok (s_agents s) k (r\<lparr>r_roles := []\<rparr>)" if "(k, r) \<in> set (s_rooms s)" for k r
    using assms that by (intro room_ok_roles) (auto simp: store_ok_def rooms_ok_def)
  then have "rooms_ok (map_vals (\<lambda>_ r. r\<lparr>r_roles := []\<rparr>) (s_rooms s)) (s_agents s)"
    using assms by (auto simp: store_ok_def rooms_ok_def snd_in_map_vals)
  then show ?thesis using assms
    by (simp add: clear_assignments_def store_ok_def broadcasts log_ok_map_rooms)
qed

lemma delete_all_role_overrides_ok [inv]:
  "store_ok s \<Longrightarrow> store_ok (snd (delete_all_role_overrides force s))"
  by (simp add: delete_all_role_overrides_def Let_def clear_assignments_ok)

lemma put_roles_ok [inv]: "store_ok s \<Longrightarrow> store_ok (snd (put_roles t payload force s))"
  by (simp add: put_roles_def refuse_def replace_roles_ok split: sum.split)

lemma delete_role_ok [inv]: "store_ok s \<Longrightarrow> store_ok (snd (delete_role t k force s))"
  by (simp add: delete_role_def refuse_def delete_role_override_ok)

lemma snd_post_room_role:
  "snd (post_room_role t rid aid k s) =
     (if aid = [] \<or> k \<noteq> [] \<and> \<not> role_exists s k then s else snd (assign_role t rid aid k s))"
  by (auto simp: post_room_role_def split: prod.split sum.split)

lemma post_room_role_ok [inv]: "store_ok s \<Longrightarrow> store_ok (snd (post_room_role t rid aid k s))"
  by (simp add: snd_post_room_role assign_role_ok)

subsection \<open>What a cascade removes\<close>

definition drop_roles :: "(string \<Rightarrow> bool) \<Rightarrow> room \<Rightarrow> room" where
  "drop_roles P r = r\<lparr>r_roles := filter (\<lambda>p. \<not> P (snd p)) (r_roles r)\<rparr>"

lemma put_same: "map_of m k = Some v \<Longrightarrow> put k v m = m"
  by (induction m) (auto split: if_splits)

lemma put_existing:
  "distinct (keys m) \<Longrightarrow> map_of m k = Some v \<Longrightarrow>
   put k w m = map_vals (\<lambda>j x. if j = k then w else x) m"
proof (induction m)
  case (Cons p m)
  have "map_vals (\<lambda>j x. if j = k then w else x) m = m" if "k \<notin> fst ` set m"
    using that by (intro map_vals_id) force
  then show ?case using Cons by (cases p) (auto simp: map_vals_def)
qed simp

lemma map_vals_cong: "(\<And>k v. (k, v) \<in> set m \<Longrightarrow> f k v = g k v) \<Longrightarrow> map_vals f m = map_vals g m"
  by (auto simp: map_vals_def)

lemma cascade_rooms:
  "distinct (keys (s_rooms s)) \<Longrightarrow> [] \<notin> set rids \<Longrightarrow>
   s_rooms (cascade_unassign t k rids s) =
     map_vals (\<lambda>j r. if j \<in> set rids then drop_roles (\<lambda>x. x = k) r else r) (s_rooms s)"
proof (induction rids arbitrary: s)
  case Nil
  show ?case by (simp add: cascade_unassign_def map_vals_id)
next
  case (Cons rid rids)
  have ne: "rid \<noteq> []" using Cons.prems by auto
  have one: "s_rooms (snd (assign_role t rid [] k s)) =
      map_vals (\<lambda>j r. if j = rid then drop_roles (\<lambda>x. x = k) r else r) (s_rooms s)"
  proof (cases "map_of (s_rooms s) rid")
    case None
    then have "j \<noteq> rid" if "(j, r) \<in> set (s_rooms s)" for j r using that by (force simp: map_of_eq_None_iff)
    then show ?thesis using None Cons.prems by (auto simp: assign_role_def intro!: map_vals_id [symmetric])
  next
    case (Some r)
    then have "s_rooms (snd (assign_role t rid [] k s)) = put rid (drop_roles (\<lambda>x. x = k) r) (s_rooms s)"
      using ne by (simp add: assign_role_def drop_roles_def)
    also have "\<dots> = map_vals (\<lambda>j x. if j = rid then drop_roles (\<lambda>x. x = k) r else x) (s_rooms s)"
      by (rule put_existing [OF Cons.prems(1) Some])
    also have "\<dots> = map_vals (\<lambda>j x. if j = rid then drop_roles (\<lambda>x. x = k) x else x) (s_rooms s)"
      using Some Cons.prems(1) by (auto intro!: map_vals_cong dest: eq_key_imp_eq_value)
    finally show ?thesis .
  qed
  have "s_rooms (cascade_unassign t k (rid # rids) s) =
      s_rooms (cascade_unassign t k rids (snd (assign_role t rid [] k s)))"
    by (simp add: cascade_unassign_def)
  also have "\<dots> = map_vals (\<lambda>j r. if j \<in> set rids then drop_roles (\<lambda>x. x = k) r else r)
      (map_vals (\<lambda>j r. if j = rid then drop_roles (\<lambda>x. x = k) r else r) (s_rooms s))"
    using Cons.IH [of "snd (assign_role t rid [] k s)"] Cons.prems by (simp add: one)
  finally show ?case
    by (simp add: map_vals_map_vals) (rule arg_cong [of _ _ "\<lambda>f. map_vals f _"];
        auto simp: fun_eq_iff drop_roles_def)
qed

lemma not_in_rooms_with_role:
  assumes "distinct (keys (s_rooms s))" "(rid, r) \<in> set (s_rooms s)" "rid \<notin> set (rooms_with_role s k)"
  shows "drop_roles (\<lambda>x. x = k) r = r"
proof -
  have "k \<notin> snd ` set (r_roles r)"
    using assms by (force simp: rooms_with_role_def)
  then have "filter (\<lambda>p. snd p \<noteq> k) (r_roles r) = r_roles r" by (auto simp: filter_id_conv)
  then show ?thesis by (simp add: drop_roles_def)
qed

lemma cascade_all:
  assumes "distinct (keys (s_rooms s))" "[] \<notin> set (keys (s_rooms s))"
  shows "s_rooms (cascade_unassign t k (rooms_with_role s k) s) =
    map_vals (\<lambda>_. drop_roles (\<lambda>x. x = k)) (s_rooms s)"
proof -
  have "[] \<notin> set (rooms_with_role s k)" using assms(2) by (auto simp: rooms_with_role_def image_iff)
  then show ?thesis
    using assms not_in_rooms_with_role [OF assms(1)]
    by (auto simp: cascade_rooms intro!: map_vals_cong)
qed

lemma drop_roles_drop: "drop_roles P (drop_roles Q r) = drop_roles (\<lambda>x. P x \<or> Q x) r"
  by (simp add: drop_roles_def conj_commute)

lemma retire_rooms:
  "retire_roles t new cs force ks s = (Inr l, s') \<Longrightarrow> distinct (keys (s_rooms s)) \<Longrightarrow>
   [] \<notin> set (keys (s_rooms s)) \<Longrightarrow>
   s_rooms s' = map_vals (\<lambda>_. drop_roles (\<lambda>x. x \<in> set ks \<and> x \<notin> set new \<and> x \<in> set cs)) (s_rooms s)"
proof (induction t new cs force ks s arbitrary: l s' rule: retire_roles.induct)
  case (1 t new cs force s)
  then show ?case by (simp add: drop_roles_def map_vals_id)
next
  case (2 t new cs force k ks s)
  let ?P = "\<lambda>ks x. x \<in> set ks \<and> x \<notin> set new \<and> x \<in> set cs"
  have skip: ?case if "k \<in> set new \<or> k \<notin> set cs \<or> rooms_with_role s k = []"
    and "s_rooms s' = map_vals (\<lambda>_. drop_roles (?P ks)) (s_rooms s)"
  proof -
    have "drop_roles (?P (k # ks)) r = drop_roles (?P ks) r" if "(rid, r) \<in> set (s_rooms s)" for rid r
    proof (cases "k \<in> set new \<or> k \<notin> set cs")
      case True
      then have "?P (k # ks) = ?P ks" by auto
      then show ?thesis by simp
    next
      case False
      then have "drop_roles (\<lambda>x. x = k) r = r"
        using not_in_rooms_with_role [OF 2(6) that, of k] \<open>k \<in> set new \<or> k \<notin> set cs \<or> rooms_with_role s k = []\<close>
        by simp
      then have "drop_roles (?P ks) r = drop_roles (?P ks) (drop_roles (\<lambda>x. x = k) r)" by simp
      also have "\<dots> = drop_roles (?P (k # ks)) r"
        using False by (simp only: drop_roles_drop) (rule arg_cong [of _ _ "\<lambda>P. drop_roles P r"]; auto)
      finally show ?thesis ..
    qed
    then show ?case using that(2) by (auto intro!: map_vals_cong)
  qed
  consider (new) "k \<in> set new" | (free) "k \<notin> set new" "rooms_with_role s k = []"
    | (forced) "k \<notin> set new" "rooms_with_role s k \<noteq> []" "k \<in> set cs"
    | (kept) "k \<notin> set new" "rooms_with_role s k \<noteq> []" "k \<notin> set cs"
    by blast
  then show ?case
  proof cases
    case new
    then have "retire_roles t new cs force ks s = (Inr l, s')" using 2(5) by simp
    from skip [OF disjI1 [OF new] 2(1) [OF new this 2(6,7)]] show ?thesis .
  next
    case free
    then have "retire_roles t new cs force ks s = (Inr l, s')" using 2(5) by simp
    from skip [OF _ 2(2) [OF free(1) refl free(2) this 2(6,7)]] free show ?thesis by blast
  next
    case forced
    let ?s1 = "cascade_unassign t k (rooms_with_role s k) s"
    have s1: "s_rooms ?s1 = map_vals (\<lambda>_. drop_roles (\<lambda>x. x = k)) (s_rooms s)"
      by (rule cascade_all [OF 2(6,7)])
    have f: "force" using forced 2(5) by (cases force) auto
    then have r: "retire_roles t new cs force ks ?s1 = (Inr l, s')"
      using forced 2(5) by simp
    have "distinct (keys (s_rooms ?s1))" "[] \<notin> set (keys (s_rooms ?s1))"
      unfolding s1 keys_map_vals by (fact 2(6,7))+
    then have "s_rooms s' = map_vals (\<lambda>_. drop_roles (?P ks)) (s_rooms ?s1)"
      using 2(3) [OF forced(1) refl forced(2,3) _ r] f by simp
    also have "\<dots> = map_vals (\<lambda>_. drop_roles (\<lambda>x. ?P ks x \<or> x = k)) (s_rooms s)"
      by (simp only: s1 map_vals_map_vals drop_roles_drop)
    also have "(\<lambda>x. ?P ks x \<or> x = k) = ?P (k # ks)" using forced by auto
    finally show ?thesis .
  next
    case kept
    then obtain l' where "retire_roles t new cs force ks s = (Inr l', s')"
      using 2(5) by (auto simp: Let_def split: prod.splits sum.splits)
    from skip [OF _ 2(4) [OF kept(1) refl kept(2,3) this 2(6,7)]] kept show ?thesis by blast
  qed
qed

lemma retire_refused: "retire_roles t new cs force ks s = (Inl e, s') \<Longrightarrow> \<not> force \<and> s' = s"
proof (induction t new cs force ks s arbitrary: e s' rule: retire_roles.induct)
  case (2 t new cs force k ks s)
  then show ?case
    by (cases "k \<in> set new"; cases "rooms_with_role s k = []"; cases "k \<in> set cs"; cases force)
      (auto simp: Let_def split: prod.splits sum.splits)
qed simp

subsection \<open>What a decoded replacement guarantees\<close>

definition entry_ok :: "string \<Rightarrow> role_entry \<Rightarrow> bool" where
  "entry_ok k e =
     (role_key_ok k \<and> length (ro_body e) \<le> max_role_body \<and>
      ro_cardinality e \<in> {''multi'', ''singleton''} \<and> rune_count (ro_emoji e) \<le> 16 \<and>
      length (ro_emoji e) \<le> 64 \<and> (ro_extends e = [] \<or> role_key_ok (ro_extends e)))"

lemma raw_update_key:
  "raw_update k v = Inr u \<Longrightarrow> ru_key u = k \<and> ru_custom u = (\<not> in_catalog k)"
  by (cases v; cases "catalog_entry_for k") (auto simp: raw_update_def Let_def)

lemma rune_count_Nil [simp]: "rune_count [] = 0"
  by (simp add: rune_count_def)

lemma decode_update_ok:
  assumes "decode_update p = Inr u"
  shows "ru_key u = fst p" "ru_custom u = (\<not> in_catalog (fst p))" "entry_ok (fst p) (update_entry u)"
proof -
  from assms obtain u0 ic c where d: "role_key_ok (fst p)" "raw_update (fst p) (snd p) = Inr u0"
    "\<not> max_role_body < length (ru_body u0)" "normalize_role_icon (ru_emoji u0) = Inr ic"
    "normalize_role_cardinality (ru_cardinality u0) = Inr c"
    "\<not> (ru_extends u0 \<noteq> [] \<and> \<not> role_key_ok (ru_extends u0))"
    "u = u0\<lparr>ru_emoji := ic, ru_cardinality := c\<rparr>"
    by (auto simp: decode_update_def split: if_splits sum.splits)
  show "ru_key u = fst p" "ru_custom u = (\<not> in_catalog (fst p))"
    using raw_update_key [OF d(2)] d(7) by simp_all
  show "entry_ok (fst p) (update_entry u)"
    using d normalize_role_icon_bounds [OF d(4)] normalize_role_cardinality_range [OF d(5)]
    by (auto simp: entry_ok_def update_entry_def)
qed

lemma map_result_Inr: "map_result f xs = Inr ys \<Longrightarrow> list_all2 (\<lambda>x y. f x = Inr y) xs ys"
  by (induction xs arbitrary: ys) (auto simp: list_all2_Cons1 split: sum.splits)

lemma decoded:
  assumes "map_result decode_update payload = Inr us"
  shows "map ru_key us = keys payload"
    "u \<in> set us \<Longrightarrow> ru_custom u = (\<not> in_catalog (ru_key u)) \<and> entry_ok (ru_key u) (update_entry u)"
proof -
  have *: "list_all2 (\<lambda>p u. decode_update p = Inr u) payload us" using assms by (rule map_result_Inr)
  show "map ru_key us = keys payload"
    using * by (induction rule: list_all2_induct) (simp_all add: decode_update_ok)
  show "u \<in> set us \<Longrightarrow> ru_custom u = (\<not> in_catalog (ru_key u)) \<and> entry_ok (ru_key u) (update_entry u)"
  proof -
    assume "u \<in> set us"
    then obtain i where "i < length us" "u = us ! i" by (auto simp: in_set_conv_nth)
    then have "decode_update (payload ! i) = Inr u" using * by (auto dest: list_all2_nthD2)
    from decode_update_ok [OF this] show ?thesis by simp
  qed
qed

lemma set_fold_put: "p \<in> set (fold (\<lambda>u. put (f u) (g u)) us m) \<Longrightarrow> p \<in> set m \<or> (\<exists>u \<in> set us. p = (f u, g u))"
  by (induction us arbitrary: m) (auto dest!: in_set_putD)

lemma keys_fold_put: "set (keys (fold (\<lambda>u. put (f u) (g u)) us m)) = set (keys m) \<union> f ` set us"
  by (induction us arbitrary: m) (auto simp del: set_map)

lemma new_layer_entry:
  "(k, e) \<in> set (new_layer b us) \<Longrightarrow> \<exists>u \<in> set us. ru_custom u = b \<and> k = ru_key u \<and> e = update_entry u"
  unfolding new_layer_def by (auto dest!: set_fold_put)

lemma new_layer_keys: "has_key (new_layer b us) k \<longleftrightarrow> (\<exists>u \<in> set us. ru_custom u = b \<and> ru_key u = k)"
  unfolding has_key_iff new_layer_def keys_fold_put by auto

lemma keys_old_bodies: "has_key (s_role_custom s) k \<Longrightarrow> k \<in> set (keys (old_bodies s))"
  by (auto simp: old_bodies_def has_key_iff case_prod_unfold keys_fold_put [of fst "\<lambda>p. ro_body (snd p)"]
      simp del: set_map) simp

lemma retire_quiet: "\<not> force \<Longrightarrow> snd (retire_roles t new cs force ks s) = s"
proof (induction ks)
  case (Cons k ks)
  then show ?case
    by (cases "retire_roles t new cs force ks s"; cases "fst (retire_roles t new cs force ks s)")
      (auto simp: Let_def)
qed simp

lemma replace_roles_cases:
  assumes "replace_roles t us force s = (res, s')" "distinct (keys (s_rooms s))" "[] \<notin> set (keys (s_rooms s))"
  shows "(\<exists>e. res = Inl e) \<and> s' = s \<or>
    res = Inr () \<and> s_role_overrides s' = new_layer False us \<and> s_role_custom s' = new_layer True us \<and>
    s_rooms s' = map_vals (\<lambda>_. drop_roles (\<lambda>k. has_key (s_role_custom s) k \<and> k \<notin> set (map ru_key us))) (s_rooms s) \<and>
    (\<not> force \<longrightarrow> s_rooms s' = s_rooms s)"
proof (cases "validate_role_extension_cycles s us = None \<and> first_error (check_update s us) us = None")
  case False
  then show ?thesis using assms(1) by (auto simp: replace_roles_def split: option.splits)
next
  case True
  obtain r s1 where r: "retire_roles t (map ru_key us) (keys (s_role_custom s)) force (keys (old_bodies s)) s = (r, s1)"
    by fastforce
  show ?thesis
  proof (cases r)
    case (Inl e)
    then show ?thesis using True r assms(1) retire_refused by (fastforce simp: replace_roles_def)
  next
    case (Inr removed)
    have P: "(\<lambda>x. x \<in> set (keys (old_bodies s)) \<and> x \<notin> set (map ru_key us) \<and> x \<in> set (keys (s_role_custom s))) =
        (\<lambda>k. has_key (s_role_custom s) k \<and> k \<notin> set (map ru_key us))"
      using keys_old_bodies [of s] unfolding has_key_iff by blast
    have rooms: "s_rooms s1 = map_vals (\<lambda>_. drop_roles (\<lambda>k. has_key (s_role_custom s) k \<and> k \<notin> set (map ru_key us))) (s_rooms s)"
      using retire_rooms [OF r [unfolded Inr] assms(2,3)] unfolding P .
    have "\<not> force \<longrightarrow> s_rooms s1 = s_rooms s" using retire_quiet r by (metis snd_conv)
    moreover have "s' = broadcast_roles_updated
       (fold (\<lambda>u. propagate_role_update t (ru_key u) (ru_body u))
         (filter (\<lambda>u. ru_body u \<noteq> get_or [] (old_bodies s) (ru_key u)) us)
         (fold (\<lambda>k s. propagate_role_update t k (compiled_role_default_for s k) s) removed
            (save_roles (s1\<lparr>s_role_overrides := new_layer False us, s_role_custom := new_layer True us\<rparr>))))"
      and "res = Inr ()"
      using True r Inr assms(1) by (simp_all add: replace_roles_def)
    ultimately show ?thesis
      using rooms by (simp add: broadcasts fold_frame [of s_rooms] fold_frame [of s_role_custom]
          fold_frame [of s_role_overrides])
  qed
qed

subsection \<open>Every assigned role exists\<close>

definition layers_ok :: "store \<Rightarrow> bool" where
  "layers_ok s =
     ((\<forall>(k, e) \<in> set (s_role_overrides s). in_catalog k \<and> entry_ok k e) \<and>
      (\<forall>(k, e) \<in> set (s_role_custom s). \<not> in_catalog k \<and> entry_ok k e))"

definition assigned_known :: "store \<Rightarrow> bool" where
  "assigned_known s =
     (\<forall>(rid, r) \<in> set (s_rooms s). \<forall>(aid, k) \<in> set (r_roles r). role_exists s k)"

definition roles_ok :: "store \<Rightarrow> bool" where
  "roles_ok s =
     (distinct (keys (s_rooms s)) \<and> [] \<notin> set (keys (s_rooms s)) \<and> layers_ok s \<and> assigned_known s)"

datatype role_op =
    PutRoles "(string, role_value) table" bool
  | DeleteRole string bool
  | DeleteRoles bool
  | PostRoomRole string string string

fun role_step :: "int \<times> role_op \<Rightarrow> store \<Rightarrow> store" where
  "role_step (t, PutRoles payload force) s = snd (put_roles t payload force s)"
| "role_step (t, DeleteRole k force) s = snd (delete_role t k force s)"
| "role_step (t, DeleteRoles force) s = snd (delete_all_role_overrides force s)"
| "role_step (t, PostRoomRole rid aid k) s = snd (post_room_role t rid aid k s)"

lemma assigned_knownI:
  "(\<And>rid r aid k. (rid, r) \<in> set (s_rooms s) \<Longrightarrow> (aid, k) \<in> set (r_roles r) \<Longrightarrow> role_exists s k) \<Longrightarrow>
   assigned_known s"
  by (auto simp: assigned_known_def)

lemma assigned_knownD:
  "assigned_known s \<Longrightarrow> (rid, r) \<in> set (s_rooms s) \<Longrightarrow> (aid, k) \<in> set (r_roles r) \<Longrightarrow> role_exists s k"
  by (auto simp: assigned_known_def)

lemma roles_ok_put: "roles_ok s \<Longrightarrow> roles_ok (snd (put_roles t payload force s))"
proof (cases "max_roles < length payload \<or> (\<exists>e. map_result decode_update payload = Inl e)")
  case True
  assume "roles_ok s" then show ?thesis using True by (auto simp: put_roles_def)
next
  case False
  assume ok: "roles_ok s"
  obtain us where us: "map_result decode_update payload = Inr us" using False by (cases "map_result decode_update payload") auto
  obtain res s' where r: "replace_roles t us force s = (res, s')" by fastforce
  have d: "distinct (keys (s_rooms s))" "[] \<notin> set (keys (s_rooms s))" using ok by (simp_all add: roles_ok_def)
  have s': "snd (put_roles t payload force s) = s'" using False us r by (simp add: put_roles_def refuse_def)
  show ?thesis
    using replace_roles_cases [OF r d]
  proof (elim disjE conjE)
    assume n: "s_role_overrides s' = new_layer False us" "s_role_custom s' = new_layer True us"
      "s_rooms s' = map_vals (\<lambda>_. drop_roles (\<lambda>k. has_key (s_role_custom s) k \<and> k \<notin> set (map ru_key us))) (s_rooms s)"
    have "layers_ok s'"
      using decoded(2) [OF us] by (auto simp: layers_ok_def n dest!: new_layer_entry)
    moreover have "assigned_known s'"
    proof (rule assigned_knownI)
      fix rid r' aid k
      assume "(rid, r') \<in> set (s_rooms s')" "(aid, k) \<in> set (r_roles r')"
      then obtain r where old: "(rid, r) \<in> set (s_rooms s)" "(aid, k) \<in> set (r_roles r)"
        and keep: "\<not> (has_key (s_role_custom s) k \<and> k \<notin> set (map ru_key us))"
        by (auto simp: n snd_in_map_vals drop_roles_def)
      have "role_exists s k" using ok old by (auto simp: roles_ok_def dest: assigned_knownD)
      then show "role_exists s' k"
        using keep decoded(2) [OF us] by (auto simp: role_exists_def n new_layer_keys)
    qed
    ultimately show ?thesis using d s' by (simp add: roles_ok_def n)
  qed (use ok s' in simp)
qed

lemma roles_ok_delete: "roles_ok s \<Longrightarrow> roles_ok (snd (delete_role t k force s))"
proof -
  assume ok: "roles_ok s"
  have d: "distinct (keys (s_rooms s))" "[] \<notin> set (keys (s_rooms s))" using ok by (simp_all add: roles_ok_def)
  let ?s' = "snd (delete_role t k force s)"
  show ?thesis
  proof (cases "\<not> role_exists s k \<or> \<not> in_catalog k \<and> rooms_with_role s k \<noteq> [] \<and> \<not> force")
    case True
    then show ?thesis using ok by (auto simp: delete_role_def delete_role_override_def refuse_def)
  next
    case False
    have layers: "s_role_overrides ?s' = del k (s_role_overrides s)"
      "s_role_custom ?s' = (if in_catalog k then s_role_custom s else del k (s_role_custom s))"
      using False by (auto simp: delete_role_def delete_role_override_def refuse_def Let_def broadcasts)
    have rooms: "s_rooms ?s' =
        (if in_catalog k then s_rooms s else map_vals (\<lambda>_. drop_roles (\<lambda>x. x = k)) (s_rooms s))"
    proof (cases "in_catalog k \<or> rooms_with_role s k \<noteq> []")
      case True
      then show ?thesis using False cascade_all [OF d, of t k]
        by (auto simp: delete_role_def delete_role_override_def refuse_def Let_def broadcasts)
    next
      case none: False
      then have "map_vals (\<lambda>_. drop_roles (\<lambda>x. x = k)) (s_rooms s) = s_rooms s"
        using not_in_rooms_with_role [OF d(1)] by (intro map_vals_id) auto
      then show ?thesis using False none
        by (auto simp: delete_role_def delete_role_override_def refuse_def Let_def broadcasts)
    qed
    have "layers_ok ?s'" using ok by (auto simp: layers_ok_def layers roles_ok_def)
    moreover have "assigned_known ?s'"
    proof (rule assigned_knownI)
      fix rid r' aid j
      assume "(rid, r') \<in> set (s_rooms ?s')" "(aid, j) \<in> set (r_roles r')"
      then obtain r where old: "(rid, r) \<in> set (s_rooms s)" "(aid, j) \<in> set (r_roles r)" and "in_catalog k \<or> j \<noteq> k"
        by (auto simp: rooms snd_in_map_vals drop_roles_def split: if_splits)
      moreover have "role_exists s j" using ok old by (auto simp: roles_ok_def dest: assigned_knownD)
      ultimately show "role_exists ?s' j" by (auto simp: role_exists_def layers)
    qed
    ultimately show ?thesis using d by (simp add: roles_ok_def rooms)
  qed
qed

lemma roles_ok_delete_all: "roles_ok s \<Longrightarrow> roles_ok (snd (delete_all_role_overrides force s))"
proof (cases "\<not> force \<and> assigned_rooms s \<noteq> []")
  case True
  assume "roles_ok s" then show ?thesis using True by (simp add: delete_all_role_overrides_def)
next
  case False
  assume ok: "roles_ok s"
  have none: "r_roles r = []" if "\<not> force" "(rid, r) \<in> set (s_rooms s)" for rid r
    using False that by (auto simp: assigned_rooms_def filter_empty_conv)
  have "s_rooms (snd (delete_all_role_overrides force s)) = map_vals (\<lambda>_ r. r\<lparr>r_roles := []\<rparr>) (s_rooms s)"
  proof (cases force)
    case True
    then show ?thesis by (simp add: delete_all_role_overrides_def clear_assignments_def broadcasts)
  next
    case quiet: False
    then have "map_vals (\<lambda>_ r. r\<lparr>r_roles := []\<rparr>) (s_rooms s) = s_rooms s"
      using none by (intro map_vals_id) (metis (full_types) room.surjective room.update_convs(5))
    then show ?thesis using quiet False by (simp add: delete_all_role_overrides_def broadcasts)
  qed
  moreover have "layers_ok (snd (delete_all_role_overrides force s))"
    using False by (auto simp: layers_ok_def delete_all_role_overrides_def Let_def broadcasts)
  ultimately show ?thesis using ok
    by (auto simp: roles_ok_def assigned_known_def snd_in_map_vals)
qed

lemma roles_ok_post: "roles_ok s \<Longrightarrow> roles_ok (snd (post_room_role t rid aid k s))"
proof -
  assume ok: "roles_ok s"
  show ?thesis
  proof (cases "aid = [] \<or> rid = [] \<or> k \<noteq> [] \<and> \<not> role_exists s k \<or> map_of (s_rooms s) rid = None")
    case True
    then show ?thesis using ok by (auto simp: snd_post_room_role assign_role_def Let_def)
  next
    case False
    then obtain r where r: "map_of (s_rooms s) rid = Some r" by auto
    have "(rid, r) \<in> set (s_rooms s)" using r by auto
    then have known: "role_exists s j" if "(a, j) \<in> set (r_roles r)" for a j
      using ok that by (auto simp: roles_ok_def dest: assigned_knownD)
    have set: "roles_ok (set_room_roles rid r ro s)" if "\<And>a j. (a, j) \<in> set ro \<Longrightarrow> role_exists s j" for ro
    proof -
      have "assigned_known (set_room_roles rid r ro s)"
      proof (rule assigned_knownI)
        fix i r' a j
        assume "(i, r') \<in> set (s_rooms (set_room_roles rid r ro s))" "(a, j) \<in> set (r_roles r')"
        then have "role_exists s j" using that ok
          by (auto simp: roles_ok_def dest!: in_set_putD dest: assigned_knownD)
        then show "role_exists (set_room_roles rid r ro s) j" by (simp add: role_exists_def)
      qed
      then show ?thesis using ok False by (auto simp: roles_ok_def layers_ok_def simp del: set_map)
    qed
    have emit: "roles_ok (emit_system_full t rid b ts att s1) = roles_ok s1" for b ts att s1
      by (simp add: roles_ok_def layers_ok_def assigned_known_def role_exists_def)
    have del: "roles_ok (set_room_roles rid r (del aid (r_roles r)) s)"
      using known by (intro set) auto
    have put: "roles_ok (set_room_roles rid r (put aid k (r_roles r)) s)" if "k \<noteq> []"
      using known False that by (intro set) (auto dest!: in_set_putD)
    show ?thesis
      using False r ok del put
      by (cases "k = []") (simp_all add: snd_post_room_role assign_role_def Let_def emits emit
        split: option.split list.split)
  qed
qed

interpretation role_machine: invariant_machine role_step roles_ok
proof
  fix s x assume "roles_ok s"
  then show "roles_ok (role_step x s)"
    by (cases x; cases "snd x")
      (simp_all add: roles_ok_put roles_ok_delete roles_ok_delete_all roles_ok_post)
qed

text \<open>C26. No dangling role assignment: whatever sequence of requests edits the roles (full
  replacements, deletions of one role or of all, with or without force, assignments and
  unassignments in rooms), every role that a room assigns exists in the catalog or among the
  custom roles, overrides exist only for catalog keys, and every stored entry has a valid key,
  a body of at most 16 KB, a valid cardinality and a bounded emoji.\<close>

theorem no_dangling_roles:
  assumes "roles_ok s" shows "roles_ok (fold role_step ops s)"
  using assms by (rule role_machine.run_good)

lemma no_dangling_roles_witness:
  "roles_ok (fold role_step
     [(0, PutRoles [(''ops'', RoleText ''run it'')] False),
      (1, PostRoomRole ''dev'' ''cleo@web'' ''ops''),
      (2, DeleteRole ''ops'' True)] sample_store)"
  by (rule no_dangling_roles) code_simp

subsection \<open>Replacements are atomic\<close>

text \<open>C27. A replacement of the roles happens entirely or not at all: a refused request (malformed
  entry, name clash, unknown or cyclic base, a removed custom role in use without force) leaves the
  store exactly as it was; an accepted one installs precisely the requested keys, each in the layer
  it belongs to, and takes from the rooms only the assignments of removed custom roles, none at all
  without force.\<close>

theorem put_roles_atomic:
  assumes "put_roles t payload force s = (res, s')" "roles_ok s"
  shows "(\<exists>e. res = Inl e) \<and> s' = s \<or>
    res = Inr () \<and>
    (\<forall>k. has_key (s_role_overrides s') k \<longleftrightarrow> in_catalog k \<and> k \<in> set (keys payload)) \<and>
    (\<forall>k. has_key (s_role_custom s') k \<longleftrightarrow> \<not> in_catalog k \<and> k \<in> set (keys payload)) \<and>
    s_rooms s' = map_vals (\<lambda>_. drop_roles (\<lambda>k. has_key (s_role_custom s) k \<and> k \<notin> set (keys payload))) (s_rooms s) \<and>
    (\<not> force \<longrightarrow> s_rooms s' = s_rooms s)"
proof (cases "max_roles < length payload \<or> (\<exists>e. map_result decode_update payload = Inl e)")
  case True
  then have "(\<exists>e. res = Inl e) \<and> s' = s" using assms(1) by (auto simp: put_roles_def split: if_splits)
  then show ?thesis by blast
next
  case False
  obtain us where us: "map_result decode_update payload = Inr us" using False by (cases "map_result decode_update payload") auto
  obtain r s1 where r: "replace_roles t us force s = (r, s1)" by fastforce
  then have s': "s' = s1" "res = (case r of Inl e \<Rightarrow> Inl (RoleRefused e) | Inr u \<Rightarrow> Inr u)"
    using False us assms(1) by (auto simp: put_roles_def refuse_def)
  have keys: "set (keys payload) = ru_key ` set us" using decoded(1) [OF us] by (metis set_map)
  have "has_key (new_layer b us) k \<longleftrightarrow> b = (\<not> in_catalog k) \<and> k \<in> set (keys payload)" for b k
    unfolding new_layer_keys keys using decoded(2) [OF us] by auto
  moreover have "distinct (keys (s_rooms s))" "[] \<notin> set (keys (s_rooms s))" using assms(2) by (simp_all add: roles_ok_def)
  note replace_roles_cases [OF r this]
  ultimately show ?thesis using s' decoded(1) [OF us] by (elim disjE conjE) auto
qed

lemma put_roles_atomic_witness:
  "\<exists>s'. put_roles 0 [(''ops'', RoleText ''run it'')] False sample_store = (Inr (), s') \<and>
        has_key (s_role_custom s') ''ops''"
proof -
  obtain res s' where r: "put_roles 0 [(''ops'', RoleText ''run it'')] False sample_store = (res, s')"
    by fastforce
  have ok: "roles_ok sample_store" by code_simp
  have "fst (put_roles 0 [(''ops'', RoleText ''run it'')] False sample_store) = Inr ()" by code_simp
  then show ?thesis
    using put_roles_atomic [OF r ok] r by (auto simp: in_catalog_iff)
qed

subsection \<open>Singleton roles\<close>

definition role_holders :: "store \<Rightarrow> string \<Rightarrow> string \<Rightarrow> string set" where
  "role_holders s rid k =
     (case map_of (s_rooms s) rid of None \<Rightarrow> {} | Some r \<Rightarrow> fst ` {p \<in> set (r_roles r). snd p = k})"

text \<open>C28. An accepted assignment gives the role to a member of the room that is a registered
  non-human agent, to nobody else, takes no role from any other agent, and leaves a singleton role
  with exactly one holder in that room; a refused one changes nothing.\<close>

theorem assign_role_holders:
  assumes "assign_role t rid aid k s = (res, s')" "aid \<noteq> []" "k \<noteq> []" "store_ok s"
  shows "case res of
      Inl _ \<Rightarrow> s' = s
    | Inr _ \<Rightarrow>
        is_member s' rid aid \<and> (\<exists>a. map_of (s_agents s') aid = Some a \<and> a_kind a \<noteq> ''human'') \<and>
        role_holders s' rid k = insert aid (role_holders s rid k) \<and>
        (role_cardinality s k = ''singleton'' \<longrightarrow> role_holders s' rid k = {aid}) \<and>
        (\<forall>rid' k'. (rid', k') \<noteq> (rid, k) \<longrightarrow> role_holders s' rid' k' - {aid} = role_holders s rid' k' - {aid})"
proof (cases res)
  case (Inl e)
  then show ?thesis using assms(1-3)
    by (auto simp: assign_role_def Let_def split: if_splits option.splits list.splits)
next
  case (Inr u)
  obtain r a where r: "map_of (s_rooms s) rid = Some r" "aid \<in> set (r_members r)"
      "map_of (s_agents s) aid = Some a" "a_kind a \<noteq> ''human''"
      "role_clash (role_cardinality s k) (r_roles r) aid k = []"
    and s': "s' = (if map_of (r_roles r) aid = Some k then s
        else emit_system_to t rid (aid @ '' was assigned as '' @ k) (Some [agent_short_name aid])
               (set_room_roles rid r (put aid k (r_roles r)) s))"
    using assms(1-3) Inr by (auto simp: assign_role_def Let_def split: if_splits option.splits list.splits)
  have d: "distinct (keys (r_roles r))"
    using assms(4) r rooms_ok_lookup by (fastforce simp: store_ok_def room_ok_def)
  have rooms: "map_of (s_rooms s') i = (if i = rid then Some (r\<lparr>r_roles := put aid k (r_roles r)\<rparr>) else map_of (s_rooms s) i)" for i
  proof (cases "map_of (r_roles r) aid = Some k")
    case True
    then have "put aid k (r_roles r) = r_roles r" by (rule put_same)
    then show ?thesis using True s' r by simp
  next
    case False
    then show ?thesis using s' by (simp add: emits)
  qed
  have ags: "s_agents s' = s_agents s" using s' by (simp add: emits)
  have held: "role_holders s' rid' k' = (if rid' = rid
      then (if k' = k then {aid} else {}) \<union> (role_holders s rid k' - {aid}) else role_holders s rid' k')" for rid' k'
    using in_set_put [OF d, of _ aid k] by (auto simp: role_holders_def rooms r image_iff)
  have "role_holders s rid k - {aid} = {}" if "role_cardinality s k = ''singleton''"
    using r(5) that r(1) by (auto simp: role_clash_def filter_empty_conv role_holders_def)
  then show ?thesis
    using Inr r by (auto simp: is_member_def rooms ags held)
qed

lemma assign_role_holders_witness:
  "role_holders (snd (assign_role 0 ''dev'' ''cleo@web'' ''leader'' sample_store)) ''dev'' ''leader'' = {''cleo@web''}"
proof -
  obtain res s' where r: "assign_role 0 ''dev'' ''cleo@web'' ''leader'' sample_store = (res, s')" by fastforce
  have e: "fst (assign_role 0 ''dev'' ''cleo@web'' ''leader'' sample_store) = Inr ()"
    "role_cardinality sample_store ''leader'' = ''singleton''" by code_simp+
  have res: "res = Inr ()" using e(1) r by simp
  have "''cleo@web'' \<noteq> []" "''leader'' \<noteq> []" by simp_all
  from assign_role_holders [OF r [unfolded res] this store_ok_sample, unfolded sum.case] e(2)
  have "role_holders s' ''dev'' ''leader'' = {''cleo@web''}" by blast
  then show ?thesis using r by simp
qed

subsection \<open>The resolved body of a role\<close>

text \<open>C29. The text handed to an agent for its role is the bodies along the chain of bases, the
  base first, each trimmed and separated by a blank line; the chain visits no role twice, so the
  resolution ends even when the stored links form a cycle, after at most as many steps
  as there are roles.\<close>

theorem role_body_resolves:
  "get_role s k =
     (let chain = role_chain s [] k
      in if chain = [] then None else Some (glue (map (role_body_of s) chain))) \<and>
   distinct (role_chain s [] k) \<and> length (role_chain s [] k) \<le> card (known_roles s)"
  using role_chain_facts(1) [of s "[]" k] length_role_chain_le [of s "[]" k]
  by (simp add: get_role_def resolved_body_chain Let_def)

subsection \<open>What the checks of a replacement miss\<close>

definition plain_role :: "string \<Rightarrow> string \<Rightarrow> role_value" where
  "plain_role body x = RoleObject (no_role_entry\<lparr>ro_body := body, ro_extends := x\<rparr>)"

text \<open>
  An override whose \<open>extends\<close> is empty counts as having no base in the cycle check, but the
  lookup falls back to the base of the catalog: the replacement is accepted and the two reviewers
  extend each other.
\<close>

definition cycle_request :: "(string, role_value) table" where
  "cycle_request =
     [(''reviewer'', plain_role ''a'' ''sec-reviewer''), (''sec-reviewer'', plain_role ''b'' [])]"

lemma replacement_leaves_cycle:
  "fst (put_roles 0 cycle_request False sample_store) = Inr () \<and>
   (let s' = snd (put_roles 0 cycle_request False sample_store)
    in role_extends s' ''reviewer'' = ''sec-reviewer'' \<and> role_extends s' ''sec-reviewer'' = ''reviewer'')"
  by code_simp

text \<open>The base of a role is looked up among the custom roles that the same request removes.\<close>

definition dangling_store :: store where
  "dangling_store = snd (put_roles 0 [(''base'', plain_role ''x'' [])] False sample_store)"

lemma replacement_leaves_dangling_base:
  "fst (put_roles 1 [(''ops'', plain_role ''y'' ''base'')] False dangling_store) = Inr () \<and>
   (let s' = snd (put_roles 1 [(''ops'', plain_role ''y'' ''base'')] False dangling_store)
    in role_extends s' ''ops'' = ''base'' \<and> \<not> role_exists s' ''base'')"
  by code_simp

end
