(* ===== verification/Names.thy ===== *)
theory Names
  imports Addressing
begin

section \<open>Agent names and model slugs\<close>

text \<open>
  \<open>internal/server/names.go\<close> and \<open>internal/server/model_slug.go\<close>: the pool of names, the pick
  of a free one from a random start, the assembly of identities, and the folding of provider
  model ids into short slugs. The regular expressions are written out as scanners.
\<close>

subsection \<open>The name pool\<close>

definition name_pool :: "string list" where
  "name_pool =
     [''alice'', ''bob'', ''carol'', ''dave'', ''eve'', ''frank'', ''grace'', ''hugo'',
      ''iris'', ''jack'', ''kate'', ''leo'', ''mia'', ''nate'', ''olive'', ''pete'',
      ''quinn'', ''ruth'', ''sam'', ''tina'', ''ulf'', ''vera'', ''will'', ''xena'',
      ''yara'', ''zeke'', ''amy'', ''ben'', ''cora'', ''dan'', ''ella'', ''finn'',
      ''gina'', ''hal'', ''ivy'', ''jade'', ''kai'', ''lena'', ''max'', ''nora'',
      ''otto'', ''piper'', ''rhea'', ''seth'', ''theo'', ''una'', ''vince'', ''wren'',
      ''xavi'', ''yuki'', ''zoe'', ''arlo'', ''beth'', ''cleo'', ''drew'', ''elsa'',
      ''felix'', ''gus'', ''hana'', ''ian'', ''june'', ''kira'', ''luna'', ''milo'',
      ''nina'', ''owen'', ''penny'', ''rex'', ''sage'', ''tara'', ''uma'', ''vlad'',
      ''wade'', ''xio'', ''yann'', ''zane'', ''ada'', ''boris'', ''cass'', ''deon'',
      ''emma'', ''ford'', ''gwen'', ''hans'', ''ines'', ''jonas'', ''kyra'', ''lars'',
      ''mona'', ''nils'', ''opal'', ''pia'', ''quin'', ''remi'', ''sven'', ''tessa'',
      ''umar'', ''viv'', ''wes'', ''xan'', ''yael'', ''zeno'']"

text \<open>\<open>r\<close> is the random 64-bit value; the scan tries every name of the pool at most once.\<close>

definition pick_random_name :: "nat \<Rightarrow> string list \<Rightarrow> string option" where
  "pick_random_name r taken =
     (let n = length name_pool; start = r mod n
      in find (\<lambda>name. name \<notin> set taken) (map (\<lambda>i. name_pool ! ((start + i) mod n)) [0..<n]))"

definition assemble_id :: "string \<Rightarrow> string \<Rightarrow> string \<Rightarrow> string" where
  "assemble_id kind name project =
     (if kind = ''human'' then name
      else if project \<noteq> [] then name @ CHR ''@'' # project else name)"

lemma find_SomeD: "find P xs = Some x \<Longrightarrow> x \<in> set xs \<and> P x"
  by (auto simp: find_Some_iff)

lemma rotation_covers:
  fixes start n :: nat
  assumes "start < n"
  shows "(\<lambda>i. (start + i) mod n) ` {0..<n} = {0..<n}"
proof (intro equalityI subsetI)
  fix j
  assume j: "j \<in> {0..<n}"
  have "(start + (j + n - start) mod n) mod n = (start + (j + n - start)) mod n"
    by (rule mod_add_right_eq)
  also have "\<dots> = (j + n) mod n" using assms by simp
  also have "\<dots> = j" using j by simp
  finally show "j \<in> (\<lambda>i. (start + i) mod n) ` {0..<n}"
    using assms by (intro rev_image_eqI [of "(j + n - start) mod n"]) auto
qed (use assms in auto)

text \<open>The pick of a name is complete and fresh: whatever the random start, a name is returned
  exactly when some pool name is free, and the returned name is a pool name that is not taken.\<close>

lemma pick_random_name_complete:
  "(pick_random_name r taken = None \<longleftrightarrow> set name_pool \<subseteq> set taken) \<and>
   (\<forall>n. pick_random_name r taken = Some n \<longrightarrow> n \<in> set name_pool \<and> n \<notin> set taken)"
proof -
  let ?n = "length name_pool"
  have pos: "0 < ?n" by (simp add: name_pool_def)
  let ?l = "map (\<lambda>i. name_pool ! ((r mod ?n + i) mod ?n)) [0..<?n]"
  have "set ?l = (!) name_pool ` ((\<lambda>i. (r mod ?n + i) mod ?n) ` {0..<?n})"
    by (simp only: set_map set_upt image_image)
  also have "\<dots> = (!) name_pool ` {0..<?n}"
    by (simp only: rotation_covers pos mod_less_divisor)
  also have "\<dots> = set name_pool" by (metis list.set_map map_nth set_upt)
  finally have l: "set ?l = set name_pool" .
  have pick: "pick_random_name r taken = find (\<lambda>name. name \<notin> set taken) ?l"
    by (simp only: pick_random_name_def Let_def)
  have "pick_random_name r taken = None \<longleftrightarrow> set name_pool \<subseteq> set taken"
    unfolding pick find_None_iff l by blast
  moreover have "n \<in> set name_pool \<and> n \<notin> set taken" if "pick_random_name r taken = Some n" for n
    using find_SomeD [OF that [unfolded pick]] unfolding l .
  ultimately show ?thesis by blast
qed

lemma pick_random_name_complete_witness:
  "\<exists>n. pick_random_name 7 [''hugo''] = Some n \<and> n \<noteq> ''hugo''"
proof -
  have "pick_random_name 7 [''hugo''] \<noteq> None"
    using pick_random_name_complete [of 7 "[''hugo'']"] by (auto simp: name_pool_def)
  then show ?thesis using pick_random_name_complete [of 7 "[''hugo'']"] by auto
qed

subsection \<open>Model slugs\<close>

definition is_digit :: "char \<Rightarrow> bool" where "is_digit c = between 48 57 c"
definition is_lower :: "char \<Rightarrow> bool" where "is_lower c = between 97 122 c"

definition trim_right_space :: "string \<Rightarrow> string" where
  "trim_right_space s = rev (dropWhile regex_space (rev s))"

text \<open>\<open>\s*\[[^\]]+\]\s*$\<close>\<close>

definition strip_bracket_suffix :: "string \<Rightarrow> string" where
  "strip_bracket_suffix m =
     (let r = trim_right_space m in
      if r = [] \<or> last r \<noteq> CHR '']'' then m
      else
        let body = butlast r;
            seg = rev (takeWhile (\<lambda>c. c \<noteq> CHR '']'') (rev body));
            pre = take (length body - length seg) body;
            inside = dropWhile (\<lambda>c. c \<noteq> CHR ''['') seg
        in if length inside < 2 then m
           else trim_right_space (pre @ takeWhile (\<lambda>c. c \<noteq> CHR ''['') seg))"

text \<open>\<open>[-_](?:\d{8}|\d{4}-\d{2}-\d{2})$\<close>\<close>

definition is_date :: "string \<Rightarrow> bool" where
  "is_date d =
     (length d = 8 \<and> list_all is_digit d \<or>
      length d = 10 \<and> d ! 4 = CHR ''-'' \<and> d ! 7 = CHR ''-'' \<and>
        list_all is_digit (take 4 d @ take 2 (drop 5 d) @ drop 8 d))"

definition strip_date_suffix :: "string \<Rightarrow> string" where
  "strip_date_suffix m =
     (let cut = (\<lambda>n. n < length m \<and> is_date (drop (length m - n) m) \<and>
                   m ! (length m - n - 1) \<in> {CHR ''-'', CHR ''_''})
      in if cut 10 then take (length m - 11) m
         else if cut 8 then take (length m - 9) m else m)"

definition after_last_slash :: "string \<Rightarrow> string" where
  "after_last_slash m =
     (if CHR ''/'' \<in> set m then trim_space (rev (takeWhile (\<lambda>c. c \<noteq> CHR ''/'') (rev m))) else m)"

text \<open>\<open>^claude-([a-z]+)-([0-9]+)(?:-([0-9]+))?$\<close>\<close>

definition match_claude :: "string \<Rightarrow> string option" where
  "match_claude m =
     (if \<not> has_prefix m ''claude-'' then None
      else
        let s = drop 7 m; fam = takeWhile is_lower s; r1 = dropWhile is_lower s;
            major = takeWhile is_digit (tl r1); r2 = dropWhile is_digit (tl r1);
            minor = tl r2
        in if fam = [] \<or> r1 = [] \<or> hd r1 \<noteq> CHR ''-'' \<or> major = [] then None
           else if r2 = [] then Some (fam @ major)
           else if hd r2 = CHR ''-'' \<and> minor \<noteq> [] \<and> list_all is_digit minor
           then Some (fam @ major @ CHR ''.'' # minor) else None)"

text \<open>\<open>^gpt-?([0-9].*)$\<close>\<close>

definition match_gpt :: "string \<Rightarrow> string option" where
  "match_gpt m =
     (if \<not> has_prefix m ''gpt'' then None
      else
        let s = drop 3 m; v = (if has_prefix s ''-'' then tl s else s)
        in if v \<noteq> [] \<and> is_digit (hd v) \<and> nl \<notin> set v then Some (''gpt-'' @ v) else None)"

definition canonical_model_slug :: "string \<Rightarrow> string" where
  "canonical_model_slug raw =
     (let m0 = trim_space (to_lower raw) in
      if m0 = [] then ''unknown''
      else
        let m = strip_date_suffix (after_last_slash (trim_space (strip_bracket_suffix m0)))
        in if m = [] \<or> m = ''unknown'' then ''unknown''
           else case match_claude m of
                  Some slug \<Rightarrow> slug
                | None \<Rightarrow> (case match_gpt m of Some slug \<Rightarrow> slug | None \<Rightarrow> m))"

lemma canonical_samples:
  "canonical_model_slug ''Claude-Opus-4-5-20251101 [1m]'' = ''opus4.5''"
  "canonical_model_slug ''openai/gpt-4o-2024-08-06'' = ''gpt-4o''"
  "canonical_model_slug ''gpt5'' = ''gpt-5''"
  "canonical_model_slug '' '' = ''unknown''"
  by code_simp+

lemma canonical_nonempty: "canonical_model_slug raw \<noteq> []"
  by (auto simp: canonical_model_slug_def match_claude_def match_gpt_def Let_def
      split: option.splits if_splits)

text \<open>
  Folding is not idempotent: two stacked suffixes lose one at a time. An agent registered under
  such a model id is stored under the first result and no longer recognised as the same model
  when it comes back.
\<close>

lemma canonical_not_idempotent:
  "canonical_model_slug ''m [a] [b]'' = ''m [a]'' \<and> canonical_model_slug ''m [a]'' = ''m''"
  by code_simp

end
