(* ===== verification/Settings.thy ===== *)
theory Settings
  imports Store
begin

section \<open>Settings\<close>

text \<open>
  \<open>internal/server/settings.go\<close> and the handler of \<open>PUT /settings\<close>: the effective settings, the
  windows and intervals read from them in nanoseconds, and the validation of an update. The
  request to restart the tickers, a one-slot channel in the code, is the flag in the result.
\<close>

definition default_stale_agent_window :: int where "default_stale_agent_window = 30 * 60"
definition default_liveness_sweep :: int where "default_liveness_sweep = 15"
definition default_agent_stale_window :: int where "default_agent_stale_window = 90"
definition default_agent_offline_window :: int where "default_agent_offline_window = 10 * 60"
definition default_cleanup_interval :: int where "default_cleanup_interval = 60"
definition default_expired_after :: int where "default_expired_after = 6 * 60 * 60"
definition max_retention_window :: int where "max_retention_window = 30 * 24 * 60 * 60"
definition max_cleanup_interval :: int where "max_cleanup_interval = 60 * 60"
definition max_liveness_sweep :: int where "max_liveness_sweep = 60 * 60"

lemmas setting_limits =
  default_stale_agent_window_def default_liveness_sweep_def default_agent_stale_window_def
  default_agent_offline_window_def default_cleanup_interval_def default_expired_after_def
  max_retention_window_def max_cleanup_interval_def max_liveness_sweep_def

definition valid_themes :: "string list" where
  "valid_themes =
     [[], ''dark'', ''light'', ''red-dark'', ''red-light'', ''blue-dark'', ''blue-light'',
      ''green-dark'', ''green-light'', ''high-contrast-dark'', ''high-contrast-light'']"

definition or_default :: "'a \<Rightarrow> 'a option \<Rightarrow> 'a option" where
  "or_default d v = (case v of None \<Rightarrow> Some d | Some _ \<Rightarrow> v)"

definition get_settings :: "store \<Rightarrow> settings" where
  "get_settings s =
     (let st = s_settings s in
      st\<lparr>st_theme := (if st_theme st = [] then ''dark'' else st_theme st),
         st_show_system := or_default True (st_show_system st),
         st_debug_button := or_default False (st_debug_button st),
         st_leaderboard := or_default True (st_leaderboard st),
         st_notification := or_default True (st_notification st),
         st_sound := (if st_sound st = [] then ''builtin:chime'' else st_sound st),
         st_volume := or_default 70 (st_volume st),
         st_stale_agent_window := or_default default_stale_agent_window (st_stale_agent_window st),
         st_liveness_sweep := or_default default_liveness_sweep (st_liveness_sweep st),
         st_agent_stale_window := or_default default_agent_stale_window (st_agent_stale_window st),
         st_agent_offline_window :=
           or_default default_agent_offline_window (st_agent_offline_window st),
         st_cleanup_interval := or_default default_cleanup_interval (st_cleanup_interval st),
         st_expired_after := or_default default_expired_after (st_expired_after st),
         st_inline_plan := (if st_inline_plan st = [] then ''always'' else st_inline_plan st)\<rparr>)"

lemma get_settings_windows [simp]:
  "st_agent_stale_window (get_settings s) =
     or_default default_agent_stale_window (st_agent_stale_window (s_settings s))"
  "st_agent_offline_window (get_settings s) =
     or_default default_agent_offline_window (st_agent_offline_window (s_settings s))"
  by (simp_all add: get_settings_def Let_def)

definition setting_int :: "int option \<Rightarrow> int \<Rightarrow> int" where
  "setting_int v fallback = (case v of None \<Rightarrow> fallback | Some n \<Rightarrow> n)"

definition setting_int_in_range :: "int option \<Rightarrow> int \<Rightarrow> int \<Rightarrow> int \<Rightarrow> bool \<Rightarrow> int" where
  "setting_int_in_range v fallback lo hi zero_unlimited =
     (let n = setting_int v fallback in
      if zero_unlimited \<and> n = 0 then n
      else if n < lo \<or> hi < n then fallback else n)"

definition stale_agent_window :: "store \<Rightarrow> int" where
  "stale_agent_window s =
     setting_int_in_range (st_stale_agent_window (get_settings s)) default_stale_agent_window 60
       max_retention_window False * second"

definition liveness_sweep_interval :: "store \<Rightarrow> int" where
  "liveness_sweep_interval s =
     setting_int_in_range (st_liveness_sweep (get_settings s)) default_liveness_sweep 1
       max_liveness_sweep False * second"

definition agent_stale_window :: "store \<Rightarrow> int" where
  "agent_stale_window s =
     setting_int_in_range (st_agent_stale_window (get_settings s)) default_agent_stale_window 10
       max_retention_window False * second"

definition agent_offline_window :: "store \<Rightarrow> int" where
  "agent_offline_window s =
     setting_int_in_range (st_agent_offline_window (get_settings s)) default_agent_offline_window 10
       max_retention_window False * second"

definition cleanup_interval :: "store \<Rightarrow> int" where
  "cleanup_interval s =
     setting_int_in_range (st_cleanup_interval (get_settings s)) default_cleanup_interval 10
       max_cleanup_interval False * second"

definition expired_after_window :: "store \<Rightarrow> int" where
  "expired_after_window s =
     setting_int_in_range (st_expired_after (get_settings s)) default_expired_after 60
       max_retention_window True * second"

subsection \<open>Validation\<close>

datatype setting_error =
    OutOfRange string int int
  | StaleNotBelowOffline
  | InvalidTheme
  | InvalidInlinePlan

definition validate_setting_range ::
    "string \<Rightarrow> int option \<Rightarrow> int \<Rightarrow> int \<Rightarrow> bool \<Rightarrow> setting_error option" where
  "validate_setting_range field v lo hi zero_unlimited =
     (case v of
        None \<Rightarrow> None
      | Some n \<Rightarrow>
          if zero_unlimited \<and> n = 0 then None
          else if n < lo \<or> hi < n then Some (OutOfRange field lo hi) else None)"

fun first_some :: "'e option list \<Rightarrow> 'e option" where
  "first_some [] = None"
| "first_some (None # xs) = first_some xs"
| "first_some (Some e # xs) = Some e"

definition validate_retention_settings :: "settings \<Rightarrow> setting_error option" where
  "validate_retention_settings st =
     first_some
       [validate_setting_range ''stale_agent_window_seconds'' (st_stale_agent_window st) 60
          max_retention_window False,
        validate_setting_range ''liveness_sweep_seconds'' (st_liveness_sweep st) 1
          max_liveness_sweep False,
        validate_setting_range ''agent_stale_window_seconds'' (st_agent_stale_window st) 10
          max_retention_window False,
        validate_setting_range ''agent_offline_window_seconds'' (st_agent_offline_window st) 10
          max_retention_window False,
        (if setting_int (st_agent_offline_window st) default_agent_offline_window
              \<le> setting_int (st_agent_stale_window st) default_agent_stale_window
         then Some StaleNotBelowOffline else None),
        validate_setting_range ''cleanup_interval_seconds'' (st_cleanup_interval st) 10
          max_cleanup_interval False,
        validate_setting_range ''messages_considered_expired_after_seconds'' (st_expired_after st)
          60 max_retention_window True]"

definition put_settings :: "settings \<Rightarrow> store \<Rightarrow> store" where
  "put_settings st s = s\<lparr>s_settings := st, s_db := (s_db s)\<lparr>db_settings := st\<rparr>\<rparr>"

definition clear_settings :: "store \<Rightarrow> store" where
  "clear_settings s = put_settings no_settings s"

definition clamp_volume :: "int \<Rightarrow> int" where
  "clamp_volume v = (if v < 0 then 0 else if 100 < v then 100 else v)"

definition put_settings_request ::
    "settings \<Rightarrow> store \<Rightarrow> (setting_error + settings \<times> bool) \<times> store" where
  "put_settings_request st s =
     (if st_theme st \<notin> set valid_themes then (Inl InvalidTheme, s)
      else if st_inline_plan st \<noteq> [] \<and> st_inline_plan st \<noteq> ''always'' \<and> st_inline_plan st \<noteq> ''optional''
      then (Inl InvalidInlinePlan, s)
      else case validate_retention_settings st of
             Some e \<Rightarrow> (Inl e, s)
           | None \<Rightarrow>
               let s1 = put_settings (st\<lparr>st_volume := map_option clamp_volume (st_volume st)\<rparr>) s;
                   reset = (cleanup_interval s1 \<noteq> cleanup_interval s \<or>
                            liveness_sweep_interval s1 \<noteq> liveness_sweep_interval s)
               in (Inr (get_settings s1, reset), s1))"

definition load_settings :: "settings \<Rightarrow> settings" where
  "load_settings st =
     (let st1 = (if st_theme st = ''red'' then st\<lparr>st_theme := ''red-dark''\<rparr> else st)
      in if st_theme st1 = ''high-contrast-dark-cyan''
         then st1\<lparr>st_theme := ''high-contrast-dark''\<rparr> else st1)"

subsection \<open>What holds of the windows\<close>

text \<open>
  \<open>settings_ok\<close> is the state the server keeps: nothing stored yet, or settings that passed the
  validation.
\<close>

definition settings_ok :: "settings \<Rightarrow> bool" where
  "settings_ok st = (validate_retention_settings st = None)"

lemma settings_ok_initial: "settings_ok no_settings"
  by (simp add: settings_ok_def validate_retention_settings_def validate_setting_range_def
      no_settings_def setting_int_def setting_limits)

lemma validate_volume [simp]:
  "validate_retention_settings (st\<lparr>st_volume := v\<rparr>) = validate_retention_settings st"
  by (simp add: validate_retention_settings_def)

lemma put_settings_request_ok:
  assumes "settings_ok (s_settings s)"
  shows "settings_ok (s_settings (snd (put_settings_request st s)))"
proof (cases "validate_retention_settings st")
  case None
  then show ?thesis
    using assms by (simp add: put_settings_request_def put_settings_def Let_def settings_ok_def)
next
  case (Some e)
  then show ?thesis using assms by (simp add: put_settings_request_def)
qed

lemma in_range_default:
  "setting_int_in_range (or_default d v) d lo hi z = setting_int_in_range v d lo hi z"
  by (simp add: setting_int_in_range_def setting_int_def or_default_def split: option.split)

lemma in_range_bounds:
  "lo \<le> d \<Longrightarrow> d \<le> hi \<Longrightarrow>
   lo \<le> setting_int_in_range v d lo hi False \<and> setting_int_in_range v d lo hi False \<le> hi"
  by (simp add: setting_int_in_range_def Let_def)

lemma in_range_valid:
  "validate_setting_range f v lo hi False = None \<Longrightarrow> lo \<le> d \<Longrightarrow> d \<le> hi \<Longrightarrow>
   setting_int_in_range v d lo hi False = setting_int v d"
  by (auto simp: setting_int_in_range_def setting_int_def validate_setting_range_def Let_def
      split: option.splits if_splits)

lemma first_some_None: "first_some xs = None \<longleftrightarrow> (\<forall>x \<in> set xs. x = None)"
  by (induction xs rule: first_some.induct) auto



end
