(* ===== verification/Agents.thy ===== *)
theory Agents
  imports Rooms Names Settings
begin

section \<open>Agents: registration, keepalives, activity state\<close>

text \<open>
  \<open>internal/server/store_agents.go\<close> and \<open>store_agent_sessions.go\<close>: registration of humans and of
  AI agents with reclaim, durable session hints, keepalives, the pushed activity state, the
  deregistration, and the addressing context of a room. The random start of the name pick is the
  argument \<open>rnd\<close>.
\<close>

datatype agent_error =
    NameRequired
  | NameReserved string
  | NameInUseByAI string
  | NameInUseBy string string
  | NamePattern string
  | NameHeld string string
  | NameIsRole string
  | PoolExhausted nat
  | IdExists string
  | SessionFieldTooLong
  | SessionEmpty

subsection \<open>Session hints\<close>

definition session_field_max :: nat where "session_field_max = 4096"

text \<open>The code checks the three fields in map order; which one the error names is not modelled.\<close>

definition normalize_session_hint ::
    "agent_session option \<Rightarrow> agent_error + agent_session option" where
  "normalize_session_hint hint =
     (case hint of
        None \<Rightarrow> Inr None
      | Some h \<Rightarrow>
          let cp = h\<lparr>se_harness_session := trim_space (se_harness_session h),
                     se_resume := trim_space (se_resume h), se_cwd := trim_space (se_cwd h)\<rparr>
          in if list_ex (\<lambda>v. session_field_max < length v) [se_harness_session cp, se_resume cp, se_cwd cp]
             then Inl SessionFieldTooLong
             else if se_harness_session cp = [] \<and> se_resume cp = [] then Inl SessionEmpty
             else Inr (Some cp))"

definition upsert_session :: "int \<Rightarrow> agent \<Rightarrow> string \<Rightarrow> agent_session \<Rightarrow> store \<Rightarrow> store" where
  "upsert_session t a origin hint s =
     (if a_id a = [] then s
      else
        let registered =
              (case map_of (s_sessions s) (a_id a) of
                 Some e \<Rightarrow> (case se_registered e of Some r \<Rightarrow> r | None \<Rightarrow> t)
               | None \<Rightarrow> t);
            cwd = (if se_cwd hint = [] then get_or [] (a_meta a) ''cwd'' else se_cwd hint);
            se = \<lparr>se_full_id = a_id a, se_origin = origin, se_harness = a_harness a,
                  se_model = a_model a, se_project = a_project a, se_cwd = cwd,
                  se_harness_session = se_harness_session hint, se_resume = se_resume hint,
                  se_registered = Some registered, se_last_seen = t\<rparr>
        in persist_session_row se (s\<lparr>s_sessions := put (a_id a) se (s_sessions s)\<rparr>))"

definition touch_session :: "int \<Rightarrow> string \<Rightarrow> store \<Rightarrow> store" where
  "touch_session t aid s =
     (case map_of (s_sessions s) aid of
        None \<Rightarrow> s
      | Some se \<Rightarrow>
          let se1 = se\<lparr>se_last_seen := t\<rparr>
          in persist_session_row se1 (s\<lparr>s_sessions := put aid se1 (s_sessions s)\<rparr>))"

text \<open>Newest first, ties by identity.\<close>

definition list_agent_sessions :: "store \<Rightarrow> agent_session list" where
  "list_agent_sessions s =
     sort_key (\<lambda>se. - se_last_seen se) (sort_key se_full_id (map snd (s_sessions s)))"

subsection \<open>Registration\<close>

definition merge_meta :: "(string, string) table \<Rightarrow> (string, string) table \<Rightarrow> (string, string) table" where
  "merge_meta new old = fold (\<lambda>(k, v). put k v) new old"

definition fresh_agent ::
    "int \<Rightarrow> string \<Rightarrow> string \<Rightarrow> string \<Rightarrow> string \<Rightarrow> string \<Rightarrow> string \<Rightarrow> (string, string) table \<Rightarrow> agent" where
  "fresh_agent t aid name kind model harness project meta =
     \<lparr>a_id = aid, a_name = name, a_kind = kind, a_model = model, a_harness = harness,
      a_project = project, a_meta = meta, a_state = NoState, a_state_at = None,
      a_pending = NoState, a_overlay = False, a_warnings = [], a_registered = stamp_of t,
      a_last_seen = stamp_of t, a_cursors = []\<rparr>"

definition put_agent :: "agent \<Rightarrow> store \<Rightarrow> store" where
  "put_agent a s = s\<lparr>s_agents := put (a_id a) a (s_agents s)\<rparr>"

definition register_human ::
    "int \<Rightarrow> string \<Rightarrow> string \<Rightarrow> (string, string) table \<Rightarrow> store \<Rightarrow> (agent_error + agent) \<times> store" where
  "register_human t name project meta s =
     (if name = [] then (Inl NameRequired, s)
      else if is_reserved_agent_name name then (Inl (NameReserved name), s)
      else case map_of (s_agents s) name of
             Some e \<Rightarrow>
               if a_kind e \<noteq> ''human'' then (Inl (NameInUseByAI name), s)
               else
                 let e1 = e\<lparr>a_last_seen := stamp_of t,
                            a_project := (if project \<noteq> [] then project else a_project e),
                            a_meta := merge_meta meta (a_meta e)\<rparr>;
                     s1 = persist (s\<lparr>s_agents := put name e1 (s_agents s)\<rparr>)
                 in (Inr e1, join_internal t system_room name (broadcast_agent_update s1))
           | None \<Rightarrow>
               (case find (\<lambda>p. a_name (snd p) = name) (s_agents s) of
                  Some p \<Rightarrow> (Inl (NameInUseBy name (a_id (snd p))), s)
                | None \<Rightarrow>
                    let a = fresh_agent t name name ''human'' [] [] project meta;
                        s1 = persist (put_agent a s);
                        s2 = join_internal t system_room name (broadcast_agent_update s1)
                    in (Inr a, emit_system t system_room (name @ '' registered (human)'') s2)))"

definition same_tuple :: "string \<Rightarrow> string \<Rightarrow> string \<Rightarrow> agent \<Rightarrow> bool" where
  "same_tuple model harness project a =
     (canonical_model_slug (a_model a) = model \<and> a_harness a = harness \<and> a_project a = project)"

definition find_by_spawn_tag_tuple ::
    "string \<Rightarrow> string \<Rightarrow> string \<Rightarrow> string \<Rightarrow> store \<Rightarrow> agent option" where
  "find_by_spawn_tag_tuple tag model harness project s =
     map_option snd
       (find (\<lambda>p. a_kind (snd p) = ''ai'' \<and> get_or [] (a_meta (snd p)) ''spawn_tag'' = tag
                  \<and> same_tuple model harness project (snd p)) (s_agents s))"

definition find_by_spawn_tag :: "string \<Rightarrow> store \<Rightarrow> agent option" where
  "find_by_spawn_tag tag s =
     (if tag = [] then None
      else map_option snd
             (find (\<lambda>p. a_kind (snd p) = ''ai'' \<and> get_or [] (a_meta (snd p)) ''spawn_tag'' = tag)
               (s_agents s)))"

text \<open>The two reclaim branches: the agent keeps its identity and takes the new data.\<close>

definition reclaim_agent ::
    "int \<Rightarrow> string \<Rightarrow> (string, string) table \<Rightarrow> agent_session option \<Rightarrow> agent \<Rightarrow> store \<Rightarrow> agent \<times> store" where
  "reclaim_agent t model meta hint a s =
     (let a1 = a\<lparr>a_model := model, a_last_seen := stamp_of t, a_meta := merge_meta meta (a_meta a)\<rparr>;
          s1 = put_agent a1 s;
          s2 = (case hint of Some h \<Rightarrow> upsert_session t a1 ''mcp'' h s1
                | None \<Rightarrow> touch_session t (a_id a1) s1)
      in (a1, join_internal t system_room (a_id a1) (broadcast_agent_update (persist s2))))"

definition taken_names :: "string \<Rightarrow> store \<Rightarrow> string list" where
  "taken_names project s =
     map (a_name \<circ> snd) (filter (\<lambda>p. a_kind (snd p) = ''ai'' \<and> a_project (snd p) = project) (s_agents s))
     @ map ce_key role_catalog @ keys (s_role_custom s)"

definition add_ai_agent ::
    "int \<Rightarrow> string \<Rightarrow> string \<Rightarrow> string \<Rightarrow> string \<Rightarrow> (string, string) table \<Rightarrow> agent_session option \<Rightarrow>
     store \<Rightarrow> (agent_error + agent \<times> bool) \<times> store" where
  "add_ai_agent t name model harness project meta hint s =
     (let aid = assemble_id ''ai'' name project in
      if has_key (s_agents s) aid then (Inl (IdExists aid), s)
      else
        let a = fresh_agent t aid name ''ai'' model harness project meta;
            s1 = put_agent a s;
            s2 = persist (case hint of Some h \<Rightarrow> upsert_session t a ''mcp'' h s1 | None \<Rightarrow> s1);
            s3 = join_internal t system_room aid (broadcast_agent_update s2)
        in (Inr (a, False),
            emit_system t system_room
              (aid @ '' registered ('' @ model @ ''/'' @ harness @ '')'') s3))"

text \<open>The branch of a forced name, and the branch that reclaims by spawn tag or picks a name.\<close>

definition claim_name ::
    "int \<Rightarrow> string \<Rightarrow> string \<Rightarrow> string \<Rightarrow> string \<Rightarrow> (string, string) table \<Rightarrow> agent_session option \<Rightarrow>
     store \<Rightarrow> (agent_error + agent \<times> bool) \<times> store" where
  "claim_name t name model harness project meta hint s =
     (if \<not> slug_pattern name then (Inl (NamePattern name), s)
      else if is_reserved_agent_name name then (Inl (NameReserved name), s)
      else case map_of (s_agents s) (assemble_id ''ai'' name project) of
             Some a \<Rightarrow>
               if same_tuple model harness project a
               then (let (a1, s1) = reclaim_agent t model meta hint a s in (Inr (a1, False), s1))
               else (Inl (NameHeld name project), s)
           | None \<Rightarrow>
               if role_exists s name then (Inl (NameIsRole name), s)
               else add_ai_agent t name model harness project meta hint s)"

definition pick_name ::
    "int \<Rightarrow> nat \<Rightarrow> string \<Rightarrow> string \<Rightarrow> string \<Rightarrow> (string, string) table \<Rightarrow> agent_session option \<Rightarrow>
     store \<Rightarrow> (agent_error + agent \<times> bool) \<times> store" where
  "pick_name t rnd model harness project meta hint s =
     (let tag = get_or [] meta ''spawn_tag'';
          found = (if tag = [] then None
                   else find_by_spawn_tag_tuple tag model harness project s)
      in case found of
           Some a \<Rightarrow> (let (a1, s1) = reclaim_agent t model meta hint a s in (Inr (a1, True), s1))
         | None \<Rightarrow>
             (case pick_random_name rnd (taken_names project s) of
                None \<Rightarrow> (Inl (PoolExhausted (length (s_agents s))), s)
              | Some name \<Rightarrow> add_ai_agent t name model harness project meta hint s))"

definition register_ai ::
    "int \<Rightarrow> nat \<Rightarrow> string \<Rightarrow> string \<Rightarrow> string \<Rightarrow> (string, string) table \<Rightarrow> string \<Rightarrow>
     agent_session option \<Rightarrow> store \<Rightarrow> (agent_error + agent \<times> bool) \<times> store" where
  "register_ai t rnd model0 harness0 project meta force_name hint s =
     (let harness = (if harness0 = [] then ''unknown'' else harness0);
          model = canonical_model_slug (if model0 = [] then ''unknown'' else model0)
      in if force_name \<noteq> [] then claim_name t force_name model harness project meta hint s
         else pick_name t rnd model harness project meta hint s)"

subsection \<open>Keepalives and the activity state\<close>

definition keepalive_gap :: int where "keepalive_gap = 30 * second"

text \<open>\<open>time.Since(prev) > 30s\<close>; an unreadable \<open>last_seen\<close> is the zero time.\<close>

definition seen_long_ago :: "int \<Rightarrow> agent \<Rightarrow> bool" where
  "seen_long_ago t a =
     (case parse_stamp (a_last_seen a) of None \<Rightarrow> True | Some p \<Rightarrow> keepalive_gap < t - p)"

definition touch_agent :: "int \<Rightarrow> string \<Rightarrow> store \<Rightarrow> store" where
  "touch_agent t aid s =
     (case map_of (s_agents s) aid of
        None \<Rightarrow> s
      | Some a \<Rightarrow>
          let s1 = s\<lparr>s_agents := put aid (a\<lparr>a_last_seen := stamp_of t\<rparr>) (s_agents s)\<rparr>
          in if seen_long_ago t a then broadcast_agent_update (persist s1) else s1)"

definition heartbeat_agent :: "int \<Rightarrow> string \<Rightarrow> store \<Rightarrow> bool \<times> store" where
  "heartbeat_agent t aid s =
     (case map_of (s_agents s) aid of
        None \<Rightarrow> (False, s)
      | Some a \<Rightarrow>
          let s1 = touch_session t aid
                     (s\<lparr>s_agents := put aid (a\<lparr>a_last_seen := stamp_of t\<rparr>) (s_agents s)\<rparr>)
          in (True, if seen_long_ago t a then broadcast_agent_update (persist s1) else s1))"

definition agent_state_of :: "string \<Rightarrow> agent_state option" where
  "agent_state_of =
     map_of [(''bootstrapping'', Bootstrapping), (''idle'', Idle), (''thinking'', Thinking),
             (''tool_call'', ToolCall), (''respawning'', Respawning), (''error'', Failed),
             (''stopped'', Stopped), (''stale'', Stale), (''offline'', Offline)]"

definition is_activity :: "agent_state \<Rightarrow> bool" where
  "is_activity st = (st = Thinking \<or> st = ToolCall)"

definition set_agent_state :: "int \<Rightarrow> string \<Rightarrow> agent_state \<Rightarrow> store \<Rightarrow> bool \<times> store" where
  "set_agent_state t aid st s =
     (case map_of (s_agents s) aid of
        None \<Rightarrow> (False, s)
      | Some a \<Rightarrow>
          if a_kind a \<noteq> ''ai'' then (True, s)
          else if a_state a = Offline then
            let s1 = (if is_activity st \<or> a_pending a \<noteq> NoState
                      then s\<lparr>s_agents := put aid (a\<lparr>a_pending := st\<rparr>) (s_agents s)\<rparr> else s)
            in (True, if is_activity st then touch_agent t aid s1 else s1)
          else
            let s1 = s\<lparr>s_agents := put aid (a\<lparr>a_state := st, a_state_at := Some t\<rparr>) (s_agents s)\<rparr>;
                s2 = (if a_state a \<noteq> st then broadcast_agent_update s1 else s1)
            in (True, if is_activity st then touch_agent t aid s2 else s2))"

subsection \<open>Deregistration\<close>

definition drop_member :: "string \<Rightarrow> room \<Rightarrow> room" where
  "drop_member aid r =
     r\<lparr>r_members := filter (\<lambda>m. m \<noteq> aid) (r_members r), r_roles := del aid (r_roles r)\<rparr>"

definition deregister_agent :: "int \<Rightarrow> string \<Rightarrow> store \<Rightarrow> bool \<times> store" where
  "deregister_agent t aid s =
     (if \<not> has_key (s_agents s) aid then (False, s)
      else
        let vacated = List.map_filter (\<lambda>(rid, r). map_option (\<lambda>role. (rid, role)) (map_of (r_roles r) aid))
                        (s_rooms s);
            s1 = persist (s\<lparr>s_agents := del aid (s_agents s),
                            s_rooms := map_vals (\<lambda>_. drop_member aid) (s_rooms s)\<rparr>);
            s2 = broadcast_room_update (broadcast_agent_update s1);
            s3 = fold (\<lambda>(rid, role). emit_system t rid
                   (''role '' @ [CHR 0x22] @ role @ [CHR 0x22] @ '' vacated: '' @ aid @ '' deregistered''))
                   vacated s2
        in (True, emit_system t system_room (aid @ '' deregistered'') s3))"

subsection \<open>The addressing context of a room\<close>

definition room_agent_of :: "store \<Rightarrow> string \<Rightarrow> agent \<Rightarrow> room_agent" where
  "room_agent_of s rid a =
     \<lparr>ra_id = a_id a, ra_name = a_name a, ra_kind = a_kind a,
      ra_last_seen = parse_stamp (a_last_seen a), ra_waiting = waiting_in s (a_id a) rid\<rparr>"

definition add_role_name ::
    "(string, string) table \<Rightarrow> string \<Rightarrow> agent \<Rightarrow> (string, string list) table \<Rightarrow> (string, string list) table" where
  "add_role_name roles m a acc =
     (let role = to_lower (get_or [] roles m) in
      if a_kind a = ''ai'' \<and> role \<noteq> [] \<and> \<not> is_reserved_agent_name role
      then put role (get_or [] acc role @ [to_lower (a_name a)]) acc else acc)"

definition addressing_context_for :: "int \<Rightarrow> store \<Rightarrow> message \<Rightarrow> addressing_context" where
  "addressing_context_for t s m =
     (let rid = m_room m;
          roles = (case map_of (s_rooms s) rid of None \<Rightarrow> [] | Some r \<Rightarrow> r_roles r);
          members = List.map_filter (\<lambda>x. map_option (\<lambda>a. (x, a)) (map_of (s_agents s) x)) (room_members s rid)
      in \<lparr>cx_sender = m_from m,
          cx_known = map (\<lambda>p. to_lower (a_name (snd p))) (s_agents s),
          cx_roles = fold (\<lambda>(x, a). add_role_name roles x a) members [],
          cx_agents = map (\<lambda>p. room_agent_of s rid (snd p)) members,
          cx_now = t\<rparr>)"

subsection \<open>Frames and the invariant\<close>

lemma session_frame [frame, simp]:
  "s_rooms (upsert_session t a org h s) = s_rooms s" "s_rooms (touch_session t aid s) = s_rooms s"
  "s_agents (upsert_session t a org h s) = s_agents s" "s_agents (touch_session t aid s) = s_agents s"
  "s_messages (upsert_session t a org h s) = s_messages s"
  "s_messages (touch_session t aid s) = s_messages s"
  "s_next_id (upsert_session t a org h s) = s_next_id s"
  "s_next_id (touch_session t aid s) = s_next_id s"
  "s_reactions (upsert_session t a org h s) = s_reactions s"
  "s_reactions (touch_session t aid s) = s_reactions s"
  "s_prefs (upsert_session t a org h s) = s_prefs s" "s_prefs (touch_session t aid s) = s_prefs s"
  by (simp_all add: upsert_session_def touch_session_def persist_session_row_def Let_def
      split: option.split)

lemma store_ok_sessions [inv, simp]:
  "store_ok (upsert_session t a org h s) = store_ok s" "store_ok (touch_session t aid s) = store_ok s"
  by (rule store_ok_cong; simp)+

lemma store_ok_put_agent [inv]:
  "store_ok s \<Longrightarrow> a_id a = k \<Longrightarrow> store_ok (s\<lparr>s_agents := put k a (s_agents s)\<rparr>)"
  by (simp add: store_ok_def rooms_ok_put_agent agents_ok_put)

lemma store_ok_agent_id: "store_ok s \<Longrightarrow> map_of (s_agents s) k = Some a \<Longrightarrow> a_id a = k"
  by (auto simp: store_ok_def dest: agents_ok_lookup)

lemma touch_agent_ok [inv]: "store_ok s \<Longrightarrow> store_ok (touch_agent t aid s)"
  by (auto simp: touch_agent_def Let_def dest: store_ok_agent_id intro!: store_ok_put_agent
      split: option.split)

lemma heartbeat_agent_ok [inv]: "store_ok s \<Longrightarrow> store_ok (snd (heartbeat_agent t aid s))"
  by (auto simp: heartbeat_agent_def Let_def dest: store_ok_agent_id intro!: store_ok_put_agent
      split: option.split)

lemma set_agent_state_ok [inv]: "store_ok s \<Longrightarrow> store_ok (snd (set_agent_state t aid st s))"
  using store_ok_agent_id [of s aid]
  by (auto simp: set_agent_state_def Let_def
      intro!: store_ok_put_agent touch_agent_ok intro: store_ok_agent_id split: option.split)

lemma register_human_ok [inv]: "store_ok s \<Longrightarrow> store_ok (snd (register_human t n p m s))"
  using store_ok_agent_id [of s n]
  by (auto simp: register_human_def Let_def put_agent_def emits fresh_agent_def
      intro!: store_ok_put_agent join_internal_ok store_ok_emit intro: store_ok_agent_id
      split: option.split)

lemma reclaim_agent_ok: "store_ok s \<Longrightarrow> store_ok (snd (reclaim_agent t m meta h a s))"
  by (auto simp: reclaim_agent_def Let_def put_agent_def intro!: store_ok_put_agent join_internal_ok
      split: option.split)

lemma add_ai_agent_ok: "store_ok s \<Longrightarrow> store_ok (snd (add_ai_agent t n m h p meta hint s))"
  by (auto simp: add_ai_agent_def Let_def put_agent_def emits fresh_agent_def
      intro!: store_ok_put_agent join_internal_ok store_ok_emit split: option.split)

lemma reclaim_step_ok:
  "store_ok s \<Longrightarrow> store_ok (snd (case reclaim_agent t m meta h a s of (a1, s1) \<Rightarrow> (Inr (a1, b), s1)))"
  using reclaim_agent_ok [of s t m meta h a] by (cases "reclaim_agent t m meta h a s") simp

lemma claim_name_ok: "store_ok s \<Longrightarrow> store_ok (snd (claim_name t n m h p meta hint s))"
  by (cases "map_of (s_agents s) (assemble_id ''ai'' n p)")
     (simp_all add: claim_name_def reclaim_step_ok add_ai_agent_ok)

lemma pick_name_ok: "store_ok s \<Longrightarrow> store_ok (snd (pick_name t rnd m h p meta hint s))"
  unfolding pick_name_def Let_def [of "get_or [] meta ''spawn_tag''"]
    Let_def [of "if _ then None else find_by_spawn_tag_tuple _ _ _ _ _"]
  by (simp add: reclaim_step_ok add_ai_agent_ok split: option.split)

lemma register_ai_ok [inv]: "store_ok s \<Longrightarrow> store_ok (snd (register_ai t rnd m h p meta f hint s))"
  by (simp add: register_ai_def Let_def claim_name_ok pick_name_ok)

lemma rooms_ok_drop:
  assumes "rooms_ok rooms ags"
  shows "rooms_ok (map_vals (\<lambda>_. drop_member aid) rooms) (del aid ags)"
proof -
  have "room_ok (del aid ags) k (drop_member aid r)" if "room_ok ags k r" for k r
    using that unfolding room_ok_def drop_member_def by (auto simp del: set_map)
  then show ?thesis using assms by (fastforce simp: rooms_ok_def snd_in_map_vals)
qed

lemma emit_pairs_ok: "store_ok s \<Longrightarrow> store_ok (fold (\<lambda>(rid, x). emit_system t rid (f x)) xs s)"
  by (rule store_ok_fold) (auto intro: store_ok_emits)

lemma deregister_agent_ok [inv]:
  assumes "store_ok s" shows "store_ok (snd (deregister_agent t aid s))"
proof -
  let ?s1 = "s\<lparr>s_agents := del aid (s_agents s), s_rooms := map_vals (\<lambda>_. drop_member aid) (s_rooms s)\<rparr>"
  have "store_ok ?s1"
    using assms by (simp add: store_ok_def rooms_ok_drop agents_ok_del log_ok_map_rooms)
  then show ?thesis
    using assms by (simp add: deregister_agent_def Let_def store_ok_emits emit_pairs_ok)
qed

subsection \<open>What registration gives\<close>

lemma join_internal_agents [simp]: "s_agents (join_internal t rid aid s) = s_agents s"
  by (auto simp: join_internal_def join_internal_locked_def Let_def split: prod.split)

lemma join_internal_member: "has_key (s_agents s) aid \<Longrightarrow> is_member (join_internal t rid aid s) rid aid"
  by (auto simp: join_internal_def join_internal_locked_def Let_def is_member_def has_key_def
      split: prod.split option.splits)

lemma is_member_cong: "s_rooms s' = s_rooms s \<Longrightarrow> is_member s' = is_member s"
  by (simp add: is_member_def fun_eq_iff)

lemma is_member_emit [simp]:
  "is_member (emit_system_full t rid b ts att s) = is_member s"
  by (rule is_member_cong) simp

lemma register_effect:
  "put_agent a s = s1 \<Longrightarrow> s_agents s2 = s_agents s1 \<Longrightarrow>
   s' = join_internal t system_room (a_id a) s2 \<Longrightarrow>
   s_agents s' = put (a_id a) a (s_agents s) \<and> is_member s' system_room (a_id a)"
  by (auto simp: put_agent_def intro: join_internal_member)

lemma reclaim_effect:
  assumes "reclaim_agent t m meta hint a s = (a1, s')"
  shows "s_agents s' = put (a_id a) a1 (s_agents s)" "is_member s' system_room (a_id a)"
    "a1 = a\<lparr>a_model := m, a_last_seen := stamp_of t, a_meta := merge_meta meta (a_meta a)\<rparr>"
proof -
  show a1: "a1 = a\<lparr>a_model := m, a_last_seen := stamp_of t, a_meta := merge_meta meta (a_meta a)\<rparr>"
    using assms by (simp add: reclaim_agent_def Let_def)
  show "s_agents s' = put (a_id a) a1 (s_agents s)"
    using assms by (auto simp: reclaim_agent_def Let_def put_agent_def broadcasts split: option.splits)
  show "is_member s' system_room (a_id a)"
    using assms by (auto simp: reclaim_agent_def Let_def put_agent_def broadcasts
        intro!: join_internal_member split: option.splits)
qed

lemma add_ai_effect:
  assumes "add_ai_agent t n m h p meta hint s = (Inr (a, r), s')"
  shows "\<not> r" "a = fresh_agent t (assemble_id ''ai'' n p) n ''ai'' m h p meta"
    "\<not> has_key (s_agents s) (a_id a)" "s_agents s' = put (a_id a) a (s_agents s)"
    "is_member s' system_room (a_id a)"
  using assms
  by (auto simp: add_ai_agent_def Let_def put_agent_def broadcasts emits fresh_agent_def
      intro!: join_internal_member split: if_splits option.splits)


definition codex_meta :: "(string, string) table" where
  "codex_meta = [(''spawn_tag'', ''t1'')]"

definition tagged_store :: store where
  "tagged_store =
     sample_store\<lparr>s_agents := map_vals (\<lambda>k a. if k = ''bob@web'' then a\<lparr>a_meta := codex_meta\<rparr> else a)
                                 (s_agents sample_store)\<rparr>"


lemma map_of_merge: "distinct (keys new) \<Longrightarrow> map_of (merge_meta new old) = map_of old ++ map_of new"
proof (induction new arbitrary: old)
  case (Cons p new)
  obtain k v where p: "p = (k, v)" by (cases p)
  have "k \<notin> dom (map_of new)" using Cons.prems p by (simp add: dom_map_of_conv_image_fst)
  then show ?case
    using Cons.IH [of "put k v old"] Cons.prems p
    by (auto simp: merge_meta_def map_add_def fun_eq_iff map_of_eq_None_iff split: option.split)
qed (simp add: merge_meta_def)



end
