(* ===== verification/Liveness.thy ===== *)
theory Liveness
  imports Agents
begin

section \<open>The liveness sweep\<close>

text \<open>
  The periodic derivation of agent states in \<open>internal/server/store_agents.go\<close>: an AI agent with
  an open wait or WebSocket is active, one without ages from its last keepalive to stale and to
  offline; going offline and coming back are announced in the rooms of the agent.
\<close>

datatype liveness_kind = WentOffline | Reconnected

record liveness_room =
  lr_room :: string
  lr_role :: string
  lr_humans :: "string list"

record liveness_event =
  le_agent :: string
  le_kind :: liveness_kind
  le_rooms :: "liveness_room list"

definition active_agent :: "store \<Rightarrow> string \<Rightarrow> bool" where
  "active_agent s aid = (has_open_wait s aid \<or> 0 < ws_count s aid)"

definition liveness_rooms :: "store \<Rightarrow> string \<Rightarrow> liveness_room list" where
  "liveness_rooms s aid =
     sort_key lr_room
       (map (\<lambda>(rid, r).
               \<lparr>lr_room = rid, lr_role = get_or [] (r_roles r) aid,
                lr_humans = List.map_filter (\<lambda>m. case map_of (s_agents s) m of
                                None \<Rightarrow> None
                              | Some a \<Rightarrow> if a_kind a = ''human'' then Some (a_id a) else None)
                              (r_members r)\<rparr>)
         (filter (\<lambda>(rid, r). member_in_room r aid) (s_rooms s)))"

definition live_event :: "store \<Rightarrow> liveness_kind \<Rightarrow> agent \<Rightarrow> liveness_event" where
  "live_event s k a = \<lparr>le_agent = a_id a, le_kind = k, le_rooms = liveness_rooms s (a_id a)\<rparr>"

text \<open>The state the sweep wants, and whether it announces a reconnect.\<close>

definition derived_state :: "store \<Rightarrow> int \<Rightarrow> agent \<Rightarrow> agent_state \<times> bool" where
  "derived_state s t a =
     (let prev = a_state a; away = (prev = Stale \<or> prev = Offline) in
      if active_agent s (a_id a) then (if away then Idle else prev, prev = Offline)
      else if prev \<noteq> Stopped \<and> prev \<noteq> Failed then
        (case parse_stamp (a_last_seen a) of
           None \<Rightarrow> (prev, False)
         | Some seen \<Rightarrow>
             if agent_offline_window s < t - seen then (Offline, False)
             else if agent_stale_window s < t - seen then (Stale, False)
             else if away then (Idle, prev = Offline)
             else (prev, False))
      else (prev, False))"

definition sweep_agent :: "store \<Rightarrow> int \<Rightarrow> agent \<Rightarrow> agent \<times> liveness_event list \<times> bool" where
  "sweep_agent s t a =
     (if a_kind a \<noteq> ''ai'' then
        (if a_state a \<noteq> NoState \<or> a_state_at a \<noteq> None
         then (a\<lparr>a_state := NoState, a_state_at := None\<rparr>, [], True) else (a, [], False))
      else
        let prev = a_state a; (want, back) = derived_state s t a;
            evs = (if back then [live_event s Reconnected a] else [])
        in if prev = want then (a, evs, False)
           else
             let new = (if prev = Offline \<and> want = Idle \<and> a_pending a \<noteq> NoState
                        then a_pending a else want)
             in (a\<lparr>a_pending := (if prev = Offline then NoState else a_pending a), a_state := new,
                   a_state_at := Some t\<rparr>,
                 evs @ (if new = Offline then [live_event s WentOffline a] else []), True))"

definition sweep_agent_liveness :: "int \<Rightarrow> store \<Rightarrow> liveness_event list \<times> store" where
  "sweep_agent_liveness t s =
     (let results = map (\<lambda>(k, a). (k, sweep_agent s t a)) (s_agents s);
          s1 = s\<lparr>s_agents := map (\<lambda>(k, a, _, _). (k, a)) results\<rparr>
      in (concat (map (\<lambda>(k, a, evs, ch). evs) results),
          if list_ex (\<lambda>(k, a, evs, ch). ch) results then broadcast_agent_update s1 else s1))"

definition emit_liveness_room ::
    "int \<Rightarrow> liveness_event \<Rightarrow> liveness_room \<Rightarrow> store \<Rightarrow> store" where
  "emit_liveness_room t e r s =
     (case le_kind e of
        WentOffline \<Rightarrow>
          emit_system_full t (lr_room r)
            (liveness_subject (lr_role r) (le_agent e) @ '' looks offline (no activity for '' @
             format_duration (agent_offline_window s) @ '')'')
            (if lr_humans r = [] then None else Some (lr_humans r)) (lr_humans r \<noteq> []) s
      | Reconnected \<Rightarrow> emit_system t (lr_room r) (le_agent e @ '' reconnected'') s)"

definition emit_liveness_events :: "int \<Rightarrow> liveness_event list \<Rightarrow> store \<Rightarrow> store" where
  "emit_liveness_events t evs s =
     fold (\<lambda>e. fold (emit_liveness_room t e) (le_rooms e)) evs s"

definition derive_agent_states :: "int \<Rightarrow> store \<Rightarrow> store" where
  "derive_agent_states t s =
     (let (evs, s1) = sweep_agent_liveness t s in emit_liveness_events t evs s1)"

subsection \<open>The invariant\<close>

lemma sweep_agent_id: "a_id (fst (sweep_agent s t a)) = a_id a" "a_kind (fst (sweep_agent s t a)) = a_kind a"
  by (auto simp: sweep_agent_def Let_def split: prod.split)

lemma sweep_agents: "s_agents (snd (sweep_agent_liveness t s)) = map_vals (\<lambda>_ a. fst (sweep_agent s t a)) (s_agents s)"
  by (auto simp: sweep_agent_liveness_def Let_def broadcasts map_vals_def comp_def split: prod.split)

lemma sweep_frame [frame, simp]:
  "s_rooms (snd (sweep_agent_liveness t s)) = s_rooms s"
  "s_messages (snd (sweep_agent_liveness t s)) = s_messages s"
  "s_next_id (snd (sweep_agent_liveness t s)) = s_next_id s"
  "s_reactions (snd (sweep_agent_liveness t s)) = s_reactions s"
  "s_prefs (snd (sweep_agent_liveness t s)) = s_prefs s"
  by (simp_all add: sweep_agent_liveness_def Let_def broadcasts)

lemma emit_liveness_room_ok: "store_ok s \<Longrightarrow> store_ok (emit_liveness_room t e r s)"
  by (simp add: emit_liveness_room_def store_ok_emit store_ok_emits split: liveness_kind.split)

lemma emit_liveness_ok: "store_ok s \<Longrightarrow> store_ok (emit_liveness_events t evs s)"
  unfolding emit_liveness_events_def
  by (intro store_ok_fold) (auto intro: emit_liveness_room_ok)

lemma derive_agent_states_ok [inv]:
  assumes "store_ok s" shows "store_ok (derive_agent_states t s)"
proof -
  obtain evs s1 where sw: "sweep_agent_liveness t s = (evs, s1)" by fastforce
  have "store_ok (snd (sweep_agent_liveness t s))"
    using assms by (simp add: store_ok_def sweep_agents rooms_ok_map_agents agents_ok_map sweep_agent_id)
  then show ?thesis using sw by (simp add: derive_agent_states_def emit_liveness_ok)
qed

subsection \<open>What a sweep decides\<close>

lemma derived_settled: "a_state a \<in> {Stopped, Failed} \<Longrightarrow> derived_state s t a = (a_state a, False)"
  by (cases "active_agent s (a_id a)") (auto simp: derived_state_def Let_def)

lemma derived_active:
  "active_agent s (a_id a) \<Longrightarrow>
   derived_state s t a =
     (if a_state a = Stale \<or> a_state a = Offline then Idle else a_state a, a_state a = Offline)"
  by (simp add: derived_state_def)

lemma derived_gone:
  "\<not> active_agent s (a_id a) \<Longrightarrow> a_state a \<notin> {Stopped, Failed} \<Longrightarrow>
   a_last_seen a = At n \<Longrightarrow> agent_offline_window s < t - n * second \<Longrightarrow> derived_state s t a = (Offline, False)"
  by (simp add: derived_state_def)

text \<open>A reconnect is announced exactly on the way from offline to idle.\<close>

lemma derived_back:
  assumes "derived_state s t a = (want, back)"
  shows "back = (a_state a = Offline \<and> want = Idle)"
    and "want = a_state a \<or> want \<in> {Idle, Stale, Offline}"
proof -
  have "back = (a_state a = Offline \<and> want = Idle) \<and> (want = a_state a \<or> want \<in> {Idle, Stale, Offline})"
  proof (cases "active_agent s (a_id a)")
    case True
    then show ?thesis using assms by (cases "a_state a"; simp add: derived_active; blast)
  next
    case idle: False
    show ?thesis
    proof (cases "a_state a \<in> {Stopped, Failed}")
      case True
      then show ?thesis using assms derived_settled [OF True, of s t] by auto
    next
      case running: False
      show ?thesis
      proof (cases "parse_stamp (a_last_seen a)")
        case None
        then show ?thesis using assms idle running by (auto simp: derived_state_def Let_def)
      next
        case (Some seen)
        have "(want, back) \<in> {(Offline, False), (Stale, False), (a_state a, False)} \<or>
          (a_state a = Stale \<or> a_state a = Offline) \<and> (want, back) = (Idle, a_state a = Offline)"
          unfolding assms [symmetric] using idle running Some
          by (simp only: derived_state_def Let_def if_False option.case split: if_split) blast
        then show ?thesis by auto
      qed
    qed
  qed
  then show "back = (a_state a = Offline \<and> want = Idle)"
    and "want = a_state a \<or> want \<in> {Idle, Stale, Offline}" by simp_all
qed

lemma sweep_same:
  "a_kind a = ''ai'' \<Longrightarrow> derived_state s t a = (want, back) \<Longrightarrow> a_state a = want \<Longrightarrow>
   sweep_agent s t a = (a, if back then [live_event s Reconnected a] else [], False)"
  by (simp add: sweep_agent_def Let_def)

definition landing_state :: "agent \<Rightarrow> agent_state \<Rightarrow> agent_state" where
  "landing_state a want =
     (if a_state a = Offline \<and> want = Idle \<and> a_pending a \<noteq> NoState then a_pending a else want)"

lemma sweep_moved:
  "a_kind a = ''ai'' \<Longrightarrow> derived_state s t a = (want, back) \<Longrightarrow> a_state a \<noteq> want \<Longrightarrow>
   sweep_agent s t a =
     (a\<lparr>a_pending := (if a_state a = Offline then NoState else a_pending a),
        a_state := landing_state a want, a_state_at := Some t\<rparr>,
      (if back then [live_event s Reconnected a] else []) @
      (if landing_state a want = Offline then [live_event s WentOffline a] else []), True)"
  by (simp add: sweep_agent_def Let_def landing_state_def)



subsection \<open>Offline notices\<close>

text \<open>
  The life of one AI agent between sweeps: keepalives, pushes of activity states by its wrapper,
  and sweeps, each in a store of its own. The label of a step is what it announces.
\<close>

definition push_state :: "int \<Rightarrow> agent_state \<Rightarrow> agent \<Rightarrow> agent" where
  "push_state t st a =
     (if a_state a = Offline
      then (if is_activity st \<or> a_pending a \<noteq> NoState then a\<lparr>a_pending := st\<rparr> else a)
      else a\<lparr>a_state := st, a_state_at := Some t\<rparr>)"

lemma push_state_of_store:
  assumes "map_of (s_agents s) aid = Some a" "a_kind a = ''ai''"
  shows "map_option (\<lambda>x. x\<lparr>a_last_seen := At 0\<rparr>) (map_of (s_agents (snd (set_agent_state t aid st s))) aid) =
         Some ((push_state t st a)\<lparr>a_last_seen := At 0\<rparr>)"
  using assms
  by (auto simp: set_agent_state_def push_state_def touch_agent_def Let_def broadcasts split: option.split)

text \<open>States a wrapper reports; \<open>stale\<close> and \<open>offline\<close> are the server's to derive.\<close>

definition wrapper_state :: "agent_state \<Rightarrow> bool" where
  "wrapper_state st = (st \<noteq> Stale \<and> st \<noteq> Offline)"

text \<open>The sweep reaches a returned agent while its keepalive is fresh.\<close>

definition prompt_sweep :: "store \<Rightarrow> int \<Rightarrow> agent \<Rightarrow> bool" where
  "prompt_sweep s t a = (a_state a = Offline \<longrightarrow> fst (derived_state s t a) \<noteq> Stale)"

inductive live_step :: "agent \<Rightarrow> liveness_kind list \<Rightarrow> agent \<Rightarrow> bool" where
  Touch: "live_step a [] (a\<lparr>a_last_seen := stamp_of t\<rparr>)"
| Push: "wrapper_state st \<Longrightarrow> live_step a [] (push_state t st a)"
| Sweep: "sweep_agent s t a = (a', evs, ch) \<Longrightarrow> prompt_sweep s t a \<Longrightarrow>
    live_step a (map le_kind evs) a'"

inductive live_run :: "agent \<Rightarrow> liveness_kind list \<Rightarrow> agent \<Rightarrow> bool" where
  Done: "live_run a [] a"
| Step: "live_run a es b \<Longrightarrow> live_step b fs c \<Longrightarrow> live_run a (es @ fs) c"

inductive_cases live_stepE: "live_step a fs b"
inductive_simps live_run_Nil_iff: "live_run a es a"

text \<open>Alternating notices, starting with the kind expected next.\<close>

fun alternates :: "liveness_kind \<Rightarrow> liveness_kind list \<Rightarrow> bool" where
  "alternates k [] = True"
| "alternates k (e # es) =
     (e = k \<and> alternates (if k = WentOffline then Reconnected else WentOffline) es)"

fun next_kind :: "liveness_kind \<Rightarrow> liveness_kind list \<Rightarrow> liveness_kind" where
  "next_kind k [] = k"
| "next_kind k (e # es) = next_kind (if e = WentOffline then Reconnected else WentOffline) es"

lemma alternates_append: "alternates k (es @ fs) \<longleftrightarrow> alternates k es \<and> alternates (next_kind k es) fs"
  by (induction k es rule: alternates.induct) auto

lemma next_kind_append: "next_kind k (es @ fs) = next_kind (next_kind k es) fs"
  by (induction k es rule: next_kind.induct) auto

definition expects :: "agent \<Rightarrow> liveness_kind" where
  "expects a = (if a_state a = Offline then Reconnected else WentOffline)"

lemma live_step_alternates:
  assumes "live_step a fs b" "a_kind a = ''ai''" "wrapper_state (a_pending a)"
  shows "alternates (expects a) fs \<and> next_kind (expects a) fs = expects b \<and> a_kind b = ''ai'' \<and>
         wrapper_state (a_pending b)"
  using assms
proof cases
  case (Touch t)
  then show ?thesis using assms by (simp add: expects_def)
next
  case (Push st t)
  then show ?thesis using assms by (auto simp: expects_def push_state_def wrapper_state_def)
next
  case (Sweep s t evs ch)
  have k: "a_kind b = ''ai''" using Sweep(2) assms(2) sweep_agent_id(2) [of s t a] by simp
  obtain want bk where d: "derived_state s t a = (want, bk)" by fastforce
  note bk = derived_back [OF d]
  show ?thesis
  proof (cases "a_state a = want")
    case True
    with bk(1) have "\<not> bk" by auto
    then show ?thesis using sweep_same [OF assms(2) d True] Sweep(1,2) assms(2,3) by simp
  next
    case moved: False
    note sw = sweep_moved [OF assms(2) d moved]
    have b: "a_state b = landing_state a want" "a_pending b = (if a_state a = Offline then NoState else a_pending a)"
      and fs: "fs = (if bk then [Reconnected] else []) @ (if landing_state a want = Offline then [WentOffline] else [])"
      using sw Sweep(1,2) by (auto simp: live_event_def)
    show ?thesis
    proof (cases "a_state a = Offline")
      case True
      have "want = Idle" using Sweep(3) bk moved d True by (auto simp: prompt_sweep_def)
      then have "bk" and "landing_state a want \<noteq> Offline"
        using True bk assms(3) by (auto simp: landing_state_def wrapper_state_def)
      then show ?thesis using True b fs k by (simp add: expects_def wrapper_state_def)
    next
      case False
      then have "\<not> bk" "landing_state a want = want" using bk by (auto simp: landing_state_def)
      then show ?thesis using False b fs k assms(3) by (simp add: expects_def)
    qed
  qed
qed



text \<open>
  Without the promptness the notices repeat: an agent that was offline and sent a keepalive, but
  is swept only when that keepalive is older than the stale window, goes from offline to stale
  without a notice, and later offline again with a second one.
\<close>

definition silent_return :: "liveness_kind list" where
  "silent_return =
     (let a0 = sample_agent ''bob@web'' ''ai'' [];
          (a1, e1, _) = sweep_agent sample_store (700 * second) a0;
          (a2, e2, _) = sweep_agent sample_store (900 * second) (a1\<lparr>a_last_seen := stamp_of (750 * second)\<rparr>);
          (a3, e3, _) = sweep_agent sample_store (1400 * second) a2
      in map le_kind (e1 @ e2 @ e3))"

lemma offline_notice_repeats: "silent_return = [WentOffline, WentOffline]"
  by code_simp

end
