(* ===== verification/Attachments.thy ===== *)
theory Attachments
  imports RoleOps Liveness
begin

section \<open>Image attachments\<close>

text \<open>
  The registry of uploaded images of \<open>internal/server/store_attachments.go\<close> and the handlers that
  upload, delete and serve one (\<open>internal/server/server.go\<close>). The bytes of a file are on disk; the
  model keeps the registry. The random id of an upload, the sniffed MIME type and the decoded
  dimensions are parameters.
\<close>

definition max_attachment_size :: nat where "max_attachment_size = 5 * 1024 * 1024"
definition max_message_attachments :: nat where "max_message_attachments = 4"
definition attachment_orphan_grace :: int where "attachment_orphan_grace = 60 * 60 * second"

definition attachment_ext :: "string \<Rightarrow> string" where
  "attachment_ext mime =
     (if mime = ''image/png'' then ''png''
      else if mime = ''image/jpeg'' then ''jpg''
      else if mime = ''image/gif'' then ''gif''
      else if mime = ''image/webp'' then ''webp'' else ''bin'')"

definition allowed_attachment_mime :: "string \<Rightarrow> bool" where
  "allowed_attachment_mime mime =
     (mime \<in> set [''image/png'', ''image/jpeg'', ''image/gif'', ''image/webp''])"

definition attachment_meta :: "attachment_entry \<Rightarrow> attachment" where
  "attachment_meta e =
     \<lparr>at_id = ae_id e, at_mime = ae_mime e, at_name = ae_name e, at_size = ae_size e,
      at_width = ae_width e, at_height = ae_height e, at_hint = []\<rparr>"

definition persist_attachments :: "store \<Rightarrow> store" where
  "persist_attachments s = s\<lparr>s_db := (s_db s)\<lparr>db_attachments := s_attachments s\<rparr>\<rparr>"

datatype attachment_error =
    AttachmentTooLarge
  | TooManyAttachments
  | AttachmentIdInvalid string
  | AttachmentUnknown string
  | AttachmentTypeRefused
  | AttachmentUndecodable
  | AttachmentInUse
  | AttachmentAgentRequired
  | AttachmentMessageInvalid
  | AttachmentForbidden

subsection \<open>Uploading\<close>

definition add_attachment ::
    "int \<Rightarrow> string \<Rightarrow> string \<Rightarrow> string \<Rightarrow> nat \<Rightarrow> int \<Rightarrow> int \<Rightarrow> store \<Rightarrow>
     (attachment_error + attachment) \<times> store" where
  "add_attachment t uuid name mime sz width height s =
     (if max_attachment_size < sz then (Inl AttachmentTooLarge, s)
      else
        let e = \<lparr>ae_id = uuid, ae_name = name, ae_mime = mime, ae_size = int sz, ae_width = width,
                 ae_height = height, ae_uploaded = stamp_of t, ae_ext = attachment_ext mime\<rparr>
        in (Inr (attachment_meta e),
            persist_attachments (s\<lparr>s_attachments := put uuid e (s_attachments s)\<rparr>)))"

text \<open>\<open>filepath.Base\<close> on a slash-separated path.\<close>

definition base_name :: "string \<Rightarrow> string" where
  "base_name path =
     (let p = rev (dropWhile (\<lambda>c. c = CHR ''/'') (rev path))
      in if path = [] then ''.'' else if p = [] then ''/''
         else rev (takeWhile (\<lambda>c. c \<noteq> CHR ''/'') (rev p)))"

definition sanitize_attachment_name :: "string \<Rightarrow> string \<Rightarrow> string" where
  "sanitize_attachment_name filename ext =
     (let b = base_name filename;
          name = (if b = ''.'' \<or> trim_space b = [] then ''attachment.'' @ ext else b)
      in if 96 < rune_count name then truncate_runes name 96 else name)"

definition post_attachment ::
    "int \<Rightarrow> string \<Rightarrow> string \<Rightarrow> string \<Rightarrow> nat \<Rightarrow> (int \<times> int) option \<Rightarrow> store \<Rightarrow>
     (attachment_error + attachment) \<times> store" where
  "post_attachment t uuid filename mime sz dims s =
     (if max_attachment_size < sz then (Inl AttachmentTooLarge, s)
      else if \<not> allowed_attachment_mime mime then (Inl AttachmentTypeRefused, s)
      else case dims of
             None \<Rightarrow> (Inl AttachmentUndecodable, s)
           | Some (w, h) \<Rightarrow>
               add_attachment t uuid (sanitize_attachment_name filename (attachment_ext mime)) mime
                 sz w h s)"

subsection \<open>Referring to attachments\<close>

fun resolve_each ::
    "(string, attachment_entry) table \<Rightarrow> string list \<Rightarrow> attachment list \<Rightarrow>
     attachment_error + attachment list" where
  "resolve_each reg seen [] = Inr []"
| "resolve_each reg seen (a # as) =
     (let i = trim_space (at_id a) in
      if \<not> valid_uuid i then Inl (AttachmentIdInvalid i)
      else if i \<in> set seen then resolve_each reg seen as
      else case map_of reg i of
             None \<Rightarrow> Inl (AttachmentUnknown i)
           | Some e \<Rightarrow>
               (case resolve_each reg (i # seen) as of
                  Inl err \<Rightarrow> Inl err
                | Inr out \<Rightarrow> Inr (attachment_meta e # out)))"

definition resolve_attachments ::
    "store \<Rightarrow> attachment list \<Rightarrow> attachment_error + attachment list" where
  "resolve_attachments s as =
     (if as = [] then Inr []
      else if max_message_attachments < length as then Inl TooManyAttachments
      else resolve_each (s_attachments s) [] as)"

definition mentions_attachment :: "string \<Rightarrow> message \<Rightarrow> bool" where
  "mentions_attachment i m = list_ex (\<lambda>a. at_id a = i) (m_attachments m)"

definition attachment_references :: "store \<Rightarrow> string \<Rightarrow> (string \<times> int) list" where
  "attachment_references s i =
     concat (map (\<lambda>(rid, ms). map (\<lambda>m. (rid, m_id m)) (filter (mentions_attachment i) ms))
              (s_messages s))"

definition referenced_attachments :: "store \<Rightarrow> string list" where
  "referenced_attachments s = concat (map (\<lambda>m. map at_id (m_attachments m)) (all_logged (s_messages s)))"

subsection \<open>Deleting and collecting\<close>

text \<open>The two flags of \<open>deleteAttachment\<close>: found, deleted.\<close>

definition delete_attachment :: "string \<Rightarrow> store \<Rightarrow> (bool \<times> bool) \<times> store" where
  "delete_attachment i s =
     (if \<not> valid_uuid i then ((False, False), s)
      else if attachment_references s i \<noteq> [] then ((True, False), s)
      else if \<not> has_key (s_attachments s) i then ((False, False), s)
      else ((True, True), persist_attachments (s\<lparr>s_attachments := del i (s_attachments s)\<rparr>)))"

definition delete_attachment_request :: "string \<Rightarrow> store \<Rightarrow> (attachment_error + unit) \<times> store" where
  "delete_attachment_request i s =
     (case delete_attachment i s of
        ((False, _), s') \<Rightarrow> (Inl (AttachmentUnknown i), s')
      | ((True, False), s') \<Rightarrow> (Inl AttachmentInUse, s')
      | ((True, True), s') \<Rightarrow> (Inr (), s'))"

definition keep_attachment :: "int \<Rightarrow> string list \<Rightarrow> string \<times> attachment_entry \<Rightarrow> bool" where
  "keep_attachment t referenced p =
     (fst p \<in> set referenced \<or>
      (case parse_stamp (ae_uploaded (snd p)) of
         None \<Rightarrow> False | Some up \<Rightarrow> t - attachment_orphan_grace < up))"

definition cleanup_attachments :: "int \<Rightarrow> store \<Rightarrow> store" where
  "cleanup_attachments t s =
     (let kept = filter (keep_attachment t (referenced_attachments s)) (s_attachments s)
      in if kept = s_attachments s then s else persist_attachments (s\<lparr>s_attachments := kept\<rparr>))"

subsection \<open>Serving one to an agent\<close>

text \<open>\<open>mid\<close> is the parsed \<open>message_id\<close> of the query; \<open>None\<close> when there is none.\<close>

definition get_agent_attachment ::
    "string \<Rightarrow> string \<Rightarrow> int option \<Rightarrow> store \<Rightarrow> attachment_error + attachment_entry" where
  "get_agent_attachment aid i mid s =
     (if aid = [] then Inl AttachmentAgentRequired
      else if \<not> valid_uuid i then Inl (AttachmentUnknown i)
      else case map_of (s_attachments s) i of
             None \<Rightarrow> Inl (AttachmentUnknown i)
           | Some e \<Rightarrow>
               if (case mid of None \<Rightarrow> False | Some n \<Rightarrow> n \<le> 0) then Inl AttachmentMessageInvalid
               else
                 let refs = filter (\<lambda>r. case mid of None \<Rightarrow> True | Some n \<Rightarrow> snd r = n)
                              (attachment_references s i)
                 in if refs = [] then Inl (AttachmentUnknown i)
                    else if \<not> list_ex (\<lambda>r. is_member s (fst r) aid) refs then Inl AttachmentForbidden
                    else if int max_attachment_size < ae_size e then Inl AttachmentTooLarge
                    else Inr e)"

subsection \<open>Facts\<close>

lemma persist_attachments_frame [frame, simp]:
  "s_rooms (persist_attachments s) = s_rooms s" "s_agents (persist_attachments s) = s_agents s"
  "s_messages (persist_attachments s) = s_messages s" "s_next_id (persist_attachments s) = s_next_id s"
  "s_reactions (persist_attachments s) = s_reactions s"
  "s_attachments (persist_attachments s) = s_attachments s" "s_prefs (persist_attachments s) = s_prefs s"
  by (simp_all add: persist_attachments_def)

lemma store_ok_attachments [inv, simp]:
  "store_ok (persist_attachments s) = store_ok s" "store_ok (s\<lparr>s_attachments := x\<rparr>) = store_ok s"
  by (rule store_ok_cong; simp)+

lemma attachment_ops_ok [inv]:
  "store_ok s \<Longrightarrow> store_ok (snd (post_attachment t u f mi sz d s))"
  "store_ok s \<Longrightarrow> store_ok (snd (delete_attachment_request i s))"
  "store_ok s \<Longrightarrow> store_ok (cleanup_attachments t s)"
  by (auto simp: post_attachment_def add_attachment_def Let_def delete_attachment_request_def
      delete_attachment_def cleanup_attachments_def split: option.split)

lemma resolve_each_ok:
  "resolve_each reg seen as = Inr out \<Longrightarrow> (\<And>k e. map_of reg k = Some e \<Longrightarrow> ae_id e = k) \<Longrightarrow>
   length out \<le> length as \<and> distinct (map at_id out) \<and> set (map at_id out) \<inter> set seen = {} \<and>
   (\<forall>a \<in> set out. valid_uuid (at_id a) \<and> (\<exists>e. map_of reg (at_id a) = Some e \<and> a = attachment_meta e))"
proof (induction reg seen as arbitrary: out rule: resolve_each.induct)
  case (2 reg seen a as)
  let ?i = "trim_space (at_id a)"
  have v: "valid_uuid ?i" using 2(3) by (auto simp: Let_def split: if_splits)
  show ?case
  proof (cases "?i \<in> set seen")
    case True
    then show ?thesis using 2(1) [OF refl _ True] 2(3,4) v by (fastforce simp: Let_def)
  next
    case False
    then obtain e out' where e: "map_of reg ?i = Some e" "resolve_each reg (?i # seen) as = Inr out'"
      "out = attachment_meta e # out'"
      using 2(3) v by (auto simp: Let_def split: option.splits sum.splits)
    have "at_id (attachment_meta e) = ?i" using 2(4) [OF e(1)] by (simp add: attachment_meta_def)
    then show ?thesis using 2(2) [OF refl _ False e(1,2) 2(4)] v e False by auto
  qed
qed simp

definition attachments_ok :: "store \<Rightarrow> bool" where
  "attachments_ok s = (\<forall>(k, e) \<in> set (s_attachments s). ae_id e = k)"

definition attachments_held :: "store \<Rightarrow> bool" where
  "attachments_held s = (\<forall>i \<in> set (referenced_attachments s). has_key (s_attachments s) i)"

lemma attachment_references_iff:
  "attachment_references s i \<noteq> [] \<longleftrightarrow> i \<in> set (referenced_attachments s)"
proof -
  have "attachment_references s i \<noteq> [] \<longleftrightarrow> (\<exists>p \<in> set (s_messages s). \<exists>m \<in> set (snd p). mentions_attachment i m)"
    by (simp add: attachment_references_def filter_empty_conv case_prod_unfold)
  also have "\<dots> \<longleftrightarrow> i \<in> set (referenced_attachments s)"
    by (auto simp: referenced_attachments_def set_all_logged mentions_attachment_def list_ex_iff image_iff)
  finally show ?thesis .
qed

lemma has_key_filter: "has_key m k \<Longrightarrow> (\<And>v. (k, v) \<in> set m \<Longrightarrow> P (k, v)) \<Longrightarrow> has_key (filter P m) k"
  by (fastforce simp: has_key_iff image_iff)

text \<open>Deleting and collecting never take an image that a stored message shows.\<close>

lemma held_delete: "attachments_held s \<Longrightarrow> attachments_held (snd (delete_attachment i s))"
  using attachment_references_iff [of s i]
  by (auto simp: attachments_held_def delete_attachment_def referenced_attachments_def)

lemma held_cleanup: "attachments_held s \<Longrightarrow> attachments_held (cleanup_attachments t s)"
proof -
  assume held: "attachments_held s"
  let ?kept = "filter (keep_attachment t (referenced_attachments s)) (s_attachments s)"
  have e: "s_attachments (cleanup_attachments t s) = ?kept" "s_messages (cleanup_attachments t s) = s_messages s"
    by (simp_all add: cleanup_attachments_def Let_def)
  have "has_key ?kept i" if "i \<in> set (referenced_attachments s)" for i
    using held that by (intro has_key_filter) (auto simp: attachments_held_def keep_attachment_def)
  then show ?thesis using e by (simp add: attachments_held_def referenced_attachments_def)
qed


definition shown_store :: store where
  "shown_store =
     (let u = replicate 32 (CHR ''a'');
          e = \<lparr>ae_id = u, ae_name = ''x.png'', ae_mime = ''image/png'', ae_size = 10, ae_width = 1,
               ae_height = 1, ae_uploaded = At 0, ae_ext = ''png''\<rparr>;
          m = (sample_message 2 ''dev'' ''bob@web'' ''see'')\<lparr>m_attachments := [attachment_meta e]\<rparr>
      in sample_store\<lparr>s_attachments := [(u, e)], s_messages := [(''dev'', [m])]\<rparr>)"


end
