(* ===== verification/Reactions.thy ===== *)
theory Reactions
  imports Attachments
begin

section \<open>Reactions\<close>

text \<open>
  Emoji reactions to messages (\<open>internal/server/store_messages.go\<close>): adding, removing, the summaries
  a reader sees, and the check that a request names a single emoji
  (\<open>cleanReactionEmoji\<close> of \<open>internal/server/server.go\<close>).
\<close>

subsection \<open>A single emoji\<close>

definition code_point :: "string \<Rightarrow> nat" where
  "code_point r =
     (case r of
        [] \<Rightarrow> 0
      | [a] \<Rightarrow> byte a
      | [a, b] \<Rightarrow> (byte a - 192) * 64 + (byte b - 128)
      | [a, b, c] \<Rightarrow> (byte a - 224) * 4096 + (byte b - 128) * 64 + (byte c - 128)
      | a # b # c # d # _ \<Rightarrow>
          (byte a - 240) * 262144 + (byte b - 128) * 4096 + (byte c - 128) * 64 + (byte d - 128))"

definition is_emoji_modifier :: "nat \<Rightarrow> bool" where
  "is_emoji_modifier r = (r = 0xFE0F \<or> (0x1F3FB \<le> r \<and> r \<le> 0x1F3FF))"

definition is_regional_indicator :: "nat \<Rightarrow> bool" where
  "is_regional_indicator r = (0x1F1E6 \<le> r \<and> r \<le> 0x1F1FF)"

definition emoji_ranges :: "(nat \<times> nat) list" where
  "emoji_ranges =
     [(0x00A9, 0x00A9), (0x00AE, 0x00AE), (0x203C, 0x203C), (0x2049, 0x2049), (0x2122, 0x2122),
      (0x2139, 0x2139), (0x2194, 0x21AA), (0x231A, 0x231A), (0x231B, 0x231B), (0x2328, 0x2328),
      (0x23CF, 0x23CF), (0x23E9, 0x23F3), (0x23F8, 0x23FA), (0x24C2, 0x24C2), (0x25AA, 0x25AA),
      (0x25AB, 0x25AB), (0x25B6, 0x25B6), (0x25C0, 0x25C0), (0x25FB, 0x25FE), (0x2600, 0x27BF),
      (0x2934, 0x2934), (0x2935, 0x2935), (0x2B05, 0x2B55), (0x3030, 0x3030), (0x303D, 0x303D),
      (0x3297, 0x3297), (0x3299, 0x3299), (0x1F000, 0x1FAFF)]"

definition is_emoji_rune :: "nat \<Rightarrow> bool" where
  "is_emoji_rune r = list_ex (\<lambda>(lo, hi). lo \<le> r \<and> r \<le> hi) emoji_ranges"

text \<open>\<open>consumeEmojiComponent\<close>: what is left after an emoji and its modifiers.\<close>

definition emoji_component :: "nat list \<Rightarrow> nat list option" where
  "emoji_component rs =
     (case rs of
        [] \<Rightarrow> None
      | r # rest \<Rightarrow> if is_emoji_rune r then Some (dropWhile is_emoji_modifier rest) else None)"

lemma emoji_component_shorter: "emoji_component rs = Some rest \<Longrightarrow> length rest < length rs"
  by (cases rs) (auto simp: emoji_component_def le_imp_less_Suc length_dropWhile_le split: if_splits)

function joined_components :: "nat list \<Rightarrow> bool" where
  "joined_components rs =
     (case rs of
        [] \<Rightarrow> True
      | r # rest \<Rightarrow>
          r = 0x200D \<and> (case emoji_component rest of None \<Rightarrow> False | Some later \<Rightarrow> joined_components later))"
  by pat_completeness auto
termination
  by (relation "measure length") (auto dest: emoji_component_shorter)

declare joined_components.simps [simp del]

definition clean_reaction_emoji :: "string \<Rightarrow> string option" where
  "clean_reaction_emoji raw =
     (let e = trim_space raw; rs = map code_point (runes e) in
      if e = [] \<or> \<not> valid_utf8 e then None
      else if length rs = 2 \<and> list_all is_regional_indicator rs then Some e
      else case emoji_component rs of
             None \<Rightarrow> None
           | Some rest \<Rightarrow> if joined_components rest then Some e else None)"

subsection \<open>Summaries\<close>

definition emoji_summary :: "reaction list \<Rightarrow> string \<Rightarrow> string \<Rightarrow> reaction_summary" where
  "emoji_summary valid viewer e =
     (let mine = filter (\<lambda>r. re_emoji r = e) valid
      in \<lparr>rs_emoji = e, rs_count = int (length mine),
          rs_agents = sort (remdups (map re_agent mine)),
          rs_me = (viewer \<noteq> [] \<and> viewer \<in> set (map re_agent mine))\<rparr>)"

definition summarize_reactions :: "reaction list \<Rightarrow> string \<Rightarrow> reaction_summary list" where
  "summarize_reactions rows viewer =
     (let valid = filter (\<lambda>r. re_emoji r \<noteq> [] \<and> re_agent r \<noteq> []) rows
      in map (emoji_summary valid viewer) (sort (remdups (map re_emoji valid))))"

definition reaction_rows :: "store \<Rightarrow> int \<Rightarrow> reaction list" where
  "reaction_rows s mid = get_or [] (s_reactions s) mid"

definition attachment_hint :: "attachment \<Rightarrow> attachment" where
  "attachment_hint a =
     a\<lparr>at_hint := (if at_id a = [] then []
                   else ''use bus_attachment_get('' @ at_id a @ '') to view'')\<rparr>"

definition with_reaction_summaries :: "message list \<Rightarrow> string \<Rightarrow> store \<Rightarrow> message list" where
  "with_reaction_summaries ms viewer s =
     map (\<lambda>m. m\<lparr>m_reactions := summarize_reactions (reaction_rows s (m_id m)) viewer,
                m_attachments := map attachment_hint (m_attachments m)\<rparr>) ms"

subsection \<open>Adding and removing\<close>

definition persist_reaction :: "int \<Rightarrow> store \<Rightarrow> store" where
  "persist_reaction mid s =
     s\<lparr>s_db := (s_db s)\<lparr>db_reactions :=
        (if reaction_rows s mid = [] then del mid (db_reactions (s_db s))
         else put mid (reaction_rows s mid) (db_reactions (s_db s)))\<rparr>\<rparr>"

definition message_room :: "store \<Rightarrow> int \<Rightarrow> string option" where
  "message_room s mid =
     map_option fst (find (\<lambda>(rid, ms). list_ex (\<lambda>m. m_id m = mid) ms) (s_messages s))"

datatype reaction_error =
    ReactMessageMissing
  | ReactNotRegistered string
  | ReactNotMember string string
  | ReactAgentRequired
  | ReactEmojiInvalid

definition check_reaction :: "int \<Rightarrow> string \<Rightarrow> store \<Rightarrow> reaction_error + string" where
  "check_reaction mid aid s =
     (case message_room s mid of
        None \<Rightarrow> Inl ReactMessageMissing
      | Some rid \<Rightarrow>
          if \<not> has_key (s_agents s) aid then Inl (ReactNotRegistered aid)
          else if \<not> is_member s rid aid then Inl (ReactNotMember aid rid)
          else Inr rid)"

definition same_reaction :: "string \<Rightarrow> string \<Rightarrow> reaction \<Rightarrow> bool" where
  "same_reaction aid e r = (re_agent r = aid \<and> re_emoji r = e)"

definition add_reaction ::
    "int \<Rightarrow> int \<Rightarrow> string \<Rightarrow> string \<Rightarrow> store \<Rightarrow>
     (reaction_error + string \<times> reaction_summary list \<times> bool) \<times> store" where
  "add_reaction t mid aid e s =
     (case check_reaction mid aid s of
        Inl err \<Rightarrow> (Inl err, s)
      | Inr rid \<Rightarrow>
          let rows = reaction_rows s mid in
          if list_ex (same_reaction aid e) rows then (Inr (rid, summarize_reactions rows aid, False), s)
          else
            let rows1 = rows @ [\<lparr>re_agent = aid, re_emoji = e, re_created = stamp_of t\<rparr>];
                s1 = persist_reaction mid (s\<lparr>s_reactions := put mid rows1 (s_reactions s)\<rparr>)
            in (Inr (rid, summarize_reactions rows1 aid, True), touch_agent t aid s1))"

definition remove_reaction ::
    "int \<Rightarrow> int \<Rightarrow> string \<Rightarrow> string \<Rightarrow> store \<Rightarrow>
     (reaction_error + string \<times> reaction_summary list \<times> bool) \<times> store" where
  "remove_reaction t mid aid e s =
     (case check_reaction mid aid s of
        Inl err \<Rightarrow> (Inl err, s)
      | Inr rid \<Rightarrow>
          let rows = reaction_rows s mid;
              left = filter (\<lambda>r. \<not> same_reaction aid e r) rows;
              removed = list_ex (same_reaction aid e) rows;
              s1 = (if removed
                    then persist_reaction mid
                           (s\<lparr>s_reactions := (if left = [] then del mid (s_reactions s)
                                              else put mid left (s_reactions s))\<rparr>)
                    else s)
          in (Inr (rid, summarize_reactions left aid, removed), touch_agent t aid s1))"

definition broadcast_reaction_update ::
    "string \<Rightarrow> int \<Rightarrow> string \<Rightarrow> string \<Rightarrow> string \<Rightarrow> store \<Rightarrow> store" where
  "broadcast_reaction_update rid mid aid e op s =
     broadcast_meta (ReactionChanged rid mid aid e op (summarize_reactions (reaction_rows s mid) [])) s"

definition put_reaction ::
    "int \<Rightarrow> int \<Rightarrow> string \<Rightarrow> string \<Rightarrow> store \<Rightarrow> (reaction_error + reaction_summary list) \<times> store" where
  "put_reaction t mid aid raw s =
     (if mid \<le> 0 then (Inl ReactMessageMissing, s)
      else if aid = [] then (Inl ReactAgentRequired, s)
      else case clean_reaction_emoji raw of
             None \<Rightarrow> (Inl ReactEmojiInvalid, s)
           | Some e \<Rightarrow>
               (case add_reaction t mid aid e s of
                  (Inl err, s1) \<Rightarrow> (Inl err, s1)
                | (Inr (rid, summary, changed), s1) \<Rightarrow>
                    (Inr summary, if changed then broadcast_reaction_update rid mid aid e ''add'' s1 else s1)))"

definition delete_reaction ::
    "int \<Rightarrow> int \<Rightarrow> string \<Rightarrow> string \<Rightarrow> store \<Rightarrow> (reaction_error + reaction_summary list) \<times> store" where
  "delete_reaction t mid aid raw s =
     (if mid \<le> 0 then (Inl ReactMessageMissing, s)
      else if aid = [] then (Inl ReactAgentRequired, s)
      else case clean_reaction_emoji raw of
             None \<Rightarrow> (Inl ReactEmojiInvalid, s)
           | Some e \<Rightarrow>
               (case remove_reaction t mid aid e s of
                  (Inl err, s1) \<Rightarrow> (Inl err, s1)
                | (Inr (rid, summary, changed), s1) \<Rightarrow>
                    (Inr summary, if changed then broadcast_reaction_update rid mid aid e ''remove'' s1 else s1)))"

subsection \<open>The invariant\<close>

lemma persist_reaction_frame [frame, simp]:
  "s_rooms (persist_reaction i s) = s_rooms s" "s_agents (persist_reaction i s) = s_agents s"
  "s_messages (persist_reaction i s) = s_messages s" "s_next_id (persist_reaction i s) = s_next_id s"
  "s_reactions (persist_reaction i s) = s_reactions s" "s_prefs (persist_reaction i s) = s_prefs s"
  by (simp_all add: persist_reaction_def)

lemma message_room_logged:
  assumes "message_room s mid = Some rid" shows "mid \<in> m_id ` set (all_logged (s_messages s))"
proof -
  obtain p where "find (\<lambda>(rid, ms). list_ex (\<lambda>m. m_id m = mid) ms) (s_messages s) = Some p"
    using assms by (auto simp: message_room_def)
  then obtain m where "p \<in> set (s_messages s)" "m \<in> set (snd p)" "m_id m = mid"
    by (auto simp: find_Some_iff list_ex_iff case_prod_unfold)
  then show ?thesis by (auto simp: set_all_logged)
qed

lemma reactions_ok_put:
  "reactions_ok rs msgs \<Longrightarrow> k \<in> m_id ` set (all_logged msgs) \<Longrightarrow> rows \<noteq> [] \<Longrightarrow>
   distinct (map (\<lambda>x. (re_agent x, re_emoji x)) rows) \<Longrightarrow> reactions_ok (put k rows rs) msgs"
  by (auto simp: reactions_ok_def dest!: in_set_putD simp del: set_map)

lemma reactions_ok_del: "reactions_ok rs msgs \<Longrightarrow> reactions_ok (del k rs) msgs"
  by (auto simp: reactions_ok_def simp del: set_map)

lemma reaction_rows_distinct:
  "store_ok s \<Longrightarrow> distinct (map (\<lambda>x. (re_agent x, re_emoji x)) (reaction_rows s mid))"
  by (cases "map_of (s_reactions s) mid")
    (auto simp: reaction_rows_def store_ok_def reactions_ok_def get_or_def dest!: map_of_in_set)

lemma check_reaction_logged:
  "check_reaction mid aid s = Inr rid \<Longrightarrow>
   mid \<in> m_id ` set (all_logged (s_messages s)) \<and> is_member s rid aid \<and> has_key (s_agents s) aid"
  by (auto simp: check_reaction_def dest: message_room_logged split: option.splits if_splits)

lemma store_ok_reactions:
  "store_ok s \<Longrightarrow> reactions_ok rs (s_messages s) \<Longrightarrow> store_ok (persist_reaction i (s\<lparr>s_reactions := rs\<rparr>))"
  by (simp add: store_ok_def)

lemma add_reaction_ok [inv]: "store_ok s \<Longrightarrow> store_ok (snd (add_reaction t mid aid e s))"
proof (cases "check_reaction mid aid s")
  case (Inr rid)
  assume ok: "store_ok s"
  show ?thesis
  proof (cases "list_ex (same_reaction aid e) (reaction_rows s mid)")
    case False
    have "distinct (map (\<lambda>x. (re_agent x, re_emoji x))
        (reaction_rows s mid @ [\<lparr>re_agent = aid, re_emoji = e, re_created = stamp_of t\<rparr>]))"
      using False reaction_rows_distinct [OF ok, of mid] by (auto simp: list_ex_iff same_reaction_def)
    then have "reactions_ok (put mid (reaction_rows s mid @ [\<lparr>re_agent = aid, re_emoji = e, re_created = stamp_of t\<rparr>])
        (s_reactions s)) (s_messages s)"
      using ok check_reaction_logged [OF Inr] by (intro reactions_ok_put) (auto simp: store_ok_def)
    then show ?thesis
      using False Inr ok by (simp add: add_reaction_def Let_def touch_agent_ok store_ok_reactions)
  qed (use ok Inr in \<open>simp add: add_reaction_def\<close>)
qed (simp add: add_reaction_def)

lemma remove_reaction_ok [inv]: "store_ok s \<Longrightarrow> store_ok (snd (remove_reaction t mid aid e s))"
proof (cases "check_reaction mid aid s")
  case (Inr rid)
  assume ok: "store_ok s"
  let ?left = "filter (\<lambda>r. \<not> same_reaction aid e r) (reaction_rows s mid)"
  have "reactions_ok (if ?left = [] then del mid (s_reactions s) else put mid ?left (s_reactions s)) (s_messages s)"
    using ok check_reaction_logged [OF Inr] reaction_rows_distinct [OF ok, of mid]
    by (auto simp: store_ok_def distinct_map_filter intro: reactions_ok_del reactions_ok_put)
  then show ?thesis
    using Inr ok by (simp add: remove_reaction_def Let_def touch_agent_ok store_ok_reactions)
qed (simp add: remove_reaction_def)

lemma broadcast_reaction_ok [inv, simp]: "store_ok (broadcast_reaction_update r i a e op s) = store_ok s"
  by (simp add: broadcast_reaction_update_def)

lemma put_reaction_ok [inv]: "store_ok s \<Longrightarrow> store_ok (snd (put_reaction t mid aid raw s))"
  using add_reaction_ok [of s t mid aid]
  by (auto simp: put_reaction_def split: option.split prod.split sum.split) (metis snd_conv)+

lemma delete_reaction_ok [inv]: "store_ok s \<Longrightarrow> store_ok (snd (delete_reaction t mid aid raw s))"
  using remove_reaction_ok [of s t mid aid]
  by (auto simp: delete_reaction_def split: option.split prod.split sum.split) (metis snd_conv)+

subsection \<open>What a reader sees\<close>



text \<open>Reactions toggle: a reaction that was added can be removed again, which leaves the reactions
  to every message as they were before; adding one that is already there changes nothing at all.\<close>

lemma reaction_toggles:
  assumes "add_reaction t mid aid e s = (Inr (rid, sm, changed), s1)"
    and "remove_reaction t' mid aid e s1 = (res, s2)"
  shows "(\<not> changed \<longrightarrow> s1 = s) \<and>
         (changed \<longrightarrow> (\<exists>sm'. res = Inr (rid, sm', True)) \<and> (\<forall>i. reaction_rows s2 i = reaction_rows s i)) \<and>
         (\<forall>i. i \<noteq> mid \<longrightarrow> reaction_rows s1 i = reaction_rows s i)"
proof -
  have rows_touch: "reaction_rows (touch_agent u a x) i = reaction_rows x i" for u a x i
    by (simp add: reaction_rows_def touch_agent_def Let_def broadcasts split: option.split)
  have c: "check_reaction mid aid s = Inr rid"
    using assms(1) by (auto simp: add_reaction_def Let_def split: sum.splits if_splits)
  show ?thesis
  proof (cases "list_ex (same_reaction aid e) (reaction_rows s mid)")
    case True
    then show ?thesis using assms(1) c by (simp add: add_reaction_def)
  next
    case False
    let ?rows = "reaction_rows s mid @ [\<lparr>re_agent = aid, re_emoji = e, re_created = stamp_of t\<rparr>]"
    have s1: "s1 = touch_agent t aid (persist_reaction mid (s\<lparr>s_reactions := put mid ?rows (s_reactions s)\<rparr>))" "changed"
      using assms(1) c False by (simp_all add: add_reaction_def Let_def)
    have rows: "reaction_rows s1 i = (if i = mid then ?rows else reaction_rows s i)" for i
      by (simp add: s1 rows_touch) (simp add: reaction_rows_def)
    have c1: "check_reaction mid aid s1 = Inr rid"
    proof -
      have "message_room s1 mid = message_room s mid" "s_rooms s1 = s_rooms s"
        by (simp_all add: s1 message_room_def touch_agent_def Let_def broadcasts split: option.split)
      moreover have "has_key (s_agents s1) a = has_key (s_agents s) a" for a
        by (auto simp: s1 touch_agent_def Let_def broadcasts has_key_def split: option.split)
      ultimately have "check_reaction mid aid s1 = check_reaction mid aid s"
        by (simp add: check_reaction_def is_member_def split: option.split)
      then show ?thesis using c by simp
    qed
    have left: "filter (\<lambda>r. \<not> same_reaction aid e r) ?rows = reaction_rows s mid"
      using False by (auto simp: list_ex_iff same_reaction_def filter_id_conv)
    have res: "res = Inr (rid, summarize_reactions (reaction_rows s mid) aid, True)"
      and s2: "s2 = touch_agent t' aid (persist_reaction mid
        (s1\<lparr>s_reactions := (if reaction_rows s mid = [] then del mid (s_reactions s1)
                            else put mid (reaction_rows s mid) (s_reactions s1))\<rparr>))"
      using assms(2) c1 left by (auto simp: remove_reaction_def Let_def rows same_reaction_def)
    have "reaction_rows s2 i = reaction_rows s i" for i
      using rows [of i] by (auto simp: s2 rows_touch) (auto simp: reaction_rows_def)
    then show ?thesis using s1(2) res rows by simp
  qed
qed

lemma reaction_toggles_witness:
  "reaction_rows (snd (remove_reaction 1 4 ''ann'' ''y'' (snd (add_reaction 0 4 ''ann'' ''y'' sample_store)))) 4 = []"
proof -
  obtain res s1 where a: "add_reaction 0 4 ''ann'' ''y'' sample_store = (res, s1)" by fastforce
  obtain res2 s2 where r: "remove_reaction 1 4 ''ann'' ''y'' s1 = (res2, s2)" by fastforce
  have "\<exists>sm. fst (add_reaction 0 4 ''ann'' ''y'' sample_store) = Inr (''dev'', sm, True)"
    by (rule exI) code_simp
  then obtain sm where "res = Inr (''dev'', sm, True)" using a by auto
  from reaction_toggles [OF a [unfolded this] r]
  have "reaction_rows s2 4 = reaction_rows sample_store 4" by simp
  also have "\<dots> = []" by code_simp
  finally show ?thesis using a r by simp
qed

end
