(* ===== verification/Messages.thy ===== *)
theory Messages
  imports Reactions
begin

section \<open>Messages\<close>

text \<open>
  Sending and reading (\<open>internal/server/store_messages.go\<close>) with the handlers that use them
  (\<open>internal/server/server.go\<close>): who is addressed, the append to the log of the room and to the
  \<open>messages\<close> table, the notification of the subscribers, the bulk reads with their read-time
  expiry, the read cursors and the mark-read request.

  The plan-block ids a request leaves out and the JSON check of a block are parameters, as in
  \<open>MessageParts\<close>.
\<close>

subsection \<open>Sending\<close>

record outgoing =
  og_from :: string
  og_body :: string
  og_attention :: bool
  og_answers :: "string list"
  og_questions :: "open_question list"
  og_plan :: "plan_block list"
  og_pages :: "appendix_page list"
  og_attachments :: "attachment list"
  og_reply :: int

datatype send_error =
    SenderNotMember string string
  | ReplyNegative
  | ReplyNotFound int string
  | SendAttachment attachment_error
  | SendPart part_error
  | NothingToSend
  | SendFieldsRequired
  | SendReserved
  | SendDm room_error

definition message_in_room :: "store \<Rightarrow> string \<Rightarrow> int \<Rightarrow> message option" where
  "message_in_room s rid i = find (\<lambda>m. m_id m = i) (room_log s rid)"

definition probe :: "string \<Rightarrow> string \<Rightarrow> string \<Rightarrow> message" where
  "probe rid from body = blank_message\<lparr>m_room := rid, m_from := from, m_body := body\<rparr>"

text \<open>
  The addressees. \<open>None\<close> is a nil slice: no token in the body; \<open>Some []\<close> says that tokens were
  there and none resolved.
\<close>

definition send_targets ::
    "int \<Rightarrow> store \<Rightarrow> string \<Rightarrow> string \<Rightarrow> string \<Rightarrow> message option \<Rightarrow> string list option" where
  "send_targets t s rid from body parent =
     (let raw = parse_addressed_to body;
          resolved = resolve_addressed_tokens raw (addressing_context_for t s (probe rid from body));
          base = (if raw = [] then None else Some resolved)
      in case parent of
           None \<Rightarrow> base
         | Some p \<Rightarrow>
             if \<not> equal_fold (m_from p) from \<and> m_from_kind p \<noteq> ''system'' \<and> m_from p \<noteq> ''_system''
             then (case base of
                     None \<Rightarrow> (if m_from p = [] then None else Some [m_from p])
                   | Some ts \<Rightarrow> Some (append_target_dedup ts (m_from p)))
             else base)"

definition join_human :: "int \<Rightarrow> string \<Rightarrow> agent \<Rightarrow> store \<Rightarrow> store" where
  "join_human t rid a s =
     (if a_kind a = ''human'' \<and> \<not> is_member s rid (a_id a)
      then snd (join_room t rid (a_id a) s) else s)"

definition join_humans :: "int \<Rightarrow> string \<Rightarrow> store \<Rightarrow> store" where
  "join_humans t rid s = fold (join_human t rid) (list_agents s) s"

definition summon_humans :: "int \<Rightarrow> string \<Rightarrow> string list option \<Rightarrow> store \<Rightarrow> store" where
  "summon_humans t rid targets s =
     (let s1 = join_humans t rid s in
      case targets of
        None \<Rightarrow> s1
      | Some ts \<Rightarrow>
          if ts = [] then s1
          else let (changed, s2) = unhide_for_addressed rid ts s1
               in if changed then persist_prefs s2 else s2)"

definition compose ::
    "int \<Rightarrow> int \<Rightarrow> string \<Rightarrow> outgoing \<Rightarrow> string list option \<Rightarrow> plan_block list \<Rightarrow>
     appendix_page list \<Rightarrow> attachment list \<Rightarrow> agent option \<Rightarrow> message" where
  "compose t i rid o1 targets plan pages atts sender =
     \<lparr>m_id = i, m_room = rid, m_from = og_from o1,
      m_from_kind = (case sender of None \<Rightarrow> [] | Some a \<Rightarrow> a_kind a),
      m_from_harness = (case sender of None \<Rightarrow> [] | Some a \<Rightarrow> a_harness a),
      m_from_model = (case sender of None \<Rightarrow> [] | Some a \<Rightarrow> a_model a),
      m_body = og_body o1, m_created = stamp_of t, m_reply_to = og_reply o1, m_targets = targets,
      m_attention = og_attention o1, m_answers = clean_proposed_answers (og_answers o1),
      m_questions = clean_open_questions (og_questions o1), m_plan = plan, m_appendix = pages,
      m_attachments = atts, m_reactions = []\<rparr>"

text \<open>The checks, in their order: a reply's parent and the normalised parts, or the refusal.\<close>

definition check_send ::
    "(string \<Rightarrow> bool) \<Rightarrow> (nat \<Rightarrow> string) \<Rightarrow> string \<Rightarrow> outgoing \<Rightarrow> store \<Rightarrow>
     send_error + message option \<times> attachment list \<times> plan_block list \<times> appendix_page list" where
  "check_send json_ok gen rid o1 s =
     (let parent = (if og_reply o1 = 0 then None else message_in_room s rid (og_reply o1)) in
      if \<not> is_member s rid (og_from o1) then Inl (SenderNotMember (og_from o1) rid)
      else if og_reply o1 < 0 then Inl ReplyNegative
      else if og_reply o1 \<noteq> 0 \<and> parent = None then Inl (ReplyNotFound (og_reply o1) rid)
      else
        case resolve_attachments s (og_attachments o1) of
          Inl e \<Rightarrow> Inl (SendAttachment e)
        | Inr atts \<Rightarrow>
            (case normalize_plan_blocks json_ok gen (og_plan o1) of
               Inl e \<Rightarrow> Inl (SendPart e)
             | Inr plan \<Rightarrow>
                 (case normalize_appendix_pages (og_pages o1) of
                    Inl e \<Rightarrow> Inl (SendPart e)
                  | Inr pages \<Rightarrow>
                      if og_body o1 = [] \<and> atts = [] \<and> plan = [] \<and> pages = [] then Inl NothingToSend
                      else Inr (parent, atts, plan, pages))))"

definition room_send ::
    "(string \<Rightarrow> bool) \<Rightarrow> (nat \<Rightarrow> string) \<Rightarrow> int \<Rightarrow> string \<Rightarrow> outgoing \<Rightarrow> store \<Rightarrow>
     (send_error + int) \<times> store" where
  "room_send json_ok gen t rid o1 s =
     (case check_send json_ok gen rid o1 s of
        Inl e \<Rightarrow> (Inl e, s)
      | Inr (parent, atts, plan, pages) \<Rightarrow>
          let targets = send_targets t s rid (og_from o1) (og_body o1) parent;
              s1 = (if og_attention o1 then summon_humans t rid targets s else s);
              i = s_next_id s1 + 1;
              m = compose t i rid o1 targets plan pages atts (map_of (s_agents s1) (og_from o1))
          in (Inr i,
              publish_message rid m
                (touch_agent t (og_from o1) (append_message rid m (s1\<lparr>s_next_id := i\<rparr>)))))"

definition addressed_to_for_echo :: "string \<Rightarrow> int \<Rightarrow> store \<Rightarrow> string list" where
  "addressed_to_for_echo rid i s =
     (case message_in_room s rid i of
        None \<Rightarrow> [] | Some m \<Rightarrow> (case m_targets m of None \<Rightarrow> [] | Some ts \<Rightarrow> ts))"

subsection \<open>Advice to the sender\<close>

text \<open>Each warning is given once per sender: the second component of the result is the store that
  remembers it. \<open>None\<close> is the empty warning.\<close>

datatype send_warning =
    LegacyPrefix string
  | InlinePrefix string string
  | AmbiguousMention string string
  | AttentionMiss string string

definition legacy_prefix_warn :: "string \<Rightarrow> string \<Rightarrow> store \<Rightarrow> send_warning option \<times> store" where
  "legacy_prefix_warn from body s =
     (let names = known_agent_names s;
          found = (case parse_legacy_prefix body names of
                     Some n \<Rightarrow> Some (LegacyPrefix n)
                   | None \<Rightarrow> (case parse_inline_legacy_prefix body names of
                                Some ns \<Rightarrow> Some (InlinePrefix (hd ns) (last ns)) | None \<Rightarrow> None))
      in case found of
           None \<Rightarrow> (None, s)
         | Some w \<Rightarrow>
             if from \<in> set (s_warned_legacy s) then (None, s)
             else (Some w, s\<lparr>s_warned_legacy := from # s_warned_legacy s\<rparr>))"

definition ambiguous_mention_warn ::
    "int \<Rightarrow> string \<Rightarrow> string \<Rightarrow> string \<Rightarrow> store \<Rightarrow> send_warning option \<times> store" where
  "ambiguous_mention_warn t rid from body s =
     (case ambiguous_mention_tokens (parse_addressed_to body)
             (addressing_context_for t s (probe rid from body)) of
        [] \<Rightarrow> (None, s)
      | a # _ \<Rightarrow>
          if from \<in> set (s_warned_ambiguous s) then (None, s)
          else (Some (AmbiguousMention a rid), s\<lparr>s_warned_ambiguous := from # s_warned_ambiguous s\<rparr>))"

definition attention_miss_warn ::
    "int \<Rightarrow> string \<Rightarrow> string \<Rightarrow> string \<Rightarrow> bool \<Rightarrow> string list \<Rightarrow> store \<Rightarrow>
     send_warning option \<times> store" where
  "attention_miss_warn t rid from body attention extra s =
     (let known = known_agent_names s;
          addressed = resolve_addressed_to body (addressing_context_for t s (probe rid from body)) @
            (case parse_legacy_prefix body known of None \<Rightarrow> [] | Some n \<Rightarrow> [n]) @
            (case parse_inline_legacy_prefix body known of None \<Rightarrow> [] | Some ns \<Rightarrow> ns) @ extra;
          deduped = fold (\<lambda>n. add_once (to_lower n)) addressed []
      in if attention then (None, s)
         else case find (\<lambda>n. n \<in> set (known_human_names s)) deduped of
                None \<Rightarrow> (None, s)
              | Some human \<Rightarrow>
                  (case parse_attention_miss body of
                     None \<Rightarrow> (None, s)
                   | Some phrase \<Rightarrow>
                       if human = [] \<or> from \<in> set (s_warned_attention s) then (None, s)
                       else (Some (AttentionMiss human phrase),
                             s\<lparr>s_warned_attention := from # s_warned_attention s\<rparr>)))"

definition send_warnings ::
    "int \<Rightarrow> string \<Rightarrow> outgoing \<Rightarrow> string list \<Rightarrow> store \<Rightarrow> send_warning list \<times> store" where
  "send_warnings t rid o1 extra s =
     (let (w1, s1) = legacy_prefix_warn (og_from o1) (og_body o1) s;
          (w2, s2) = ambiguous_mention_warn t rid (og_from o1) (og_body o1) s1;
          (w3, s3) = attention_miss_warn t rid (og_from o1) (og_body o1) (og_attention o1) extra s2
      in (List.map_filter (\<lambda>w. w) [w1, w2, w3], s3))"

record send_reply =
  sr_id :: int
  sr_room :: string
  sr_addressed :: "string list"
  sr_warnings :: "send_warning list"

definition reply_to_send ::
    "int \<Rightarrow> string \<Rightarrow> outgoing \<Rightarrow> string list \<Rightarrow> (send_error + int) \<times> store \<Rightarrow>
     (send_error + send_reply) \<times> store" where
  "reply_to_send t rid o1 extra r =
     (case r of
        (Inl e, s) \<Rightarrow> (Inl e, s)
      | (Inr i, s) \<Rightarrow>
          let (ws, s1) = send_warnings t rid o1 extra s
          in (Inr \<lparr>sr_id = i, sr_room = rid, sr_addressed = addressed_to_for_echo rid i s,
                   sr_warnings = ws\<rparr>, s1))"

definition post_send ::
    "(string \<Rightarrow> bool) \<Rightarrow> (nat \<Rightarrow> string) \<Rightarrow> int \<Rightarrow> string \<Rightarrow> outgoing \<Rightarrow> store \<Rightarrow>
     (send_error + send_reply) \<times> store" where
  "post_send json_ok gen t rid o1 s =
     (if og_from o1 = [] \<or>
         og_body o1 = [] \<and> og_attachments o1 = [] \<and> og_plan o1 = [] \<and> og_pages o1 = []
      then (Inl SendFieldsRequired, s)
      else if og_from o1 = ''_system'' \<or> has_prefix rid ''_'' then (Inl SendReserved, s)
      else reply_to_send t rid o1 [] (room_send json_ok gen t rid o1 s))"

text \<open>The result is the room alone when the request has nothing to send.\<close>

definition post_dm ::
    "(string \<Rightarrow> bool) \<Rightarrow> (nat \<Rightarrow> string) \<Rightarrow> int \<Rightarrow> string \<Rightarrow> outgoing \<Rightarrow> store \<Rightarrow>
     (send_error + string \<times> send_reply option) \<times> store" where
  "post_dm json_ok gen t to o1 s =
     (if og_from o1 = [] \<or> to = [] then (Inl SendFieldsRequired, s)
      else case find_or_create_dm t (og_from o1) to s of
             (Inl e, s1) \<Rightarrow> (Inl (SendDm e), s1)
           | (Inr r, s1) \<Rightarrow>
               if og_body o1 = [] \<and> og_attachments o1 = [] \<and> og_plan o1 = [] \<and> og_pages o1 = []
               then (Inr (r_id r, None), s1)
               else (case reply_to_send t (r_id r) o1 [agent_short_name to]
                            (room_send json_ok gen t (r_id r) o1 s1) of
                       (Inl e, s2) \<Rightarrow> (Inl e, s2)
                     | (Inr rep, s2) \<Rightarrow> (Inr (r_id r, Some rep), s2)))"

subsection \<open>Bulk reads\<close>

definition last_n :: "nat \<Rightarrow> 'a list \<Rightarrow> 'a list" where
  "last_n limit xs = (if 0 < limit \<and> limit < length xs then drop (length xs - limit) xs else xs)"

definition room_messages :: "string \<Rightarrow> nat \<Rightarrow> int \<Rightarrow> store \<Rightarrow> message list" where
  "room_messages rid limit since s = rev (last_n limit (filter (\<lambda>m. since < m_id m) (room_log s rid)))"

record expired_marker =
  em_count :: nat
  em_oldest :: int
  em_newest :: int
  em_before :: stamp

definition in_page :: "int \<Rightarrow> int \<Rightarrow> message \<Rightarrow> bool" where
  "in_page since before m = (if 0 < before then m_id m < before else since < m_id m)"

definition expired_at :: "int \<Rightarrow> int \<Rightarrow> message \<Rightarrow> bool" where
  "expired_at t window m =
     (0 < window \<and>
      (case parse_stamp (m_created m) of None \<Rightarrow> False | Some c \<Rightarrow> c \<le> t - window))"

definition room_messages_with_expiry ::
    "int \<Rightarrow> string \<Rightarrow> nat \<Rightarrow> int \<Rightarrow> int \<Rightarrow> int \<Rightarrow> store \<Rightarrow> message list \<times> expired_marker option" where
  "room_messages_with_expiry t rid limit since before window s =
     (let page = filter (in_page since before) (room_log s rid);
          hidden = filter (expired_at t window) page;
          live = filter (\<lambda>m. \<not> expired_at t window m) page
      in (rev (last_n limit live),
          if 0 < window \<and> hidden \<noteq> []
          then Some \<lparr>em_count = length hidden,
                     em_oldest = fold (\<lambda>m o1. if o1 = 0 \<or> m_id m < o1 then m_id m else o1) hidden 0,
                     em_newest = fold (\<lambda>m n. if n < m_id m then m_id m else n) hidden 0,
                     em_before = stamp_of (t - window)\<rparr>
          else None))"

definition messages_since :: "string \<Rightarrow> int \<Rightarrow> store \<Rightarrow> message list" where
  "messages_since rid since s = filter (\<lambda>m. since < m_id m) (room_log s rid)"

definition message_by_id :: "int \<Rightarrow> store \<Rightarrow> message option" where
  "message_by_id i s = find (\<lambda>m. m_id m = i) (all_logged (s_messages s))"

definition all_messages :: "nat \<Rightarrow> store \<Rightarrow> message list" where
  "all_messages limit s = take limit (rev (sort_key m_id (all_logged (s_messages s))))"

definition rooms_of :: "string \<Rightarrow> store \<Rightarrow> room list" where
  "rooms_of aid s = filter (\<lambda>r. aid \<in> set (r_members r)) (list_rooms s)"

definition agent_messages_since :: "string \<Rightarrow> int \<Rightarrow> store \<Rightarrow> message list" where
  "agent_messages_since aid since s =
     sort_key m_id (concat (map (\<lambda>r. messages_since (r_id r) since s) (rooms_of aid s)))"

datatype read_error = ReadRoomMissing | ReadBothBounds

record read_reply =
  rd_messages :: "message list + annotated list"
  rd_expired :: "expired_marker option"
  rd_server_time :: "stamp option"

definition get_room_messages ::
    "int \<Rightarrow> string \<Rightarrow> string \<Rightarrow> nat \<Rightarrow> int \<Rightarrow> int \<Rightarrow> store \<Rightarrow> (read_error + read_reply) \<times> store" where
  "get_room_messages t rid aid limit since before s0 =
     (let s = (if aid \<noteq> [] then touch_agent t aid s0 else s0) in
      if get_room s rid = None then (Inl ReadRoomMissing, s)
      else if 0 < since \<and> 0 < before then (Inl ReadBothBounds, s)
      else
        let window = (if aid \<noteq> [] \<and> agent_is_ai s aid then expired_after_window s else 0);
            (ms, marker) = room_messages_with_expiry t rid limit since before window s;
            shown = with_reaction_summaries ms aid s
        in (Inr \<lparr>rd_messages = (if aid \<noteq> [] then Inr (annotate shown aid (addressing_context_for t s))
                                else Inl shown),
                 rd_expired = marker,
                 rd_server_time = (if 0 < expired_after_window s then Some (stamp_of t) else None)\<rparr>, s))"

definition get_message ::
    "int \<Rightarrow> int \<Rightarrow> string \<Rightarrow> store \<Rightarrow> annotated option" where
  "get_message t i aid s =
     (if i \<le> 0 then None
      else case message_by_id i s of
             None \<Rightarrow> None
           | Some m \<Rightarrow>
               if aid \<noteq> [] \<and> \<not> has_agent s aid then None
               else Some (hd (annotate (with_reaction_summaries [m] aid s) aid (addressing_context_for t s))))"

subsection \<open>Read cursors\<close>

definition fresh_cursor :: "string \<Rightarrow> store \<Rightarrow> int" where
  "fresh_cursor rid s = max (room_head s rid - 5) 0"

definition set_cursor :: "string \<Rightarrow> int \<Rightarrow> agent \<Rightarrow> agent" where
  "set_cursor rid c a = a\<lparr>a_cursors := put rid c (a_cursors a)\<rparr>"

definition ensure_room_cursor :: "string \<Rightarrow> string \<Rightarrow> store \<Rightarrow> int \<times> store" where
  "ensure_room_cursor aid rid s =
     (case map_of (s_agents s) aid of
        None \<Rightarrow> (0, s)
      | Some a \<Rightarrow>
          (case map_of (a_cursors a) rid of
             Some c \<Rightarrow> (c, s)
           | None \<Rightarrow>
               let c = fresh_cursor rid s
               in (c, persist (s\<lparr>s_agents := put aid (set_cursor rid c a) (s_agents s)\<rparr>))))"

definition advance_cursor :: "string \<Rightarrow> string \<Rightarrow> int \<Rightarrow> store \<Rightarrow> bool \<times> store" where
  "advance_cursor aid rid to s =
     (case map_of (s_agents s) aid of
        None \<Rightarrow> (False, s)
      | Some a \<Rightarrow>
          if to \<le> get_or 0 (a_cursors a) rid then (False, s)
          else (True, persist (s\<lparr>s_agents := put aid (set_cursor rid to a) (s_agents s)\<rparr>)))"

text \<open>The cursor moves and, when it did, the meta subscribers hear of it.\<close>

definition advance_and_tell :: "int \<Rightarrow> string \<Rightarrow> string \<Rightarrow> int \<Rightarrow> store \<Rightarrow> store" where
  "advance_and_tell t aid rid to s =
     (let (moved, s1) = advance_cursor aid rid to s
      in if moved then broadcast_read_update t aid rid to s1 else s1)"

definition mark_read :: "int \<Rightarrow> string \<Rightarrow> string \<Rightarrow> int \<Rightarrow> store \<Rightarrow> int option \<times> store" where
  "mark_read t aid rid i s =
     (if rid = [] then (None, s)
      else let target = (if i = 0 then room_head s rid else i)
           in (Some target, advance_and_tell t aid rid target s))"

text \<open>
  \<open>agentUnreadSinceCursor\<close>: the rooms without a cursor get one, then everything beyond the cursors
  is returned in the order of the ids.
\<close>

definition init_cursors :: "store \<Rightarrow> room list \<Rightarrow> agent \<Rightarrow> agent" where
  "init_cursors s rs a =
     fold (\<lambda>r a. if has_key (a_cursors a) (r_id r) then a
                 else set_cursor (r_id r) (fresh_cursor (r_id r) s) a) rs a"

definition agent_unread_since_cursor ::
    "string \<Rightarrow> store \<Rightarrow> (message list \<times> (string, int) table) \<times> store" where
  "agent_unread_since_cursor aid s =
     (case map_of (s_agents s) aid of
        None \<Rightarrow> (([], []), s)
      | Some a \<Rightarrow>
          let rs = rooms_of aid s; a1 = init_cursors s rs a;
              cur = (\<lambda>r. get_or 0 (a_cursors a1) (r_id r));
              out = concat (map (\<lambda>r. messages_since (r_id r) (cur r) s) rs)
          in ((sort_key m_id out, map (\<lambda>r. (r_id r, cur r)) rs),
              if list_ex (\<lambda>r. \<not> has_key (a_cursors a) (r_id r)) rs
              then persist (s\<lparr>s_agents := put aid a1 (s_agents s)\<rparr>) else s))"

subsection \<open>Joining before a handoff\<close>

text \<open>
  What summoning the humans may change: the log of the room and the \<open>messages\<close> table grow by
  system messages, nobody leaves, nothing else moves.
\<close>

definition extends_log :: "string \<Rightarrow> store \<Rightarrow> message list \<Rightarrow> store \<Rightarrow> bool" where
  "extends_log rid s pre s' =
     (s_agents s' = s_agents s \<and> (\<forall>r. has_key (s_rooms s') r = has_key (s_rooms s) r) \<and>
      (\<forall>a. is_member s rid a \<longrightarrow> is_member s' rid a) \<and>
      room_log s' rid = room_log s rid @ pre \<and> (\<forall>r. r \<noteq> rid \<longrightarrow> room_log s' r = room_log s r) \<and>
      db_messages (s_db s') = db_messages (s_db s) @ pre \<and>
      s_next_id s' = s_next_id s + int (length pre) \<and> (\<forall>m \<in> set pre. m_from_kind m = ''system''))"

lemma extends_log_refl: "extends_log rid s [] s"
  by (simp add: extends_log_def)

lemma extends_log_trans:
  "extends_log rid s pre s1 \<Longrightarrow> extends_log rid s1 pre' s2 \<Longrightarrow> extends_log rid s (pre @ pre') s2"
  by (auto simp: extends_log_def)

lemma db_messages_frame [simp]:
  "db_messages (s_db (broadcast_meta e s)) = db_messages (s_db s)"
  "db_messages (s_db (persist_prefs s)) = db_messages (s_db s)"
  "db_messages (s_db (unhide_room rid s)) = db_messages (s_db s)"
  "db_messages (s_db (append_message rid m s)) = db_messages (s_db s) @ [m]"
  by (simp_all add: persist_prefs_def unhide_room_def clear_hidden_for_room_def append_message_def
      insert_message_row_def)

lemma emit_db_messages:
  "has_key (s_rooms s) rid \<Longrightarrow>
   db_messages (s_db (emit_system_full t rid b ts att s)) =
     db_messages (s_db s) @ [system_message t (s_next_id s + 1) rid b ts att]"
  by (simp add: emit_system_full_def Let_def)

lemma join_extends:
  assumes "has_key (s_rooms s) rid" "\<not> reserved_room rid"
  shows "\<exists>pre. extends_log rid s pre (snd (join_room t rid aid s))"
proof (cases "has_key (s_agents s) aid")
  case False
  then show ?thesis using assms extends_log_refl by (auto simp: join_room_def)
next
  case True
  obtain r where r: "map_of (s_rooms s) rid = Some r" using assms(1) by (auto simp: has_key_def)
  show ?thesis
  proof (cases "aid \<in> set (r_members r)")
    case in_room: True
    then have "snd (join_room t rid aid s) = s" using True assms r by (simp add: join_room_def Let_def)
    then show ?thesis using extends_log_refl by metis
  next
    case False
    let ?s1 = "broadcast_room_update (persist (unhide_room rid
        (s\<lparr>s_rooms := put rid (r\<lparr>r_members := r_members r @ [aid]\<rparr>) (s_rooms s)\<rparr>)))"
    let ?m = "system_message t (s_next_id s + 1) rid (aid @ '' joined'') None False"
    have e: "snd (join_room t rid aid s) = emit_system t rid (aid @ '' joined'') ?s1"
      using True False assms r by (simp add: join_room_def Let_def)
    have "extends_log rid s [?m] (emit_system t rid (aid @ '' joined'') ?s1)"
      using assms(1) r
      by (auto simp: extends_log_def emits emit_messages emit_db_messages broadcasts room_log_def
          is_member_def system_message_def)
    then show ?thesis using e by metis
  qed
qed

lemma is_member_room: "is_member s rid a \<Longrightarrow> has_key (s_rooms s) rid"
  by (auto simp: is_member_def has_key_def split: option.splits)

lemma join_joins:
  "has_key (s_rooms s) rid \<Longrightarrow> \<not> reserved_room rid \<Longrightarrow> has_key (s_agents s) aid \<Longrightarrow>
   is_member (snd (join_room t rid aid s)) rid aid"
  by (auto simp: join_room_def Let_def is_member_def has_key_def emits broadcasts split: option.splits)

lemma join_fold_extends:
  assumes "has_key (s_rooms s) rid" "\<not> reserved_room rid"
  shows "(\<exists>pre. extends_log rid s pre (fold (join_human t rid) as s)) \<and>
         ((\<forall>a \<in> set as. has_key (s_agents s) (a_id a)) \<longrightarrow>
          (\<forall>a \<in> set as. a_kind a = ''human'' \<longrightarrow> is_member (fold (join_human t rid) as s) rid (a_id a)))"
  using assms(1)
proof (induction as arbitrary: s)
  case Nil
  show ?case using extends_log_refl by auto
next
  case (Cons a as)
  have one: "\<exists>pre. extends_log rid s pre (join_human t rid a s)"
    using join_extends [OF Cons.prems assms(2), of t "a_id a"]
    by (cases "a_kind a = ''human'' \<and> \<not> is_member s rid (a_id a)")
       (auto simp: join_human_def intro: exI [of _ "[]"] extends_log_refl)
  then obtain pre where pre: "extends_log rid s pre (join_human t rid a s)" ..
  then have key: "has_key (s_rooms (join_human t rid a s)) rid" and ags: "s_agents (join_human t rid a s) = s_agents s"
    using Cons.prems by (auto simp: extends_log_def)
  obtain pre' where pre': "extends_log rid (join_human t rid a s) pre' (fold (join_human t rid) as (join_human t rid a s))"
    using Cons.IH [OF key] by blast
  have joined: "is_member (join_human t rid a s) rid (a_id a)" if "has_key (s_agents s) (a_id a)" "a_kind a = ''human''"
    using that join_joins [OF Cons.prems assms(2)] by (auto simp: join_human_def)
  have "is_member (fold (join_human t rid) as (join_human t rid a s)) rid (a_id a)"
    if "has_key (s_agents s) (a_id a)" "a_kind a = ''human''"
    using joined [OF that] pre' by (auto simp: extends_log_def)
  then show ?case
    using extends_log_trans [OF pre pre'] Cons.IH [OF key] by (auto simp: ags)
qed

lemma summon_extends:
  assumes "has_key (s_rooms s) rid" "\<not> reserved_room rid"
  shows "\<exists>pre. extends_log rid s pre (summon_humans t rid targets s)"
proof -
  obtain pre where "extends_log rid s pre (join_humans t rid s)"
    using join_fold_extends [OF assms, of t "list_agents s"] by (auto simp: join_humans_def)
  then have "extends_log rid s pre (summon_humans t rid targets s)"
    by (auto simp: summon_humans_def Let_def unhide_for_addressed_def extends_log_def is_member_def
        room_log_def persist_prefs_def split: option.split)
  then show ?thesis ..
qed

lemma list_agents_kinds:
  "map (\<lambda>a. (a_id a, a_kind a)) (list_agents s) = map (\<lambda>p. (a_id (snd p), a_kind (snd p))) (s_agents s)"
  by (simp add: list_agents_def Let_def wait_overlay_def)

lemma summon_reaches_humans:
  assumes "has_key (s_rooms s) rid" "\<not> reserved_room rid" "agents_ok (s_agents s)"
    and "map_of (s_agents s) h = Some a" "a_kind a = ''human''"
  shows "is_member (summon_humans t rid targets s) rid h"
proof -
  have pairs: "(\<lambda>a. (a_id a, a_kind a)) ` set (list_agents s) = (\<lambda>p. (a_id (snd p), a_kind (snd p))) ` set (s_agents s)"
    using arg_cong [OF list_agents_kinds, of set] by (simp only: set_map)
  have known: "\<forall>b \<in> set (list_agents s). has_key (s_agents s) (a_id b)"
  proof
    fix b assume "b \<in> set (list_agents s)"
    then have "(a_id b, a_kind b) \<in> (\<lambda>p. (a_id (snd p), a_kind (snd p))) ` set (s_agents s)"
      unfolding pairs [symmetric] by blast
    then show "has_key (s_agents s) (a_id b)"
      using assms(3) by (force simp: agents_ok_def has_key_iff image_iff)
  qed
  have "(h, a) \<in> set (s_agents s)" "a_id a = h" using assms(3,4) by (auto dest: agents_ok_lookup)
  then have "(h, ''human'') \<in> (\<lambda>a. (a_id a, a_kind a)) ` set (list_agents s)"
    unfolding pairs using assms(5) by force
  then obtain b where "b \<in> set (list_agents s)" "a_id b = h" "a_kind b = ''human''" by auto
  then have "is_member (join_humans t rid s) rid h"
    using join_fold_extends [OF assms(1,2), of t "list_agents s"] known by (auto simp: join_humans_def)
  then show ?thesis
    by (auto simp: summon_humans_def Let_def unhide_for_addressed_def is_member_def persist_prefs_def
        split: option.splits)
qed

subsection \<open>The invariant\<close>

lemma summon_ok [inv]: "store_ok s \<Longrightarrow> store_ok (summon_humans t rid targets s)"
proof -
  assume "store_ok s"
  then have "store_ok (join_humans t rid s)"
    unfolding join_humans_def by (intro store_ok_fold) (auto simp: join_human_def intro: join_room_ok)
  moreover have "store_ok (snd (unhide_for_addressed rid ts x)) = store_ok x" for ts x
    by (rule store_ok_cong) (simp_all add: unhide_for_addressed_def)
  ultimately show ?thesis by (auto simp: summon_humans_def Let_def split: option.split prod.split) (metis snd_conv)+
qed

lemma compose_id [simp]:
  "m_id (compose t i rid o1 ts pl pg at se) = i" "m_room (compose t i rid o1 ts pl pg at se) = rid"
  "m_from (compose t i rid o1 ts pl pg at se) = og_from o1"
  "m_body (compose t i rid o1 ts pl pg at se) = og_body o1"
  "m_targets (compose t i rid o1 ts pl pg at se) = ts"
  by (simp_all add: compose_def)

lemma check_send_member:
  "check_send jo g rid o1 s = Inr x \<Longrightarrow> is_member s rid (og_from o1)"
  by (auto simp: check_send_def Let_def split: if_splits)

lemma room_send_ok [inv]:
  assumes ok: "store_ok s" shows "store_ok (snd (room_send jo g t rid o1 s))"
proof (cases "check_send jo g rid o1 s")
  case (Inr x)
  obtain parent atts plan pages where x: "x = (parent, atts, plan, pages)" by (cases x)
  let ?ts = "send_targets t s rid (og_from o1) (og_body o1) parent"
  let ?s1 = "if og_attention o1 then summon_humans t rid ?ts s else s"
  have s1: "store_ok ?s1" using ok summon_ok by simp
  have "has_key (s_rooms ?s1) rid"
  proof -
    have "has_key (s_rooms (snd (join_room t r a u))) rid" if "has_key (s_rooms u) rid" for r a u
      using that by (auto simp: join_room_def Let_def emits broadcasts)
    then have "has_key (s_rooms (fold (join_human t rid) as u)) rid" if "has_key (s_rooms u) rid" for as u
      using that by (induction as arbitrary: u) (auto simp: join_human_def)
    then show ?thesis
      using is_member_room [OF check_send_member [OF Inr]]
      by (auto simp: summon_humans_def join_humans_def Let_def unhide_for_addressed_def split: option.split)
  qed
  then show ?thesis
    using s1 Inr x by (simp add: room_send_def Let_def touch_agent_ok store_ok_append)
qed (use ok in \<open>simp add: room_send_def\<close>)

lemma warned_ok [simp]:
  "store_ok (s\<lparr>s_warned_legacy := x\<rparr>) = store_ok s" "store_ok (s\<lparr>s_warned_ambiguous := x\<rparr>) = store_ok s"
  "store_ok (s\<lparr>s_warned_attention := x\<rparr>) = store_ok s"
  by (rule store_ok_cong; simp)+

lemma send_warnings_ok: "store_ok s \<Longrightarrow> store_ok (snd (send_warnings t rid o1 extra s))"
proof -
  assume ok: "store_ok s"
  have 1: "store_ok (snd (legacy_prefix_warn a b u))" if "store_ok u" for a b u
    using that by (simp add: legacy_prefix_warn_def Let_def split: option.split)
  have 2: "store_ok (snd (ambiguous_mention_warn t r a b u))" if "store_ok u" for r a b u
    using that by (simp add: ambiguous_mention_warn_def split: list.split)
  have 3: "store_ok (snd (attention_miss_warn t r a b c d u))" if "store_ok u" for r a b c d u
    using that by (simp add: attention_miss_warn_def Let_def split: option.split)
  show ?thesis using 1 2 3 ok by (auto simp: send_warnings_def Let_def split: prod.split) (metis snd_conv)
qed

lemma reply_to_send_ok: "store_ok (snd r) \<Longrightarrow> store_ok (snd (reply_to_send t rid o1 extra r))"
  using send_warnings_ok
  by (auto simp: reply_to_send_def Let_def split: prod.split sum.split) (metis snd_conv)

lemma post_send_ok [inv]: "store_ok s \<Longrightarrow> store_ok (snd (post_send jo g t rid o1 s))"
  by (simp add: post_send_def reply_to_send_ok room_send_ok)

lemma post_dm_ok [inv]:
  assumes "store_ok s" "og_from o1 \<noteq> to" shows "store_ok (snd (post_dm jo g t to o1 s))"
proof -
  obtain res s1 where f: "find_or_create_dm t (og_from o1) to s = (res, s1)" by fastforce
  have s1: "store_ok s1" using find_or_create_dm_ok [OF assms, of t] f by simp
  have "store_ok (snd (reply_to_send t rid o1 extra (room_send jo g t rid o1 s1)))" for rid extra
    by (rule reply_to_send_ok [OF room_send_ok [OF s1]])
  then show ?thesis
    using assms(1) f s1 by (auto simp: post_dm_def split: sum.split prod.split) (metis snd_conv)+
qed

lemma store_ok_set_agent:
  assumes "store_ok s" "map_of (s_agents s) aid = Some a" "a_id a' = a_id a"
  shows "store_ok (s\<lparr>s_agents := put aid a' (s_agents s)\<rparr>)"
  using assms agents_ok_lookup [of "s_agents s" aid a]
  by (auto simp: store_ok_def intro: rooms_ok_put_agent agents_ok_put)

lemma cursor_ops_ok [inv]:
  assumes "store_ok s"
  shows "store_ok (snd (ensure_room_cursor aid rid s))" "store_ok (snd (advance_cursor aid rid to s))"
    "store_ok (advance_and_tell t aid rid to s)" "store_ok (snd (mark_read t aid rid i s))"
proof -
  show e: "store_ok (snd (ensure_room_cursor aid rid s))"
    using assms by (auto simp: ensure_room_cursor_def Let_def set_cursor_def intro!: store_ok_set_agent split: option.split)
  have a: "store_ok (snd (advance_cursor aid rid to s))" for to
    using assms by (auto simp: advance_cursor_def set_cursor_def intro!: store_ok_set_agent split: option.split)
  then show "store_ok (snd (advance_cursor aid rid to s))" .
  have t: "store_ok (advance_and_tell t aid rid to s)" for to
    using a [of to] by (auto simp: advance_and_tell_def split: prod.split)
  then show "store_ok (advance_and_tell t aid rid to s)" .
  show "store_ok (snd (mark_read t aid rid i s))" using t assms by (simp add: mark_read_def Let_def)
qed

lemma init_cursors_id: "a_id (init_cursors s rs a) = a_id a"
proof -
  have "a_id (fold (\<lambda>r a. if has_key (a_cursors a) (r_id r) then a
      else set_cursor (r_id r) (fresh_cursor (r_id r) s) a) rs a) = a_id a" for a
    by (induction rs arbitrary: a) (auto simp: set_cursor_def)
  then show ?thesis by (simp add: init_cursors_def)
qed

lemma agent_unread_ok [inv]: "store_ok s \<Longrightarrow> store_ok (snd (agent_unread_since_cursor aid s))"
  by (auto simp: agent_unread_since_cursor_def Let_def init_cursors_id intro!: store_ok_set_agent
      split: option.split)

lemma get_room_messages_ok [inv]: "store_ok s \<Longrightarrow> store_ok (snd (get_room_messages t rid aid l a b s))"
  by (auto simp: get_room_messages_def Let_def touch_agent_ok split: prod.split)

subsection \<open>What sending does\<close>

lemma touch_agent_frame [frame, simp]:
  "s_rooms (touch_agent t a s) = s_rooms s" "s_messages (touch_agent t a s) = s_messages s"
  "s_next_id (touch_agent t a s) = s_next_id s" "s_reactions (touch_agent t a s) = s_reactions s"
  "db_messages (s_db (touch_agent t a s)) = db_messages (s_db s)"
  by (simp_all add: touch_agent_def Let_def broadcasts split: option.split)

text \<open>C2. A send is refused without any effect, or it happens once and durably: the message ends the
  log of its room and the table of messages, with the id it returns, which is larger than every
  id given out before, with the sender, body and addressees of the request; the logs of all
  other rooms stay as they are; before it the log can only have grown by system messages, and
  only by those of the humans a handoff summons, all of whom are members afterwards.\<close>

theorem room_send_outcome:
  assumes "room_send json_ok gen t rid o1 s = (res, s')" "store_ok s" "\<not> reserved_room rid"
  shows "case res of
      Inl _ \<Rightarrow> s' = s
    | Inr i \<Rightarrow>
        \<exists>pre m. room_log s' rid = room_log s rid @ pre @ [m] \<and>
          db_messages (s_db s') = db_messages (s_db s) @ pre @ [m] \<and>
          m_id m = i \<and> s_next_id s' = i \<and> s_next_id s < i \<and> m_room m = rid \<and>
          m_from m = og_from o1 \<and> m_body m = og_body o1 \<and>
          (\<forall>r. r \<noteq> rid \<longrightarrow> room_log s' r = room_log s r) \<and>
          (\<forall>x \<in> set pre. m_from_kind x = ''system'') \<and> (\<not> og_attention o1 \<longrightarrow> pre = []) \<and>
          (og_attention o1 \<longrightarrow>
             (\<forall>h a. map_of (s_agents s) h = Some a \<and> a_kind a = ''human'' \<longrightarrow> is_member s' rid h))"
proof (cases "check_send json_ok gen rid o1 s")
  case (Inl e)
  then show ?thesis using assms(1) by (auto simp: room_send_def)
next
  case (Inr x)
  obtain parent atts plan pages where x: "x = (parent, atts, plan, pages)" by (cases x)
  define ts where "ts = send_targets t s rid (og_from o1) (og_body o1) parent"
  define s1 where "s1 = (if og_attention o1 then summon_humans t rid ts s else s)"
  define m where "m = compose t (s_next_id s1 + 1) rid o1 ts plan pages atts (map_of (s_agents s1) (og_from o1))"
  have key: "has_key (s_rooms s) rid" by (rule is_member_room [OF check_send_member [OF Inr]])
  obtain pre where pre: "extends_log rid s pre s1" "\<not> og_attention o1 \<longrightarrow> pre = []"
    using summon_extends [OF key assms(3), of t ts] extends_log_refl [of rid s]
    by (cases "og_attention o1") (auto simp: s1_def)
  have "room_send json_ok gen t rid o1 s = (Inr (s_next_id s1 + 1),
      publish_message rid m (touch_agent t (og_from o1) (append_message rid m (s1\<lparr>s_next_id := s_next_id s1 + 1\<rparr>))))"
    by (simp only: room_send_def Inr x sum.case prod.case Let_def ts_def s1_def m_def)
  then have res: "res = Inr (s_next_id s1 + 1)"
    and s': "s' = publish_message rid m (touch_agent t (og_from o1) (append_message rid m (s1\<lparr>s_next_id := s_next_id s1 + 1\<rparr>)))"
    using assms(1) by simp_all
  have logs: "room_log s' r = (if r = rid then room_log s1 rid @ [m] else room_log s1 r)" for r
    by (simp add: s' room_log_def)
  have mem: "is_member s' rid h" if "og_attention o1" "map_of (s_agents s) h = Some a" "a_kind a = ''human''" for h a
    using summon_reaches_humans [OF key assms(3) _ that(2,3), of t ts] assms(2) that(1)
    by (simp add: s' s1_def is_member_def store_ok_def)
  have "db_messages (s_db s') = db_messages (s_db s) @ pre @ [m]" "s_next_id s' = s_next_id s1 + 1"
    using pre(1) by (simp_all add: extends_log_def s')
  moreover have "room_log s' rid = room_log s rid @ pre @ [m]"
    "\<forall>r. r \<noteq> rid \<longrightarrow> room_log s' r = room_log s r" "s_next_id s < s_next_id s1 + 1"
    "\<forall>x \<in> set pre. m_from_kind x = ''system''"
    using pre(1) by (simp_all add: extends_log_def logs)
  ultimately show ?thesis
    unfolding res using pre(2) mem by (auto simp: m_def intro!: exI [of _ pre] exI [of _ m])
qed

definition sample_send :: "string \<Rightarrow> string \<Rightarrow> outgoing" where
  "sample_send from body =
     \<lparr>og_from = from, og_body = body, og_attention = False, og_answers = [], og_questions = [],
      og_plan = [], og_pages = [], og_attachments = [], og_reply = 0\<rparr>"

lemma room_send_outcome_witness:
  "s_next_id (snd (room_send (\<lambda>_. True) (\<lambda>_. ''p'') 0 ''dev'' (sample_send ''ann'' ''hi @bob'') sample_store)) = 6"
proof -
  let ?r = "room_send (\<lambda>_. True) (\<lambda>_. ''p'') 0 ''dev'' (sample_send ''ann'' ''hi @bob'') sample_store"
  have res: "fst ?r = Inr 6" by code_simp
  then have e: "?r = (Inr 6, snd ?r)" by (simp add: prod_eq_iff)
  have "\<not> reserved_room ''dev''" by code_simp
  from room_send_outcome [OF e store_ok_sample this, unfolded sum.case] show ?thesis by blast
qed

subsection \<open>What a bulk read shows\<close>

lemma oldest_fold:
  assumes "sorted_wrt (<) (map m_id ms)" "0 < o1" "\<forall>m \<in> set ms. o1 < m_id m"
  shows "fold (\<lambda>m o1. if o1 = 0 \<or> m_id m < o1 then m_id m else o1) ms o1 = o1"
  using assms by (induction ms) auto

lemma newest_fold:
  "sorted_wrt (<) (map m_id ms) \<Longrightarrow> (\<forall>m \<in> set ms. n < m_id m) \<Longrightarrow>
   fold (\<lambda>m n. if n < m_id m then m_id m else n) ms n = (if ms = [] then n else m_id (last ms))"
  by (induction ms arbitrary: n) auto

lemma sorted_filter_ids:
  "sorted_wrt (<) (map m_id ms) \<Longrightarrow> sorted_wrt (<) (map m_id (filter P ms))"
  unfolding sorted_wrt_map by (rule sorted_wrt_filter)

lemma last_n_split: "\<exists>older. xs = older @ last_n limit xs \<and> (limit = 0 \<longrightarrow> older = []) \<and>
    (0 < limit \<longrightarrow> length (last_n limit xs) = min limit (length xs))"
  by (rule exI [of _ "if 0 < limit \<and> limit < length xs then take (length xs - limit) xs else []"])
     (auto simp: last_n_def)

text \<open>C15. Expiry hides nothing silently: the messages of the requested page are split into the expired
  ones and the live ones; the reply is the newest of the live ones, newest first, as many as the
  limit admits; the expired ones are counted by the marker, which gives the ids of the first and
  of the last of them and is there exactly when one was hidden; a reader without a window sees
  every message of the page.\<close>

theorem expiry_hides_nothing_silently:
  assumes "room_messages_with_expiry t rid limit since before window s = (ms, marker)" "store_ok s"
  shows "\<exists>page hidden live older.
    page = filter (in_page since before) (room_log s rid) \<and>
    hidden = filter (expired_at t window) page \<and> live = filter (\<lambda>m. \<not> expired_at t window m) page \<and>
    live = older @ rev ms \<and> (0 < limit \<longrightarrow> length ms = min limit (length live)) \<and>
    (limit = 0 \<longrightarrow> older = []) \<and> (window \<le> 0 \<longrightarrow> hidden = [] \<and> live = page) \<and>
    (case marker of
       None \<Rightarrow> hidden = []
     | Some e \<Rightarrow> em_count e = length hidden \<and> hidden \<noteq> [] \<and>
         em_oldest e = m_id (hd hidden) \<and> em_newest e = m_id (last hidden))"
proof -
  define page where "page = filter (in_page since before) (room_log s rid)"
  define hidden where "hidden = filter (expired_at t window) page"
  define live where "live = filter (\<lambda>m. \<not> expired_at t window m) page"
  have log: "sorted_wrt (<) (map m_id (room_log s rid))" "\<forall>m \<in> set (room_log s rid). 0 < m_id m"
    using assms(2) log_ok_log by (fastforce simp: store_ok_def room_log_def)+
  then have h: "sorted_wrt (<) (map m_id hidden)" "\<forall>m \<in> set hidden. 0 < m_id m"
    by (auto simp: hidden_def page_def intro!: sorted_filter_ids)
  have ms: "ms = rev (last_n limit live)"
    and mk: "marker = (if 0 < window \<and> hidden \<noteq> []
          then Some \<lparr>em_count = length hidden,
                     em_oldest = fold (\<lambda>m o1. if o1 = 0 \<or> m_id m < o1 then m_id m else o1) hidden 0,
                     em_newest = fold (\<lambda>m n. if n < m_id m then m_id m else n) hidden 0,
                     em_before = stamp_of (t - window)\<rparr>
          else None)"
    using assms(1) by (auto simp: room_messages_with_expiry_def Let_def hidden_def live_def page_def)
  have oldest: "fold (\<lambda>m o1. if o1 = 0 \<or> m_id m < o1 then m_id m else o1) hidden 0 = m_id (hd hidden)"
    if "hidden \<noteq> []"
    using that h by (cases hidden) (auto intro!: oldest_fold)
  have none: "\<not> 0 < window \<Longrightarrow> hidden = [] \<and> live = page"
    by (auto simp: hidden_def live_def expired_at_def)
  obtain older where "live = older @ last_n limit live" "limit = 0 \<longrightarrow> older = []"
    "0 < limit \<longrightarrow> length (last_n limit live) = min limit (length live)"
    using last_n_split [of live limit] by blast
  then have "live = older @ rev ms" "limit = 0 \<longrightarrow> older = []" "0 < limit \<longrightarrow> length ms = min limit (length live)"
    by (simp_all add: ms)
  moreover have "case marker of None \<Rightarrow> hidden = []
     | Some e \<Rightarrow> em_count e = length hidden \<and> hidden \<noteq> [] \<and>
         em_oldest e = m_id (hd hidden) \<and> em_newest e = m_id (last hidden)"
    using none oldest newest_fold [OF h(1), of 0] h(2) by (cases "0 < window \<and> hidden \<noteq> []") (auto simp: mk)
  moreover have "window \<le> 0 \<longrightarrow> hidden = [] \<and> live = page" using none by simp
  ultimately show ?thesis
    using page_def hidden_def live_def by blast
qed

lemma expiry_hides_nothing_silently_witness:
  "map_option em_count (snd (room_messages_with_expiry (7 * second) ''dev'' 10 0 0 second sample_store)) = Some 2"
proof -
  let ?r = "room_messages_with_expiry (7 * second) ''dev'' 10 0 0 second sample_store"
  have live: "fst ?r = []" by code_simp
  have "?r = (fst ?r, snd ?r)" by simp
  from expiry_hides_nothing_silently [OF this store_ok_sample]
  obtain page hidden where p: "page = filter (in_page 0 0) (room_log sample_store ''dev'')"
    "hidden = filter (expired_at (7 * second) second) page"
    "case snd ?r of None \<Rightarrow> hidden = []
     | Some e \<Rightarrow> em_count e = length hidden \<and> hidden \<noteq> [] \<and>
         em_oldest e = m_id (hd hidden) \<and> em_newest e = m_id (last hidden)" by blast
  have "length (filter (expired_at (7 * second) second) (filter (in_page 0 0) (room_log sample_store ''dev''))) = 2"
    by code_simp
  then have "length hidden = 2" using p(1,2) by simp
  then show ?thesis using p(3) by (cases "snd ?r") auto
qed

end
