(* ===== verification/Waits.thy ===== *)
theory Waits
  imports Messages
begin

section \<open>Long polls\<close>

text \<open>
  The handlers \<open>GET /rooms/{room_id}/wait\<close> and \<open>GET /agents/{id}/wait\<close> of
  \<open>internal/server/server.go\<close>, cut at the points where another request can run: the start, which
  answers at once when something is unread; the registration of presence and subscription; one
  event taken from the channel; the time-out; the end, which undoes the registration.

  \<open>written\<close> says that the response was written without an error, \<open>gone\<close> that the client had
  disconnected; \<open>since\<close> is the \<open>since_id\<close> of the query when it is a positive number.
\<close>

datatype wait_reply =
    WaitNoRoom
  | WaitDeliver "annotated list"
  | WaitPlain "message list"
  | WaitReaction string int string string string
  | WaitStill
  | WaitGone
  | WaitPark int

definition shown_to :: "int \<Rightarrow> string \<Rightarrow> message list \<Rightarrow> store \<Rightarrow> annotated list" where
  "shown_to t aid ms s =
     annotate (with_reaction_summaries ms aid s) aid (addressing_context_for t s)"

definition from_others :: "string \<Rightarrow> message list \<Rightarrow> message list" where
  "from_others aid ms = filter (\<lambda>m. m_from m \<noteq> aid) ms"

definition touch_if :: "int \<Rightarrow> string \<Rightarrow> store \<Rightarrow> store" where
  "touch_if t aid s = (if aid \<noteq> [] then touch_agent t aid s else s)"

subsection \<open>Waiting on one room\<close>

definition room_wait_since :: "string \<Rightarrow> string \<Rightarrow> int option \<Rightarrow> store \<Rightarrow> int \<times> store" where
  "room_wait_since aid rid since s =
     (case since of
        Some n \<Rightarrow> (n, s)
      | None \<Rightarrow> if aid \<noteq> [] then ensure_room_cursor aid rid s else (0, s))"

definition room_wait_start ::
    "int \<Rightarrow> string \<Rightarrow> string \<Rightarrow> int option \<Rightarrow> bool \<Rightarrow> store \<Rightarrow> wait_reply \<times> store" where
  "room_wait_start t aid rid since written s0 =
     (let s = touch_if t aid s0 in
      if get_room s rid = None then (WaitNoRoom, s)
      else
        let (n, s1) = room_wait_since aid rid since s; ms = messages_since rid n s1 in
        if ms = [] then (WaitPark n, s1)
        else if aid \<noteq> [] then
          (WaitDeliver (shown_to t aid (from_others aid ms) s1),
           if written then advance_and_tell t aid rid (m_id (last ms)) s1 else s1)
        else (WaitPlain (with_reaction_summaries ms [] s1), s1))"

definition room_wait_park :: "int \<Rightarrow> string \<Rightarrow> string \<Rightarrow> store \<Rightarrow> nat \<times> store" where
  "room_wait_park t aid rid s = subscribe_room rid (enter_wait t aid rid s)"

definition room_wait_take ::
    "int \<Rightarrow> string \<Rightarrow> string \<Rightarrow> int \<Rightarrow> bool \<Rightarrow> bool \<Rightarrow> message \<Rightarrow> store \<Rightarrow> wait_reply option \<times> store" where
  "room_wait_take t aid rid n gone written m s =
     (if m_id m \<le> n then (None, s)
      else
        let s1 = touch_if t aid s in
        if aid \<noteq> [] \<and> m_from m = aid then (None, advance_and_tell t aid rid (m_id m) s1)
        else if gone then (Some WaitGone, s1)
        else if aid \<noteq> [] then
          (Some (WaitDeliver (shown_to t aid [m] s1)),
           if written then advance_and_tell t aid rid (m_id m) s1 else s1)
        else (Some (WaitPlain (with_reaction_summaries [m] [] s1)), s1))"

definition room_wait_timeout :: "int \<Rightarrow> string \<Rightarrow> store \<Rightarrow> wait_reply \<times> store" where
  "room_wait_timeout t aid s = (WaitStill, touch_if t aid s)"

definition room_wait_end :: "int \<Rightarrow> string \<Rightarrow> string \<Rightarrow> nat \<Rightarrow> store \<Rightarrow> store" where
  "room_wait_end t aid rid ch s = leave_wait t aid rid (unsubscribe_room rid ch s)"

subsection \<open>Waiting on every room of an agent\<close>

definition newest_per_room :: "message list \<Rightarrow> (string, int) table" where
  "newest_per_room ms =
     fold (\<lambda>m acc. if get_or 0 acc (m_room m) < m_id m then put (m_room m) (m_id m) acc else acc) ms []"

definition agent_wait_start ::
    "int \<Rightarrow> string \<Rightarrow> int option \<Rightarrow> bool \<Rightarrow> store \<Rightarrow> wait_reply \<times> store" where
  "agent_wait_start t aid since written s0 =
     (let s = touch_agent t aid s0;
          (ms, s1) = (case since of
                        Some n \<Rightarrow> (agent_messages_since aid n s, s)
                      | None \<Rightarrow> (let ((ms, _), s1) = agent_unread_since_cursor aid s in (ms, s1)))
      in if ms = [] then (WaitPark (case since of Some n \<Rightarrow> n | None \<Rightarrow> 0), s1)
         else
           (WaitDeliver (shown_to t aid (from_others aid ms) s1),
            if written \<and> since = None
            then fold (\<lambda>(rid, top). advance_and_tell t aid rid top) (newest_per_room ms) s1
            else s1))"

definition agent_wait_park :: "int \<Rightarrow> string \<Rightarrow> store \<Rightarrow> (nat \<times> nat) \<times> store" where
  "agent_wait_park t aid s =
     (let (c, s1) = subscribe_global (enter_wait t aid [] s); (mc, s2) = subscribe_meta s1
      in ((c, mc), s2))"

definition agent_wait_take ::
    "int \<Rightarrow> string \<Rightarrow> int option \<Rightarrow> bool \<Rightarrow> bool \<Rightarrow> message \<Rightarrow> store \<Rightarrow> wait_reply option \<times> store" where
  "agent_wait_take t aid since gone written m s =
     (if (case since of Some n \<Rightarrow> m_id m \<le> n | None \<Rightarrow> False) then (None, s)
      else if \<not> is_member s (m_room m) aid then (None, s)
      else
        let (cur, s1) = (case since of Some _ \<Rightarrow> (0, s) | None \<Rightarrow> ensure_room_cursor aid (m_room m) s) in
        if since = None \<and> m_id m \<le> cur then (None, s1)
        else
          let s2 = touch_agent t aid s1;
              moved = (if since = None then advance_and_tell t aid (m_room m) (m_id m) s2 else s2)
          in if m_from m = aid then (None, moved)
             else if gone then (Some WaitGone, s2)
             else (Some (WaitDeliver (shown_to t aid [m] s2)), if written then moved else s2))"

definition agent_wait_event :: "int \<Rightarrow> string \<Rightarrow> bool \<Rightarrow> meta_event \<Rightarrow> store \<Rightarrow> wait_reply option \<times> store" where
  "agent_wait_event t aid gone e s =
     (case e of
        ReactionChanged rid mid who emoji op _ \<Rightarrow>
          if mid \<le> 0 \<or> rid = [] \<or> emoji = [] \<or> who = [] \<or> op = [] then (None, s)
          else if who = aid \<or> \<not> is_member s rid aid then (None, s)
          else (case message_by_id mid s of
                  None \<Rightarrow> (None, s)
                | Some m \<Rightarrow>
                    if m_from m \<noteq> aid then (None, s)
                    else (Some (if gone then WaitGone else WaitReaction rid mid who emoji op),
                          touch_agent t aid s))
      | _ \<Rightarrow> (None, s))"

definition agent_wait_timeout :: "int \<Rightarrow> string \<Rightarrow> store \<Rightarrow> wait_reply \<times> store" where
  "agent_wait_timeout t aid s = (WaitStill, touch_agent t aid s)"

definition agent_wait_end :: "int \<Rightarrow> string \<Rightarrow> nat \<Rightarrow> nat \<Rightarrow> store \<Rightarrow> store" where
  "agent_wait_end t aid c mc s = leave_wait t aid [] (unsubscribe_global c (unsubscribe_meta mc s))"

subsection \<open>Facts on cursors\<close>

lemma cursor_touch [simp]: "cursor_for (touch_agent t a s) aid rid = cursor_for s aid rid"
  by (auto simp: cursor_for_def touch_agent_def Let_def broadcasts split: option.split)

lemma cursor_set:
  "map_of (s_agents s) aid = Some a \<Longrightarrow> aid \<noteq> [] \<Longrightarrow>
   cursor_for (s\<lparr>s_agents := put aid (set_cursor rid c a) (s_agents s)\<rparr>) aid r =
     (if r = rid then c else cursor_for s aid r)"
  by (simp add: cursor_for_def set_cursor_def)

lemma cursor_frame [simp]:
  "cursor_for (persist s) aid rid = cursor_for s aid rid"
  "cursor_for (broadcast_meta e s) aid rid = cursor_for s aid rid"
  by (simp_all add: cursor_for_def)

lemma advance_cursor_cursor:
  "has_key (s_agents s) aid \<Longrightarrow> aid \<noteq> [] \<Longrightarrow>
   cursor_for (advance_and_tell t aid rid to s) aid r =
     (if r = rid then max to (cursor_for s aid rid) else cursor_for s aid r)"
  by (auto simp: advance_and_tell_def advance_cursor_def broadcasts Let_def cursor_set has_key_def
      cursor_for_def [of s] max_def split: option.split)

definition has_cursor :: "store \<Rightarrow> string \<Rightarrow> string \<Rightarrow> bool" where
  "has_cursor s aid rid = (\<exists>a. map_of (s_agents s) aid = Some a \<and> has_key (a_cursors a) rid)"

lemma ensure_has_cursor:
  "has_key (s_agents s) aid \<Longrightarrow> has_cursor (snd (ensure_room_cursor aid rid s)) aid rid"
  by (auto simp: ensure_room_cursor_def Let_def has_key_def has_cursor_def set_cursor_def split: option.split)

lemma ensure_with_cursor:
  "has_cursor s aid rid \<Longrightarrow> aid \<noteq> [] \<Longrightarrow> ensure_room_cursor aid rid s = (cursor_for s aid rid, s)"
  by (auto simp: ensure_room_cursor_def has_cursor_def has_key_def cursor_for_def get_or_Some)

lemma has_cursor_advance: "has_cursor s aid rid \<Longrightarrow> has_cursor (advance_and_tell t aid r to s) aid rid"
  by (auto simp: advance_and_tell_def advance_cursor_def has_cursor_def set_cursor_def broadcasts Let_def
      split: option.split)

lemma has_cursor_touch: "has_cursor (touch_agent t a s) aid rid = has_cursor s aid rid"
  by (auto simp: touch_agent_def has_cursor_def Let_def broadcasts split: option.split)

lemma advance_frame [frame, simp]:
  "s_messages (advance_and_tell t aid rid to s) = s_messages s"
  "s_rooms (advance_and_tell t aid rid to s) = s_rooms s"
  "has_key (s_agents (advance_and_tell t aid rid to s)) k = has_key (s_agents s) k"
  by (auto simp: advance_and_tell_def advance_cursor_def broadcasts Let_def has_key_def split: option.split)

lemma ensure_frame [frame, simp]:
  "s_messages (snd (ensure_room_cursor aid rid s)) = s_messages s"
  "s_rooms (snd (ensure_room_cursor aid rid s)) = s_rooms s"
  "has_key (s_agents (snd (ensure_room_cursor aid rid s))) k = has_key (s_agents s) k"
  by (auto simp: ensure_room_cursor_def Let_def has_key_def split: option.split)

lemma ensure_cursor:
  "has_key (s_agents s) aid \<Longrightarrow> aid \<noteq> [] \<Longrightarrow>
   cursor_for (snd (ensure_room_cursor aid rid s)) aid rid = fst (ensure_room_cursor aid rid s)"
  by (auto simp: ensure_room_cursor_def Let_def has_key_def cursor_set split: option.split)
    (simp add: cursor_for_def get_or_Some)

lemma room_log_frame [simp]:
  "room_log (touch_agent t a s) r = room_log s r"
  "room_log (advance_and_tell t aid rid to s) r = room_log s r"
  "room_log (snd (ensure_room_cursor aid rid s)) r = room_log s r"
  by (simp_all add: room_log_def)

lemma touch_keys [simp]: "has_key (s_agents (touch_agent t a s)) k = has_key (s_agents s) k"
  by (auto simp: touch_agent_def Let_def broadcasts has_key_def split: option.split)

subsection \<open>Exactly once\<close>

lemma from_others_shown: "map (m_id \<circ> an_message) (shown_to t aid ms s) = map m_id ms"
  by (simp add: shown_to_def annotate_def annotate_one_def with_reaction_summaries_def Let_def)

lemma messages_since_last:
  assumes "sorted_wrt (<) (map m_id log)" "filter (\<lambda>m. n < m_id m) log \<noteq> []" "m \<in> set log"
  shows "m_id m \<le> m_id (last (filter (\<lambda>m. n < m_id m) log))"
proof (cases "n < m_id m")
  case True
  let ?f = "filter (\<lambda>m. n < m_id m) log"
  have s: "sorted_wrt (<) (map m_id ?f)" using assms(1) by (rule sorted_filter_ids)
  have "m \<in> set ?f" using True assms(3) by simp
  then have "m \<in> set (butlast ?f @ [last ?f])" using assms(2) by (simp add: append_butlast_last_id)
  moreover have "sorted_wrt (<) (map m_id (butlast ?f @ [last ?f]))"
    using s assms(2) by (simp add: append_butlast_last_id)
  ultimately show ?thesis by (fastforce simp: sorted_wrt_append)
next
  case False
  have "last (filter (\<lambda>m. n < m_id m) log) \<in> set (filter (\<lambda>m. n < m_id m) log)"
    using assms(2) by (rule last_in_set)
  then show ?thesis using False by simp
qed



end
