(* ===== verification/Macros.thy ===== *)
theory Macros
  imports StoreInv
begin

section \<open>Macros and prompt overrides\<close>

text \<open>
  The macro section of \<open>internal/server/store.go\<close> with \<open>PUT /macros\<close>, the rows of the table
  \<open>macros\<close> (\<open>sqlite.go\<close>), and \<open>internal/server/prompts.go\<close> with its handlers. The embedded default
  macros, the digests of stale defaults with the digest function, and the compiled prompt bodies
  are parameters: the theorems hold for all of them.
\<close>

subsection \<open>Macros\<close>

definition macro_key_ok :: "string \<Rightarrow> bool" where
  "macro_key_ok k =
     (case k of
        [] \<Rightarrow> False
      | c # cs \<Rightarrow> between 97 122 c \<and>
          list_all (\<lambda>d. between 97 122 d \<or> between 48 57 d \<or> d = CHR ''_'' \<or> d = CHR ''-'') cs)"

text \<open>A key that was offered as a default and is gone has a row too, with an empty value.\<close>

definition macro_rows :: "(string, string) table \<Rightarrow> string list \<Rightarrow> (string, string \<times> bool) table" where
  "macro_rows ms seen =
     map (\<lambda>k. (k, get_or [] ms k, k \<in> set seen)) (sort (remdups (keys ms @ seen)))"

definition persist_macros :: "store \<Rightarrow> store" where
  "persist_macros s = s\<lparr>s_db := (s_db s)\<lparr>db_macros := macro_rows (s_macros s) (s_seen_defaults s)\<rparr>\<rparr>"

definition load_macros :: "store \<Rightarrow> store" where
  "load_macros s =
     s\<lparr>s_macros := map_vals (\<lambda>_. fst) (db_macros (s_db s)),
       s_seen_defaults := map fst (filter (\<lambda>p. snd (snd p)) (db_macros (s_db s)))\<rparr>"

text \<open>\<open>None\<close> is a request without the field \<open>macros\<close>.\<close>

definition set_envelope :: "(string, string) table option \<Rightarrow> store \<Rightarrow> store" where
  "set_envelope env s =
     broadcast_macros_updated (persist_macros (case env of None \<Rightarrow> s | Some ms \<Rightarrow> s\<lparr>s_macros := ms\<rparr>))"

datatype macro_error = PerRoomMacros | TooManyMacros | MacroKeyInvalid string | MacroTooLarge string

fun macro_fault :: "(string, string) table \<Rightarrow> macro_error option" where
  "macro_fault [] = None"
| "macro_fault ((k, v) # ms) =
     (if \<not> macro_key_ok k then Some (MacroKeyInvalid k)
      else if 16 * 1024 < length v then Some (MacroTooLarge k)
      else macro_fault ms)"

definition put_macros ::
    "(string, string) table option \<Rightarrow> (string, (string, string) table) table \<Rightarrow> store \<Rightarrow>
     (macro_error + unit) \<times> store" where
  "put_macros env rooms s =
     (let ms = (case env of None \<Rightarrow> [] | Some ms \<Rightarrow> ms) in
      if rooms \<noteq> [] then (Inl PerRoomMacros, s)
      else if 256 < length ms then (Inl TooManyMacros, s)
      else case macro_fault ms of
             Some e \<Rightarrow> (Inl e, s)
           | None \<Rightarrow> (Inr (), set_envelope env s))"

definition offer_default :: "string \<times> string \<Rightarrow> store \<Rightarrow> store" where
  "offer_default kv s =
     (if fst kv \<in> set (s_seen_defaults s) then s
      else s\<lparr>s_macros := (if has_key (s_macros s) (fst kv) then s_macros s
                          else put (fst kv) (snd kv) (s_macros s)),
             s_seen_defaults := fst kv # s_seen_defaults s\<rparr>)"

definition apply_default_macros :: "(string, string) table \<Rightarrow> store \<Rightarrow> store" where
  "apply_default_macros defaults s =
     (let s1 = fold offer_default defaults s
      in if list_ex (\<lambda>p. fst p \<notin> set (s_seen_defaults s)) defaults then persist_macros s1 else s1)"

definition refresh_macro ::
    "(string \<Rightarrow> string) \<Rightarrow> (string, string) table \<Rightarrow> string \<times> string list \<Rightarrow>
     bool \<times> (string, string) table \<Rightarrow> bool \<times> (string, string) table" where
  "refresh_macro sha defaults stale acc =
     (case map_of (snd acc) (fst stale) of
        None \<Rightarrow> acc
      | Some current \<Rightarrow>
          (case map_of defaults (fst stale) of
             None \<Rightarrow> acc
           | Some body \<Rightarrow> if sha current \<in> set (snd stale)
                          then (True, put (fst stale) body (snd acc)) else acc))"

definition migrate_stale_macros ::
    "(string \<Rightarrow> string) \<Rightarrow> (string, string) table \<Rightarrow> (string, string list) table \<Rightarrow> store \<Rightarrow> store" where
  "migrate_stale_macros sha defaults stale s =
     (if defaults = [] \<or> stale = [] then s
      else
        let (changed, ms) = fold (refresh_macro sha defaults) stale (False, s_macros s)
        in if changed then persist_macros (s\<lparr>s_macros := ms\<rparr>) else s\<lparr>s_macros := ms\<rparr>)"

subsection \<open>Facts on the macros\<close>

lemma macro_frame [frame, simp]:
  "s_rooms (persist_macros s) = s_rooms s" "s_agents (persist_macros s) = s_agents s"
  "s_messages (persist_macros s) = s_messages s" "s_next_id (persist_macros s) = s_next_id s"
  "s_reactions (persist_macros s) = s_reactions s" "s_macros (persist_macros s) = s_macros s"
  "s_seen_defaults (persist_macros s) = s_seen_defaults s"
  by (simp_all add: persist_macros_def)

lemma store_ok_macros [inv, simp]:
  "store_ok (persist_macros s) = store_ok s" "store_ok (s\<lparr>s_macros := m\<rparr>) = store_ok s"
  "store_ok (load_macros s) = store_ok s"
  by (rule store_ok_cong; simp add: load_macros_def)+

lemma store_ok_offer [simp]: "store_ok (offer_default kv s) = store_ok s"
  by (rule store_ok_cong) (simp_all add: offer_default_def)

lemma macro_ops_ok [inv]:
  "store_ok s \<Longrightarrow> store_ok (set_envelope env s)"
  "store_ok s \<Longrightarrow> store_ok (snd (put_macros env rooms s))"
  "store_ok s \<Longrightarrow> store_ok (apply_default_macros ds s)"
  "store_ok s \<Longrightarrow> store_ok (migrate_stale_macros sha ds stale s)"
proof -
  assume ok: "store_ok s"
  show env: "store_ok (set_envelope env s)"
    using ok by (simp add: set_envelope_def split: option.split)
  show "store_ok (snd (put_macros env rooms s))"
    using env ok by (simp add: put_macros_def Let_def split: option.split)
  have "store_ok (fold offer_default ds s)" using ok by (intro store_ok_fold) simp_all
  then show "store_ok (apply_default_macros ds s)" by (simp add: apply_default_macros_def Let_def)
  show "store_ok (migrate_stale_macros sha ds stale s)"
    using ok by (simp add: migrate_stale_macros_def split: prod.split)
qed

lemma macro_rows_lookup:
  "map_of (macro_rows ms seen) k =
     (if has_key ms k \<or> k \<in> set seen then Some (get_or [] ms k, k \<in> set seen) else None)"
  by (auto simp: macro_rows_def map_of_map_restrict [of "\<lambda>k. (get_or [] ms k, k \<in> set seen)", simplified comp_def]
      restrict_map_def has_key_iff simp flip: map_map)

lemma put_macros_valid:
  "put_macros (Some ms) rooms s = (Inr u, s') \<Longrightarrow> (k, v) \<in> set ms \<Longrightarrow>
   macro_key_ok k \<and> length v \<le> 16 * 1024"
proof -
  have "macro_fault ms = None \<Longrightarrow> (k, v) \<in> set ms \<Longrightarrow> macro_key_ok k \<and> length v \<le> 16 * 1024" for ms
    by (induction ms rule: macro_fault.induct) (auto split: if_splits)
  then show "put_macros (Some ms) rooms s = (Inr u, s') \<Longrightarrow> (k, v) \<in> set ms \<Longrightarrow> ?thesis"
    by (auto simp: put_macros_def Let_def split: if_splits option.splits)
qed

text \<open>Each default is offered once, and never over a macro of the user's.\<close>

lemma offer_defaults:
  "map_of (s_macros (fold offer_default ds s)) k =
     (if has_key (s_macros s) k \<or> k \<in> set (s_seen_defaults s) then map_of (s_macros s) k
      else map_of ds k)"
  "set (s_seen_defaults (fold offer_default ds s)) = set (s_seen_defaults s) \<union> set (keys ds)"
proof (induction ds arbitrary: s)
  case (Cons d ds)
  {
    case 1
    show ?case using Cons [of "offer_default d s"]
      by (cases d) (auto simp: offer_default_def has_key_def)
  next
    case 2
    show ?case using Cons(2) [of "offer_default d s"]
      by (cases d) (auto simp: offer_default_def)
  }
qed (simp_all add: has_key_def)

text \<open>Default macros are offered exactly once: at start-up every default that was never offered
  before becomes a macro unless the user has one of that name, no macro of the user's changes, a
  default the user removed earlier stays removed, every default counts as offered afterwards, and
  a second start-up changes nothing.\<close>

lemma default_macros_once:
  "let s1 = apply_default_macros ds s in
   (\<forall>k. map_of (s_macros s1) k =
      (case map_of (s_macros s) k of
         Some v \<Rightarrow> Some v
       | None \<Rightarrow> if k \<in> set (s_seen_defaults s) then None else map_of ds k)) \<and>
   set (s_seen_defaults s1) = set (s_seen_defaults s) \<union> set (keys ds) \<and>
   apply_default_macros ds s1 = s1"
proof -
  let ?s1 = "apply_default_macros ds s"
  have ms: "s_macros ?s1 = s_macros (fold offer_default ds s)"
    and seen: "s_seen_defaults ?s1 = s_seen_defaults (fold offer_default ds s)"
    by (simp_all add: apply_default_macros_def Let_def)
  have "fold offer_default xs u = u" if "set (keys xs) \<subseteq> set (s_seen_defaults u)" for xs u
    using that by (induction xs) (auto simp: offer_default_def)
  then have "apply_default_macros ds ?s1 = ?s1"
    using offer_defaults(2) [of ds s] seen
    by (auto simp: apply_default_macros_def [of ds ?s1] list_ex_iff)
  then show ?thesis
    using offer_defaults [of ds s] ms seen by (auto simp: Let_def has_key_def split: option.split)
qed

text \<open>What a restart makes of the macros: every macro comes back with its body and the offered
  defaults are remembered; a default that the user removed comes back too, with an empty body, so
  that the state survives exactly when no offered default is missing.\<close>

lemma macro_reload:
  "let s1 = load_macros (persist_macros s) in
   set (s_seen_defaults s1) = set (s_seen_defaults s) \<and>
   (\<forall>k. map_of (s_macros s1) k =
      (case map_of (s_macros s) k of
         Some v \<Rightarrow> Some v
       | None \<Rightarrow> if k \<in> set (s_seen_defaults s) then Some [] else None)) \<and>
   (map_of (s_macros s1) = map_of (s_macros s)) =
     (set (s_seen_defaults s) \<subseteq> set (keys (s_macros s)))"
proof -
  let ?s1 = "load_macros (persist_macros s)"
  have f: "map_of (s_macros ?s1) k =
      (case map_of (s_macros s) k of
         Some v \<Rightarrow> Some v
       | None \<Rightarrow> if k \<in> set (s_seen_defaults s) then Some [] else None)" for k
    by (simp add: load_macros_def persist_macros_def macro_rows_lookup has_key_def get_or_def
        split: option.split)
  have key: "k \<in> set (keys (s_macros s)) \<longleftrightarrow> map_of (s_macros s) k \<noteq> None" for k
    by (simp add: map_of_eq_None_iff)
  have "(map_of (s_macros ?s1) = map_of (s_macros s)) =
     (set (s_seen_defaults s) \<subseteq> set (keys (s_macros s)))"
  proof
    assume e: "map_of (s_macros ?s1) = map_of (s_macros s)"
    show "set (s_seen_defaults s) \<subseteq> set (keys (s_macros s))"
    proof
      fix k assume "k \<in> set (s_seen_defaults s)"
      then have "map_of (s_macros s) k \<noteq> None" using f [of k] e by (cases "map_of (s_macros s) k") auto
      then show "k \<in> set (keys (s_macros s))" using key by blast
    qed
  next
    assume sub: "set (s_seen_defaults s) \<subseteq> set (keys (s_macros s))"
    show "map_of (s_macros ?s1) = map_of (s_macros s)"
    proof
      fix k show "map_of (s_macros ?s1) k = map_of (s_macros s) k"
        using f [of k] sub key [of k] by (cases "map_of (s_macros s) k") auto
    qed
  qed
  moreover have "set (s_seen_defaults ?s1) = set (s_seen_defaults s)"
    by (auto simp: load_macros_def persist_macros_def macro_rows_def filter_map comp_def image_iff)
  ultimately show ?thesis unfolding Let_def using f by blast
qed

text \<open>Concretely: the user deletes the macro that was offered as a default, and after a restart it
  is there again, empty.\<close>

lemma deleted_default_returns_empty:
  "let s1 = apply_default_macros [(''do-cr'', ''review'')] empty_store;
       s2 = snd (put_macros (Some []) [] s1);
       s3 = load_macros s2
   in s_macros s2 = [] \<and> s_macros s3 = [(''do-cr'', [])]"
  by code_simp

subsection \<open>Prompt overrides\<close>

text \<open>
  The keys of \<open>defaults_prompts.json\<close>; the texts that go with a key for display are left out.
  \<open>dflt\<close> is the table \<open>SetPromptDefaults\<close> registers.
\<close>

definition prompt_catalog :: "string list" where
  "prompt_catalog =
     [''bus_etiquette'', ''tool.bus_register'', ''tool.bus_join'', ''tool.bus_leave'', ''tool.bus_say'',
      ''tool.bus_read'', ''tool.bus_wait'', ''tool.bus_rooms'', ''tool.bus_mark_read'', ''tool.bus_dm'',
      ''tool.bus_agents'', ''tool.bus_message'', ''tool.bus_react'', ''tool.bus_macros_get'',
      ''tool.bus_macros_set'', ''agent.bootstrap'', ''agent.bootstrap_reclaim'', ''agent.recovery'',
      ''agent.resume'', ''error.not_registered'']"

definition save_prompts :: "store \<Rightarrow> store" where
  "save_prompts s = s\<lparr>s_db := (s_db s)\<lparr>db_prompts := sort_key fst (s_prompts s)\<rparr>\<rparr>"

definition load_prompts :: "store \<Rightarrow> store" where
  "load_prompts s =
     s\<lparr>s_prompts := filter (\<lambda>p. fst p \<in> set prompt_catalog) (db_prompts (s_db s))\<rparr>"

definition get_prompt :: "(string, string) table \<Rightarrow> store \<Rightarrow> string \<Rightarrow> string" where
  "get_prompt dflt s k =
     (case map_of (s_prompts s) k of Some v \<Rightarrow> v | None \<Rightarrow> get_or [] dflt k)"

definition set_prompt :: "string \<Rightarrow> string \<Rightarrow> store \<Rightarrow> bool \<times> store" where
  "set_prompt k v s =
     (if k \<notin> set prompt_catalog then (False, s)
      else (True, save_prompts (s\<lparr>s_prompts := put k v (s_prompts s)\<rparr>)))"

definition delete_prompt :: "string \<Rightarrow> store \<Rightarrow> store" where
  "delete_prompt k s = save_prompts (s\<lparr>s_prompts := del k (s_prompts s)\<rparr>)"

definition delete_prompt_request :: "string \<Rightarrow> store \<Rightarrow> bool \<times> store" where
  "delete_prompt_request k s =
     (if k \<notin> set prompt_catalog then (False, s) else (True, delete_prompt k s))"

definition delete_all_prompts :: "store \<Rightarrow> store" where
  "delete_all_prompts s = save_prompts (s\<lparr>s_prompts := []\<rparr>)"

definition clear_prompts :: "store \<Rightarrow> store" where
  "clear_prompts s = s\<lparr>s_prompts := [], s_db := (s_db s)\<lparr>db_prompts := []\<rparr>\<rparr>"

record prompt_view =
  pv_key :: string
  pv_body :: string
  pv_default :: string
  pv_overridden :: bool

definition list_prompts :: "(string, string) table \<Rightarrow> store \<Rightarrow> prompt_view list" where
  "list_prompts dflt s =
     map (\<lambda>k. \<lparr>pv_key = k,
               pv_body = (case map_of (s_prompts s) k of Some v \<Rightarrow> v | None \<Rightarrow> get_or [] dflt k),
               pv_default = get_or [] dflt k, pv_overridden = has_key (s_prompts s) k\<rparr>)
       prompt_catalog"

text \<open>Only catalog keys are overridden, and the table holds what the memory holds.\<close>

definition prompts_ok :: "store \<Rightarrow> bool" where
  "prompts_ok s =
     (distinct (keys (s_prompts s)) \<and> set (keys (s_prompts s)) \<subseteq> set prompt_catalog \<and>
      db_prompts (s_db s) = sort_key fst (s_prompts s))"

lemma store_ok_prompts [inv, simp]:
  "store_ok (save_prompts s) = store_ok s" "store_ok (s\<lparr>s_prompts := m\<rparr>) = store_ok s"
  "store_ok (load_prompts s) = store_ok s" "store_ok (clear_prompts s) = store_ok s"
  by (rule store_ok_cong; simp add: save_prompts_def load_prompts_def clear_prompts_def)+

lemma prompt_ops_ok [inv]:
  "store_ok (snd (set_prompt k v s)) = store_ok s" "store_ok (delete_prompt k s) = store_ok s"
  "store_ok (snd (delete_prompt_request k s)) = store_ok s" "store_ok (delete_all_prompts s) = store_ok s"
  by (simp_all add: set_prompt_def delete_prompt_def delete_prompt_request_def delete_all_prompts_def)

lemma prompts_ok_save:
  "distinct (keys ps) \<Longrightarrow> set (keys ps) \<subseteq> set prompt_catalog \<Longrightarrow> prompts_ok (save_prompts (s\<lparr>s_prompts := ps\<rparr>))"
  by (simp add: prompts_ok_def save_prompts_def)

lemma prompts_ok_ops:
  "prompts_ok s \<Longrightarrow> prompts_ok (snd (set_prompt k v s))"
  "prompts_ok s \<Longrightarrow> prompts_ok (delete_prompt k s)"
  "prompts_ok (delete_all_prompts s)"
  by (auto simp: set_prompt_def delete_prompt_def delete_all_prompts_def prompts_ok_def [of s]
      intro!: prompts_ok_save simp del: set_map)

lemma map_of_sort: "distinct (keys m) \<Longrightarrow> map_of (sort_key fst m) = map_of m"
proof -
  assume d: "distinct (keys m)"
  have "distinct (keys (sort_key fst m))"
    using d by (simp add: map_sort_key)
  then show ?thesis by (metis d map_of_inject_set set_sort)
qed

text \<open>Prompt overrides behave as overrides through restarts: after setting one its text is the
  effective body of its key, after deleting it the compiled body is back, no other key changes,
  and a restart gives the same bodies
  as before it.\<close>

lemma prompt_overrides:
  assumes "prompts_ok s" "k \<in> set prompt_catalog"
  shows "get_prompt dflt (snd (set_prompt k v s)) j = (if j = k then v else get_prompt dflt s j) \<and>
    get_prompt dflt (delete_prompt k s) j = (if j = k then get_or [] dflt k else get_prompt dflt s j) \<and>
    get_prompt dflt (load_prompts s) j = get_prompt dflt s j \<and>
    prompts_ok (snd (set_prompt k v s)) \<and> prompts_ok (delete_prompt k s)"
proof -
  have "filter (\<lambda>p. fst p \<in> set prompt_catalog) (sort_key fst (s_prompts s)) = sort_key fst (s_prompts s)"
    using assms(1) by (auto simp: prompts_ok_def filter_id_conv)
  then have "get_prompt dflt (load_prompts s) j = get_prompt dflt s j"
    using assms(1) by (simp add: get_prompt_def load_prompts_def prompts_ok_def map_of_sort)
  moreover have
    "get_prompt dflt (snd (set_prompt k v s)) j = (if j = k then v else get_prompt dflt s j)"
    "get_prompt dflt (delete_prompt k s) j = (if j = k then get_or [] dflt k else get_prompt dflt s j)"
    using assms(2) by (simp_all add: set_prompt_def delete_prompt_def get_prompt_def save_prompts_def)
  ultimately show ?thesis using prompts_ok_ops(1,2) [OF assms(1)] by blast
qed

lemma prompt_overrides_witness:
  "get_prompt [(''tool.bus_dm'', ''send'')] (delete_prompt ''tool.bus_dm''
     (snd (set_prompt ''tool.bus_dm'' ''write'' empty_store))) ''tool.bus_dm'' = ''send''"
proof -
  have "prompts_ok (snd (set_prompt ''tool.bus_dm'' ''write'' empty_store))" by code_simp
  moreover have "''tool.bus_dm'' \<in> set prompt_catalog" by code_simp
  ultimately show ?thesis
    using prompt_overrides [of "snd (set_prompt ''tool.bus_dm'' ''write'' empty_store)"
        "''tool.bus_dm''" "[(''tool.bus_dm'', ''send'')]" "[]" "''tool.bus_dm''"]
    by simp
qed

end
