(* ===== verification/Fleets.thy ===== *)
theory Fleets
  imports Macros
begin

section \<open>Fleets\<close>

text \<open>
  \<open>internal/server/fleet.go\<close> and its handlers: named bundles of commands. A fleet is the list of
  its agents, an envelope a version and a map of fleets.
\<close>

definition max_fleets :: nat where "max_fleets = 32"
definition max_fleet_agents :: nat where "max_fleet_agents = 16"
definition max_fleet_command :: nat where "max_fleet_command = 16 * 1024"

datatype fleet_error =
    FleetNameInvalid string
  | TooManyFleetAgents string
  | FleetCommandRequired string nat
  | FleetCommandTooLarge string nat
  | FleetWrapRequired string nat
  | TooManyFleets
  | FleetVersion int
  | FleetImportLimit

type_synonym fleets = "(string, fleet_agent list) table"

subsection \<open>Validation\<close>

definition fleet_char :: "char \<Rightarrow> bool" where
  "fleet_char c \<longleftrightarrow> between 97 122 c \<or> between 48 57 c \<or> c \<in> set ''_.-''"

definition fleet_name_ok :: "string \<Rightarrow> bool" where
  "fleet_name_ok n =
     (case n of
        [] \<Rightarrow> False
      | c # cs \<Rightarrow> (between 97 122 c \<or> between 48 57 c) \<and> length cs \<le> 63 \<and> list_all fleet_char cs)"

definition set_default :: "bool option \<Rightarrow> bool option" where
  "set_default b = (case b of None \<Rightarrow> Some True | Some v \<Rightarrow> Some v)"

definition normalize_fleet :: "fleet_agent list \<Rightarrow> fleet_agent list" where
  "normalize_fleet fl =
     map (\<lambda>a. a\<lparr>fa_wrap := set_default (fa_wrap a), fa_auto_cwd := set_default (fa_auto_cwd a)\<rparr>) fl"

definition fleet_agent_bool :: "bool option \<Rightarrow> bool" where
  "fleet_agent_bool b = (b = None \<or> b = Some True)"

fun fleet_agents_fault :: "string \<Rightarrow> nat \<Rightarrow> fleet_agent list \<Rightarrow> fleet_error option" where
  "fleet_agents_fault n i [] = None"
| "fleet_agents_fault n i (a # as) =
     (if trim_space (fa_command a) = [] then Some (FleetCommandRequired n i)
      else if max_fleet_command < length (fa_command a) then Some (FleetCommandTooLarge n i)
      else if \<not> fleet_agent_bool (fa_wrap a) then Some (FleetWrapRequired n i)
      else fleet_agents_fault n (Suc i) as)"

definition validate_fleet :: "string \<Rightarrow> fleet_agent list \<Rightarrow> fleet_error option" where
  "validate_fleet n fl =
     (if \<not> fleet_name_ok n then Some (FleetNameInvalid n)
      else if max_fleet_agents < length fl then Some (TooManyFleetAgents n)
      else fleet_agents_fault n 0 fl)"

fun fleets_fault :: "fleets \<Rightarrow> fleet_error option" where
  "fleets_fault [] = None"
| "fleets_fault ((n, fl) # fs) =
     (case validate_fleet n fl of Some e \<Rightarrow> Some e | None \<Rightarrow> fleets_fault fs)"

definition normalize_fleets :: "fleets \<Rightarrow> fleets" where
  "normalize_fleets fs = map_vals (\<lambda>_. normalize_fleet) fs"

definition validate_fleets :: "int \<Rightarrow> fleets \<Rightarrow> fleet_error option" where
  "validate_fleets version fs =
     (if max_fleets < length fs then Some TooManyFleets
      else if version \<noteq> 0 \<and> version \<noteq> 1 then Some (FleetVersion version)
      else fleets_fault (normalize_fleets fs))"

subsection \<open>Operations\<close>

definition persist_fleets :: "store \<Rightarrow> store" where
  "persist_fleets s = s\<lparr>s_db := (s_db s)\<lparr>db_fleets := sort_key fst (s_fleets s)\<rparr>\<rparr>"

definition broadcast_fleets_updated :: "store \<Rightarrow> store" where
  "broadcast_fleets_updated s = broadcast_meta FleetsUpdated s"

text \<open>Rows that do not validate are ignored as a whole.\<close>

definition load_fleets :: "store \<Rightarrow> store" where
  "load_fleets s =
     (let fs = normalize_fleets (db_fleets (s_db s))
      in if validate_fleets 1 fs = None then s\<lparr>s_fleets := fs\<rparr> else s)"

definition get_fleet :: "string \<Rightarrow> store \<Rightarrow> fleet_agent list option" where
  "get_fleet n s = map_of (s_fleets s) n"

definition replace_fleets :: "int \<Rightarrow> fleets \<Rightarrow> store \<Rightarrow> (fleet_error + unit) \<times> store" where
  "replace_fleets version fs s =
     (case validate_fleets version (normalize_fleets fs) of
        Some e \<Rightarrow> (Inl e, s)
      | None \<Rightarrow>
          (Inr (), broadcast_fleets_updated (persist_fleets
             (s\<lparr>s_fleets := normalize_fleets (normalize_fleets fs)\<rparr>))))"

definition set_fleet :: "string \<Rightarrow> fleet_agent list \<Rightarrow> store \<Rightarrow> (fleet_error + unit) \<times> store" where
  "set_fleet n fl s =
     (case validate_fleet n fl of
        Some e \<Rightarrow> (Inl e, s)
      | None \<Rightarrow>
          if \<not> has_key (s_fleets s) n \<and> max_fleets \<le> length (s_fleets s) then (Inl TooManyFleets, s)
          else (Inr (), broadcast_fleets_updated (persist_fleets
                  (s\<lparr>s_fleets := put n (normalize_fleet fl) (s_fleets s)\<rparr>))))"

definition delete_fleet :: "string \<Rightarrow> store \<Rightarrow> bool \<times> store" where
  "delete_fleet n s =
     (if \<not> has_key (s_fleets s) n then (False, s)
      else (True, broadcast_fleets_updated (persist_fleets (s\<lparr>s_fleets := del n (s_fleets s)\<rparr>))))"

definition clear_fleets :: "store \<Rightarrow> store" where
  "clear_fleets s = broadcast_fleets_updated (s\<lparr>s_fleets := [], s_db := (s_db s)\<lparr>db_fleets := []\<rparr>\<rparr>)"

text \<open>
  The loop of \<open>uniqueFleetNameLocked\<close> counts up from 2 without a bound. Here it has the fuel
  \<open>length existing + 1\<close>: that many candidates are pairwise different, so one of them is free.
\<close>

definition fleet_candidate :: "string \<Rightarrow> nat \<Rightarrow> string" where
  "fleet_candidate name i =
     (let suffix = CHR ''-'' # digits_of i;
          base = (if 64 < length name + length suffix then take (64 - length suffix) name else name)
      in base @ suffix)"

fun next_free :: "fleets \<Rightarrow> string \<Rightarrow> nat \<Rightarrow> nat \<Rightarrow> string option" where
  "next_free existing name i 0 = None"
| "next_free existing name i (Suc fuel) =
     (if has_key existing (fleet_candidate name i) then next_free existing name (Suc i) fuel
      else Some (fleet_candidate name i))"

definition unique_fleet_name :: "fleets \<Rightarrow> string \<Rightarrow> string option" where
  "unique_fleet_name existing name =
     (if \<not> has_key existing name then Some name
      else next_free existing name 2 (length existing + 1))"

definition import_one :: "string \<times> fleet_agent list \<Rightarrow> fleets \<times> fleets \<Rightarrow> fleets \<times> fleets" where
  "import_one nf acc =
     (case unique_fleet_name (fst acc) (fst nf) of
        None \<Rightarrow> acc
      | Some n \<Rightarrow> (put n (normalize_fleet (snd nf)) (fst acc), put n (normalize_fleet (snd nf)) (snd acc)))"

definition import_fleets :: "int \<Rightarrow> fleets \<Rightarrow> store \<Rightarrow> (fleet_error + fleets) \<times> store" where
  "import_fleets version fs s =
     (let env = normalize_fleets fs in
      case validate_fleets version env of
        Some e \<Rightarrow> (Inl e, s)
      | None \<Rightarrow>
          if max_fleets < length (s_fleets s) + length env then (Inl FleetImportLimit, s)
          else
            let (all, imported) = fold import_one (sort_key fst env) (s_fleets s, [])
            in (Inr imported, broadcast_fleets_updated (persist_fleets (s\<lparr>s_fleets := all\<rparr>))))"

subsection \<open>The search for a free name ends\<close>

lemma digit_not_dash: "k < 10 \<Longrightarrow> char_of (48 + k :: nat) \<noteq> CHR ''-''"
proof -
  assume "k < 10"
  then have "byte (char_of (48 + k)) = 48 + k" by simp
  moreover have "byte (CHR ''-'') = 45" by (simp add: byte_def)
  ultimately have "byte (char_of (48 + k)) \<noteq> byte (CHR ''-'')" by linarith
  then show ?thesis by metis
qed

lemma digits_no_dash: "CHR ''-'' \<notin> set (digits_of n)"
proof (induction n rule: digits_of.induct)
  case (1 n)
  then show ?case
    using digit_not_dash [of n] digit_not_dash [of "n mod 10"] by (subst digits_of.simps) auto
qed

lemma fleet_candidate_inject: "fleet_candidate name i = fleet_candidate name j \<longleftrightarrow> i = j"
proof -
  have "takeWhile (\<lambda>c. c \<noteq> CHR ''-'') (rev (fleet_candidate name i)) = rev (digits_of i)" for i
  proof -
    obtain base where "fleet_candidate name i = base @ CHR ''-'' # digits_of i"
      by (simp add: fleet_candidate_def Let_def)
    moreover have "\<forall>c \<in> set (rev (digits_of i)). c \<noteq> CHR ''-''" using digits_no_dash by auto
    ultimately show ?thesis by (simp add: takeWhile_tail)
  qed
  then show ?thesis by (metis digits_of_inject rev_rev_ident)
qed

lemma next_free_None:
  "next_free existing name i n = None \<Longrightarrow> j \<in> {i..<i + n} \<Longrightarrow> has_key existing (fleet_candidate name j)"
proof (induction existing name i n rule: next_free.induct)
  case (2 existing name i fuel)
  then show ?case by (cases "j = i") (auto split: if_splits)
qed simp

lemma next_free_Some:
  "next_free existing name i n = Some c \<Longrightarrow>
   \<not> has_key existing c \<and> (\<exists>j \<in> {i..<i + n}. c = fleet_candidate name j)"
proof (induction existing name i n rule: next_free.induct)
  case (2 existing name i fuel)
  show ?case
  proof (cases "has_key existing (fleet_candidate name i)")
    case True
    then obtain j where "\<not> has_key existing c" "j \<in> {Suc i..<Suc i + fuel}" "c = fleet_candidate name j"
      using 2 by auto
    then show ?thesis by (intro conjI bexI [of _ j]) auto
  next
    case False
    then show ?thesis using 2(2) by auto
  qed
qed simp

lemma next_free_total: "next_free existing name i (length existing + 1) \<noteq> None"
proof
  let ?n = "length existing + 1"
  assume none: "next_free existing name i ?n = None"
  have "fleet_candidate name ` {i..<i + ?n} \<subseteq> set (keys existing)"
  proof
    fix c assume "c \<in> fleet_candidate name ` {i..<i + ?n}"
    then obtain j where "j \<in> {i..<i + ?n}" "c = fleet_candidate name j" by auto
    then show "c \<in> set (keys existing)"
      using next_free_None [OF none] by (simp add: has_key_iff del: set_map)
  qed
  then have "card (fleet_candidate name ` {i..<i + ?n}) \<le> card (set (keys existing))"
    by (intro card_mono) auto
  moreover have "card (fleet_candidate name ` {i..<i + ?n}) = ?n"
    by (subst card_image) (auto simp: inj_on_def fleet_candidate_inject)
  moreover have "card (set (keys existing)) \<le> length existing"
    using card_length [of "keys existing"] by simp
  ultimately show False by simp
qed

lemma unique_fleet_name:
  "\<exists>c. unique_fleet_name existing name = Some c \<and> \<not> has_key existing c \<and>
     (c = name \<or> (\<exists>j. 2 \<le> j \<and> j < length existing + 3 \<and> c = fleet_candidate name j))"
proof (cases "has_key existing name")
  case True
  then obtain c where c: "next_free existing name 2 (length existing + 1) = Some c"
    using next_free_total by blast
  from next_free_Some [OF this] obtain j where "\<not> has_key existing c" "2 \<le> j" "j < length existing + 3"
    "c = fleet_candidate name j"
    by auto
  then show ?thesis using True c by (auto simp: unique_fleet_name_def)
qed (simp add: unique_fleet_name_def)

subsection \<open>The invariant of the fleets\<close>

definition fleet_table_ok :: "fleets \<Rightarrow> bool" where
  "fleet_table_ok fs =
     (distinct (keys fs) \<and> (\<forall>(n, fl) \<in> set fs. validate_fleet n fl = None \<and> normalize_fleet fl = fl))"

definition fleets_ok :: "store \<Rightarrow> bool" where
  "fleets_ok s =
     (fleet_table_ok (s_fleets s) \<and> length (s_fleets s) \<le> max_fleets \<and>
      db_fleets (s_db s) = sort_key fst (s_fleets s))"

lemma normalize_idem [simp]: "normalize_fleet (normalize_fleet fl) = normalize_fleet fl"
  by (simp add: normalize_fleet_def set_default_def split: option.split)

lemma normalize_fleets_idem [simp]: "normalize_fleets (normalize_fleets fs) = normalize_fleets fs"
  by (simp add: normalize_fleets_def map_vals_map_vals)

lemma fault_normalize: "fleet_agents_fault n i (normalize_fleet fl) = fleet_agents_fault n i fl"
  by (induction n i fl rule: fleet_agents_fault.induct)
     (auto simp: normalize_fleet_def set_default_def fleet_agent_bool_def split: option.splits)

lemma validate_normalize [simp]: "validate_fleet n (normalize_fleet fl) = validate_fleet n fl"
  by (simp add: validate_fleet_def fault_normalize) (simp add: normalize_fleet_def)

lemma fleets_fault_None: "fleets_fault fs = None \<longleftrightarrow> (\<forall>(n, fl) \<in> set fs. validate_fleet n fl = None)"
  by (induction fs rule: fleets_fault.induct) (auto split: option.splits)

lemma validate_fleets_None:
  assumes "validate_fleets v fs = None" "distinct (keys fs)"
  shows "fleet_table_ok (normalize_fleets fs)" "length fs \<le> max_fleets"
proof -
  have "fleets_fault (normalize_fleets fs) = None" "length fs \<le> max_fleets"
    using assms(1) by (auto simp: validate_fleets_def split: if_splits)
  then show "fleet_table_ok (normalize_fleets fs)" "length fs \<le> max_fleets"
    using assms(2) by (auto simp: fleet_table_ok_def fleets_fault_None normalize_fleets_def snd_in_map_vals)
qed

lemma fleet_table_put:
  "fleet_table_ok fs \<Longrightarrow> validate_fleet n fl = None \<Longrightarrow> fleet_table_ok (put n (normalize_fleet fl) fs)"
  by (auto simp: fleet_table_ok_def dest!: in_set_putD)

lemma fleet_table_del: "fleet_table_ok fs \<Longrightarrow> fleet_table_ok (del n fs)"
  by (auto simp: fleet_table_ok_def)

lemma digit_char: "c \<in> set (digits_of n) \<Longrightarrow> between 48 57 c"
proof (induction n rule: digits_of.induct)
  case (1 n)
  have "between 48 57 (char_of (48 + k))" if "k < 10" for k :: nat
    using that by (simp add: between_def)
  then show ?case
    using 1 by (subst (asm) digits_of.simps) (auto split: if_splits)
qed

lemma digits_short: "n < 100 \<Longrightarrow> length (digits_of n) \<le> 2"
  by (subst digits_of.simps, subst digits_of.simps) auto

lemma fleet_candidate_ok: "fleet_name_ok name \<Longrightarrow> i < 100 \<Longrightarrow> fleet_name_ok (fleet_candidate name i)"
proof -
  assume n: "fleet_name_ok name" and i: "i < 100"
  let ?suf = "CHR ''-'' # digits_of i"
  let ?m = "if 64 < length name + length ?suf then 64 - length ?suf else length name"
  obtain c cs where name: "name = c # cs" using n by (cases name) (auto simp: fleet_name_ok_def)
  have "length ?suf \<le> 3" using digits_short [OF i] by simp
  then have m: "0 < ?m" "?m + length ?suf \<le> 64" using name by auto
  have e: "fleet_candidate name i = c # take (?m - 1) cs @ ?suf"
    using m(1) by (cases ?m) (auto simp: fleet_candidate_def Let_def name split: if_splits)
  have "list_all fleet_char (take (?m - 1) cs @ ?suf)"
    using n digit_char [of _ i]
    by (auto simp: name fleet_name_ok_def list_all_iff fleet_char_def dest: in_set_takeD)
  moreover have "length (take (?m - 1) cs @ ?suf) \<le> 63" using m by simp
  ultimately show ?thesis unfolding e using n name by (simp add: fleet_name_ok_def)
qed

lemma unique_name_valid:
  "fleet_name_ok name \<Longrightarrow> length existing \<le> max_fleets \<Longrightarrow> unique_fleet_name existing name = Some c \<Longrightarrow>
   fleet_name_ok c"
  using unique_fleet_name [of existing name] fleet_candidate_ok [of name] by (auto simp: max_fleets_def)

lemma validate_other_name: "validate_fleet n fl = None \<Longrightarrow> fleet_name_ok c \<Longrightarrow> validate_fleet c fl = None"
proof -
  have "fleet_agents_fault n i fl = None \<Longrightarrow> fleet_agents_fault c i fl = None" for i
    by (induction n i fl rule: fleet_agents_fault.induct) (auto split: if_splits)
  then show "validate_fleet n fl = None \<Longrightarrow> fleet_name_ok c \<Longrightarrow> ?thesis"
    by (auto simp: validate_fleet_def split: if_splits)
qed

subsection \<open>Importing\<close>

lemma put_fresh: "\<not> has_key m k \<Longrightarrow> put k v m = m @ [(k, v)]"
  by (induction m) (auto simp: has_key_def)

lemma import_one_eq:
  "\<exists>c. \<not> has_key all c \<and> unique_fleet_name all n = Some c \<and>
     import_one (n, fl) (all, imp) = (put c (normalize_fleet fl) all, put c (normalize_fleet fl) imp)"
  using unique_fleet_name [of all n] by (auto simp: import_one_def)

lemma import_fold:
  assumes "fold import_one xs (all, imp) = (all', imp')" "length all + length xs \<le> max_fleets"
    and "fleet_table_ok all" "set (keys imp) \<subseteq> set (keys all)"
    and "\<forall>(n, fl) \<in> set xs. validate_fleet n fl = None"
  shows "fleet_table_ok all' \<and> length all' = length all + length xs \<and>
    (\<exists>new. all' = all @ new \<and> imp' = imp @ new \<and> map snd new = map (normalize_fleet \<circ> snd) xs)"
  using assms
proof (induction xs arbitrary: all imp)
  case (Cons x xs)
  obtain n fl where x: "x = (n, fl)" by (cases x)
  obtain c where c: "\<not> has_key all c" "unique_fleet_name all n = Some c"
    "import_one x (all, imp) = (put c (normalize_fleet fl) all, put c (normalize_fleet fl) imp)"
    using import_one_eq [of all n fl imp] x by blast
  let ?p = "[(c, normalize_fleet fl)]"
  have fresh: "\<not> has_key imp c" using c(1) Cons.prems(4) by (auto simp: has_key_iff simp del: set_map)
  have put: "put c (normalize_fleet fl) all = all @ ?p" "put c (normalize_fleet fl) imp = imp @ ?p"
    using c(1) fresh by (simp_all add: put_fresh)
  have v: "validate_fleet n fl = None" using Cons.prems(5) x by auto
  have "fleet_name_ok c"
    using unique_name_valid [OF _ _ c(2)] v Cons.prems(2)
    by (auto simp: validate_fleet_def split: if_splits)
  then have "fleet_table_ok (put c (normalize_fleet fl) all)"
    by (rule fleet_table_put [OF Cons.prems(3) validate_other_name [OF v]])
  then have ok: "fleet_table_ok (all @ ?p)" by (simp only: put(1))
  have f: "fold import_one xs (all @ ?p, imp @ ?p) = (all', imp')"
    using Cons.prems(1) c(3) put by simp
  have len: "length (all @ ?p) + length xs \<le> max_fleets"
    and sub: "set (keys (imp @ ?p)) \<subseteq> set (keys (all @ ?p))"
    and vs: "\<forall>(n, fl) \<in> set xs. validate_fleet n fl = None"
    using Cons.prems(2,4,5) by auto
  from Cons.IH [OF f len ok sub vs] obtain new where "fleet_table_ok all'"
    "length all' = length (all @ ?p) + length xs" "all' = (all @ ?p) @ new" "imp' = (imp @ ?p) @ new"
    "map snd new = map (normalize_fleet \<circ> snd) xs"
    by blast
  then show ?case using x by (intro conjI exI [of _ "?p @ new"]) auto
qed simp

lemma fleets_ok_store:
  "fleet_table_ok fs \<Longrightarrow> length fs \<le> max_fleets \<Longrightarrow>
   fleets_ok (broadcast_fleets_updated (persist_fleets (s\<lparr>s_fleets := fs\<rparr>)))"
  by (simp add: fleets_ok_def persist_fleets_def broadcast_fleets_updated_def)

text \<open>C40. Importing fleets merges: a request that is refused changes nothing; otherwise every fleet
  of the request is stored with its agents, in the order of the names, under a name that was free
  (the search for it always ends), the fleets there before keep their names and agents, and the
  result stays within the limit of 32 fleets with valid names and commands.\<close>

theorem import_fleets_merges:
  assumes "import_fleets v fs s = (res, s')" "fleets_ok s" "distinct (keys fs)"
  shows "case res of
      Inl _ \<Rightarrow> s' = s
    | Inr imported \<Rightarrow>
        s_fleets s' = s_fleets s @ imported \<and> distinct (keys (s_fleets s')) \<and>
        map snd imported = map snd (sort_key fst (normalize_fleets fs)) \<and>
        length (s_fleets s') = length (s_fleets s) + length fs \<and> fleets_ok s'"
proof (cases "validate_fleets v (normalize_fleets fs) \<noteq> None \<or>
    max_fleets < length (s_fleets s) + length (normalize_fleets fs)")
  case True
  then show ?thesis using assms(1) by (auto simp: import_fleets_def Let_def split: option.splits)
next
  case False
  let ?xs = "sort_key fst (normalize_fleets fs)"
  obtain all imp where f: "fold import_one ?xs (s_fleets s, []) = (all, imp)" by force
  have r: "res = Inr imp" "s' = broadcast_fleets_updated (persist_fleets (s\<lparr>s_fleets := all\<rparr>))"
    using assms(1) False f by (auto simp: import_fleets_def Let_def)
  have len: "length (normalize_fleets fs) = length fs" by (simp add: normalize_fleets_def map_vals_def)
  have keys_norm: "keys (normalize_fleets fs) = keys fs" by (simp add: normalize_fleets_def)
  have "\<forall>(n, fl) \<in> set ?xs. validate_fleet n fl = None"
    using False validate_fleets_None(1) [of v "normalize_fleets fs"] assms(3) keys_norm
    by (auto simp: fleet_table_ok_def)
  from import_fold [OF f _ _ _ this] assms(2) False len
  obtain new where new: "fleet_table_ok all" "length all = length (s_fleets s) + length fs"
    "all = s_fleets s @ new" "imp = new" "map snd new = map (normalize_fleet \<circ> snd) ?xs"
    by (auto simp: fleets_ok_def)
  have "map snd new = map snd ?xs"
    using new(5) by (auto simp: normalize_fleets_def snd_in_map_vals)
  moreover have "fleets_ok s'" unfolding r(2)
    using new(1,2) False len by (intro fleets_ok_store) auto
  moreover have "s_fleets s' = all"
    by (simp add: r(2) broadcast_fleets_updated_def persist_fleets_def)
  ultimately show ?thesis using r(1) new by (simp add: fleet_table_ok_def)
qed

lemma import_fleets_merges_witness:
  "s_fleets (snd (import_fleets 1 [(''ci'', [])] (snd (set_fleet ''ci'' [] empty_store)))) =
     [(''ci'', []), (''ci-2'', [])] \<and>
   fleets_ok (snd (import_fleets 1 [(''ci'', [])] (snd (set_fleet ''ci'' [] empty_store))))"
proof -
  let ?s = "snd (set_fleet ''ci'' [] empty_store)" and ?fs = "[(''ci'', [] :: fleet_agent list)]"
  have "import_fleets 1 ?fs ?s = (Inr [(''ci-2'', [])], snd (import_fleets 1 ?fs ?s))" by code_simp
  moreover have "fleets_ok ?s" by code_simp
  moreover have "distinct (keys ?fs)" by code_simp
  moreover have "s_fleets (snd (import_fleets 1 ?fs ?s)) = [(''ci'', []), (''ci-2'', [])]" by code_simp
  ultimately show ?thesis
    using import_fleets_merges [of 1 ?fs ?s "Inr [(''ci-2'', [])]" "snd (import_fleets 1 ?fs ?s)", unfolded sum.case]
    by blast
qed

subsection \<open>Every operation keeps the invariant\<close>

lemma store_ok_fleets [inv, simp]:
  "store_ok (persist_fleets s) = store_ok s" "store_ok (s\<lparr>s_fleets := m\<rparr>) = store_ok s"
  "store_ok (broadcast_fleets_updated s) = store_ok s" "store_ok (load_fleets s) = store_ok s"
  "store_ok (clear_fleets s) = store_ok s"
  by (rule store_ok_cong; simp add: persist_fleets_def broadcast_fleets_updated_def load_fleets_def
      clear_fleets_def Let_def)+

lemma fleet_ops_ok [inv]:
  "store_ok (snd (replace_fleets v fs s)) = store_ok s" "store_ok (snd (set_fleet n fl s)) = store_ok s"
  "store_ok (snd (delete_fleet n s)) = store_ok s" "store_ok (snd (import_fleets v fs s)) = store_ok s"
  by (simp_all add: replace_fleets_def set_fleet_def delete_fleet_def import_fleets_def Let_def
      split: option.split prod.split)

lemma fleets_ok_ops:
  assumes "fleets_ok s"
  shows "distinct (keys fs) \<Longrightarrow> fleets_ok (snd (replace_fleets v fs s))"
    "fleets_ok (snd (set_fleet n fl s))" "fleets_ok (snd (delete_fleet n s))" "fleets_ok (clear_fleets s)"
proof -
  show "fleets_ok (snd (replace_fleets v fs s))" if "distinct (keys fs)"
    using assms that validate_fleets_None [of v "normalize_fleets fs"]
    by (auto simp: replace_fleets_def normalize_fleets_def map_vals_def comp_def
        intro!: fleets_ok_store split: option.split)
  show "fleets_ok (snd (set_fleet n fl s))"
    using assms fleet_table_put [of "s_fleets s" n fl]
    by (auto simp: set_fleet_def fleets_ok_def [of s] length_put intro!: fleets_ok_store split: option.split)
  show "fleets_ok (snd (delete_fleet n s))"
    using assms fleet_table_del [of "s_fleets s" n] length_del_le [of n "s_fleets s"]
    by (auto simp: delete_fleet_def fleets_ok_def [of s] intro!: fleets_ok_store)
  show "fleets_ok (clear_fleets s)"
    by (simp add: clear_fleets_def fleets_ok_def broadcast_fleets_updated_def fleet_table_ok_def)
qed

text \<open>The fleets come back from their table as they were.\<close>

lemma fleets_reload:
  assumes "fleets_ok s"
  shows "s_fleets (load_fleets s) = sort_key fst (s_fleets s)"
proof -
  have fix1: "normalize_fleets (sort_key fst (s_fleets s)) = sort_key fst (s_fleets s)"
    unfolding normalize_fleets_def
    using assms by (intro map_vals_id) (auto simp: fleets_ok_def fleet_table_ok_def)
  have "validate_fleets 1 (sort_key fst (s_fleets s)) = None"
    using assms by (auto simp: validate_fleets_def fix1 fleets_fault_None fleets_ok_def fleet_table_ok_def)
  then show ?thesis using assms by (simp add: load_fleets_def fleets_ok_def fix1)
qed

end
