(* ===== verification/Sounds.thy ===== *)
theory Sounds
  imports Attachments Fleets
begin

section \<open>Notification sounds\<close>

text \<open>
  \<open>internal/server/store_sounds.go\<close> and the handlers under \<open>/api/sounds\<close>: the index of the uploaded
  files. The files themselves are left out; an upload is its file name and its bytes.
\<close>

definition max_sound_files :: nat where "max_sound_files = 10"
definition max_sound_total :: int where "max_sound_total = 20 * 1024 * 1024"
definition max_sound_file :: nat where "max_sound_file = 1024 * 1024"

datatype sound_error = SoundTooLarge | SoundTypeRefused | SoundHeaderInvalid | SoundLimit | SoundTotalLimit

subsection \<open>What is accepted\<close>

definition has_suffix :: "string \<Rightarrow> string \<Rightarrow> bool" where
  "has_suffix s suf = has_prefix (rev s) (rev suf)"

definition valid_mp3_header :: "string \<Rightarrow> bool" where
  "valid_mp3_header d =
     (4 \<le> length d \<and> (take 3 d = ''ID3'' \<or> byte (d ! 0) = 255 \<and> 224 \<le> byte (d ! 1)))"

definition valid_wav_header :: "string \<Rightarrow> bool" where
  "valid_wav_header d = (12 \<le> length d \<and> take 4 d = ''RIFF'' \<and> take 4 (drop 8 d) = ''WAVE'')"

definition sound_name :: "string \<Rightarrow> string \<Rightarrow> string" where
  "sound_name filename ext =
     (let b = base_name filename; name = (if b = ''.'' \<or> b = [] then ''custom.'' @ ext else b)
      in if 64 < rune_count name then truncate_runes name 64 else name)"

text \<open>The display name and the extension of an accepted upload.\<close>

definition accept_sound :: "string \<Rightarrow> string \<Rightarrow> sound_error + string \<times> string" where
  "accept_sound filename d =
     (let lower = to_lower filename; wav = has_suffix lower ''.wav''; mp3 = has_suffix lower ''.mp3'';
          ext = (if wav then ''wav'' else ''mp3'')
      in if max_sound_file < length d then Inl SoundTooLarge
         else if \<not> mp3 \<and> \<not> wav then Inl SoundTypeRefused
         else if (if wav then \<not> valid_wav_header d else \<not> valid_mp3_header d) then Inl SoundHeaderInvalid
         else Inr (sound_name filename ext, ext))"

subsection \<open>The index\<close>

text \<open>The rows are keyed by the uuid; they are read back in its order.\<close>

definition sound_rows :: "sound_entry list \<Rightarrow> sound_entry list" where
  "sound_rows ss = map snd (sort_key fst (fold (\<lambda>e. put (so_uuid e) e) ss []))"

definition persist_sounds :: "store \<Rightarrow> store" where
  "persist_sounds s = s\<lparr>s_db := (s_db s)\<lparr>db_sounds := sound_rows (s_sounds s)\<rparr>\<rparr>"

definition load_sounds :: "store \<Rightarrow> store" where
  "load_sounds s = s\<lparr>s_sounds := filter (\<lambda>e. so_uuid e \<noteq> []) (db_sounds (s_db s))\<rparr>"

definition sound_total :: "sound_entry list \<Rightarrow> int" where
  "sound_total ss = sum_list (map so_size ss)"

definition sound_fault :: "nat \<Rightarrow> store \<Rightarrow> sound_error option" where
  "sound_fault n s =
     (if max_sound_files \<le> length (s_sounds s) then Some SoundLimit
      else if max_sound_total < sound_total (s_sounds s) + int n then Some SoundTotalLimit
      else None)"

text \<open>
  \<open>addSound\<close> checks the limits, writes the file without the lock, and checks them again before it
  appends: \<open>commit_sound\<close> is what happens under the second lock.
\<close>

definition commit_sound ::
    "int \<Rightarrow> string \<Rightarrow> string \<Rightarrow> nat \<Rightarrow> string \<Rightarrow> store \<Rightarrow> (sound_error + sound_entry) \<times> store" where
  "commit_sound t uuid name n ext s =
     (case sound_fault n s of
        Some e \<Rightarrow> (Inl e, s)
      | None \<Rightarrow>
          let e = \<lparr>so_uuid = uuid, so_name = name, so_size = int n, so_uploaded = stamp_of t, so_ext = ext\<rparr>
          in (Inr e, persist_sounds (s\<lparr>s_sounds := s_sounds s @ [e]\<rparr>)))"

definition add_sound ::
    "int \<Rightarrow> string \<Rightarrow> string \<Rightarrow> nat \<Rightarrow> string \<Rightarrow> store \<Rightarrow> (sound_error + sound_entry) \<times> store" where
  "add_sound t uuid name n ext s =
     (case sound_fault n s of
        Some e \<Rightarrow> (Inl e, s)
      | None \<Rightarrow> commit_sound t uuid name n ext s)"

definition post_sound ::
    "int \<Rightarrow> string \<Rightarrow> string \<Rightarrow> string \<Rightarrow> store \<Rightarrow> (sound_error + sound_entry) \<times> store" where
  "post_sound t uuid filename d s =
     (case accept_sound filename d of
        Inl e \<Rightarrow> (Inl e, s)
      | Inr (name, ext) \<Rightarrow> add_sound t uuid name (length d) ext s)"

fun drop_sound :: "string \<Rightarrow> sound_entry list \<Rightarrow> sound_entry list" where
  "drop_sound u [] = []"
| "drop_sound u (e # es) = (if so_uuid e = u then es else e # drop_sound u es)"

definition delete_sound :: "string \<Rightarrow> store \<Rightarrow> bool \<times> store" where
  "delete_sound u s =
     (if \<not> list_ex (\<lambda>e. so_uuid e = u) (s_sounds s) then (False, s)
      else (True, persist_sounds (s\<lparr>s_sounds := drop_sound u (s_sounds s)\<rparr>)))"

definition sound_ext :: "string \<Rightarrow> store \<Rightarrow> string option" where
  "sound_ext u s =
     map_option (\<lambda>e. if so_ext e = [] then ''mp3'' else so_ext e) (find (\<lambda>e. so_uuid e = u) (s_sounds s))"

subsection \<open>The limits hold under any interleaving\<close>

definition sounds_ok :: "store \<Rightarrow> bool" where
  "sounds_ok s =
     (length (s_sounds s) \<le> max_sound_files \<and> sound_total (s_sounds s) \<le> max_sound_total \<and>
      (\<forall>e \<in> set (s_sounds s). 0 \<le> so_size e \<and> so_size e \<le> int max_sound_file \<and>
         so_ext e \<in> {''mp3'', ''wav''} \<and> rune_count (so_name e) \<le> 64))"

lemma sound_frame [simp]: "s_sounds (persist_sounds s) = s_sounds s"
  by (simp add: persist_sounds_def)

lemma store_ok_sounds [inv, simp]:
  "store_ok (persist_sounds s) = store_ok s" "store_ok (s\<lparr>s_sounds := m\<rparr>) = store_ok s"
  "store_ok (load_sounds s) = store_ok s"
  by (rule store_ok_cong; simp add: persist_sounds_def load_sounds_def)+

lemma sound_ops_ok [inv]:
  "store_ok (snd (commit_sound t u n sz x s)) = store_ok s" "store_ok (snd (add_sound t u n sz x s)) = store_ok s"
  "store_ok (snd (post_sound t u f d s)) = store_ok s" "store_ok (snd (delete_sound u s)) = store_ok s"
  by (simp_all add: commit_sound_def add_sound_def post_sound_def delete_sound_def Let_def
      split: option.split sum.split prod.split)

lemma drop_sound_facts:
  "length (drop_sound u es) \<le> length es" "set (drop_sound u es) \<subseteq> set es"
  by (induction es) auto

lemma drop_sound_total: "\<forall>e \<in> set es. 0 \<le> so_size e \<Longrightarrow> sound_total (drop_sound u es) \<le> sound_total es"
  by (induction es) (auto simp: sound_total_def)

lemma sounds_ok_delete: "sounds_ok s \<Longrightarrow> sounds_ok (snd (delete_sound u s))"
  using drop_sound_facts [of u "s_sounds s"] drop_sound_total [of "s_sounds s" u]
  by (auto simp: delete_sound_def sounds_ok_def)

lemma accept_sound_facts:
  assumes "accept_sound filename d = Inr (name, ext)"
  shows "length d \<le> max_sound_file" "ext \<in> {''mp3'', ''wav''}" "rune_count name \<le> 64"
proof -
  have e: "name = sound_name filename ext" and "length d \<le> max_sound_file" "ext \<in> {''mp3'', ''wav''}"
    using assms by (auto simp: accept_sound_def Let_def split: if_splits)
  then show "length d \<le> max_sound_file" "ext \<in> {''mp3'', ''wav''}" by simp_all
  show "rune_count name \<le> 64"
    unfolding e sound_name_def Let_def
    using rune_count_truncate [of _ 64] by (simp add: not_less)
qed

lemma sounds_ok_commit:
  assumes "sounds_ok s" "accept_sound filename d = Inr (name, ext)"
  shows "sounds_ok (snd (commit_sound t u name (length d) ext s))"
  using assms accept_sound_facts [OF assms(2)]
  by (auto simp: commit_sound_def sound_fault_def sounds_ok_def sound_total_def Let_def)

text \<open>
  The steps of concurrent requests that change the index: the second half of an accepted upload,
  whatever its first half saw, and a deletion.
\<close>

datatype sound_event = CommitUpload int string string string | DeleteSound string

fun sound_step :: "sound_event \<Rightarrow> store \<Rightarrow> store" where
  "sound_step (CommitUpload t u filename d) s =
     (case accept_sound filename d of
        Inl _ \<Rightarrow> s | Inr (name, ext) \<Rightarrow> snd (commit_sound t u name (length d) ext s))"
| "sound_step (DeleteSound u) s = snd (delete_sound u s)"

interpretation sound_machine: invariant_machine sound_step sounds_ok
proof
  fix s x assume ok: "sounds_ok s"
  show "sounds_ok (sound_step x s)"
  proof (cases x)
    case (CommitUpload t u filename d)
    then show ?thesis
      using ok sounds_ok_commit [OF ok, of filename d]
      by (cases "accept_sound filename d") (auto split: prod.split)
  qed (simp add: sounds_ok_delete [OF ok])
qed

text \<open>The limits of the uploaded sounds are hard: however uploads and deletions interleave, never
  more than ten files of at most one megabyte each and twenty megabytes together are kept, each an
  accepted type with a name of at most 64 runes; and an upload alone is the same as its second
  half, so the early check only saves work.\<close>

lemma sound_limits:
  assumes "sounds_ok s"
  shows "sounds_ok (fold sound_step xs s) \<and> add_sound t u name n ext s = commit_sound t u name n ext s"
  using assms sound_machine.run_good by (simp add: add_sound_def commit_sound_def split: option.split)

lemma sound_limits_witness:
  "sounds_ok (fold sound_step
     [CommitUpload 0 ''u1'' ''a/ding.mp3'' ''ID3x'', CommitUpload 1 ''u2'' ''b.ogg'' ''OggS'',
      DeleteSound ''u1''] empty_store)"
proof -
  have "sounds_ok empty_store" by code_simp
  from sound_limits [OF this] show ?thesis by blast
qed

end
