(* ===== verification/Memory.thy ===== *)
theory Memory
  imports Reactions Settings "HOL-Library.Product_Lexorder" "HOL-Library.Multiset"
begin

section \<open>Memory and recall\<close>

text \<open>
  \<open>internal/server/memory.go\<close> and its handlers: short curated records in three scopes with a byte
  budget per scope and key, changed under a version number, and the search over the logs. The
  formatted clock reading and the fresh id of a record are parameters, and so is \<open>wordy\<close>, the
  Unicode classes letter and number on a rune.
\<close>

definition max_memory_runes :: nat where "max_memory_runes = 2000"
definition slow_harness_cap :: int where "slow_harness_cap = 2048"
definition max_recall_limit :: nat where "max_recall_limit = 10"
definition shared_notes_key :: string where "shared_notes_key = ''global''"

record memory_usage =
  mu_scope :: string
  mu_key :: string
  mu_used :: int
  mu_cap :: int
  mu_percent :: int

record memory_snapshot =
  ms_records :: "memory_record list"
  ms_usage :: "memory_usage list"
  ms_rendered :: string

datatype memory_error =
    MemAgentUnknown
  | MemDisabled string
  | MemScopeUnknown string
  | MemProjectRequired
  | MemProjectMismatch string
  | MemProfileKeyRequired
  | MemProfileForeign
  | MemBodyRequired
  | MemBodyTooLong nat
  | MemSourceUnknown int
  | MemCapExceeded memory_usage "memory_record list"
  | MemIdRequired
  | MemNotFound
  | MemScopeMismatch
  | MemVersionRequired
  | MemConflict memory_record
  | MemQueryRequired
  | MemHumanRequired
  | MemAgentRequired

subsection \<open>Rows\<close>

definition valid_memory_scope :: "string \<Rightarrow> bool" where
  "valid_memory_scope sc = (sc \<in> set [''project_facts'', ''user_profile'', ''agent_shared_notes''])"

definition load_memory :: "store \<Rightarrow> store" where
  "load_memory s =
     s\<lparr>s_memory :=
        fold (\<lambda>r. put (mr_id r) (if mr_version r \<le> 0 then r\<lparr>mr_version := 1\<rparr> else r))
          (filter (\<lambda>r. mr_id r \<noteq> [] \<and> valid_memory_scope (mr_scope r) \<and> mr_key r \<noteq> [])
             (map snd (db_memory (s_db s)))) []\<rparr>"

definition persist_memory :: "store \<Rightarrow> store" where
  "persist_memory s = s\<lparr>s_db := (s_db s)\<lparr>db_memory := sort_key fst (s_memory s)\<rparr>\<rparr>"

definition clear_memory :: "store \<Rightarrow> store" where
  "clear_memory s = s\<lparr>s_memory := [], s_db := (s_db s)\<lparr>db_memory := []\<rparr>\<rparr>"

subsection \<open>Who may do what\<close>

definition memory_globally_enabled :: "store \<Rightarrow> bool" where
  "memory_globally_enabled s = (st_memory (get_settings s) = Some True)"

definition memory_agent :: "store \<Rightarrow> string \<Rightarrow> agent option" where
  "memory_agent s aid = map_of (s_agents s) aid"

definition memory_management_allowed :: "string \<Rightarrow> store \<Rightarrow> memory_error option" where
  "memory_management_allowed aid s =
     (if memory_globally_enabled s then None
      else case memory_agent s aid of
             None \<Rightarrow> Some MemAgentUnknown
           | Some a \<Rightarrow> if a_kind a = ''human'' then None else Some (MemDisabled ''global memory is off''))"

definition room_memory_content_enabled :: "string \<Rightarrow> store \<Rightarrow> bool" where
  "room_memory_content_enabled rid s =
     (memory_globally_enabled s \<and>
      (case map_of (s_rooms s) rid of
         None \<Rightarrow> False
       | Some r \<Rightarrow> (case r_memory r of Some b \<Rightarrow> b | None \<Rightarrow> True)))"

definition memory_write_allowed :: "string \<Rightarrow> int \<Rightarrow> store \<Rightarrow> memory_error option" where
  "memory_write_allowed aid src s =
     (if memory_agent s aid = None then Some MemAgentUnknown
      else if \<not> memory_globally_enabled s then Some (MemDisabled ''global memory is off'')
      else if src = 0 then None
      else case message_room s src of
             None \<Rightarrow> Some (MemSourceUnknown src)
           | Some rid \<Rightarrow>
               if \<not> room_memory_content_enabled rid s
               then Some (MemDisabled ''source room memory is disabled'') else None)"

definition memory_cap :: "string \<Rightarrow> int" where
  "memory_cap sc =
     (if sc = ''project_facts'' then 4096 else if sc = ''user_profile'' then 2048
      else if sc = ''agent_shared_notes'' then 4096 else 0)"

definition in_scope :: "string \<Rightarrow> string \<Rightarrow> memory_record \<Rightarrow> bool" where
  "in_scope sc k r = (mr_scope r = sc \<and> mr_key r = k)"

definition bytes_used :: "string \<Rightarrow> string \<Rightarrow> memory_record list \<Rightarrow> int" where
  "bytes_used sc k rs = sum_list (map (\<lambda>r. int (length (mr_body r))) (filter (in_scope sc k) rs))"

definition memory_usage_of :: "string \<Rightarrow> string \<Rightarrow> memory_record list \<Rightarrow> memory_usage" where
  "memory_usage_of sc k rs =
     (let used = bytes_used sc k rs; c = memory_cap sc
      in \<lparr>mu_scope = sc, mu_key = k, mu_used = used, mu_cap = c,
          mu_percent = (if 0 < c then used * 100 div c else 0)\<rparr>)"

definition memory_allowed_refs :: "agent \<Rightarrow> (string \<times> string) list" where
  "memory_allowed_refs a =
     (''agent_shared_notes'', shared_notes_key) #
     (if a_project a \<noteq> [] then [(''project_facts'', a_project a)] else []) @
     (if a_kind a = ''human'' then [(''user_profile'', a_id a)] else [])"

definition memory_scope_key :: "agent \<Rightarrow> string \<Rightarrow> string \<Rightarrow> bool \<Rightarrow> memory_error + string" where
  "memory_scope_key a sc req writing =
     (if sc = ''project_facts'' then
        (if a_kind a = ''human'' \<and> req \<noteq> [] then Inr req
         else if a_project a = [] then Inl MemProjectRequired
         else if req \<noteq> [] \<and> req \<noteq> a_project a then Inl (MemProjectMismatch (a_project a))
         else Inr (a_project a))
      else if sc = ''agent_shared_notes'' then Inr shared_notes_key
      else if sc = ''user_profile'' then
        (let k = (if req = [] \<and> a_kind a = ''human'' then a_id a else req)
         in if k = [] then Inl MemProfileKeyRequired
            else if writing \<and> a_kind a = ''human'' \<and> k \<noteq> a_id a then Inl MemProfileForeign
            else Inr k)
      else Inl (MemScopeUnknown sc))"

subsection \<open>Snapshots\<close>

definition memory_order :: "memory_record \<Rightarrow> string \<times> string \<times> string \<times> string" where
  "memory_order r = (mr_scope r, mr_key r, mr_updated r, mr_id r)"

definition sort_memory_records :: "memory_record list \<Rightarrow> memory_record list" where
  "sort_memory_records rs = sort_key memory_order rs"

fun render_lines :: "string \<Rightarrow> string \<Rightarrow> memory_record list \<Rightarrow> string" where
  "render_lines out cur [] = out"
| "render_lines out cur (r # rs) =
     (let header = mr_scope r @ ''/'' @ mr_key r; nl = [char_of (10 :: nat)];
          out1 = (if header = cur then out
                  else out @ (if out = [] then [] else nl) @ ''## '' @ header @ nl);
          body = map (\<lambda>c. if c = char_of (10 :: nat) then CHR '' '' else c) (mr_body r);
          out2 = out1 @ ''- ['' @ mr_id r @ ''] '' @ body @
                 (if mr_author r \<noteq> [] then '' (author: '' @ mr_author r @ '')'' else []) @ nl
      in render_lines out2 header rs)"

definition render_memory :: "memory_record list \<Rightarrow> string" where
  "render_memory rs = (if rs = [] then [] else trim_space (render_lines [] [] rs))"

definition memory_snapshot_of :: "(string \<times> string) list \<Rightarrow> store \<Rightarrow> memory_snapshot" where
  "memory_snapshot_of refs s =
     (let good = filter (\<lambda>(sc, k). valid_memory_scope sc \<and> k \<noteq> []) refs;
          rs = sort_memory_records
                 (filter (\<lambda>r. (mr_scope r, mr_key r) \<in> set good) (map snd (s_memory s)))
      in \<lparr>ms_records = rs, ms_usage = map (\<lambda>(sc, k). memory_usage_of sc k rs) good,
          ms_rendered = render_memory rs\<rparr>)"

definition all_memory_snapshot :: "store \<Rightarrow> memory_snapshot" where
  "all_memory_snapshot s =
     (let rs = sort_memory_records (map snd (s_memory s));
          refs = sort (remdups (map (\<lambda>r. (mr_scope r, mr_key r))
                   (filter (\<lambda>r. valid_memory_scope (mr_scope r) \<and> mr_key r \<noteq> []) rs)))
      in \<lparr>ms_records = rs, ms_usage = map (\<lambda>(sc, k). memory_usage_of sc k rs) refs,
          ms_rendered = render_memory rs\<rparr>)"

definition user_profile_refs :: "store \<Rightarrow> (string \<times> string) list" where
  "user_profile_refs s =
     map (\<lambda>k. (''user_profile'', k))
       (sort (remdups (map mr_key (filter (\<lambda>r. mr_scope r = ''user_profile'') (map snd (s_memory s))))))"

definition list_memory ::
    "string \<Rightarrow> string \<Rightarrow> string \<Rightarrow> store \<Rightarrow> memory_error + memory_snapshot" where
  "list_memory aid sc req s =
     (case memory_management_allowed aid s of
        Some e \<Rightarrow> Inl e
      | None \<Rightarrow>
          (case memory_agent s aid of
             None \<Rightarrow> Inl MemAgentUnknown
           | Some a \<Rightarrow>
               if sc \<noteq> [] then
                 (case memory_scope_key a sc req False of
                    Inl e \<Rightarrow> Inl e
                  | Inr k \<Rightarrow> Inr (memory_snapshot_of [(sc, k)] s))
               else if a_kind a = ''human'' then Inr (all_memory_snapshot s)
               else Inr (memory_snapshot_of
                      (memory_allowed_refs a @ (if a_kind a = ''ai'' then user_profile_refs s else [])) s)))"

subsection \<open>The snapshot for a slow harness\<close>

definition should_trim_memory :: "agent \<Rightarrow> bool" where
  "should_trim_memory a =
     (a_kind a = ''ai'' \<and> a_harness a = ''pi'' \<and> contains (to_lower (a_model a)) ''gemma'')"

fun valid_cut :: "string \<Rightarrow> nat \<Rightarrow> nat" where
  "valid_cut s 0 = 0"
| "valid_cut s (Suc n) = (if valid_utf8 (take (Suc n) s) then Suc n else valid_cut s n)"

definition trim_suffix :: string where "trim_suffix = ''... [truncated for pi bootstrap]''"

definition truncate_memory_bytes :: "string \<Rightarrow> int \<Rightarrow> string \<times> bool" where
  "truncate_memory_bytes s n =
     (if n \<le> 0 then ([], s \<noteq> [])
      else if int (length s) \<le> n then (s, False)
      else
        let limit = n - int (length trim_suffix)
        in if limit \<le> 0 then (take (nat n) trim_suffix, True)
           else (trim_space (take (valid_cut s (nat limit)) s) @ trim_suffix, True))"

fun trim_records :: "int \<Rightarrow> memory_record list \<Rightarrow> memory_record list" where
  "trim_records remaining [] = []"
| "trim_records remaining (r # rs) =
     (if remaining \<le> 0 then []
      else
        let (body, cut) = truncate_memory_bytes (mr_body r) remaining
        in r\<lparr>mr_body := body\<rparr> # (if cut then [] else trim_records (remaining - int (length body)) rs))"

definition trim_memory_snapshot :: "memory_snapshot \<Rightarrow> memory_snapshot" where
  "trim_memory_snapshot sn =
     (if ms_records sn = [] then sn
      else
        let rs = trim_records slow_harness_cap (ms_records sn)
        in sn\<lparr>ms_records := rs,
              ms_rendered := fst (truncate_memory_bytes (render_memory rs) slow_harness_cap)\<rparr>)"

definition memory_snapshot_for_agent :: "agent \<Rightarrow> store \<Rightarrow> memory_snapshot option" where
  "memory_snapshot_for_agent a s =
     (if \<not> memory_globally_enabled s then None
      else
        let sn = memory_snapshot_of
                   (memory_allowed_refs a @ (if a_kind a = ''ai'' then user_profile_refs s else [])) s
        in Some (if should_trim_memory a then trim_memory_snapshot sn else sn))"

subsection \<open>Writing\<close>

definition records_for_scope :: "string \<Rightarrow> string \<Rightarrow> store \<Rightarrow> memory_record list" where
  "records_for_scope sc k s = sort_memory_records (filter (in_scope sc k) (map snd (s_memory s)))"

definition put_memory :: "memory_record \<Rightarrow> store \<Rightarrow> store" where
  "put_memory r s = persist_memory (s\<lparr>s_memory := put (mr_id r) r (s_memory s)\<rparr>)"

definition add_memory ::
    "string \<Rightarrow> string \<Rightarrow> string \<Rightarrow> string \<Rightarrow> string \<Rightarrow> string \<Rightarrow> int \<Rightarrow> store \<Rightarrow>
     (memory_error + memory_record) \<times> store" where
  "add_memory now gen aid sc req body0 src s =
     (case memory_write_allowed aid src s of
        Some e \<Rightarrow> (Inl e, s)
      | None \<Rightarrow>
          (case memory_agent s aid of
             None \<Rightarrow> (Inl MemAgentUnknown, s)
           | Some a \<Rightarrow>
               (case memory_scope_key a sc req True of
                  Inl e \<Rightarrow> (Inl e, s)
                | Inr k \<Rightarrow>
                    let body = trim_space body0 in
                    if body = [] then (Inl MemBodyRequired, s)
                    else if max_memory_runes < rune_count body then (Inl (MemBodyTooLong (rune_count body)), s)
                    else
                      let r = \<lparr>mr_id = gen, mr_scope = sc, mr_key = k, mr_body = body, mr_version = 1,
                               mr_author = aid, mr_source = src, mr_created = now, mr_updated = now\<rparr>;
                          rs = records_for_scope sc k s @ [r]; u = memory_usage_of sc k rs
                      in if mu_cap u < mu_used u then (Inl (MemCapExceeded u rs), s)
                         else (Inr r, put_memory r s))))"

text \<open>The checks on the record that \<open>updateMemory\<close> and \<open>removeMemory\<close> share.\<close>

definition current_record ::
    "agent \<Rightarrow> string \<Rightarrow> int \<Rightarrow> store \<Rightarrow> memory_error + memory_record" where
  "current_record a i version s =
     (case map_of (s_memory s) i of
        None \<Rightarrow> Inl MemNotFound
      | Some r \<Rightarrow>
          (case memory_scope_key a (mr_scope r) (mr_key r) True of
             Inl e \<Rightarrow> Inl e
           | Inr k \<Rightarrow>
               if k \<noteq> mr_key r then Inl MemScopeMismatch
               else if version \<le> 0 then Inl MemVersionRequired
               else if version \<noteq> mr_version r then Inl (MemConflict r)
               else Inr r))"

fun replace_record :: "memory_record \<Rightarrow> memory_record list \<Rightarrow> memory_record list" where
  "replace_record r [] = []"
| "replace_record r (x # xs) = (if mr_id x = mr_id r then r # xs else x # replace_record r xs)"

definition update_memory ::
    "string \<Rightarrow> string \<Rightarrow> string \<Rightarrow> int \<Rightarrow> string \<Rightarrow> store \<Rightarrow>
     (memory_error + memory_record) \<times> store" where
  "update_memory now aid i version body0 s =
     (case memory_management_allowed aid s of
        Some e \<Rightarrow> (Inl e, s)
      | None \<Rightarrow>
          (case memory_agent s aid of
             None \<Rightarrow> (Inl MemAgentUnknown, s)
           | Some a \<Rightarrow>
               let body = trim_space body0 in
               if i = [] \<or> body = [] then (Inl MemIdRequired, s)
               else if max_memory_runes < rune_count body then (Inl (MemBodyTooLong (rune_count body)), s)
               else
                 (case current_record a i version s of
                    Inl e \<Rightarrow> (Inl e, s)
                  | Inr r \<Rightarrow>
                      let r1 = r\<lparr>mr_body := body, mr_version := mr_version r + 1, mr_updated := now\<rparr>;
                          rs = replace_record r1 (records_for_scope (mr_scope r) (mr_key r) s);
                          u = memory_usage_of (mr_scope r) (mr_key r) rs
                      in if mu_cap u < mu_used u then (Inl (MemCapExceeded u rs), s)
                         else (Inr r1, put_memory r1 s))))"

definition remove_memory ::
    "string \<Rightarrow> string \<Rightarrow> int \<Rightarrow> store \<Rightarrow> (memory_error + memory_record) \<times> store" where
  "remove_memory aid i version s =
     (case memory_management_allowed aid s of
        Some e \<Rightarrow> (Inl e, s)
      | None \<Rightarrow>
          (case memory_agent s aid of
             None \<Rightarrow> (Inl MemAgentUnknown, s)
           | Some a \<Rightarrow>
               if i = [] then (Inl MemIdRequired, s)
               else (case current_record a i version s of
                       Inl e \<Rightarrow> (Inl e, s)
                     | Inr r \<Rightarrow> (Inr r, persist_memory (s\<lparr>s_memory := del i (s_memory s)\<rparr>)))))"

definition clean_memory ::
    "string \<Rightarrow> string \<Rightarrow> string \<Rightarrow> store \<Rightarrow> (memory_error + memory_record list) \<times> store" where
  "clean_memory aid sc req s =
     (case memory_agent s aid of
        None \<Rightarrow> (Inl MemAgentUnknown, s)
      | Some a \<Rightarrow>
          if a_kind a \<noteq> ''human'' then (Inl MemHumanRequired, s)
          else
            (case (if sc \<noteq> [] then memory_scope_key a sc req False else Inr []) of
               Inl e \<Rightarrow> (Inl e, s)
             | Inr k \<Rightarrow>
                 let hit = (\<lambda>r. sc = [] \<or> in_scope sc k r);
                     removed = filter hit (map snd (s_memory s))
                 in (Inr (sort_memory_records removed),
                     if removed = [] then s
                     else persist_memory (s\<lparr>s_memory := filter (\<lambda>p. \<not> hit (snd p)) (s_memory s)\<rparr>))))"

subsection \<open>The handlers\<close>

definition post_memory ::
    "int \<Rightarrow> string \<Rightarrow> string \<Rightarrow> string \<Rightarrow> string \<Rightarrow> string \<Rightarrow> string \<Rightarrow> int \<Rightarrow> store \<Rightarrow>
     (memory_error + memory_record) \<times> store" where
  "post_memory t now gen aid sc req body src s =
     (case add_memory now gen aid sc req body src s of
        (Inl e, s1) \<Rightarrow> (Inl e, s1)
      | (Inr r, s1) \<Rightarrow>
          (Inr r, emit_to_actor_rooms t aid
             (aid @ '' added memory '' @ mr_scope r @ ''/'' @ mr_key r @ '' ['' @ mr_id r @ '']'') s1))"

definition put_memory_request ::
    "int \<Rightarrow> string \<Rightarrow> string \<Rightarrow> string \<Rightarrow> int \<Rightarrow> string \<Rightarrow> store \<Rightarrow>
     (memory_error + memory_record) \<times> store" where
  "put_memory_request t now aid i version body s =
     (case update_memory now aid i version body s of
        (Inl e, s1) \<Rightarrow> (Inl e, s1)
      | (Inr r, s1) \<Rightarrow>
          (Inr r, emit_to_actor_rooms t aid (aid @ '' updated memory ['' @ mr_id r @ '']'') s1))"

definition delete_memory_request ::
    "int \<Rightarrow> string \<Rightarrow> string \<Rightarrow> int \<Rightarrow> store \<Rightarrow> (memory_error + memory_record) \<times> store" where
  "delete_memory_request t aid i version s =
     (if aid = [] then (Inl MemAgentRequired, s)
      else case remove_memory aid i version s of
             (Inl e, s1) \<Rightarrow> (Inl e, s1)
           | (Inr r, s1) \<Rightarrow>
               (Inr r, emit_to_actor_rooms t aid (aid @ '' removed memory ['' @ mr_id r @ '']'') s1))"

definition clean_memory_request ::
    "int \<Rightarrow> string \<Rightarrow> string \<Rightarrow> string \<Rightarrow> store \<Rightarrow> (memory_error + memory_record list) \<times> store" where
  "clean_memory_request t aid sc req s =
     (if aid = [] then (Inl MemAgentRequired, s)
      else case clean_memory aid sc req s of
             (Inl e, s1) \<Rightarrow> (Inl e, s1)
           | (Inr rs, s1) \<Rightarrow>
               (Inr rs,
                if rs = [] then s1
                else emit_to_actor_rooms t aid
                       (aid @ '' cleaned '' @ show_int (int (length rs)) @ '' memory records'') s1))"

subsection \<open>Recall\<close>

record recall_result =
  rr_message :: int
  rr_room :: string
  rr_from :: string
  rr_created :: stamp
  rr_snippet :: string
  rr_score :: int

fun word_fields :: "(string \<Rightarrow> bool) \<Rightarrow> string list \<Rightarrow> string \<Rightarrow> string list" where
  "word_fields wordy [] w = (if w = [] then [] else [w])"
| "word_fields wordy (r # rs) w =
     (if wordy r then word_fields wordy rs (w @ r)
      else (if w = [] then [] else [w]) @ word_fields wordy rs [])"

definition tokenize_recall :: "(string \<Rightarrow> bool) \<Rightarrow> string \<Rightarrow> string list" where
  "tokenize_recall wordy q = fold add_once (word_fields wordy (runes (to_lower q)) []) []"

definition recall_snippet :: "string \<Rightarrow> string list \<Rightarrow> string \<Rightarrow> string" where
  "recall_snippet body0 terms q =
     (let body = trim_space body0 in
      if rune_count body \<le> 220 then body
      else
        let lower = to_lower body;
            idx = (case index_of lower q of
                     Some i \<Rightarrow> i
                   | None \<Rightarrow> (case List.map_filter (index_of lower) terms of [] \<Rightarrow> 0 | i # _ \<Rightarrow> i));
            rs = runes body;
            start0 = rune_count (take idx body) - 60;
            stop = min (start0 + 220) (length rs);
            start = (if length rs < start0 + 220 then length rs - 220 else start0)
        in (if 0 < start then ''...'' else []) @
           concat (map encode_rune (take (stop - start) (drop start rs))) @
           (if stop < length rs then ''...'' else []))"

definition recall_score :: "string list \<Rightarrow> string \<Rightarrow> string \<Rightarrow> int" where
  "recall_score terms q body =
     (if contains (to_lower body) q then 10 else 0) +
     2 * int (length (filter (contains (to_lower body)) terms))"

definition recall_hit :: "string list \<Rightarrow> string \<Rightarrow> message \<Rightarrow> recall_result option" where
  "recall_hit terms q m =
     (let sc = recall_score terms q (m_body m) in
      if m_from_kind m = ''system'' \<or> sc = 0 then None
      else Some \<lparr>rr_message = m_id m, rr_room = m_room m, rr_from = m_from m, rr_created = m_created m,
                 rr_snippet = recall_snippet (m_body m) terms q, rr_score = sc\<rparr>)"

definition recall_room :: "string \<Rightarrow> room \<Rightarrow> bool" where
  "recall_room aid r = (aid \<in> set (r_members r) \<and> r_memory r \<noteq> Some False)"

definition recall_messages ::
    "(string \<Rightarrow> bool) \<Rightarrow> string \<Rightarrow> string \<Rightarrow> int \<Rightarrow> store \<Rightarrow> memory_error + recall_result list" where
  "recall_messages wordy aid query0 limit s =
     (let query = trim_space query0 in
      if memory_agent s aid = None then Inl MemAgentUnknown
      else if \<not> memory_globally_enabled s then Inl (MemDisabled ''global memory is off'')
      else if query = [] then Inl MemQueryRequired
      else
        let n = (if limit \<le> 0 \<or> int max_recall_limit < limit then max_recall_limit else nat limit);
            terms = tokenize_recall wordy query; q = to_lower query;
            hits = concat (map (\<lambda>r. List.map_filter (recall_hit terms q) (room_log s (r_id r)))
                     (filter (recall_room aid) (list_rooms s)))
        in Inr (take n (sort_key (\<lambda>x. (- rr_score x, - rr_message x)) hits)))"

subsection \<open>The store invariant\<close>

lemma memory_frame [simp]:
  "s_memory (persist_memory s) = s_memory s" "s_agents (persist_memory s) = s_agents s"
  "s_settings (persist_memory s) = s_settings s" "s_rooms (persist_memory s) = s_rooms s"
  "s_messages (persist_memory s) = s_messages s"
  by (simp_all add: persist_memory_def)

lemma store_ok_memory [inv, simp]:
  "store_ok (persist_memory s) = store_ok s" "store_ok (s\<lparr>s_memory := m\<rparr>) = store_ok s"
  "store_ok (load_memory s) = store_ok s" "store_ok (clear_memory s) = store_ok s"
  "store_ok (put_memory r s) = store_ok s"
  by (rule store_ok_cong; simp add: persist_memory_def load_memory_def clear_memory_def put_memory_def)+

lemma store_ok_actor_rooms [inv]: "store_ok s \<Longrightarrow> store_ok (emit_to_actor_rooms t aid b s)"
  unfolding emit_to_actor_rooms_def by (rule store_ok_fold) (simp_all add: store_ok_emits)

lemma memory_core_ok:
  "store_ok (snd (add_memory now gen aid sc req body src s)) = store_ok s"
  "store_ok (snd (update_memory now aid i v body s)) = store_ok s"
  "store_ok (snd (remove_memory aid i v s)) = store_ok s"
  "store_ok (snd (clean_memory aid sc req s)) = store_ok s"
  by (simp_all add: add_memory_def update_memory_def remove_memory_def clean_memory_def Let_def
      split: option.split sum.split)

lemma memory_ops_ok [inv]:
  assumes "store_ok s"
  shows "store_ok (snd (post_memory t now gen aid sc req body src s))"
    "store_ok (snd (put_memory_request t now aid i v body s))"
    "store_ok (snd (delete_memory_request t aid i v s))"
    "store_ok (snd (clean_memory_request t aid sc req s))"
proof -
  show "store_ok (snd (post_memory t now gen aid sc req body src s))"
    using assms memory_core_ok(1) [of now gen aid sc req body src s]
    by (auto simp: post_memory_def store_ok_actor_rooms split: prod.split sum.split)
  show "store_ok (snd (put_memory_request t now aid i v body s))"
    using assms memory_core_ok(2) [of now aid i v body s]
    by (auto simp: put_memory_request_def store_ok_actor_rooms split: prod.split sum.split)
  show "store_ok (snd (delete_memory_request t aid i v s))"
    using assms memory_core_ok(3) [of aid i v s]
    by (auto simp: delete_memory_request_def store_ok_actor_rooms split: prod.split sum.split)
  show "store_ok (snd (clean_memory_request t aid sc req s))"
    using assms memory_core_ok(4) [of aid sc req s]
    by (auto simp: clean_memory_request_def store_ok_actor_rooms split: prod.split sum.split)
qed

subsection \<open>The budgets\<close>

definition record_ok :: "string \<Rightarrow> memory_record \<Rightarrow> bool" where
  "record_ok i r =
     (mr_id r = i \<and> valid_memory_scope (mr_scope r) \<and> 0 < mr_version r \<and>
      mr_body r \<noteq> [] \<and> rune_count (mr_body r) \<le> max_memory_runes)"

definition memory_ok :: "store \<Rightarrow> bool" where
  "memory_ok s =
     (distinct (keys (s_memory s)) \<and> list_all (\<lambda>(i, r). record_ok i r) (s_memory s) \<and>
      list_all (\<lambda>(i, r). bytes_used (mr_scope r) (mr_key r) (map snd (s_memory s)) \<le> memory_cap (mr_scope r))
        (s_memory s))"

lemma memory_cap_nonneg: "0 \<le> memory_cap sc"
  by (simp add: memory_cap_def)

lemma bytes_used_simps [simp]:
  "bytes_used sc k [] = 0"
  "bytes_used sc k (r # rs) = (if in_scope sc k r then int (length (mr_body r)) else 0) + bytes_used sc k rs"
  "bytes_used sc k (rs @ qs) = bytes_used sc k rs + bytes_used sc k qs"
  by (simp_all add: bytes_used_def)

lemma bytes_used_nonneg: "0 \<le> bytes_used sc k rs"
  by (induction rs) auto

lemma bytes_used_insort: "bytes_used sc k (insort_key f x xs) = bytes_used sc k (x # xs)"
  by (induction xs) auto

lemma bytes_used_sort [simp]: "bytes_used sc k (sort_memory_records xs) = bytes_used sc k xs"
  unfolding sort_memory_records_def
  by (induction xs) (simp_all add: bytes_used_insort)

lemma bytes_used_filter: "bytes_used sc k (filter (in_scope sc k) xs) = bytes_used sc k xs"
  by (simp add: bytes_used_def)

lemma bytes_used_filter_le: "bytes_used sc k (filter P xs) \<le> bytes_used sc k xs"
  by (induction xs) auto

lemma bytes_used_none: "\<forall>r \<in> set rs. \<not> in_scope sc k r \<Longrightarrow> bytes_used sc k rs = 0"
  by (induction rs) auto

text \<open>The budget holds for every scope and key once it holds for those of the records.\<close>

lemma memory_ok_cap:
  assumes "memory_ok s"
  shows "bytes_used sc k (map snd (s_memory s)) \<le> memory_cap sc"
proof (cases "\<exists>r \<in> set (map snd (s_memory s)). in_scope sc k r")
  case True
  then show ?thesis using assms by (force simp: memory_ok_def list_all_iff in_scope_def)
next
  case False
  then show ?thesis using bytes_used_none memory_cap_nonneg by metis
qed

lemma memory_okI:
  "distinct (keys (s_memory s)) \<Longrightarrow> (\<And>i r. (i, r) \<in> set (s_memory s) \<Longrightarrow> record_ok i r) \<Longrightarrow>
   (\<And>sc k. bytes_used sc k (map snd (s_memory s)) \<le> memory_cap sc) \<Longrightarrow> memory_ok s"
  by (auto simp: memory_ok_def list_all_iff)

lemma bytes_used_put_le:
  "bytes_used sc k (map snd (put i r m)) \<le>
   bytes_used sc k (map snd m) + (if in_scope sc k r then int (length (mr_body r)) else 0)"
  by (induction m) auto

lemma bytes_used_put_new:
  "map_of m i = Some r \<Longrightarrow> distinct (keys m) \<Longrightarrow>
   bytes_used sc k (map snd (put i q m)) =
     bytes_used sc k (map snd m) - (if in_scope sc k r then int (length (mr_body r)) else 0)
       + (if in_scope sc k q then int (length (mr_body q)) else 0)"
  by (induction m) (auto split: if_splits)

lemma bytes_used_replace:
  "r \<in> set rs \<Longrightarrow> distinct (map mr_id rs) \<Longrightarrow> mr_id q = mr_id r \<Longrightarrow>
   bytes_used sc k (replace_record q rs) =
     bytes_used sc k rs - (if in_scope sc k r then int (length (mr_body r)) else 0)
       + (if in_scope sc k q then int (length (mr_body q)) else 0)"
  by (induction rs) (auto simp: image_iff)

lemma sort_records_props:
  "set (sort_memory_records rs) = set rs" "distinct (map mr_id (sort_memory_records rs)) = distinct (map mr_id rs)"
proof -
  show "set (sort_memory_records rs) = set rs" by (simp add: sort_memory_records_def)
  have "mset (map mr_id (sort_key memory_order rs)) = mset (map mr_id rs)" by simp
  then show "distinct (map mr_id (sort_memory_records rs)) = distinct (map mr_id rs)"
    unfolding sort_memory_records_def by (metis mset_eq_imp_distinct_iff)
qed

lemma memory_ids_distinct:
  assumes "memory_ok s" shows "distinct (map mr_id (map snd (s_memory s)))"
proof -
  have "map mr_id (map snd (s_memory s)) = keys (s_memory s)"
    using assms by (auto simp: memory_ok_def list_all_iff record_ok_def)
  then show ?thesis using assms unfolding memory_ok_def by (simp only:)
qed

lemma scope_key_valid: "memory_scope_key a sc req w = Inr k \<Longrightarrow> valid_memory_scope sc"
  by (auto simp: memory_scope_key_def valid_memory_scope_def split: if_splits)

lemma memory_ok_put:
  assumes "memory_ok s" "record_ok (mr_id r) r"
    and "bytes_used (mr_scope r) (mr_key r) (map snd (put (mr_id r) r (s_memory s))) \<le> memory_cap (mr_scope r)"
  shows "memory_ok (put_memory r s)"
proof (rule memory_okI)
  show "distinct (keys (s_memory (put_memory r s)))"
    using assms(1) by (simp add: put_memory_def memory_ok_def)
  show "record_ok i q" if "(i, q) \<in> set (s_memory (put_memory r s))" for i q
    using that assms(1,2) by (auto simp: put_memory_def memory_ok_def list_all_iff dest!: in_set_putD)
  show "bytes_used sc k (map snd (s_memory (put_memory r s))) \<le> memory_cap sc" for sc k
  proof (cases "in_scope sc k r")
    case True
    then show ?thesis using assms(3) by (simp add: put_memory_def in_scope_def)
  next
    case False
    then show ?thesis
      using bytes_used_put_le [of sc k "mr_id r" r "s_memory s"] memory_ok_cap [OF assms(1), of sc k]
      by (simp add: put_memory_def)
  qed
qed

lemma memory_ok_add: "memory_ok s \<Longrightarrow> memory_ok (snd (add_memory now gen aid sc req body src s))"
proof (cases "fst (add_memory now gen aid sc req body src s)")
  case (Inl e)
  moreover assume "memory_ok s"
  ultimately show ?thesis
    by (auto simp: add_memory_def Let_def split: option.splits sum.splits if_splits)
next
  case (Inr r)
  assume ok: "memory_ok s"
  obtain a k where k: "memory_scope_key a sc req True = Inr k" "mr_scope r = sc" "mr_key r = k"
    and body: "mr_body r \<noteq> []" "rune_count (mr_body r) \<le> max_memory_runes" "mr_version r = 1"
    and cap: "bytes_used sc k (records_for_scope sc k s @ [r]) \<le> memory_cap sc"
    and s': "snd (add_memory now gen aid sc req body src s) = put_memory r s"
    using Inr by (auto simp: add_memory_def Let_def memory_usage_of_def split: option.splits sum.splits if_splits)
  have "in_scope sc k r" using k by (simp add: in_scope_def)
  then have "bytes_used sc k (map snd (put (mr_id r) r (s_memory s))) \<le> memory_cap sc"
    using cap bytes_used_put_le [of sc k "mr_id r" r "s_memory s"]
    by (simp add: records_for_scope_def bytes_used_filter)
  moreover have "record_ok (mr_id r) r"
    using body k(2) scope_key_valid [OF k(1)] by (simp add: record_ok_def)
  ultimately show ?thesis unfolding s' using ok k(2,3) by (intro memory_ok_put) simp_all
qed

lemma update_memory_Inr:
  assumes "update_memory now aid i v body s = (Inr r1, s')" "memory_ok s"
  obtains r where "map_of (s_memory s) i = Some r" "v = mr_version r" "0 < v"
    "r1 = r\<lparr>mr_body := trim_space body, mr_version := mr_version r + 1, mr_updated := now\<rparr>"
    "s' = put_memory r1 s" "mr_id r1 = i" "trim_space body \<noteq> []"
    "rune_count (trim_space body) \<le> max_memory_runes"
    "bytes_used (mr_scope r) (mr_key r) (replace_record r1 (records_for_scope (mr_scope r) (mr_key r) s))
       \<le> memory_cap (mr_scope r)"
proof -
  obtain r where r: "map_of (s_memory s) i = Some r" "v = mr_version r" "0 < v"
    "r1 = r\<lparr>mr_body := trim_space body, mr_version := mr_version r + 1, mr_updated := now\<rparr>"
    "s' = put_memory r1 s" "trim_space body \<noteq> []" "rune_count (trim_space body) \<le> max_memory_runes"
    "bytes_used (mr_scope r) (mr_key r) (replace_record r1 (records_for_scope (mr_scope r) (mr_key r) s))
       \<le> memory_cap (mr_scope r)"
    using assms(1)
    by (auto simp: update_memory_def current_record_def Let_def memory_usage_of_def
        split: option.splits sum.splits if_splits)
  have "mr_id r = i"
    using r(1) assms(2) by (force simp: memory_ok_def list_all_iff record_ok_def)
  then show ?thesis using that r by simp
qed

lemma memory_ok_update: "memory_ok s \<Longrightarrow> memory_ok (snd (update_memory now aid i v body s))"
proof (cases "fst (update_memory now aid i v body s)")
  case (Inl e)
  moreover assume "memory_ok s"
  ultimately show ?thesis
    by (auto simp: update_memory_def Let_def split: option.splits sum.splits if_splits)
next
  case (Inr r1)
  assume ok: "memory_ok s"
  have "update_memory now aid i v body s = (Inr r1, snd (update_memory now aid i v body s))"
    using Inr by (metis prod.collapse)
  then obtain r where r: "map_of (s_memory s) i = Some r" "mr_id r1 = i"
    "r1 = r\<lparr>mr_body := trim_space body, mr_version := mr_version r + 1, mr_updated := now\<rparr>"
    "snd (update_memory now aid i v body s) = put_memory r1 s" "trim_space body \<noteq> []"
    "rune_count (trim_space body) \<le> max_memory_runes"
    "bytes_used (mr_scope r) (mr_key r) (replace_record r1 (records_for_scope (mr_scope r) (mr_key r) s))
       \<le> memory_cap (mr_scope r)"
    by (rule update_memory_Inr [OF _ ok]) blast
  let ?sc = "mr_scope r" and ?k = "mr_key r"
  let ?rs = "records_for_scope ?sc ?k s"
  have scope: "in_scope ?sc ?k r" "in_scope ?sc ?k r1" "mr_id r1 = mr_id r"
    using r(3) by (simp_all add: in_scope_def)
  have "r \<in> set ?rs"
    using r(1) scope(1) by (force simp: records_for_scope_def sort_records_props)
  moreover have "distinct (map mr_id ?rs)"
    using memory_ids_distinct [OF ok]
    by (simp add: records_for_scope_def sort_records_props distinct_map_filter del: map_map)
  ultimately have "bytes_used ?sc ?k (replace_record r1 ?rs) =
      bytes_used ?sc ?k (map snd (put i r1 (s_memory s)))"
    using bytes_used_replace [of r ?rs r1 ?sc ?k] scope ok r(1)
      bytes_used_put_new [of "s_memory s" i r ?sc ?k r1]
    by (simp add: records_for_scope_def bytes_used_filter memory_ok_def)
  moreover have "record_ok i r1"
    using ok r(1,2,3,5,6) by (force simp: memory_ok_def list_all_iff record_ok_def)
  ultimately show ?thesis unfolding r(4)
    using ok r(2,3,7) by (intro memory_ok_put) simp_all
qed

lemma memory_ok_shrink:
  assumes "memory_ok s" "distinct (keys m)" "set m \<subseteq> set (s_memory s)"
    and "\<And>sc k. bytes_used sc k (map snd m) \<le> bytes_used sc k (map snd (s_memory s))"
  shows "memory_ok (persist_memory (s\<lparr>s_memory := m\<rparr>))"
proof (rule memory_okI)
  show "record_ok i q" if "(i, q) \<in> set (s_memory (persist_memory (s\<lparr>s_memory := m\<rparr>)))" for i q
    using that assms(1,3) by (auto simp: memory_ok_def list_all_iff)
  show "bytes_used sc k (map snd (s_memory (persist_memory (s\<lparr>s_memory := m\<rparr>)))) \<le> memory_cap sc" for sc k
    using memory_ok_cap [OF assms(1), of sc k] assms(4) [of sc k] by simp
qed (simp add: assms(2))

lemma bytes_used_keep: "bytes_used sc k (map snd (filter P m)) \<le> bytes_used sc k (map snd m)"
  by (induction m) auto

lemma memory_ok_keep: "memory_ok s \<Longrightarrow> memory_ok (persist_memory (s\<lparr>s_memory := filter P (s_memory s)\<rparr>))"
  by (rule memory_ok_shrink) (auto simp: bytes_used_keep distinct_map_filter memory_ok_def)

lemma memory_ok_remove: "memory_ok s \<Longrightarrow> memory_ok (snd (remove_memory aid i v s))"
  using memory_ok_keep [of s "\<lambda>p. i \<noteq> fst p"]
  by (auto simp: remove_memory_def AList.delete_eq case_prod_unfold split: option.split sum.split)

lemma memory_ok_clean: "memory_ok s \<Longrightarrow> memory_ok (snd (clean_memory aid sc req s))"
  using memory_ok_keep [of s "\<lambda>_. False"]
  by (auto simp: clean_memory_def Let_def memory_ok_keep split: option.split sum.split)

lemma memory_ok_cong: "s_memory s' = s_memory s \<Longrightarrow> memory_ok s' = memory_ok s"
  by (simp add: memory_ok_def)

lemma memory_emit [simp]: "s_memory (emit_to_actor_rooms t aid b s) = s_memory s"
proof -
  have "s_memory (fold (\<lambda>rid. emit_system t rid b) rids s) = s_memory s" for rids
    by (induction rids arbitrary: s) (simp_all add: emits)
  then show ?thesis by (simp add: emit_to_actor_rooms_def)
qed

lemma memory_ok_emit [simp]: "memory_ok (emit_to_actor_rooms t aid b s) = memory_ok s"
  by (rule memory_ok_cong) simp

datatype memory_request =
    PostMemory string string string string string string int
  | PutMemory string string string int string
  | DeleteMemory string string int
  | CleanMemory string string string

fun memory_step :: "int \<times> memory_request \<Rightarrow> store \<Rightarrow> store" where
  "memory_step (t, PostMemory now gen aid sc req body src) s =
     snd (post_memory t now gen aid sc req body src s)"
| "memory_step (t, PutMemory now aid i v body) s = snd (put_memory_request t now aid i v body s)"
| "memory_step (t, DeleteMemory aid i v) s = snd (delete_memory_request t aid i v s)"
| "memory_step (t, CleanMemory aid sc req) s = snd (clean_memory_request t aid sc req s)"

interpretation memory_machine: invariant_machine memory_step memory_ok
proof
  fix s and x :: "int \<times> memory_request" assume ok: "memory_ok s"
  obtain t q where x: "x = (t, q)" by (cases x)
  show "memory_ok (memory_step x s)"
  proof (cases q)
    case (PostMemory now gen aid sc req body src)
    then show ?thesis
      using x memory_ok_add [OF ok, of now gen aid sc req body src]
      by (auto simp: post_memory_def split: prod.split sum.split)
  next
    case (PutMemory now aid i v body)
    then show ?thesis
      using x memory_ok_update [OF ok, of now aid i v body]
      by (auto simp: put_memory_request_def split: prod.split sum.split)
  next
    case (DeleteMemory aid i v)
    then show ?thesis
      using x ok memory_ok_remove [OF ok, of aid i v]
      by (auto simp: delete_memory_request_def split: prod.split sum.split)
  next
    case (CleanMemory aid sc req)
    then show ?thesis
      using x ok memory_ok_clean [OF ok, of aid sc req]
      by (auto simp: clean_memory_request_def split: prod.split sum.split)
  qed
qed

text \<open>C34. The memory budgets hold for ever: along any sequence of requests (adding, changing under a
  version, removing, cleaning, by any agents, accepted or refused) the bodies of each scope and
  key stay within the budget of the scope (4096, 2048 and 4096 bytes), no body is empty or longer
  than 2000 runes, and every record has a known scope, its own id and a positive version.\<close>

theorem memory_budgets_hold:
  assumes "memory_ok s"
  shows "memory_ok (fold memory_step xs s) \<and>
    bytes_used sc k (map snd (s_memory (fold memory_step xs s))) \<le> memory_cap sc"
  using memory_machine.run_good [OF assms] memory_ok_cap by blast

definition memory_sample :: store where
  "memory_sample = sample_store\<lparr>s_settings := no_settings\<lparr>st_memory := Some True\<rparr>\<rparr>"

lemma memory_budgets_hold_witness:
  "memory_ok (fold memory_step
     [(0, PostMemory ''t0'' ''id1'' ''bob@web'' ''agent_shared_notes'' [] '' keep calm '' 2),
      (1, PutMemory ''t1'' ''cleo@web'' ''id1'' 1 ''carry on''),
      (2, DeleteMemory ''bob@web'' ''id1'' 1)] memory_sample)"
proof -
  have "memory_ok memory_sample" by code_simp
  from memory_budgets_hold [OF this] show ?thesis by blast
qed

text \<open>C35. No update of a memory record is lost: an accepted change was made against the current
  version, raises it by one, stores the trimmed body and leaves every other record alone; a
  second change or a removal under the same version, by whomever, is then refused without
  effect.\<close>

theorem memory_updates_serialize:
  assumes "update_memory now aid i v body s = (Inr r, s')" "memory_ok s"
  shows "map_of (s_memory s') i = Some r \<and> mr_version r = v + 1 \<and> mr_body r = trim_space body \<and>
    (\<exists>old. map_of (s_memory s) i = Some old \<and> mr_version old = v \<and>
       mr_scope r = mr_scope old \<and> mr_key r = mr_key old \<and> mr_author r = mr_author old) \<and>
    (\<forall>j. j \<noteq> i \<longrightarrow> map_of (s_memory s') j = map_of (s_memory s) j) \<and>
    (\<exists>e. update_memory now2 aid2 i v body2 s' = (Inl e, s')) \<and>
    (\<exists>e. remove_memory aid2 i v s' = (Inl e, s'))"
proof -
  obtain old where old: "map_of (s_memory s) i = Some old" "v = mr_version old"
    "r = old\<lparr>mr_body := trim_space body, mr_version := mr_version old + 1, mr_updated := now\<rparr>"
    "s' = put_memory r s" "mr_id r = i"
    by (rule update_memory_Inr [OF assms]) blast
  have r: "map_of (s_memory s') j = (if j = i then Some r else map_of (s_memory s) j)" for j
    using old(4,5) by (simp add: put_memory_def)
  have "\<exists>e. current_record a i v s' = Inl e" for a
    using r [of i] old(2,3)
    by (auto simp: current_record_def split: sum.split)
  then have stale: "\<exists>e. update_memory now2 aid2 i v body2 s' = (Inl e, s')"
    "\<exists>e. remove_memory aid2 i v s' = (Inl e, s')"
    by (auto simp: update_memory_def remove_memory_def Let_def split: option.split sum.split)
      (metis sum.distinct(1))+
  show ?thesis using r old stale by simp
qed

subsection \<open>Recall is private\<close>

definition recall_hits :: "(string \<Rightarrow> bool) \<Rightarrow> string \<Rightarrow> string \<Rightarrow> store \<Rightarrow> recall_result list" where
  "recall_hits wordy aid query s =
     concat (map (\<lambda>r. List.map_filter
         (recall_hit (tokenize_recall wordy query) (to_lower query)) (room_log s (r_id r)))
       (filter (recall_room aid) (list_rooms s)))"

lemma recall_eq:
  "recall_messages wordy aid query0 limit s = Inr out \<Longrightarrow>
   out = take (if limit \<le> 0 \<or> int max_recall_limit < limit then max_recall_limit else nat limit)
     (sort_key (\<lambda>x. (- rr_score x, - rr_message x)) (recall_hits wordy aid (trim_space query0) s))"
  by (auto simp: recall_messages_def recall_hits_def Let_def split: if_splits)

lemma recall_hitD:
  "recall_hit terms q m = Some x \<Longrightarrow>
   m_from_kind m \<noteq> ''system'' \<and> rr_message x = m_id m \<and> rr_room x = m_room m \<and>
   rr_from x = m_from m \<and> rr_score x = recall_score terms q (m_body m) \<and> 0 < rr_score x"
proof -
  have "0 \<le> recall_score terms q (m_body m)" by (simp add: recall_score_def)
  then show "recall_hit terms q m = Some x \<Longrightarrow> ?thesis"
    by (auto simp: recall_hit_def Let_def split: if_splits)
qed

lemma take_sorted_best:
  fixes f :: "'a \<Rightarrow> 'b :: linorder"
  assumes "x \<in> set xs" "x \<notin> set (take n (sort_key f xs))" "y \<in> set (take n (sort_key f xs))"
  shows "f y \<le> f x \<and> length (take n (sort_key f xs)) = n"
proof -
  let ?ys = "sort_key f xs"
  have "x \<in> set (take n ?ys @ drop n ?ys)" using assms(1) by (simp only: append_take_drop_id) simp
  then have x: "x \<in> set (drop n ?ys)" using assms(2) unfolding set_append by blast
  have "sorted (map f (take n ?ys) @ map f (drop n ?ys))"
    by (metis append_take_drop_id map_append sorted_sort_key)
  then have "\<forall>a \<in> f ` set (take n ?ys). \<forall>b \<in> f ` set (drop n ?ys). a \<le> b"
    unfolding sorted_append set_map by blast
  then have "f y \<le> f x" using x assms(3) by blast
  moreover have "drop n ?ys \<noteq> []" using x by auto
  ultimately show ?thesis by simp
qed

text \<open>C36. Recall is private and gives the best hits: every result quotes a message of a room the
  agent is a member of and whose memory is not switched off, never a system message, always with
  a positive score; at most ten are given; and a matching message of those rooms that is left out
  scores no better than any result, the page being full.\<close>

theorem recall_private:
  assumes "recall_messages wordy aid query0 limit s = Inr out" "store_ok s"
  shows "length out \<le> max_recall_limit \<and> memory_globally_enabled s \<and>
    (\<forall>x. x \<in> set out \<longrightarrow> 0 < rr_score x \<and>
       (\<exists>m r. map_of (s_rooms s) (rr_room x) = Some r \<and> aid \<in> set (r_members r) \<and>
          r_memory r \<noteq> Some False \<and> m \<in> set (room_log s (rr_room x)) \<and> m_id m = rr_message x \<and>
          m_from m = rr_from x \<and> m_from_kind m \<noteq> ''system'')) \<and>
    (\<forall>x y. x \<in> set (recall_hits wordy aid (trim_space query0) s) - set out \<and> y \<in> set out \<longrightarrow>
       rr_score x \<le> rr_score y)"
proof -
  let ?hits = "recall_hits wordy aid (trim_space query0) s"
  let ?f = "\<lambda>x. (- rr_score x, - rr_message x)"
  obtain n where out: "out = take n (sort_key ?f ?hits)" and n: "n \<le> max_recall_limit"
    using recall_eq [OF assms(1)] by (force split: if_splits)
  have on: "memory_globally_enabled s"
    using assms(1) by (auto simp: recall_messages_def Let_def split: if_splits)
  have from_hit: "0 < rr_score x \<and>
       (\<exists>m r. map_of (s_rooms s) (rr_room x) = Some r \<and> aid \<in> set (r_members r) \<and>
          r_memory r \<noteq> Some False \<and> m \<in> set (room_log s (rr_room x)) \<and> m_id m = rr_message x \<and>
          m_from m = rr_from x \<and> m_from_kind m \<noteq> ''system'')" if "x \<in> set out" for x
  proof -
    have "x \<in> set ?hits" using that out by (auto dest: in_set_takeD)
    then obtain r m where r: "r \<in> set (list_rooms s)" "recall_room aid r"
      and m: "m \<in> set (room_log s (r_id r))"
      "recall_hit (tokenize_recall wordy (trim_space query0)) (to_lower (trim_space query0)) m = Some x"
      by (auto simp: recall_hits_def List.map_filter_def)
    obtain k where k: "(k, r) \<in> set (s_rooms s)" using r(1) by (auto simp: list_rooms_def)
    then have kr: "map_of (s_rooms s) k = Some r" "r_id r = k"
      using assms(2) by (auto simp: store_ok_def rooms_ok_def room_ok_def)
    have "m_room m = k"
      using m(1) kr(2) assms(2) log_ok_log(2) by (auto simp: store_ok_def room_log_def)
    then show ?thesis using recall_hitD [OF m(2)] r(2) kr m(1) by (auto simp: recall_room_def)
  qed
  have best: "rr_score x \<le> rr_score y" if "x \<in> set ?hits" "x \<notin> set out" "y \<in> set out" for x y
    using take_sorted_best [of x ?hits n ?f y] that out by (auto simp: less_eq_prod_def)
  show ?thesis using on n from_hit best out by auto
qed

lemma recall_private_witness:
  "(case recall_messages (\<lambda>r. r \<noteq> '' '') ''ann'' ''hi'' 5 memory_sample of
      Inl _ \<Rightarrow> False
    | Inr out \<Rightarrow> length out = 1 \<and> length out \<le> max_recall_limit)"
proof -
  let ?r = "recall_messages (\<lambda>r. r \<noteq> '' '') ''ann'' ''hi'' 5 memory_sample"
  have "(case ?r of Inl _ \<Rightarrow> False | Inr out \<Rightarrow> length out = 1)" by code_simp
  then obtain out where out: "?r = Inr out" "length out = 1" by (cases ?r) auto
  have "store_ok memory_sample" by code_simp
  from recall_private [OF out(1) this] show ?thesis using out by simp
qed

lemma memory_updates_serialize_witness:
  "let s = snd (post_memory 0 ''t0'' ''id1'' ''bob@web'' ''agent_shared_notes'' [] ''calm'' 2 memory_sample);
       s1 = snd (update_memory ''t1'' ''cleo@web'' ''id1'' 1 ''carry on'' s)
   in \<exists>e. update_memory ''t2'' ''bob@web'' ''id1'' 1 ''stop'' s1 = (Inl e, s1)"
proof -
  let ?s = "snd (post_memory 0 ''t0'' ''id1'' ''bob@web'' ''agent_shared_notes'' [] ''calm'' 2 memory_sample)"
  let ?u = "update_memory ''t1'' ''cleo@web'' ''id1'' 1 ''carry on'' ?s"
  have "(case fst ?u of Inl _ \<Rightarrow> False | Inr _ \<Rightarrow> True)" by code_simp
  then obtain r where "?u = (Inr r, snd ?u)" by (cases "fst ?u") (auto simp: prod_eq_iff)
  moreover have "memory_ok ?s" by code_simp
  ultimately show ?thesis unfolding Let_def
    using memory_updates_serialize [of "''t1''" "''cleo@web''" "''id1''" 1 "''carry on''" ?s r "snd ?u"]
    by blast
qed

subsection \<open>The short snapshot\<close>

text \<open>What the trimmed snapshot hands to a slow harness stays within its budget.\<close>

lemma valid_cut_le: "valid_cut s n \<le> n"
  by (induction n) auto

lemma truncate_memory_length: "0 \<le> n \<Longrightarrow> int (length (fst (truncate_memory_bytes s n))) \<le> n"
proof (cases "int (length s) \<le> n \<or> n - int (length trim_suffix) \<le> 0 \<or> n \<le> 0")
  case True
  assume "0 \<le> n"
  then show ?thesis using True by (auto simp: truncate_memory_bytes_def Let_def)
next
  case False
  let ?l = "n - int (length trim_suffix)" and ?t = "take (valid_cut s (nat (n - int (length trim_suffix)))) s"
  have "length (trim_space ?t) \<le> nat ?l"
    using length_trim_space_le [of ?t] valid_cut_le [of s "nat ?l"] by simp
  then have "int (length (trim_space ?t)) \<le> ?l" using False by linarith
  then show ?thesis using False by (simp add: truncate_memory_bytes_def Let_def)
qed

lemma trim_records_bound:
  "0 \<le> n \<Longrightarrow> sum_list (map (\<lambda>r. int (length (mr_body r))) (trim_records n rs)) \<le> n"
proof (induction rs arbitrary: n)
  case (Cons r rs)
  obtain body cut where b: "truncate_memory_bytes (mr_body r) n = (body, cut)" by force
  then have "int (length body) \<le> n" using truncate_memory_length [OF Cons.prems, of "mr_body r"] by simp
  then show ?case using Cons.IH [of "n - int (length body)"] b Cons.prems by auto
qed simp

end
