(* ===== verification/Durable.thy ===== *)
theory Durable
  imports Waits RoleOps Liveness Sounds Memory
begin

section \<open>What is on disk is what is in memory\<close>

text \<open>
  \<open>durable\<close>: the tables \<open>rooms\<close>, \<open>messages\<close>, \<open>agents\<close> and \<open>reactions\<close> hold what the store holds;
  of an agent everything but its activity, which is never saved, and the time it was last seen,
  which is saved now and then. Every operation of the bus keeps it; the lemmas go through the
  components in their order.
\<close>

definition mirrors :: "message list \<Rightarrow> (string, message list) table \<Rightarrow> bool" where
  "mirrors rows msgs = (\<forall>r. filter (\<lambda>m. m_room m = r) rows = get_or [] msgs r)"

text \<open>The part of it that does not depend on the last \<open>persist\<close>.\<close>

definition logged :: "store \<Rightarrow> bool" where
  "logged s =
     (mirrors (db_messages (s_db s)) (s_messages s) \<and>
      distinct (keys (db_reactions (s_db s))) \<and> map_of (db_reactions (s_db s)) = map_of (s_reactions s))"

definition agent_core :: "agent \<Rightarrow> agent" where
  "agent_core a = (agent_row a)\<lparr>a_last_seen := At 0\<rparr>"

definition agent_cores :: "(string, agent) table \<Rightarrow> (string, agent) table" where
  "agent_cores ags = map_vals (\<lambda>_. agent_core) ags"

definition durable :: "store \<Rightarrow> bool" where
  "durable s =
     (logged s \<and> db_rooms (s_db s) = s_rooms s \<and>
      agent_cores (db_agents (s_db s)) = agent_cores (s_agents s))"

lemma agent_core_row [simp]: "agent_core (agent_row a) = agent_core a"
  by (simp add: agent_core_def agent_row_def)

lemma agent_core_activity [simp]:
  "agent_core (a\<lparr>a_last_seen := x\<rparr>) = agent_core a" "agent_core (a\<lparr>a_state := st\<rparr>) = agent_core a"
  "agent_core (a\<lparr>a_state_at := y\<rparr>) = agent_core a" "agent_core (a\<lparr>a_pending := st\<rparr>) = agent_core a"
  by (simp_all add: agent_core_def agent_row_def)

named_theorems dur \<open>operations that keep the store durable\<close>

subsection \<open>Building blocks\<close>

lemma logged_cong:
  "s_messages s' = s_messages s \<Longrightarrow> s_reactions s' = s_reactions s \<Longrightarrow>
   db_messages (s_db s') = db_messages (s_db s) \<Longrightarrow> db_reactions (s_db s') = db_reactions (s_db s) \<Longrightarrow>
   logged s' = logged s"
  by (simp add: logged_def)

lemma durable_cong:
  "s_messages s' = s_messages s \<Longrightarrow> s_reactions s' = s_reactions s \<Longrightarrow>
   db_messages (s_db s') = db_messages (s_db s) \<Longrightarrow> db_reactions (s_db s') = db_reactions (s_db s) \<Longrightarrow>
   s_rooms s' = s_rooms s \<Longrightarrow> agent_cores (s_agents s') = agent_cores (s_agents s) \<Longrightarrow>
   db_rooms (s_db s') = db_rooms (s_db s) \<Longrightarrow> db_agents (s_db s') = db_agents (s_db s) \<Longrightarrow>
   durable s' = durable s"
  by (simp add: durable_def logged_def)

lemma durable_logged: "durable s \<Longrightarrow> logged s"
  by (simp add: durable_def)

text \<open>A \<open>persist\<close> makes the store durable whatever happened to rooms and agents before.\<close>

lemma durable_persist [dur, simp]: "durable (persist s) = logged s"
  by (simp add: durable_def logged_def persist_def agent_cores_def map_vals_map_vals)

lemma logged_blocks [simp]:
  "logged (persist s) = logged s" "logged (broadcast_meta e s) = logged s"
  "logged (persist_prefs s) = logged s" "logged (unhide_room rid s) = logged s"
  "logged (publish_message rid m s) = logged s"
  "logged (s\<lparr>s_rooms := r\<rparr>) = logged s" "logged (s\<lparr>s_agents := a\<rparr>) = logged s"
  "logged (s\<lparr>s_next_id := n\<rparr>) = logged s" "logged (s\<lparr>s_sessions := x\<rparr>) = logged s"
  by (rule logged_cong; simp add: persist_def persist_prefs_def unhide_room_def clear_hidden_for_room_def
      split: prod.split)+

lemma durable_blocks [simp]:
  "durable (broadcast_meta e s) = durable s" "durable (persist_prefs s) = durable s"
  "durable (unhide_room rid s) = durable s" "durable (publish_message rid m s) = durable s"
  "durable (s\<lparr>s_next_id := n\<rparr>) = durable s" "durable (s\<lparr>s_sessions := x\<rparr>) = durable s"
  by (rule durable_cong; simp add: persist_prefs_def unhide_room_def clear_hidden_for_room_def)+

lemma logged_broadcasts [simp]:
  "logged (broadcast_room_update s) = logged s" "logged (broadcast_agent_update s) = logged s"
  "logged (broadcast_roles_updated s) = logged s"
  by (simp_all add: broadcasts)

lemma durable_broadcasts [simp]:
  "durable (broadcast_room_update s) = durable s" "durable (broadcast_agent_update s) = durable s"
  "durable (broadcast_roles_updated s) = durable s" "durable (broadcast_macros_updated s) = durable s"
  "durable (broadcast_presence t a r c w s) = durable s" "durable (broadcast_read_update t a r c s) = durable s"
  by (simp_all add: broadcasts Let_def)

lemma mirrors_append:
  "mirrors rows msgs \<Longrightarrow> m_room m = rid \<Longrightarrow> mirrors (rows @ [m]) (put rid (get_or [] msgs rid @ [m]) msgs)"
  by (simp add: mirrors_def)

lemma append_db [simp]:
  "db_messages (s_db (append_message rid m s)) = db_messages (s_db s) @ [m]"
  "db_rooms (s_db (append_message rid m s)) = db_rooms (s_db s)"
  "db_agents (s_db (append_message rid m s)) = db_agents (s_db s)"
  "db_reactions (s_db (append_message rid m s)) = db_reactions (s_db s)"
  by (simp_all add: append_message_def insert_message_row_def)

lemma durable_append: "durable s \<Longrightarrow> m_room m = rid \<Longrightarrow> durable (append_message rid m s)"
  by (simp add: durable_def logged_def mirrors_append room_log_def)

lemma durable_emit [dur]: "durable s \<Longrightarrow> durable (emit_system_full t rid b ts att s)"
  by (simp add: emit_system_full_def Let_def durable_append system_message_def)

lemma durable_emits [dur]:
  "durable s \<Longrightarrow> durable (emit_system t rid b s)" "durable s \<Longrightarrow> durable (emit_system_to t rid b ts s)"
  by (simp_all add: emits durable_emit)

lemma durable_fold: "(\<And>x s. durable s \<Longrightarrow> durable (f x s)) \<Longrightarrow> durable s \<Longrightarrow> durable (fold f xs s)"
  by (induction xs arbitrary: s) auto

lemma durable_actor_rooms [dur]: "durable s \<Longrightarrow> durable (emit_to_actor_rooms t aid b s)"
  unfolding emit_to_actor_rooms_def by (rule durable_fold) (simp_all add: durable_emits)

lemma agent_cores_put:
  "map_of m k = Some b \<Longrightarrow> agent_core a = agent_core b \<Longrightarrow> agent_cores (put k a m) = agent_cores m"
  by (induction m) (auto simp: agent_cores_def map_vals_def split: if_splits)

lemma durable_put_agent:
  "durable s \<Longrightarrow> map_of (s_agents s) k = Some b \<Longrightarrow> agent_core a = agent_core b \<Longrightarrow>
   durable (s\<lparr>s_agents := put k a (s_agents s)\<rparr>)"
  by (simp add: durable_def agent_cores_put)

lemma durable_waits [dur]:
  "durable (enter_wait t a r s) = durable s" "durable (leave_wait t a r s) = durable s"
  "durable (enter_ws a s) = durable s" "durable (leave_ws a s) = durable s"
  by (rule durable_cong; simp add: enter_wait_def leave_wait_def enter_ws_def leave_ws_def Let_def broadcasts)+

lemma durable_subs [dur, simp]:
  "durable (snd (subscribe_room r s)) = durable s" "durable (unsubscribe_room r n s) = durable s"
  "durable (snd (subscribe_global s)) = durable s" "durable (unsubscribe_global n s) = durable s"
  "durable (snd (subscribe_meta s)) = durable s" "durable (unsubscribe_meta n s) = durable s"
  by (rule durable_cong; simp add: subscribe_room_def unsubscribe_room_def subscribe_global_def
      unsubscribe_global_def subscribe_meta_def unsubscribe_meta_def Let_def)+

lemma durable_set_pref [dur]: "durable (snd (set_room_pref a r h p s)) = durable s"
  by (rule durable_cong; simp add: set_room_pref_def Let_def persist_prefs_def)

lemma durable_save_roles [dur, simp]: "durable (save_roles s) = durable s"
  by (rule durable_cong; simp add: save_roles_def)

subsection \<open>Rooms\<close>

lemma cleanup_reactions_db [simp]:
  "db_messages (s_db (cleanup_reactions s)) = db_messages (s_db s)"
  "db_rooms (s_db (cleanup_reactions s)) = db_rooms (s_db s)"
  "db_agents (s_db (cleanup_reactions s)) = db_agents (s_db s)"
  by (simp_all add: cleanup_reactions_def Let_def persist_reactions_def)

lemma cleanup_reactions_rows:
  assumes "\<forall>p \<in> set (s_reactions s). snd p \<noteq> []"
  shows "db_reactions (s_db (cleanup_reactions s)) =
    (if s_reactions (cleanup_reactions s) = s_reactions s then db_reactions (s_db s)
     else s_reactions (cleanup_reactions s))"
proof -
  let ?kept = "filter (\<lambda>p. fst p \<in> set (live_message_ids s)) (s_reactions s)"
  have "filter (\<lambda>p. snd p \<noteq> []) ?kept = ?kept"
    unfolding filter_filter using assms by (intro filter_cong) auto
  then show ?thesis by (simp add: cleanup_reactions_def Let_def persist_reactions_def)
qed

lemma durable_cleanup_reactions [dur]:
  assumes "durable s" "\<forall>p \<in> set (s_reactions s). snd p \<noteq> []" "distinct (keys (s_reactions s))"
  shows "durable (cleanup_reactions s)"
  using assms cleanup_reactions_rows [of s]
  by (auto simp: durable_def logged_def distinct_map_filter split: if_splits)

lemma durable_create_room [dur]: "durable s \<Longrightarrow> durable (snd (create_room t g rid by s))"
  by (auto simp: create_room_def Let_def durable_logged intro!: durable_emits split: option.split)

lemma reactions_nonempty:
  "store_ok s \<Longrightarrow> \<forall>p \<in> set (s_reactions s). snd p \<noteq> []" "store_ok s \<Longrightarrow> distinct (keys (s_reactions s))"
  by (auto simp: store_ok_def reactions_ok_def)

lemma durable_delete_room [dur]:
  assumes "durable s" "store_ok s" shows "durable (snd (delete_room t rid s))"
proof -
  let ?s1 = "s\<lparr>s_rooms := del rid (s_rooms s), s_messages := del rid (s_messages s)\<rparr>"
  let ?s2 = "persist (delete_room_messages_rows rid ?s1)"
  have "mirrors (filter (\<lambda>m. m_room m \<noteq> rid) rows) (del rid msgs)" if "mirrors rows msgs" for rows msgs
    using that by (auto simp: mirrors_def filter_filter conj_commute intro: filter_cong)
      (metis (mono_tags, lifting) filter_cong)
  then have "logged (delete_room_messages_rows rid ?s1)"
    using assms(1) by (simp add: durable_def logged_def delete_room_messages_rows_def)
  then have "durable (broadcast_room_update (cleanup_reactions ?s2))"
    using reactions_nonempty [OF assms(2)]
    by (simp add: durable_cleanup_reactions delete_room_messages_rows_def)
  then show ?thesis
    using assms(1) durable_emits by (auto simp: delete_room_def Let_def)
qed

lemma durable_set_room_memory [dur]: "durable s \<Longrightarrow> durable (snd (set_room_memory rid e s))"
  by (auto simp: set_room_memory_def Let_def durable_logged split: option.split)

lemma durable_ensure_system_room [dur]: "durable s \<Longrightarrow> durable (ensure_system_room t s)"
  by (simp add: ensure_system_room_def durable_logged)

lemma durable_same_rooms [simp]: "durable (s\<lparr>s_rooms := s_rooms s\<rparr>) = durable s"
  by simp

lemma durable_join_room [dur]: "durable s \<Longrightarrow> durable (snd (join_room t rid aid s))"
proof -
  assume d: "durable s"
  have fresh: "aid \<notin> set (r_members (fresh_room t rid aid []))" by (simp add: fresh_room_def)
  show ?thesis
    using d fresh
    by (auto simp: join_room_def Let_def has_key_def durable_logged intro!: durable_emits
        split: option.split)
qed

lemma durable_leave_room [dur]: "durable s \<Longrightarrow> durable (snd (leave_room_with_event t rid aid k s))"
  by (auto simp: leave_room_with_event_def Let_def durable_logged intro!: durable_emits split: option.split)

lemma durable_kick_each: "durable s \<Longrightarrow> durable (snd (kick_each t rid as s))"
proof (induction t rid as s rule: kick_each.induct)
  case (2 t rid a as s)
  obtain res s1 where l: "leave_room_with_event t rid a True s = (res, s1)" by fastforce
  then have "durable s1" using durable_leave_room [OF 2(3), of t rid a True] by simp
  then have "durable (snd (kick_each t rid as s1))"
    using 2(1) [OF l [symmetric]] 2(2) [OF l [symmetric]] by (cases res) auto
  then show ?case using l by (cases res) (auto split: prod.split)
qed simp

lemma durable_kick_agents [dur]: "durable s \<Longrightarrow> durable (snd (kick_agents t rid s))"
  using durable_kick_each [of s t rid] by (auto simp: kick_agents_def Let_def split: option.split prod.split)
    (metis snd_conv)

text \<open>The locked half of an internal join leaves a changed room to the \<open>persist\<close> of its callers.\<close>

lemma join_internal_locked_durable:
  assumes "durable s"
  shows "logged (snd (join_internal_locked t rid aid s))"
    "\<not> fst (join_internal_locked t rid aid s) \<Longrightarrow> durable (snd (join_internal_locked t rid aid s))"
  using assms
  by (auto simp: join_internal_locked_def Let_def durable_logged fresh_room_def has_key_def split: option.splits)

lemma join_internal_locked_logged: "logged s \<Longrightarrow> logged (snd (join_internal_locked t rid aid s))"
  by (simp add: join_internal_locked_def Let_def)

lemma durable_join_internal [dur]: "durable s \<Longrightarrow> durable (join_internal t rid aid s)"
  using join_internal_locked_durable [of s t rid aid]
  by (auto simp: join_internal_def split: prod.split)

lemma durable_find_or_create_dm [dur]:
  assumes "durable s" shows "durable (snd (find_or_create_dm t a b s))"
proof (cases "map_of (s_rooms s) (dm_id a b)")
  case None
  then show ?thesis using assms by (simp add: find_or_create_dm_def Let_def durable_logged)
next
  case (Some room)
  obtain ja s1 where a: "join_internal_locked t (dm_id a b) a s = (ja, s1)" by fastforce
  obtain jb s2 where b: "join_internal_locked t (dm_id a b) b s1 = (jb, s2)" by fastforce
  have s1: "logged s1" "\<not> ja \<Longrightarrow> durable s1"
    using join_internal_locked_durable [OF assms, of t "dm_id a b" a] a by auto
  have s2: "logged s2" using join_internal_locked_logged [OF s1(1), of t "dm_id a b" b] b by simp
  have keep: "durable s2" if "\<not> ja" "\<not> jb"
    using join_internal_locked_durable(2) [OF s1(2), of t "dm_id a b" b] b that by simp
  show ?thesis
    using Some assms a b s2 keep
    by (auto simp: find_or_create_dm_def Let_def intro!: durable_emits)
qed

lemma durable_post_room_prefs [dur]: "durable s \<Longrightarrow> durable (snd (post_room_prefs aid rid h p s))"
  using durable_set_pref [of aid rid h p s] by (auto simp: post_room_prefs_def split: prod.split)

subsection \<open>Agents\<close>

lemma session_row_logged [simp]:
  "logged (persist_session_row se s) = logged s" "durable (persist_session_row se s) = durable s"
  by (rule logged_cong durable_cong; simp add: persist_session_row_def)+

lemma session_ops_durable [dur, simp]:
  "logged (upsert_session t a o1 h s) = logged s" "durable (upsert_session t a o1 h s) = durable s"
  "logged (touch_session t aid s) = logged s" "durable (touch_session t aid s) = durable s"
  by (simp_all add: upsert_session_def touch_session_def Let_def split: option.split)

lemma put_agent_logged [simp]: "logged (put_agent a s) = logged s"
  by (simp add: put_agent_def)

lemma durable_touch_agent [dur]: "durable s \<Longrightarrow> durable (touch_agent t aid s)"
  by (auto simp: touch_agent_def Let_def durable_logged has_key_def intro!: durable_put_agent split: option.split)

lemma durable_heartbeat [dur]: "durable s \<Longrightarrow> durable (snd (heartbeat_agent t aid s))"
  by (auto simp: heartbeat_agent_def Let_def durable_logged has_key_def intro!: durable_put_agent split: option.split)

lemma durable_set_state [dur]: "durable s \<Longrightarrow> durable (snd (set_agent_state t aid st s))"
  by (auto simp: set_agent_state_def Let_def has_key_def
      intro!: durable_put_agent durable_touch_agent split: option.split)

lemma durable_register_human [dur]: "durable s \<Longrightarrow> durable (snd (register_human t n p m s))"
  by (auto simp: register_human_def Let_def durable_logged intro!: durable_emits durable_join_internal
      split: option.split)

lemma durable_reclaim: "durable s \<Longrightarrow> durable (snd (reclaim_agent t m meta h a s))"
  by (auto simp: reclaim_agent_def Let_def durable_logged intro!: durable_join_internal split: option.split)

lemma durable_add_ai: "durable s \<Longrightarrow> durable (snd (add_ai_agent t n m h p meta hint s))"
  by (auto simp: add_ai_agent_def Let_def durable_logged intro!: durable_emits durable_join_internal
      split: option.split)

lemma durable_claim: "durable s \<Longrightarrow> durable (snd (claim_name t n m h p meta hint s))"
  using durable_reclaim [of s t m meta hint] durable_add_ai [of s t n m h p meta hint]
  by (auto simp: claim_name_def split: option.split prod.split) (metis snd_conv)

lemma durable_pick: "durable s \<Longrightarrow> durable (snd (pick_name t rnd m h p meta hint s))"
  using durable_reclaim [of s t m meta hint] durable_add_ai [of s t _ m h p meta hint]
  by (auto simp: pick_name_def Let_def split: option.split prod.split) (metis snd_conv)+

lemma durable_register_ai [dur]: "durable s \<Longrightarrow> durable (snd (register_ai t rnd m h p meta f hint s))"
  by (simp add: register_ai_def Let_def durable_claim durable_pick)

lemma durable_deregister [dur]: "durable s \<Longrightarrow> durable (snd (deregister_agent t aid s))"
proof -
  assume d: "durable s"
  have "durable (fold (\<lambda>(rid, role). emit_system t rid
      (''role '' @ [CHR 0x22] @ role @ [CHR 0x22] @ '' vacated: '' @ aid @ '' deregistered'')) xs u)"
    if "durable u" for xs u
    using that by (rule durable_fold [rotated]) (auto intro: durable_emits)
  then show ?thesis
    using d by (auto simp: deregister_agent_def Let_def durable_logged intro!: durable_emits)
qed

lemma sweep_db [simp]: "s_db (snd (sweep_agent_liveness t s)) = s_db s"
  by (simp add: sweep_agent_liveness_def Let_def broadcasts)

lemma durable_sweep [dur]: "durable s \<Longrightarrow> durable (derive_agent_states t s)"
proof -
  assume d: "durable s"
  obtain evs s1 where e: "sweep_agent_liveness t s = (evs, s1)" by fastforce
  have core: "agent_core (fst (sweep_agent s t a)) = agent_core a" for a
    by (auto simp: sweep_agent_def Let_def split: prod.split)
  have s1: "durable s1 = durable s"
    using sweep_frame [of t s] sweep_db [of t s] sweep_agents [of t s] e core
    by (intro durable_cong) (simp_all del: sweep_db add: agent_cores_def map_vals_map_vals)
  have "durable (emit_liveness_room t x r u)" if "durable u" for x r u
    using that by (auto simp: emit_liveness_room_def intro: durable_emit durable_emits split: liveness_kind.split)
  then have "durable (emit_liveness_events t evs s1)"
    unfolding emit_liveness_events_def using d s1 by (intro durable_fold) simp_all
  then show ?thesis by (simp add: derive_agent_states_def e)
qed

subsection \<open>Roles\<close>

lemma durable_set_room_roles [simp]: "durable s \<Longrightarrow> durable (set_room_roles rid r roles s)"
  by (simp add: set_room_roles_def durable_logged)

lemma durable_assign_role [dur]: "durable s \<Longrightarrow> durable (snd (assign_role t rid aid k s))"
  by (simp add: assign_role_def Let_def durable_emits split: option.split list.split)

lemma durable_layers [simp]:
  "durable (s\<lparr>s_role_overrides := a\<rparr>) = durable s" "durable (s\<lparr>s_role_custom := b\<rparr>) = durable s"
  by (rule durable_cong; simp)+

lemma durable_propagate [dur]: "durable s \<Longrightarrow> durable (propagate_role_update t k b s)"
  by (simp add: propagate_role_update_def durable_fold durable_emits)

lemma durable_cascade [dur]: "durable s \<Longrightarrow> durable (cascade_unassign t k rids s)"
  unfolding cascade_unassign_def by (rule durable_fold) (auto intro: durable_assign_role)

lemma durable_retire: "durable s \<Longrightarrow> durable (snd (retire_roles t new cs force ks s))"
proof (induction t new cs force ks s rule: retire_roles.induct)
  case (2 t new cs force k ks s)
  then show ?case
    by (cases "retire_roles t new cs force ks s"; cases "fst (retire_roles t new cs force ks s)")
      (auto simp: Let_def durable_cascade)
qed simp

lemma durable_replace_roles: "durable s \<Longrightarrow> durable (snd (replace_roles t us force s))"
proof -
  assume d: "durable s"
  obtain res s1 where r: "retire_roles t (map ru_key us) (keys (s_role_custom s)) force (keys (old_bodies s)) s = (res, s1)"
    by fastforce
  then have "durable s1" using durable_retire [OF d] by (metis snd_conv)
  then show ?thesis using d r
    by (simp add: replace_roles_def durable_fold durable_propagate split: option.split sum.split)
qed

lemma durable_delete_override: "durable s \<Longrightarrow> durable (snd (delete_role_override t k force s))"
  by (simp add: delete_role_override_def Let_def durable_propagate durable_cascade)

lemma durable_role_requests [dur]:
  assumes "durable s"
  shows "durable (snd (put_roles t payload force s))" "durable (snd (delete_role t k force s))"
    "durable (snd (delete_all_role_overrides force s))" "durable (snd (post_room_role t rid aid k s))"
    "durable (clear_roles s)"
proof -
  show "durable (snd (put_roles t payload force s))"
    using assms by (simp add: put_roles_def refuse_def durable_replace_roles split: sum.split)
  show "durable (snd (delete_role t k force s))"
    using assms by (simp add: delete_role_def refuse_def durable_delete_override)
  show "durable (snd (delete_all_role_overrides force s))"
    using assms by (simp add: delete_all_role_overrides_def Let_def clear_assignments_def durable_logged)
  show "durable (snd (post_room_role t rid aid k s))"
    using assms by (simp add: snd_post_room_role durable_assign_role)
  have "durable (clear_roles s) = durable s" by (rule durable_cong) (simp_all add: clear_roles_def)
  then show "durable (clear_roles s)" using assms by simp
qed

subsection \<open>Reactions, messages and waits\<close>

lemma durable_reaction_put:
  "durable s \<Longrightarrow> rows \<noteq> [] \<Longrightarrow> durable (persist_reaction mid (s\<lparr>s_reactions := put mid rows (s_reactions s)\<rparr>))"
  by (simp add: durable_def logged_def persist_reaction_def reaction_rows_def)

lemma durable_reaction_del:
  "durable s \<Longrightarrow> durable (persist_reaction mid (s\<lparr>s_reactions := del mid (s_reactions s)\<rparr>))"
  by (simp add: durable_def logged_def persist_reaction_def reaction_rows_def)

lemma durable_add_reaction [dur]: "durable s \<Longrightarrow> durable (snd (add_reaction t mid aid e s))"
  by (simp add: add_reaction_def Let_def durable_touch_agent durable_reaction_put split: sum.split)

lemma durable_remove_reaction [dur]: "durable s \<Longrightarrow> durable (snd (remove_reaction t mid aid e s))"
  by (simp add: remove_reaction_def Let_def durable_touch_agent durable_reaction_put durable_reaction_del
      split: sum.split)

lemma durable_broadcast_reaction [simp]: "durable (broadcast_reaction_update r i a e op s) = durable s"
  by (simp add: broadcast_reaction_update_def)

lemma durable_reaction_requests [dur]:
  assumes "durable s"
  shows "durable (snd (put_reaction t mid aid raw s))" "durable (snd (delete_reaction t mid aid raw s))"
  using durable_add_reaction [OF assms, of t mid aid] durable_remove_reaction [OF assms, of t mid aid] assms
  by (auto simp: put_reaction_def delete_reaction_def split: option.split sum.split prod.split)
    (metis snd_conv)+

lemma durable_summon: "durable s \<Longrightarrow> durable (summon_humans t rid targets s)"
proof -
  assume d: "durable s"
  have "durable (join_humans t rid s)"
    unfolding join_humans_def using d
    by (intro durable_fold) (auto simp: join_human_def intro: durable_join_room)
  moreover have "durable (snd (unhide_for_addressed rid ts u)) = durable u" for ts u
    by (rule durable_cong) (simp_all add: unhide_for_addressed_def Let_def)
  ultimately show ?thesis
    by (auto simp: summon_humans_def Let_def split: option.split prod.split) (metis snd_conv)+
qed

lemma durable_room_send [dur]: "durable s \<Longrightarrow> durable (snd (room_send jo g t rid o1 s))"
  by (auto simp: room_send_def Let_def compose_def split: sum.split prod.split
      intro!: durable_touch_agent durable_append durable_summon)

lemma durable_warnings [simp]: "durable (snd (send_warnings t rid o1 extra s)) = durable s"
proof -
  have "durable (snd (legacy_prefix_warn f b u)) = durable u" for f b u
    by (rule durable_cong) (simp_all add: legacy_prefix_warn_def Let_def split: option.split)
  moreover have "durable (snd (ambiguous_mention_warn t rid f b u)) = durable u" for f b u
    by (rule durable_cong) (simp_all add: ambiguous_mention_warn_def split: list.split)
  moreover have "durable (snd (attention_miss_warn t rid f b att x u)) = durable u" for f b att x u
    by (rule durable_cong) (simp_all add: attention_miss_warn_def Let_def split: option.split)
  ultimately show ?thesis by (simp add: send_warnings_def Let_def split: prod.split) (metis snd_conv)
qed

lemma durable_reply:
  "durable (snd r) \<Longrightarrow> durable (snd (reply_to_send t rid o1 extra r))"
  by (auto simp: reply_to_send_def split: prod.split sum.split)
    (metis durable_warnings snd_conv)

lemma durable_sends [dur]:
  assumes "durable s"
  shows "durable (snd (post_send jo g t rid o1 s))" "durable (snd (post_dm jo g t to o1 s))"
proof -
  show "durable (snd (post_send jo g t rid o1 s))"
    using assms by (simp add: post_send_def durable_reply durable_room_send)
  have "durable (snd (reply_to_send t (r_id r) o1 x (room_send jo g t (r_id r) o1 s1)))"
    if "find_or_create_dm t (og_from o1) to s = (Inr r, s1)" for r s1 x
    using durable_find_or_create_dm [OF assms, of t "og_from o1" to] that
    by (simp add: durable_reply durable_room_send)
  then show "durable (snd (post_dm jo g t to o1 s))"
    using assms durable_find_or_create_dm [OF assms, of t "og_from o1" to]
    by (auto simp: post_dm_def split: prod.split sum.split) (metis snd_conv)+
qed

lemma durable_ensure_cursor [dur]: "durable s \<Longrightarrow> durable (snd (ensure_room_cursor aid rid s))"
  by (auto simp: ensure_room_cursor_def Let_def durable_logged split: option.split)

lemma durable_advance [dur]: "durable s \<Longrightarrow> durable (advance_and_tell t aid rid to s)"
  by (auto simp: advance_and_tell_def advance_cursor_def durable_logged split: option.split)

lemma durable_unread [dur]: "durable s \<Longrightarrow> durable (snd (agent_unread_since_cursor aid s))"
  by (auto simp: agent_unread_since_cursor_def Let_def durable_logged split: option.split)

lemma durable_reads [dur]:
  assumes "durable s"
  shows "durable (snd (mark_read t aid rid i s))" "durable (snd (get_room_messages t rid aid l a b s))"
  using assms by (auto simp: mark_read_def get_room_messages_def Let_def durable_advance durable_touch_agent
      split: prod.split)

lemma durable_touch_if [dur]: "durable s \<Longrightarrow> durable (touch_if t aid s)"
  by (simp add: touch_if_def durable_touch_agent)

lemma durable_room_wait [dur]:
  assumes "durable s"
  shows "durable (snd (room_wait_start t aid rid since w s))" "durable (snd (room_wait_park t aid rid s))"
    "durable (snd (room_wait_take t aid rid n gone w m s))" "durable (snd (room_wait_timeout t aid s))"
    "durable (room_wait_end t aid rid ch s)"
proof -
  have since: "durable (snd (room_wait_since aid rid since u))" if "durable u" for u
    using that by (simp add: room_wait_since_def durable_ensure_cursor split: option.split)
  show "durable (snd (room_wait_start t aid rid since w s))"
    using assms since [OF durable_touch_if [OF assms, of t aid]]
    by (auto simp: room_wait_start_def Let_def durable_touch_if durable_advance split: prod.split)
  show "durable (snd (room_wait_park t aid rid s))"
    using assms by (simp add: room_wait_park_def durable_waits)
  show "durable (snd (room_wait_take t aid rid n gone w m s))"
    using assms by (simp add: room_wait_take_def Let_def durable_touch_if durable_advance)
  show "durable (snd (room_wait_timeout t aid s))"
    using assms by (simp add: room_wait_timeout_def durable_touch_if)
  show "durable (room_wait_end t aid rid ch s)"
    using assms by (simp add: room_wait_end_def durable_waits)
qed

lemma durable_agent_wait [dur]:
  assumes "durable s"
  shows "durable (snd (agent_wait_start t aid since w s))" "durable (snd (agent_wait_park t aid s))"
    "durable (snd (agent_wait_take t aid since gone w m s))" "durable (snd (agent_wait_event t aid gone e s))"
    "durable (snd (agent_wait_timeout t aid s))" "durable (agent_wait_end t aid c mc s)"
proof -
  have newest: "durable (fold (\<lambda>(rid, top). advance_and_tell t aid rid top) xs u)" if "durable u" for xs u
    using that by (rule durable_fold [rotated]) (auto intro: durable_advance)
  show "durable (snd (agent_wait_start t aid since w s))"
    using durable_unread [OF durable_touch_agent [OF assms, of t aid], of aid] newest
    by (auto simp: agent_wait_start_def Let_def durable_touch_agent [OF assms] split: option.split prod.split)
  have "durable (snd (subscribe_meta (snd (subscribe_global (enter_wait t aid [] s)))))"
    using assms by (simp add: durable_waits)
  then show "durable (snd (agent_wait_park t aid s))"
    by (simp add: agent_wait_park_def case_prod_unfold Let_def)
  show "durable (snd (agent_wait_take t aid since gone w m s))"
    using assms
    by (cases since) (auto simp: agent_wait_take_def Let_def case_prod_unfold durable_touch_agent
        durable_advance durable_ensure_cursor)
  show "durable (snd (agent_wait_event t aid gone e s))"
    using assms by (auto simp: agent_wait_event_def durable_touch_agent split: meta_event.split option.split)
  show "durable (snd (agent_wait_timeout t aid s))"
    using assms by (simp add: agent_wait_timeout_def durable_touch_agent)
  show "durable (agent_wait_end t aid c mc s)"
    using assms by (simp add: agent_wait_end_def durable_waits)
qed

subsection \<open>The other tables\<close>

lemma durable_attachments [dur]:
  "durable (snd (post_attachment t u f mi sz d s)) = durable s"
  "durable (snd (delete_attachment_request i s)) = durable s"
  "durable (cleanup_attachments t s) = durable s"
  by (rule durable_cong; simp add: post_attachment_def add_attachment_def delete_attachment_request_def
      delete_attachment_def cleanup_attachments_def persist_attachments_def Let_def
      split: option.split)+

lemma durable_macros [dur, simp]: "durable (persist_macros s) = durable s" "durable (s\<lparr>s_macros := m\<rparr>) = durable s"
  by (rule durable_cong; simp add: persist_macros_def)+

lemma durable_offer [simp]: "durable (offer_default kv s) = durable s"
  by (rule durable_cong) (simp_all add: offer_default_def)

lemma durable_macro_ops [dur]:
  assumes "durable s"
  shows "durable (snd (put_macros env rooms s))" "durable (apply_default_macros ds s)"
    "durable (migrate_stale_macros sha ds stale s)"
proof -
  show "durable (snd (put_macros env rooms s))"
    using assms by (simp add: put_macros_def set_envelope_def Let_def split: option.split)
  have "durable (fold offer_default ds s)" using assms by (intro durable_fold) simp_all
  then show "durable (apply_default_macros ds s)" by (simp add: apply_default_macros_def Let_def)
  show "durable (migrate_stale_macros sha ds stale s)"
    using assms by (simp add: migrate_stale_macros_def split: prod.split)
qed

lemma durable_prompts [dur, simp]:
  "durable (snd (set_prompt k v s)) = durable s" "durable (snd (delete_prompt_request k s)) = durable s"
  "durable (delete_all_prompts s) = durable s" "durable (clear_prompts s) = durable s"
  by (rule durable_cong; simp add: set_prompt_def delete_prompt_request_def delete_prompt_def
      delete_all_prompts_def clear_prompts_def save_prompts_def)+

lemma durable_fleets [dur, simp]:
  "durable (snd (replace_fleets v fs s)) = durable s" "durable (snd (set_fleet n fl s)) = durable s"
  "durable (snd (delete_fleet n s)) = durable s" "durable (snd (import_fleets v fs s)) = durable s"
  "durable (clear_fleets s) = durable s"
  by (rule durable_cong; simp add: replace_fleets_def set_fleet_def delete_fleet_def import_fleets_def
      clear_fleets_def persist_fleets_def broadcast_fleets_updated_def Let_def
      split: option.split prod.split)+

lemma durable_sounds [dur, simp]:
  "durable (snd (post_sound t u f d s)) = durable s" "durable (snd (delete_sound u s)) = durable s"
  by (rule durable_cong; simp add: post_sound_def add_sound_def commit_sound_def delete_sound_def
      persist_sounds_def Let_def split: option.split sum.split prod.split)+

lemma durable_memory_core:
  "durable (snd (add_memory now gen aid sc req body src s)) = durable s"
  "durable (snd (update_memory now aid i v body s)) = durable s"
  "durable (snd (remove_memory aid i v s)) = durable s"
  "durable (snd (clean_memory aid sc req s)) = durable s"
proof -
  have p: "durable (persist_memory (s\<lparr>s_memory := m\<rparr>)) = durable s" for m
    by (rule durable_cong) (simp_all add: persist_memory_def)
  then have "durable (put_memory r s) = durable s" for r by (simp add: put_memory_def)
  with p show
    "durable (snd (add_memory now gen aid sc req body src s)) = durable s"
    "durable (snd (update_memory now aid i v body s)) = durable s"
    "durable (snd (remove_memory aid i v s)) = durable s"
    "durable (snd (clean_memory aid sc req s)) = durable s"
    by (simp_all add: add_memory_def update_memory_def remove_memory_def clean_memory_def Let_def
        split: option.split sum.split)
qed

lemma durable_memory [dur]:
  assumes "durable s"
  shows "durable (snd (post_memory t now gen aid sc req body src s))"
    "durable (snd (put_memory_request t now aid i v body s))"
    "durable (snd (delete_memory_request t aid i v s))"
    "durable (snd (clean_memory_request t aid sc req s))"
proof -
  show "durable (snd (post_memory t now gen aid sc req body src s))"
    using assms durable_memory_core(1) [of now gen aid sc req body src s]
    by (auto simp: post_memory_def durable_actor_rooms split: prod.split sum.split)
  show "durable (snd (put_memory_request t now aid i v body s))"
    using assms durable_memory_core(2) [of now aid i v body s]
    by (auto simp: put_memory_request_def durable_actor_rooms split: prod.split sum.split)
  show "durable (snd (delete_memory_request t aid i v s))"
    using assms durable_memory_core(3) [of aid i v s]
    by (auto simp: delete_memory_request_def durable_actor_rooms split: prod.split sum.split)
  show "durable (snd (clean_memory_request t aid sc req s))"
    using assms durable_memory_core(4) [of aid sc req s]
    by (auto simp: clean_memory_request_def durable_actor_rooms split: prod.split sum.split)
qed

lemma durable_settings [dur, simp]: "durable (snd (put_settings_request st s)) = durable s"
  by (rule durable_cong; simp add: put_settings_request_def put_settings_def Let_def split: option.split)

subsection \<open>The store invariant under the waits\<close>

lemma store_ok_settings [inv, simp]: "store_ok (snd (put_settings_request st s)) = store_ok s"
  by (rule store_ok_cong; simp add: put_settings_request_def put_settings_def Let_def split: option.split)

lemma store_ok_subs [inv, simp]:
  "store_ok (snd (subscribe_room r s)) = store_ok s" "store_ok (unsubscribe_room r n s) = store_ok s"
  "store_ok (snd (subscribe_global s)) = store_ok s" "store_ok (unsubscribe_global n s) = store_ok s"
  "store_ok (snd (subscribe_meta s)) = store_ok s" "store_ok (unsubscribe_meta n s) = store_ok s"
  by (rule store_ok_cong; simp add: subscribe_room_def unsubscribe_room_def subscribe_global_def
      unsubscribe_global_def subscribe_meta_def unsubscribe_meta_def Let_def)+

lemma store_ok_touch_if [inv]: "store_ok s \<Longrightarrow> store_ok (touch_if t aid s)"
  by (simp add: touch_if_def touch_agent_ok)

lemma room_wait_ok [inv]:
  assumes "store_ok s"
  shows "store_ok (snd (room_wait_start t aid rid since w s))" "store_ok (snd (room_wait_park t aid rid s))"
    "store_ok (snd (room_wait_take t aid rid n gone w m s))" "store_ok (snd (room_wait_timeout t aid s))"
    "store_ok (room_wait_end t aid rid ch s)"
proof -
  have since: "store_ok (snd (room_wait_since aid rid since u))" if "store_ok u" for u
    using that by (simp add: room_wait_since_def cursor_ops_ok split: option.split)
  show "store_ok (snd (room_wait_start t aid rid since w s))"
    using assms since [OF store_ok_touch_if [OF assms, of t aid]]
    by (auto simp: room_wait_start_def Let_def store_ok_touch_if cursor_ops_ok split: prod.split)
  show "store_ok (snd (room_wait_park t aid rid s))"
    using assms by (simp add: room_wait_park_def store_ok_waits)
  show "store_ok (snd (room_wait_take t aid rid n gone w m s))"
    using assms by (simp add: room_wait_take_def Let_def store_ok_touch_if cursor_ops_ok)
  show "store_ok (snd (room_wait_timeout t aid s))"
    using assms by (simp add: room_wait_timeout_def store_ok_touch_if)
  show "store_ok (room_wait_end t aid rid ch s)"
    using assms by (simp add: room_wait_end_def store_ok_waits)
qed

lemma agent_wait_ok [inv]:
  assumes "store_ok s"
  shows "store_ok (snd (agent_wait_start t aid since w s))" "store_ok (snd (agent_wait_park t aid s))"
    "store_ok (snd (agent_wait_take t aid since gone w m s))" "store_ok (snd (agent_wait_event t aid gone e s))"
    "store_ok (snd (agent_wait_timeout t aid s))" "store_ok (agent_wait_end t aid c mc s)"
proof -
  have newest: "store_ok (fold (\<lambda>(rid, top). advance_and_tell t aid rid top) xs u)" if "store_ok u" for xs u
    using that by (rule store_ok_fold [rotated]) (auto intro: cursor_ops_ok)
  show "store_ok (snd (agent_wait_start t aid since w s))"
    using agent_unread_ok [OF touch_agent_ok [OF assms, of t aid], of aid] newest
    by (auto simp: agent_wait_start_def Let_def touch_agent_ok [OF assms] split: option.split prod.split)
  have "store_ok (snd (subscribe_meta (snd (subscribe_global (enter_wait t aid [] s)))))"
    using assms by (simp add: store_ok_waits)
  then show "store_ok (snd (agent_wait_park t aid s))"
    by (simp add: agent_wait_park_def case_prod_unfold Let_def)
  show "store_ok (snd (agent_wait_take t aid since gone w m s))"
    using assms
    by (cases since) (auto simp: agent_wait_take_def Let_def case_prod_unfold touch_agent_ok cursor_ops_ok)
  show "store_ok (snd (agent_wait_event t aid gone e s))"
    using assms by (auto simp: agent_wait_event_def touch_agent_ok split: meta_event.split option.split)
  show "store_ok (snd (agent_wait_timeout t aid s))"
    using assms by (simp add: agent_wait_timeout_def touch_agent_ok)
  show "store_ok (agent_wait_end t aid c mc s)"
    using assms by (simp add: agent_wait_end_def store_ok_waits)
qed

lemma store_ok_ws [inv]: "store_ok (enter_ws a s) = store_ok s" "store_ok (leave_ws a s) = store_ok s"
  by (rule store_ok_cong; simp add: enter_ws_def leave_ws_def Let_def broadcasts)+

end
