(* ===== verification/Recovery.thy ===== *)
theory Recovery
  imports Durable
begin

section \<open>Restarting, pruning and clearing\<close>

text \<open>
  What \<open>newStore\<close> of \<open>internal/server/store_persist.go\<close> reads back from the tables
  (\<open>loadCoreSQLite\<close> and the loaders it calls), the pruning of agents at start-up and by the
  background sweep, and both modes of \<open>clearAll\<close> (\<open>store.go\<close>).

  A \<open>SELECT \<dots> ORDER BY\<close> is a sort of the rows by the key; the rows decode to what was encoded.
\<close>

subsection \<open>Reading the tables\<close>

definition load_rooms :: "(string, room) table \<Rightarrow> (string, room) table" where
  "load_rooms rows = fold (\<lambda>p. put (r_id (snd p)) (snd p)) (sort_key fst rows) []"

definition load_message :: "message \<Rightarrow> (string, message list) table \<Rightarrow> (string, message list) table" where
  "load_message m msgs = put (m_room m) (get_or [] msgs (m_room m) @ [m]) msgs"

definition load_messages :: "message list \<Rightarrow> (string, message list) table" where
  "load_messages rows = fold load_message (sort_key m_id rows) []"

definition max_message_id :: "message list \<Rightarrow> int" where
  "max_message_id rows = fold (\<lambda>m n. if n < m_id m then m_id m else n) (sort_key m_id rows) 0"

definition load_agents :: "(string, agent) table \<Rightarrow> (string, agent) table" where
  "load_agents rows = fold (\<lambda>p. put (a_id (snd p)) (agent_row (snd p))) (sort_key fst rows) []"

definition load_sessions :: "(string, agent_session) table \<Rightarrow> (string, agent_session) table" where
  "load_sessions rows =
     fold (\<lambda>p acc. if se_full_id (snd p) \<noteq> [] then put (se_full_id (snd p)) (snd p) acc else acc)
       (sort_key fst rows) []"

definition load_core :: "store \<Rightarrow> store" where
  "load_core s =
     s\<lparr>s_rooms := load_rooms (db_rooms (s_db s)),
       s_messages := load_messages (db_messages (s_db s)),
       s_next_id := max_message_id (db_messages (s_db s)),
       s_agents := load_agents (db_agents (s_db s)),
       s_sessions := load_sessions (db_sessions (s_db s))\<rparr>"

definition load_roles :: "store \<Rightarrow> store" where
  "load_roles s =
     s\<lparr>s_role_overrides := filter (\<lambda>p. in_catalog (fst p)) (sort_key fst (db_role_overrides (s_db s))),
       s_role_custom := sort_key fst (db_role_custom (s_db s))\<rparr>"

definition load_attachments :: "store \<Rightarrow> store" where
  "load_attachments s =
     s\<lparr>s_attachments :=
        fold (\<lambda>p. put (ae_id (snd p))
                   ((snd p)\<lparr>ae_ext := (if ae_ext (snd p) = [] then attachment_ext (ae_mime (snd p))
                                      else ae_ext (snd p))\<rparr>))
          (filter (\<lambda>p. ae_id (snd p) \<noteq> []) (sort_key fst (db_attachments (s_db s)))) []\<rparr>"

definition load_reactions :: "store \<Rightarrow> store" where
  "load_reactions s =
     s\<lparr>s_reactions := filter (\<lambda>p. snd p \<noteq> []) (sort_key fst (db_reactions (s_db s)))\<rparr>"

definition load_room_prefs :: "store \<Rightarrow> store" where
  "load_room_prefs s =
     s\<lparr>s_prefs := fold (\<lambda>((aid, rid), p) prefs. put aid (put rid p (get_or [] prefs aid)) prefs)
                    (db_prefs (s_db s)) []\<rparr>"

definition load_cards :: "store \<Rightarrow> store" where
  "load_cards s =
     s\<lparr>s_cards := filter (\<lambda>c. rc_model c \<noteq> [] \<or> rc_harness c \<noteq> [])
        (map (\<lambda>c. c\<lparr>rc_model := trim_space (rc_model c), rc_harness := trim_space (rc_harness c),
                    rc_created := trim_space (rc_created c)\<rparr>) (db_cards (s_db s)))\<rparr>"

text \<open>\<open>load\<close>, in its order.\<close>

definition load_store :: "store \<Rightarrow> store" where
  "load_store s =
     (let s1 = load_core s;
          s2 = s1\<lparr>s_settings := load_settings (db_settings (s_db s1))\<rparr>
      in load_macros (load_cards (load_memory (load_room_prefs (load_reactions (load_attachments
           (load_sounds (load_fleets (load_roles (load_prompts s2))))))))))"

subsection \<open>Stale agents\<close>

definition last_seen_before :: "int \<Rightarrow> agent \<Rightarrow> bool" where
  "last_seen_before cutoff a =
     (case parse_stamp (a_last_seen a) of None \<Rightarrow> False | Some x \<Rightarrow> x < cutoff)"

text \<open>At start-up an agent whose time is unreadable goes too; the sweep keeps it.\<close>

definition gone_at_startup :: "int \<Rightarrow> agent \<Rightarrow> bool" where
  "gone_at_startup cutoff a = (parse_stamp (a_last_seen a) = None \<or> last_seen_before cutoff a)"

definition drop_members :: "string list \<Rightarrow> room \<Rightarrow> room" where
  "drop_members gone r =
     r\<lparr>r_members := filter (\<lambda>m. m \<notin> set gone) (r_members r),
       r_roles := filter (\<lambda>p. \<not> (fst p \<in> set gone \<and> fst p \<in> set (r_members r))) (r_roles r)\<rparr>"

definition prune_on_startup :: "int \<Rightarrow> store \<Rightarrow> store" where
  "prune_on_startup t s =
     (let cutoff = t - stale_agent_window s;
          gone = map fst (filter (\<lambda>p. gone_at_startup cutoff (snd p)) (s_agents s))
      in persist_full_core
           (s\<lparr>s_agents := filter (\<lambda>p. \<not> gone_at_startup cutoff (snd p)) (s_agents s),
              s_rooms := map_vals (\<lambda>_. drop_members gone) (s_rooms s)\<rparr>))"

definition forget_agent :: "string \<Rightarrow> store \<Rightarrow> store" where
  "forget_agent aid s =
     s\<lparr>s_agents := del aid (s_agents s),
       s_rooms := map_vals (\<lambda>_ r. r\<lparr>r_members := remove1 aid (r_members r),
                                    r_roles := del aid (r_roles r)\<rparr>) (s_rooms s)\<rparr>"

definition rooms_with :: "string \<Rightarrow> store \<Rightarrow> string list" where
  "rooms_with aid s = map (r_id \<circ> snd) (filter (\<lambda>p. aid \<in> set (r_members (snd p))) (s_rooms s))"

definition tell_pruned :: "int \<Rightarrow> string \<times> string list \<Rightarrow> store \<Rightarrow> store" where
  "tell_pruned t gone s =
     emit_system t system_room (fst gone @ '' pruned (stale)'')
       (fold (\<lambda>rid. emit_system t rid (fst gone @ '' pruned after stale timeout'')) (snd gone) s)"

definition cleanup_stale_agents :: "int \<Rightarrow> store \<Rightarrow> store" where
  "cleanup_stale_agents t s =
     (let cutoff = t - stale_agent_window s;
          gone = map fst (filter (\<lambda>p. last_seen_before cutoff (snd p)) (s_agents s));
          where_in = map (\<lambda>aid. (aid, rooms_with aid s)) gone
      in if gone = [] then s
         else fold (tell_pruned t) where_in
                (broadcast_room_update (broadcast_agent_update (persist (fold forget_agent gone s)))))"

definition cleanup_messages :: "int \<Rightarrow> store \<Rightarrow> store" where
  "cleanup_messages t s = cleanup_reactions (cleanup_attachments t s)"

subsection \<open>Clearing\<close>

definition clear_cards :: "store \<Rightarrow> store" where
  "clear_cards s = s\<lparr>s_cards := [], s_db := (s_db s)\<lparr>db_cards := []\<rparr>\<rparr>"

definition clear_sounds :: "store \<Rightarrow> store" where
  "clear_sounds s = s\<lparr>s_sounds := [], s_db := (s_db s)\<lparr>db_sounds := []\<rparr>\<rparr>"

definition clear_attachments :: "store \<Rightarrow> store" where
  "clear_attachments s = s\<lparr>s_attachments := [], s_db := (s_db s)\<lparr>db_attachments := []\<rparr>\<rparr>"

definition clear_all :: "(string, string) table \<Rightarrow> bool \<Rightarrow> store \<Rightarrow> store" where
  "clear_all default_macros include_settings s =
     (if \<not> include_settings then
        broadcast_room_update (broadcast_agent_update (persist_full_core
          (s\<lparr>s_agents := [], s_sessions := [],
             s_rooms := map_vals (\<lambda>_. drop_members (keys (s_agents s))) (s_rooms s)\<rparr>)))
      else
        let s1 = persist_full_core (clear_all_prefs
                   (s\<lparr>s_rooms := [], s_messages := [], s_agents := [], s_sessions := []\<rparr>));
            s2 = persist_reactions ((clear_attachments s1)\<lparr>s_reactions := []\<rparr>);
            s3 = apply_default_macros default_macros
                   ((clear_cards (clear_memory s2))\<lparr>s_macros := [], s_seen_defaults := []\<rparr>)
        in broadcast_agent_update (broadcast_room_update
             (clear_sounds (clear_fleets (clear_settings (clear_roles (clear_prompts s3)))))))"

subsection \<open>Starting\<close>

definition new_store :: "int \<Rightarrow> database \<Rightarrow> store" where
  "new_store t db =
     ensure_system_room t (cleanup_reactions (cleanup_attachments t
       (prune_on_startup t (load_store (empty_store\<lparr>s_db := db\<rparr>)))))"

definition start_server ::
    "(string \<Rightarrow> string) \<Rightarrow> (string, string) table \<Rightarrow> (string, string list) table \<Rightarrow>
     (string, string) table \<Rightarrow> int \<Rightarrow> database \<Rightarrow> store" where
  "start_server sha default_macros stale role_defaults t db =
     apply_default_macros default_macros (migrate_stale_macros sha default_macros stale
       ((new_store t db)\<lparr>s_role_defaults := role_defaults\<rparr>))"

subsection \<open>What reading back gives\<close>

lemma distinct_fold_put: "distinct (keys acc) \<Longrightarrow> distinct (keys (fold (\<lambda>x. put (f x) (g x)) xs acc))"
  by (induction xs arbitrary: acc) auto

lemma map_of_fold_put:
  "distinct (map f xs) \<Longrightarrow>
   map_of (fold (\<lambda>x. put (f x) (g x)) xs acc) k =
     (case map_of (map (\<lambda>x. (f x, g x)) xs) k of Some v \<Rightarrow> Some v | None \<Rightarrow> map_of acc k)"
proof (induction xs arbitrary: acc)
  case (Cons x xs)
  have "map_of (map (\<lambda>x. (f x, g x)) xs) (f x) = None"
    using Cons.prems by (force simp: map_of_eq_None_iff)
  then show ?case using Cons by (auto split: option.split)
qed simp

lemma map_of_load:
  assumes "distinct (keys rows)" "\<forall>p \<in> set rows. f (snd p) = fst p"
  shows "map_of (fold (\<lambda>p. put (f (snd p)) (g (snd p))) (sort_key fst rows) []) =
     map_of (map_vals (\<lambda>_. g) rows)"
proof -
  let ?xs = "sort_key fst rows"
  have xs: "\<forall>p \<in> set ?xs. f (snd p) = fst p" using assms(2) by simp
  then have same: "map (\<lambda>p. f (snd p)) ?xs = keys ?xs"
    "map (\<lambda>p. (f (snd p), g (snd p))) ?xs = map_vals (\<lambda>_. g) ?xs"
    by (auto simp: map_vals_def)
  have d: "distinct (keys ?xs)" using assms(1) by (simp add: map_sort_key)
  have "map_of ?xs = map_of rows" using assms(1) by (rule map_of_sort)
  then have "map_of (map_vals (\<lambda>_. g) ?xs) = map_of (map_vals (\<lambda>_. g) rows)" by auto
  then show ?thesis
    using map_of_fold_put [of "\<lambda>p. f (snd p)" ?xs "\<lambda>p. g (snd p)" "[]"] d
    by (auto simp: same split: option.split)
qed

lemma load_messages_log:
  "get_or [] (fold load_message xs acc) r = get_or [] acc r @ filter (\<lambda>m. m_room m = r) xs"
  by (induction xs arbitrary: acc) (auto simp: load_message_def)

lemma load_messages_keys: "distinct (keys acc) \<Longrightarrow> distinct (keys (fold load_message xs acc))"
  by (induction xs arbitrary: acc) (auto simp: load_message_def)

lemma load_messages_nonempty:
  "(k, ms) \<in> set (fold load_message xs acc) \<Longrightarrow> \<forall>p \<in> set acc. snd p \<noteq> [] \<Longrightarrow> ms \<noteq> []"
  by (induction xs arbitrary: acc) (fastforce simp: load_message_def dest!: in_set_putD)+

lemma max_id_fold:
  fixes xs :: "message list"
  shows "(fold (\<lambda>m n. if n < m_id m then m_id m else n) xs n0 = n0 \<or>
      fold (\<lambda>m n. if n < m_id m then m_id m else n) xs n0 \<in> m_id ` set xs) \<and>
    n0 \<le> fold (\<lambda>m n. if n < m_id m then m_id m else n) xs n0 \<and>
    (\<forall>m \<in> set xs. m_id m \<le> fold (\<lambda>m n. if n < m_id m then m_id m else n) xs n0)"
proof (induction xs arbitrary: n0)
  case (Cons x xs)
  show ?case using Cons [of "if n0 < m_id x then m_id x else n0"] by (auto split: if_splits)
qed simp

lemma max_message_id_facts:
  "max_message_id rows = 0 \<or> max_message_id rows \<in> m_id ` set rows" "0 \<le> max_message_id rows"
  "m \<in> set rows \<Longrightarrow> m_id m \<le> max_message_id rows"
  using max_id_fold [of "sort_key m_id rows" 0] by (auto simp: max_message_id_def)

lemma distinct_logged:
  assumes "distinct (keys msgs)" "\<And>k. distinct (map m_id (get_or [] msgs k))"
    and "\<And>k l m n. m \<in> set (get_or [] msgs k) \<Longrightarrow> n \<in> set (get_or [] msgs l) \<Longrightarrow> m_id m = m_id n \<Longrightarrow> k = l"
  shows "distinct (map m_id (all_logged msgs))"
  using assms
proof (induction msgs)
  case (Cons p msgs)
  obtain k ms where p: "p = (k, ms)" by (cases p)
  have fresh: "k \<notin> set (keys msgs)" using Cons.prems(1) p by auto
  have none: "map_of msgs k = None" using fresh by (simp add: map_of_eq_None_iff)
  have sub: "get_or [] msgs l = (if l = k then [] else get_or [] (p # msgs) l)" for l
    using none p by (auto simp: get_or_None)
  have "distinct (map m_id (all_logged msgs))"
  proof (rule Cons.IH)
    show "distinct (keys msgs)" using Cons.prems(1) p by simp
    show "distinct (map m_id (get_or [] msgs l))" for l
      using Cons.prems(2) [of l] by (simp add: sub)
    show "l = l'" if "m \<in> set (get_or [] msgs l)" "n \<in> set (get_or [] msgs l')" "m_id m = m_id n" for l l' m n
      using Cons.prems(3) [of m l n l'] that by (auto simp: sub split: if_splits)
  qed
  moreover have "m_id ` set ms \<inter> m_id ` set (all_logged msgs) = {}"
  proof -
    have False if "m \<in> set ms" "n \<in> set (all_logged msgs)" "m_id m = m_id n" for m n
    proof -
      note t = that
      obtain l ns where l: "(l, ns) \<in> set msgs" "n \<in> set ns" using t(2) by (auto simp: all_logged_def)
      then have "get_or [] msgs l = ns" "l \<noteq> k"
        using Cons.prems(1) p by (auto simp: get_or_def rev_image_eqI split: option.split)
      then show False using Cons.prems(3) [of m k n l] t l p by simp
    qed
    then show ?thesis by blast
  qed
  ultimately show ?case using Cons.prems(2) [of k] p by (simp add: all_logged_def)
qed (simp add: all_logged_def)

lemma load_parts_frame [simp]:
  "s_rooms (load_roles s) = s_rooms s" "s_messages (load_roles s) = s_messages s"
  "s_agents (load_roles s) = s_agents s" "s_next_id (load_roles s) = s_next_id s" "s_db (load_roles s) = s_db s"
  "s_rooms (load_attachments s) = s_rooms s" "s_messages (load_attachments s) = s_messages s"
  "s_agents (load_attachments s) = s_agents s" "s_next_id (load_attachments s) = s_next_id s"
  "s_db (load_attachments s) = s_db s"
  "s_rooms (load_room_prefs s) = s_rooms s" "s_messages (load_room_prefs s) = s_messages s"
  "s_agents (load_room_prefs s) = s_agents s" "s_next_id (load_room_prefs s) = s_next_id s"
  "s_reactions (load_room_prefs s) = s_reactions s" "s_db (load_room_prefs s) = s_db s"
  "s_rooms (load_cards s) = s_rooms s" "s_messages (load_cards s) = s_messages s"
  "s_agents (load_cards s) = s_agents s" "s_next_id (load_cards s) = s_next_id s"
  "s_reactions (load_cards s) = s_reactions s" "s_db (load_cards s) = s_db s"
  "s_rooms (load_memory s) = s_rooms s" "s_messages (load_memory s) = s_messages s"
  "s_agents (load_memory s) = s_agents s" "s_next_id (load_memory s) = s_next_id s"
  "s_reactions (load_memory s) = s_reactions s" "s_db (load_memory s) = s_db s"
  "s_rooms (load_macros s) = s_rooms s" "s_messages (load_macros s) = s_messages s"
  "s_agents (load_macros s) = s_agents s" "s_next_id (load_macros s) = s_next_id s"
  "s_reactions (load_macros s) = s_reactions s" "s_db (load_macros s) = s_db s"
  "s_rooms (load_prompts s) = s_rooms s" "s_messages (load_prompts s) = s_messages s"
  "s_agents (load_prompts s) = s_agents s" "s_next_id (load_prompts s) = s_next_id s" "s_db (load_prompts s) = s_db s"
  "s_rooms (load_fleets s) = s_rooms s" "s_messages (load_fleets s) = s_messages s"
  "s_agents (load_fleets s) = s_agents s" "s_next_id (load_fleets s) = s_next_id s" "s_db (load_fleets s) = s_db s"
  "s_rooms (load_sounds s) = s_rooms s" "s_messages (load_sounds s) = s_messages s"
  "s_agents (load_sounds s) = s_agents s" "s_next_id (load_sounds s) = s_next_id s" "s_db (load_sounds s) = s_db s"
  by (simp_all add: load_roles_def load_attachments_def load_room_prefs_def load_cards_def
      load_memory_def load_macros_def load_prompts_def load_fleets_def load_sounds_def Let_def)

lemma load_reactions_frame [simp]:
  "s_rooms (load_reactions s) = s_rooms s" "s_messages (load_reactions s) = s_messages s"
  "s_agents (load_reactions s) = s_agents s" "s_next_id (load_reactions s) = s_next_id s"
  "s_db (load_reactions s) = s_db s"
  "s_reactions (load_reactions s) = filter (\<lambda>p. snd p \<noteq> []) (sort_key fst (db_reactions (s_db s)))"
  by (simp_all add: load_reactions_def)

lemma load_store_core:
  "s_rooms (load_store s) = load_rooms (db_rooms (s_db s))"
  "s_messages (load_store s) = load_messages (db_messages (s_db s))"
  "s_agents (load_store s) = load_agents (db_agents (s_db s))"
  "s_next_id (load_store s) = max_message_id (db_messages (s_db s))"
  "s_reactions (load_store s) = filter (\<lambda>p. snd p \<noteq> []) (sort_key fst (db_reactions (s_db s)))"
  "s_db (load_store s) = s_db s"
  by (simp_all add: load_store_def load_core_def Let_def)

lemma map_vals_idem: "map_vals (\<lambda>_. (\<lambda>x. x)) m = m"
  by (rule map_vals_id) simp

lemma load_rooms_map:
  assumes "rooms_ok rooms ags"
  shows "map_of (load_rooms rooms) = map_of rooms" "distinct (keys (load_rooms rooms))"
proof -
  have "\<forall>p \<in> set rooms. r_id (snd p) = fst p" "distinct (keys rooms)"
    using assms by (auto simp: rooms_ok_def room_ok_def)
  then show "map_of (load_rooms rooms) = map_of rooms"
    using map_of_load [of rooms r_id "\<lambda>x. x"] by (simp add: load_rooms_def map_vals_idem)
  show "distinct (keys (load_rooms rooms))" unfolding load_rooms_def by (rule distinct_fold_put) simp
qed

lemma load_agents_map:
  assumes "agent_cores rows = agent_cores ags" "agents_ok ags"
  shows "map_of (agent_cores (load_agents rows)) = map_of (agent_cores ags)"
    "distinct (keys (load_agents rows))" "map_of (load_agents rows) k = Some a \<Longrightarrow> a_id a = k"
proof -
  have keys: "keys rows = keys ags"
    using arg_cong [OF assms(1), of keys] by (simp add: agent_cores_def)
  have ids: "\<forall>p \<in> set rows. a_id (snd p) = fst p"
  proof
    fix p assume "p \<in> set rows"
    then have "(fst p, agent_core (snd p)) \<in> set (agent_cores ags)"
      unfolding assms(1) [symmetric] by (force simp: agent_cores_def snd_in_map_vals)
    then obtain b where "(fst p, b) \<in> set ags" "agent_core b = agent_core (snd p)"
      by (auto simp: agent_cores_def snd_in_map_vals)
    then show "a_id (snd p) = fst p"
      using assms(2) by (auto simp: agents_ok_def agent_core_def agent_row_def dest!: arg_cong [of _ _ a_id])
  qed
  have d: "distinct (keys rows)" using keys assms(2) by (simp add: agents_ok_def)
  have m: "map_of (load_agents rows) = map_of (map_vals (\<lambda>_. agent_row) rows)"
    unfolding load_agents_def using map_of_load [OF d ids, of agent_row] .
  have "map_of (agent_cores (load_agents rows)) = map_of (agent_cores rows)"
    by (auto simp: agent_cores_def m option.map_comp comp_def)
  then show "map_of (agent_cores (load_agents rows)) = map_of (agent_cores ags)" by (simp add: assms(1))
  show "distinct (keys (load_agents rows))" unfolding load_agents_def by (rule distinct_fold_put) simp
  show "a_id a = k" if "map_of (load_agents rows) k = Some a"
  proof -
    note t = that
    obtain z where z: "map_of rows k = Some z" "a = agent_row z"
      using t unfolding m by (cases "map_of rows k") auto
    then have "a_id z = k" using ids by (force dest!: map_of_in_set)
    then show ?thesis using z by (simp add: agent_row_def)
  qed
qed

lemma load_agents_ok:
  assumes "agent_cores rows = agent_cores ags" "agents_ok ags"
  shows "agents_ok (load_agents rows)"
  using load_agents_map(2,3) [OF assms] by (fastforce simp: agents_ok_def dest: map_of_is_SomeI)

lemma mirrored_sorted:
  assumes "mirrors rows msgs" "log_ok msgs rooms n"
  shows "get_or [] (load_messages rows) r = get_or [] msgs r"
proof -
  have "get_or [] (load_messages rows) r = filter (\<lambda>m. m_room m = r) (sort_key m_id rows)"
    unfolding load_messages_def by (simp add: load_messages_log)
  also have "\<dots> = sort_key m_id (filter (\<lambda>m. m_room m = r) rows)" by (rule filter_sort)
  also have "\<dots> = sort_key m_id (get_or [] msgs r)" using assms(1) by (simp add: mirrors_def)
  also have "\<dots> = get_or [] msgs r"
    using log_ok_log(1) [OF assms(2), of r] by (intro sort_key_id_if_sorted) (simp add: strict_sorted_imp_sorted)
  finally show ?thesis .
qed

lemma mirrored_rows: "mirrors rows msgs \<Longrightarrow> m \<in> set rows \<longleftrightarrow> m \<in> set (get_or [] msgs (m_room m))"
proof -
  assume "mirrors rows msgs"
  then have "get_or [] msgs (m_room m) = filter (\<lambda>x. m_room x = m_room m) rows" by (simp add: mirrors_def)
  then show ?thesis by simp
qed

lemma logged_in: "distinct (keys msgs) \<Longrightarrow> m \<in> set (get_or [] msgs k) \<Longrightarrow> m \<in> set (all_logged msgs)"
  using all_logged_split [of msgs k] by auto

lemma load_log_ok:
  assumes "mirrors rows msgs" "log_ok msgs rooms n" "set (keys rooms) \<subseteq> set (keys rooms')"
  shows "log_ok (load_messages rows) rooms' (max_message_id rows)"
proof -
  have d: "distinct (keys (load_messages rows))"
    unfolding load_messages_def by (rule load_messages_keys) simp
  have dm: "distinct (keys msgs)" using assms(2) by (simp add: log_ok_def)
  have log: "get_or [] (load_messages rows) r = get_or [] msgs r" for r
    by (rule mirrored_sorted [OF assms(1,2)])
  have "distinct (map m_id (all_logged (load_messages rows)))"
  proof (rule distinct_logged [OF d])
    show "distinct (map m_id (get_or [] (load_messages rows) k))" for k
      unfolding log using log_ok_log(1) [OF assms(2), of k] by (simp add: strict_sorted_iff)
    show "k = l" if "m \<in> set (get_or [] (load_messages rows) k)"
      "x \<in> set (get_or [] (load_messages rows) l)" "m_id m = m_id x" for k l m x
    proof -
      have "m \<in> set (all_logged msgs)" "x \<in> set (all_logged msgs)"
        using that(1,2) dm by (auto simp: log intro: logged_in)
      then have "m = x" using assms(2) that(3) by (simp add: log_ok_def distinct_map inj_on_def)
      then show ?thesis
        using that(1,2) log_ok_log(2) [OF assms(2), where m = m and k = k]
          log_ok_log(2) [OF assms(2), where m = x and k = l]
        by (simp add: log)
    qed
  qed
  moreover have "k \<in> set (keys rooms') \<and> sorted_wrt (<) (map m_id ms) \<and>
      (\<forall>m \<in> set ms. m_room m = k \<and> 0 < m_id m \<and> m_id m \<le> max_message_id rows)"
    if "(k, ms) \<in> set (load_messages rows)" for k ms
  proof -
    have ms: "get_or [] (load_messages rows) k = ms"
      using that d by (simp add: get_or_def)
    have "ms \<noteq> []"
      using load_messages_nonempty [of k ms "sort_key m_id rows" "[]"] that by (simp add: load_messages_def)
    then obtain v where "map_of msgs k = Some v" using ms log [of k] by (cases "map_of msgs k") (auto simp: get_or_None)
    then have "k \<in> set (keys msgs)" by (auto simp: rev_image_eqI)
    then have "k \<in> set (keys rooms')" using assms(2,3) by (auto simp: log_ok_def simp del: set_map)
    moreover have "m \<in> set rows" if "m \<in> set ms" for m
      using that ms log [of k] log_ok_log(2) [OF assms(2), where m = m and k = k] mirrored_rows [OF assms(1), of m] by simp
    ultimately show ?thesis
      using ms log [of k] log_ok_log [OF assms(2), where k = k] max_message_id_facts(3) by simp
  qed
  ultimately show ?thesis using d max_message_id_facts(2) [of rows] by (fastforce simp: log_ok_def)
qed

lemma map_of_filter_vals:
  assumes "distinct (keys m)" "\<forall>p \<in> set m. P (snd p)"
  shows "filter (\<lambda>p. P (snd p)) m = m"
  using assms(2) by (simp add: filter_id_conv)

lemma load_room_ok:
  assumes "rooms_ok rooms ags" "distinct (keys rooms')" "map_of rooms' = map_of rooms"
    and "set (keys ags) \<subseteq> set (keys ags')"
  shows "rooms_ok rooms' ags'"
proof -
  have "room_ok ags' k r" if "(k, r) \<in> set rooms'" for k r
  proof -
    have "map_of rooms k = Some r" using assms(2,3) that by (metis map_of_iff_set)
    then show ?thesis using rooms_ok_lookup [OF assms(1)] room_ok_mono assms(4) by blast
  qed
  then show ?thesis using assms(2) by (auto simp: rooms_ok_def)
qed

lemma same_keys: "map_of m = map_of m' \<Longrightarrow> set (keys m) = set (keys m')"
  by (metis dom_map_of_conv_image_fst list.set_map)

lemma agent_core_keys: "keys (agent_cores ags) = keys ags"
  by (simp add: agent_cores_def)

definition reloaded :: "store \<Rightarrow> store" where
  "reloaded s = load_store (empty_store\<lparr>s_db := s_db s\<rparr>)"

lemma reloaded_reactions:
  assumes "store_ok s" "durable s"
  shows "s_reactions (reloaded s) = sort_key fst (db_reactions (s_db s))"
proof -
  have d: "map_of (db_reactions (s_db s)) = map_of (s_reactions s)" "distinct (keys (db_reactions (s_db s)))"
    using assms(2) by (simp_all add: durable_def logged_def)
  have "snd p \<noteq> []" if "p \<in> set (db_reactions (s_db s))" for p
  proof -
    have "map_of (s_reactions s) (fst p) = Some (snd p)"
      using that d by (metis map_of_iff_set prod.collapse)
    then show ?thesis using reactions_nonempty(1) [OF assms(1)] by (force dest!: map_of_in_set)
  qed
  then show ?thesis by (simp add: reloaded_def load_store_core filter_id_conv)
qed

lemma reloaded_tables:
  assumes "store_ok s" "durable s"
  shows "map_of (s_rooms (reloaded s)) = map_of (s_rooms s)"
    "room_log (reloaded s) r = room_log s r"
    "map_of (agent_cores (s_agents (reloaded s))) = map_of (agent_cores (s_agents s))"
    "map_of (s_reactions (reloaded s)) = map_of (s_reactions s)"
    "s_next_id (reloaded s) \<le> s_next_id s"
proof -
  have ok: "rooms_ok (s_rooms s) (s_agents s)" "agents_ok (s_agents s)"
    "log_ok (s_messages s) (s_rooms s) (s_next_id s)" "reactions_ok (s_reactions s) (s_messages s)"
    using assms(1) by (simp_all add: store_ok_def)
  have d: "db_rooms (s_db s) = s_rooms s" "mirrors (db_messages (s_db s)) (s_messages s)"
    "agent_cores (db_agents (s_db s)) = agent_cores (s_agents s)" "map_of (db_reactions (s_db s)) = map_of (s_reactions s)"
    "distinct (keys (db_reactions (s_db s)))"
    using assms(2) by (simp_all add: durable_def logged_def)
  show "map_of (s_rooms (reloaded s)) = map_of (s_rooms s)"
    using load_rooms_map(1) [OF ok(1)] by (simp add: reloaded_def load_store_core d)
  show "room_log (reloaded s) r = room_log s r"
    using mirrored_sorted [OF d(2) ok(3)] by (simp add: reloaded_def load_store_core room_log_def)
  show "map_of (agent_cores (s_agents (reloaded s))) = map_of (agent_cores (s_agents s))"
    using load_agents_map(1) [OF d(3) ok(2)] by (simp add: reloaded_def load_store_core)
  show "map_of (s_reactions (reloaded s)) = map_of (s_reactions s)"
    unfolding reloaded_reactions [OF assms] using d(5) by (simp add: map_of_sort d(4))
  have "m_id m \<le> s_next_id s" if "m \<in> set (db_messages (s_db s))" for m
    using that mirrored_rows [OF d(2), of m] log_ok_log(2) [OF ok(3), where m = m and k = "m_room m"] by simp
  then show "s_next_id (reloaded s) \<le> s_next_id s"
    using max_message_id_facts(1) [of "db_messages (s_db s)"] ok(3)
    by (auto simp: reloaded_def load_store_core log_ok_def)
qed

lemma reloaded_ok:
  assumes "store_ok s" "durable s"
  shows "store_ok (reloaded s)"
proof -
  have ok: "rooms_ok (s_rooms s) (s_agents s)" "agents_ok (s_agents s)"
    "log_ok (s_messages s) (s_rooms s) (s_next_id s)" "reactions_ok (s_reactions s) (s_messages s)"
    using assms(1) by (simp_all add: store_ok_def)
  have d: "db_rooms (s_db s) = s_rooms s" "mirrors (db_messages (s_db s)) (s_messages s)"
    "agent_cores (db_agents (s_db s)) = agent_cores (s_agents s)" "map_of (db_reactions (s_db s)) = map_of (s_reactions s)"
    "distinct (keys (db_reactions (s_db s)))"
    using assms(2) by (simp_all add: durable_def logged_def)
  note t = reloaded_tables [OF assms]
  have ags: "agents_ok (s_agents (reloaded s))"
    using load_agents_ok [OF d(3) ok(2)] by (simp add: reloaded_def load_store_core)
  have "set (keys (s_agents s)) = set (keys (s_agents (reloaded s)))"
    using same_keys [OF t(3)] by (simp add: agent_core_keys)
  then have rooms: "rooms_ok (s_rooms (reloaded s)) (s_agents (reloaded s))"
    using load_room_ok [OF ok(1) _ t(1)] load_rooms_map(2) [OF ok(1)]
    by (simp add: reloaded_def load_store_core d(1))
  have log: "log_ok (s_messages (reloaded s)) (s_rooms (reloaded s)) (s_next_id (reloaded s))"
    using load_log_ok [OF d(2) ok(3)] same_keys [OF t(1)] by (simp add: reloaded_def load_store_core)
  have logs: "get_or [] (s_messages (reloaded s)) k = get_or [] (s_messages s) k" for k
    using reloaded_tables(2) [OF assms, of k] by (simp add: room_log_def)
  have all: "set (all_logged (s_messages s)) \<subseteq> set (all_logged (s_messages (reloaded s)))"
  proof
    fix m assume "m \<in> set (all_logged (s_messages s))"
    then obtain k ms where "(k, ms) \<in> set (s_messages s)" "m \<in> set ms" by (auto simp: set_all_logged)
    then have "m \<in> set (get_or [] (s_messages (reloaded s)) k)"
      using ok(3) unfolding logs by (auto simp: get_or_Some log_ok_def dest: map_of_is_SomeI)
    then show "m \<in> set (all_logged (s_messages (reloaded s)))"
      using log by (intro logged_in) (auto simp: log_ok_def)
  qed
  have "set (db_reactions (s_db s)) = set (s_reactions s)"
    using ok(4) d(4,5) by (auto simp: reactions_ok_def) (metis map_of_iff_set)+
  then have "reactions_ok (sort_key fst (db_reactions (s_db s))) (s_messages s)"
    using ok(4) d(5) by (simp add: reactions_ok_def map_sort_key)
  then have "reactions_ok (s_reactions (reloaded s)) (s_messages (reloaded s))"
    unfolding reloaded_reactions [OF assms] using all by (rule reactions_ok_mono)
  then show ?thesis using ags rooms log by (simp add: store_ok_def)
qed

subsection \<open>The restart\<close>

text \<open>C32. Stopping the server and starting it again loses nothing that was on the bus: from a store
  that satisfies its invariant and is durable, the store read back from the tables satisfies the
  invariant too, has the same rooms (members, roles, memory switch), in every room the same
  messages in the same order, the same reactions and the same agents up to their activity. The
  counter of message ids comes back as the highest id still in use, so it never passes the one
  that was lost, and no message of the log is above it.\<close>

theorem restart_restores:
  assumes "store_ok s" "durable s"
  shows "store_ok (reloaded s) \<and>
    map_of (s_rooms (reloaded s)) = map_of (s_rooms s) \<and>
    room_log (reloaded s) r = room_log s r \<and>
    map_of (s_reactions (reloaded s)) = map_of (s_reactions s) \<and>
    map_of (agent_cores (s_agents (reloaded s))) = map_of (agent_cores (s_agents s)) \<and>
    s_next_id (reloaded s) = max_message_id (db_messages (s_db s)) \<and>
    s_next_id (reloaded s) \<le> s_next_id s"
  using reloaded_ok [OF assms] reloaded_tables [OF assms]
  by (simp add: reloaded_def load_store_core)

subsection \<open>Writing everything\<close>

lemma concat_logs:
  assumes "distinct (keys msgs)" "\<forall>(k, ms) \<in> set msgs. \<forall>m \<in> set ms. m_room m = k"
  shows "filter (\<lambda>m. m_room m = r) (concat (map snd msgs)) = get_or [] msgs r"
  using assms
proof (induction msgs)
  case (Cons p msgs)
  obtain k ms where p: "p = (k, ms)" by (cases p)
  have ms: "filter (\<lambda>m. m_room m = r) ms = (if k = r then ms else [])"
    using Cons.prems(2) p by (auto simp: filter_id_conv filter_empty_conv)
  have "get_or [] msgs k = []"
    using Cons.prems(1) p by (simp add: get_or_None map_of_eq_None_iff)
  then show ?case using Cons ms p by (auto simp: get_or_def)
qed simp

lemma mirrors_full:
  assumes "log_ok msgs rooms n"
  shows "mirrors (concat (map snd (sort_key fst msgs))) msgs"
proof -
  have d: "distinct (keys msgs)" using assms by (simp add: log_ok_def)
  have "filter (\<lambda>m. m_room m = r) (concat (map snd (sort_key fst msgs))) = get_or [] (sort_key fst msgs) r" for r
    using assms d by (intro concat_logs) (auto simp: log_ok_def map_sort_key)
  then show ?thesis using d by (simp add: mirrors_def get_or_def map_of_sort)
qed

lemma persist_full_frame [simp]:
  "s_rooms (persist_full_core s) = s_rooms s" "s_messages (persist_full_core s) = s_messages s"
  "s_agents (persist_full_core s) = s_agents s" "s_next_id (persist_full_core s) = s_next_id s"
  "s_reactions (persist_full_core s) = s_reactions s" "s_settings (persist_full_core s) = s_settings s"
  by (simp_all add: persist_full_core_def persist_def)

lemma store_ok_full [simp]: "store_ok (persist_full_core s) = store_ok s"
  by (rule store_ok_cong) simp_all

lemma durable_full:
  assumes "log_ok (s_messages s) rooms n"
    and "distinct (keys (db_reactions (s_db s)))" "map_of (db_reactions (s_db s)) = map_of (s_reactions s)"
  shows "durable (persist_full_core s)"
  using assms mirrors_full [OF assms(1)]
  by (simp add: durable_def logged_def persist_full_core_def persist_def agent_cores_def map_vals_map_vals)

definition sample_durable :: store where
  "sample_durable =
     persist_full_core (sample_store\<lparr>s_db := (s_db sample_store)\<lparr>db_reactions := s_reactions sample_store\<rparr>\<rparr>)"

lemma sample_durable_ok: "store_ok sample_durable" "durable sample_durable"
proof -
  show "store_ok sample_durable"
    unfolding sample_durable_def store_ok_full using store_ok_sample by (simp add: store_ok_def)
  have "s_reactions sample_store = [(2, [\<lparr>re_agent = ''ann'', re_emoji = ''x'', re_created = At 0\<rparr>])]" by code_simp
  then show "durable sample_durable"
    unfolding sample_durable_def
    using store_ok_sample
    by (intro durable_full [where rooms = "s_rooms sample_store" and n = "s_next_id sample_store"])
      (auto simp: store_ok_def)
qed

lemma restart_restores_witness:
  "map m_id (room_log (reloaded sample_durable) ''dev'') = [2, 4] \<and> s_next_id (reloaded sample_durable) = 4"
proof -
  have "map m_id (room_log sample_durable ''dev'') = [2, 4]" "max_message_id (db_messages (s_db sample_durable)) = 4"
    by code_simp+
  with restart_restores [OF sample_durable_ok, of "''dev''"] show ?thesis by simp
qed

text \<open>
  Ids are handed out again: deleting a direct-message room writes no notice, so when it held the
  highest id the counter falls back at the next restart.
\<close>

lemma dm_ids_come_back:
  "let s = snd (find_or_create_dm second ''ann'' ''bob@web'' sample_durable);
       s1 = snd (room_send (\<lambda>_. True) (\<lambda>_. ''p'') second (dm_id ''ann'' ''bob@web'')
                  (sample_send ''ann'' ''hi'') s);
       s2 = snd (delete_room second (dm_id ''ann'' ''bob@web'') s1)
   in (s_next_id s1, s_next_id s2, s_next_id (reloaded s2)) = (6, 6, 4)"
  by code_simp

end
