(* ===== verification/Races.thy ===== *)
theory Races
  imports Recovery
begin

section \<open>Sends and waits that overlap\<close>

text \<open>
  A send holds no lock from its id to its append: \<open>roomSendWithVisualPlan\<close> takes the id with an
  atomic add, appends under \<open>s.mu\<close>, and notifies under \<open>s.subMu\<close>; \<open>emitSystemMessageFull\<close> too, and
  it looks for the room only under the lock. Here each send is cut at these points, requests take
  their steps in any order, and rooms are deleted in between. The send of the theory Messages is the
  case in which the steps of one request follow each other.
\<close>

subsection \<open>The steps of a send\<close>

text \<open>\<open>Taken\<close>: the id is taken, the message not yet in the log, \<open>True\<close> for a system message.
  \<open>Stored\<close>: it is in the log and the subscribers do not know. A system message whose room is gone
  is dropped.\<close>

datatype flight = Taken bool message | Stored bool message

fun waiting :: "flight \<Rightarrow> message list" where
  "waiting (Taken sys m) = [m]"
| "waiting (Stored sys m) = []"

definition take_id ::
    "(string \<Rightarrow> bool) \<Rightarrow> (nat \<Rightarrow> string) \<Rightarrow> int \<Rightarrow> string \<Rightarrow> outgoing \<Rightarrow> store \<Rightarrow>
     (send_error + message) \<times> store" where
  "take_id json_ok gen t rid o1 s =
     (case check_send json_ok gen rid o1 s of
        Inl e \<Rightarrow> (Inl e, s)
      | Inr (parent, atts, plan, pages) \<Rightarrow>
          let targets = send_targets t s rid (og_from o1) (og_body o1) parent;
              s1 = (if og_attention o1 then summon_humans t rid targets s else s);
              i = s_next_id s1 + 1
          in (Inr (compose t i rid o1 targets plan pages atts (map_of (s_agents s1) (og_from o1))),
              s1\<lparr>s_next_id := i\<rparr>))"

definition take_system_id ::
    "int \<Rightarrow> string \<Rightarrow> string \<Rightarrow> string list option \<Rightarrow> bool \<Rightarrow> store \<Rightarrow> message \<times> store" where
  "take_system_id t rid body targets attention s =
     (let i = s_next_id s + 1
      in (system_message t i rid body targets attention, s\<lparr>s_next_id := i\<rparr>))"

definition store_message :: "bool \<Rightarrow> message \<Rightarrow> store \<Rightarrow> store option" where
  "store_message sys m s =
     (if sys \<and> \<not> has_key (s_rooms s) (m_room m) then None else Some (append_message (m_room m) m s))"

definition tell_message :: "bool \<Rightarrow> int \<Rightarrow> message \<Rightarrow> store \<Rightarrow> store" where
  "tell_message sys t m s =
     publish_message (m_room m) m (if sys then s else touch_agent t (m_from m) s)"

inductive send_step :: "store \<times> flight list \<Rightarrow> store \<times> flight list \<Rightarrow> bool" where
  Take: "take_id json_ok gen t rid o1 s = (Inr m, s1) \<Longrightarrow>
         send_step (s, fl) (s1, Taken False m # fl)"
| TakeSystem: "take_system_id t rid body targets attention s = (m, s1) \<Longrightarrow>
         send_step (s, fl) (s1, Taken True m # fl)"
| Commit: "store_message sys m s = Some s1 \<Longrightarrow>
         send_step (s, fl @ Taken sys m # gl) (s1, fl @ Stored sys m # gl)"
| Drop: "store_message sys m s = None \<Longrightarrow> send_step (s, fl @ Taken sys m # gl) (s, fl @ gl)"
| Tell: "send_step (s, fl @ Stored sys m # gl) (tell_message sys t m s, fl @ gl)"
| Delete: "send_step (s, fl) (snd (delete_room t rid s), fl)"

inductive_cases send_stepE: "send_step c c'"

lemma compose_room [simp]:
  "m_room (compose t i rid o1 ts plan pages atts a) = rid" "m_id (compose t i rid o1 ts plan pages atts a) = i"
  "m_from (compose t i rid o1 ts plan pages atts a) = og_from o1"
  by (simp_all add: compose_def)

text \<open>Without overlap the steps are the send.\<close>

lemma room_send_steps:
  "room_send json_ok gen t rid o1 s =
     (case take_id json_ok gen t rid o1 s of
        (Inl e, s1) \<Rightarrow> (Inl e, s1)
      | (Inr m, s1) \<Rightarrow> (Inr (m_id m), tell_message False t m (the (store_message False m s1))))"
  by (simp add: room_send_def take_id_def tell_message_def store_message_def Let_def split: sum.split)

lemma emit_steps:
  "emit_system_full t rid body ts att s =
     (case take_system_id t rid body ts att s of
        (m, s1) \<Rightarrow> (case store_message True m s1 of None \<Rightarrow> s1 | Some s2 \<Rightarrow> tell_message True t m s2))"
  by (simp add: emit_system_full_def take_system_id_def store_message_def tell_message_def Let_def
      system_message_def)

subsection \<open>What every interleaving keeps\<close>

text \<open>Every message that has an id: those of the logs and those that wait to be appended.\<close>

definition used :: "store \<Rightarrow> flight list \<Rightarrow> message list" where
  "used s fl = all_logged (s_messages s) @ concat (map waiting fl)"

definition ids_ok :: "store \<Rightarrow> flight list \<Rightarrow> bool" where
  "ids_ok s fl =
     (distinct (keys (s_messages s)) \<and> 0 \<le> s_next_id s \<and> distinct (map m_id (used s fl)) \<and>
      (\<forall>m \<in> set (used s fl). 0 < m_id m \<and> m_id m \<le> s_next_id s))"

definition logs_ok :: "store \<Rightarrow> bool" where
  "logs_ok s =
     (mirrors (db_messages (s_db s)) (s_messages s) \<and>
      (\<forall>k. \<forall>m \<in> set (room_log s k). m_room m = k))"

definition race_ok :: "store \<times> flight list \<Rightarrow> bool" where
  "race_ok c = (ids_ok (fst c) (snd c) \<and> logs_ok (fst c))"

lemma mset_split:
  "distinct (keys msgs) \<Longrightarrow> mset (all_logged msgs) = mset (get_or [] msgs k) + mset (all_logged (del k msgs))"
proof (induction msgs)
  case (Cons p msgs)
  obtain j ms where p: "p = (j, ms)" by (cases p)
  have "del j msgs = msgs" "get_or [] msgs j = []"
    using Cons.prems p by (simp_all add: delete_idem get_or_None map_of_eq_None_iff)
  then show ?case using Cons p by (cases "j = k") (auto simp: all_logged_def get_or_def)
qed (simp add: all_logged_def)

lemma mset_append:
  "distinct (keys msgs) \<Longrightarrow>
   mset (all_logged (put k (get_or [] msgs k @ [m]) msgs)) = mset (all_logged msgs) + {#m#}"
proof -
  assume d: "distinct (keys msgs)"
  have "del k (put k v msgs) = del k msgs" for v by (rule delete_update_same)
  then show ?thesis
    using mset_split [OF d, of k] mset_split [of "put k (get_or [] msgs k @ [m]) msgs" k] d by simp
qed

lemma distinct_sub:
  assumes "mset xs \<subseteq># mset ys" "distinct ys" shows "distinct xs"
proof -
  obtain A where "mset ys = mset xs + A" using assms(1) by (auto simp: mset_subset_eq_exists_conv)
  moreover obtain zs where "mset zs = A" using ex_mset by blast
  ultimately have "mset ys = mset (xs @ zs)" by simp
  then have "distinct (xs @ zs)" using assms(2) mset_eq_imp_distinct_iff by blast
  then show ?thesis by simp
qed

lemma ids_ok_mset:
  assumes "ids_ok s fl" "distinct (keys (s_messages s'))" "s_next_id s \<le> s_next_id s'"
    and "mset (used s' fl') \<subseteq># mset (used s fl)"
  shows "ids_ok s' fl'"
proof -
  have "mset (map m_id (used s' fl')) \<subseteq># mset (map m_id (used s fl))"
    unfolding mset_map by (rule image_mset_subseteq_mono [OF assms(4)])
  then have "distinct (map m_id (used s' fl'))"
    using assms(1) unfolding ids_ok_def by (blast intro: distinct_sub)
  moreover have "set (used s' fl') \<subseteq> set (used s fl)" using set_mset_mono [OF assms(4)] by simp
  ultimately show ?thesis using assms(1-3) unfolding ids_ok_def by force
qed

lemma ids_ok_fresh:
  assumes "ids_ok s fl" "distinct (keys (s_messages s'))" "s_next_id s' = s_next_id s + 1"
    and "m_id m = s_next_id s + 1" "mset (used s' fl') = mset (used s fl) + {#m#}"
  shows "ids_ok s' fl'"
proof -
  have eq: "mset (used s' fl') = mset (m # used s fl)" using assms(5) by simp
  have "m_id m \<notin> m_id ` set (used s fl)" using assms(1,4) by (force simp: ids_ok_def)
  then have "distinct (map m_id (m # used s fl))" using assms(1) by (simp add: ids_ok_def)
  moreover have "mset (map m_id (used s' fl')) = mset (map m_id (m # used s fl))"
    using eq by (simp only: mset_map)
  ultimately have "distinct (map m_id (used s' fl'))" using mset_eq_imp_distinct_iff by blast
  moreover have "set (used s' fl') = set (m # used s fl)" using eq by (rule mset_eq_setD)
  ultimately show ?thesis using assms(1-4) unfolding ids_ok_def by force
qed

lemma append_log:
  "s_messages (append_message rid m s) = put rid (get_or [] (s_messages s) rid @ [m]) (s_messages s)"
  by (simp add: append_message_def insert_message_row_def room_log_def)

lemma logs_ok_append: "logs_ok s \<Longrightarrow> m_room m = rid \<Longrightarrow> logs_ok (append_message rid m s)"
  by (auto simp: logs_ok_def append_log mirrors_append room_log_def)

lemma race_ok_cong:
  "s_messages s' = s_messages s \<Longrightarrow> s_next_id s' = s_next_id s \<Longrightarrow>
   db_messages (s_db s') = db_messages (s_db s) \<Longrightarrow> race_ok (s', fl) = race_ok (s, fl)"
  by (simp add: race_ok_def ids_ok_def used_def logs_ok_def room_log_def)

lemma race_ok_blocks [simp]:
  "race_ok (persist s, fl) = race_ok (s, fl)" "race_ok (broadcast_meta e s, fl) = race_ok (s, fl)"
  "race_ok (broadcast_room_update s, fl) = race_ok (s, fl)" "race_ok (unhide_room rid s, fl) = race_ok (s, fl)"
  "race_ok (persist_prefs s, fl) = race_ok (s, fl)" "race_ok (publish_message rid m s, fl) = race_ok (s, fl)"
  "race_ok (touch_agent t a s, fl) = race_ok (s, fl)" "race_ok (s\<lparr>s_rooms := rs\<rparr>, fl) = race_ok (s, fl)"
  "race_ok (cleanup_reactions s, fl) = race_ok (s, fl)" "race_ok (s\<lparr>s_prefs := ps\<rparr>, fl) = race_ok (s, fl)"
  by (rule race_ok_cong; simp add: broadcasts persist_def persist_prefs_def unhide_room_def
      clear_hidden_for_room_def split: prod.split)+

lemma race_ok_emit: "race_ok (s, fl) \<Longrightarrow> race_ok (emit_system_full t rid b ts att s, fl)"
proof -
  assume r: "race_ok (s, fl)"
  let ?m = "system_message t (s_next_id s + 1) rid b ts att"
  let ?s1 = "s\<lparr>s_next_id := s_next_id s + 1\<rparr>"
  have ids: "ids_ok s fl" and logs: "logs_ok s" using r by (simp_all add: race_ok_def)
  then have d: "distinct (keys (s_messages s))" by (simp add: ids_ok_def)
  have "ids_ok (append_message rid ?m ?s1) fl"
    by (rule ids_ok_fresh [OF ids, where m = ?m])
      (simp_all add: append_log used_def d mset_append system_message_def blank_message_def append_message_def
        insert_message_row_def room_log_def)
  moreover have "logs_ok (append_message rid ?m ?s1)"
    using logs by (intro logs_ok_append) (simp_all add: logs_ok_def system_message_def room_log_def)
  moreover have "race_ok (?s1, fl)"
    using ids logs ids_ok_mset [OF ids, of ?s1 fl] d by (simp add: used_def race_ok_def logs_ok_def room_log_def)
  moreover have "race_ok (publish_message rid m u, fl) = race_ok (u, fl)" for m u by simp
  ultimately show ?thesis by (simp add: emit_system_full_def Let_def race_ok_def del: race_ok_blocks)
qed

lemma race_ok_fold: "(\<And>x s. race_ok (s, fl) \<Longrightarrow> race_ok (f x s, fl)) \<Longrightarrow> race_ok (s, fl) \<Longrightarrow> race_ok (fold f xs s, fl)"
  by (induction xs arbitrary: s) auto

lemma race_ok_join: "race_ok (s, fl) \<Longrightarrow> race_ok (snd (join_room t rid aid s), fl)"
  by (simp add: join_room_def Let_def emits race_ok_emit split: option.split)

lemma race_ok_summon: "race_ok (s, fl) \<Longrightarrow> race_ok (summon_humans t rid ts s, fl)"
proof -
  assume r: "race_ok (s, fl)"
  have "race_ok (join_human t rid a u, fl)" if "race_ok (u, fl)" for a u
    using that by (simp add: join_human_def race_ok_join)
  then have "race_ok (join_humans t rid s, fl)" unfolding join_humans_def using r by (rule race_ok_fold)
  then show ?thesis
    by (simp add: summon_humans_def Let_def unhide_for_addressed_def split: option.split prod.split)
qed

lemma race_ok_take:
  assumes "race_ok (s, fl)" "m_id m = s_next_id s + 1"
  shows "race_ok (s\<lparr>s_next_id := s_next_id s + 1\<rparr>, Taken sys m # fl)"
proof -
  have ids: "ids_ok s fl" using assms(1) by (simp add: race_ok_def)
  then have d: "distinct (keys (s_messages s))" by (simp add: ids_ok_def)
  have "ids_ok (s\<lparr>s_next_id := s_next_id s + 1\<rparr>) (Taken sys m # fl)"
    by (rule ids_ok_fresh [OF ids, where m = m]) (simp_all add: used_def d assms(2))
  then show ?thesis using assms(1) by (simp add: race_ok_def logs_ok_def room_log_def)
qed

lemma race_ok_drop:
  assumes "race_ok (s, fl @ f # gl)" "mset (waiting g) \<subseteq># mset (waiting f)"
  shows "race_ok (s, fl @ g # gl)" "race_ok (s, fl @ gl)"
proof -
  have ids: "ids_ok s (fl @ f # gl)" and logs: "logs_ok s" using assms by (simp_all add: race_ok_def)
  then have d: "distinct (keys (s_messages s))" by (simp add: ids_ok_def)
  show "race_ok (s, fl @ g # gl)" "race_ok (s, fl @ gl)"
    using assms(2) ids_ok_mset [OF ids d, of "fl @ g # gl"] ids_ok_mset [OF ids d, of "fl @ gl"] logs
    by (simp_all add: race_ok_def used_def)
qed

lemma race_ok_store:
  assumes "race_ok (s, fl @ Taken sys m # gl)" "store_message sys m s = Some s1"
  shows "race_ok (s1, fl @ Stored sys m # gl)"
proof -
  have ids: "ids_ok s (fl @ Taken sys m # gl)" and logs: "logs_ok s" using assms by (simp_all add: race_ok_def)
  then have d: "distinct (keys (s_messages s))" by (simp add: ids_ok_def)
  have "ids_ok (append_message (m_room m) m s) (fl @ Stored sys m # gl)"
    by (rule ids_ok_mset [OF ids]) (simp_all add: used_def append_log d mset_append room_log_def)
  then show ?thesis
    using logs assms(2) by (auto simp: race_ok_def store_message_def logs_ok_append split: if_splits)
qed

lemma race_ok_tell: "race_ok (s, fl @ Stored sys m # gl) \<Longrightarrow> race_ok (tell_message sys t m s, fl @ gl)"
  using race_ok_drop(2) [of s fl "Stored sys m" gl "Stored sys m"] by (simp add: tell_message_def)

lemma mirrors_del: "mirrors rows msgs \<Longrightarrow> mirrors (filter (\<lambda>m. m_room m \<noteq> rid) rows) (del rid msgs)"
  by (auto simp: mirrors_def filter_filter conj_commute intro: filter_cong)
    (metis (mono_tags, lifting) filter_cong)

lemma race_ok_delete:
  assumes "race_ok (s, fl)" shows "race_ok (snd (delete_room t rid s), fl)"
proof -
  let ?s1 = "delete_room_messages_rows rid (s\<lparr>s_rooms := del rid (s_rooms s), s_messages := del rid (s_messages s)\<rparr>)"
  have ids: "ids_ok s fl" and logs: "logs_ok s" using assms by (simp_all add: race_ok_def)
  then have d: "distinct (keys (s_messages s))" by (simp add: ids_ok_def)
  have "ids_ok ?s1 fl"
    by (rule ids_ok_mset [OF ids]) (simp_all add: used_def d mset_split [OF d, of rid])
  moreover have "logs_ok ?s1"
    using logs by (auto simp: logs_ok_def mirrors_del room_log_def delete_room_messages_rows_def)
  ultimately have "race_ok (?s1, fl)" by (simp add: race_ok_def)
  then show ?thesis using assms by (simp add: delete_room_def Let_def emits race_ok_emit)
qed

lemma race_ok_step: "send_step c c' \<Longrightarrow> race_ok c \<Longrightarrow> race_ok c'"
proof (induction rule: send_step.induct)
  case (Take json_ok gen t rid o1 s m s1 fl)
  obtain parent atts plan pages where c: "check_send json_ok gen rid o1 s = Inr (parent, atts, plan, pages)"
    using Take(1) by (auto simp: take_id_def split: sum.splits)
  let ?ts = "send_targets t s rid (og_from o1) (og_body o1) parent"
  let ?s1 = "if og_attention o1 then summon_humans t rid ?ts s else s"
  have "race_ok (?s1, fl)" using Take(2) race_ok_summon by simp
  then have "race_ok (?s1\<lparr>s_next_id := s_next_id ?s1 + 1\<rparr>, Taken False m # fl)"
    using Take(1) c by (intro race_ok_take) (auto simp: take_id_def Let_def simp del: race_ok_blocks)
  then show ?case using Take(1) c by (simp add: take_id_def Let_def split: if_splits)
next
  case (TakeSystem t rid body targets attention s m s1 fl)
  then show ?case
    using race_ok_take [of s fl m True] by (auto simp: take_system_id_def system_message_def Let_def)
next
  case (Drop sys m s fl gl)
  then show ?case using race_ok_drop(2) [of s fl "Taken sys m" gl "Taken sys m"] by simp
qed (simp_all add: race_ok_store race_ok_tell race_ok_delete)

lemma race_ok_start: "store_ok s \<Longrightarrow> durable s \<Longrightarrow> race_ok (s, [])"
  using log_ok_log(2) [of "s_messages s" "s_rooms s" "s_next_id s"]
    logged_bound [of "s_messages s" "s_rooms s" "s_next_id s"]
  by (auto simp: race_ok_def ids_ok_def used_def logs_ok_def store_ok_def durable_def logged_def room_log_def)
    (auto simp: log_ok_def)

interpretation races: invariant_relation send_step race_ok
  by unfold_locales (rule race_ok_step)

text \<open>C33. However sends, system notices and deletions of rooms overlap: no two messages ever have the
  same id, whether they are in a log or still on their way, none has an id that the counter has
  not passed, no message is in the log of a room that is not its own, and at every moment the table
  of messages holds, room by room and in the same order, exactly what the logs hold.\<close>

theorem concurrent_sends:
  assumes "store_ok s0" "durable s0" "send_step\<^sup>*\<^sup>* (s0, []) (s, fl)"
  shows "distinct (map m_id (used s fl)) \<and> (\<forall>m \<in> set (used s fl). 0 < m_id m \<and> m_id m \<le> s_next_id s) \<and>
    (\<forall>k. \<forall>m \<in> set (room_log s k). m_room m = k) \<and>
    (\<forall>r. filter (\<lambda>m. m_room m = r) (db_messages (s_db s)) = room_log s r)"
proof -
  have "race_ok (s, fl)"
    by (rule races.reachable_good [OF assms(3) race_ok_start [OF assms(1,2)]])
  then show ?thesis by (simp add: race_ok_def ids_ok_def logs_ok_def mirrors_def room_log_def)
qed

subsection \<open>What overlapping costs\<close>

text \<open>
  Two sends to one room, ann's and bob's: ann takes her id first and appends second.
\<close>

abbreviation free_take :: "string \<Rightarrow> string \<Rightarrow> store \<Rightarrow> (send_error + message) \<times> store" where
  "free_take from body s \<equiv> take_id (\<lambda>_. True) (\<lambda>_. ''p'') second ''dev'' (sample_send from body) s"

definition two_taken :: "message \<times> message \<times> store" where
  "two_taken =
     (let (r1, s1) = free_take ''ann'' ''one'' sample_durable; (r2, s2) = free_take ''bob@web'' ''two'' s1
      in (projr r1, projr r2, s2))"

definition overlapped :: store where
  "overlapped =
     (let (m1, m2, s) = two_taken in the (store_message False m1 (the (store_message False m2 s))))"

lemma store_sent: "store_message False m s = Some (the (store_message False m s))"
  by (simp add: store_message_def)

lemma four_steps:
  assumes "send_step a b" "send_step b c" "send_step c d" "send_step d e"
  shows "send_step\<^sup>*\<^sup>* a e"
proof -
  have "send_step\<^sup>*\<^sup>* a b" using assms(1) by (rule r_into_rtranclp)
  then have "send_step\<^sup>*\<^sup>* a c" using assms(2) by (rule rtranclp.rtrancl_into_rtrancl)
  then have "send_step\<^sup>*\<^sup>* a d" using assms(3) by (rule rtranclp.rtrancl_into_rtrancl)
  then show ?thesis using assms(4) by (rule rtranclp.rtrancl_into_rtrancl)
qed

lemma overlapped_run:
  "\<exists>m1 m2. send_step\<^sup>*\<^sup>* (sample_durable, []) (overlapped, [Stored False m2, Stored False m1])"
proof -
  obtain r1 s1 where e1: "free_take ''ann'' ''one'' sample_durable = (r1, s1)" by (rule prod.exhaust)
  obtain r2 s2 where e2: "free_take ''bob@web'' ''two'' s1 = (r2, s2)" by (rule prod.exhaust)
  have "isl (fst (free_take ''ann'' ''one'' sample_durable)) = False"
    "isl (fst (free_take ''bob@web'' ''two'' (snd (free_take ''ann'' ''one'' sample_durable)))) = False"
    by code_simp+
  then have "\<not> isl r1" "\<not> isl r2" by (simp_all only: e1 e2 fst_conv snd_conv simp_thms)
  then obtain m1 m2 where m: "r1 = Inr m1" "r2 = Inr m2" by (cases r1; cases r2) auto
  let ?s3 = "the (store_message False m2 s2)"
  have o: "overlapped = the (store_message False m1 ?s3)"
    unfolding overlapped_def two_taken_def e1 Let_def prod.case e2 m sum.sel ..
  have 1: "send_step (sample_durable, []) (s1, [Taken False m1])" by (rule Take [OF e1 [unfolded m]])
  have 2: "send_step (s1, [Taken False m1]) (s2, [Taken False m2, Taken False m1])"
    by (rule Take [OF e2 [unfolded m]])
  have 3: "send_step (s2, [Taken False m2, Taken False m1]) (?s3, [Stored False m2, Taken False m1])"
    using Commit [OF store_sent, where fl = "[]" and m = m2 and s = s2 and gl = "[Taken False m1]"] by (simp only: append_Nil)
  have 4: "send_step (?s3, [Stored False m2, Taken False m1]) (overlapped, [Stored False m2, Stored False m1])"
    using Commit [OF store_sent, where fl = "[Stored False m2]" and m = m1 and s = ?s3 and gl = "[]"] unfolding o
    by (simp only: append_Nil append_Cons)
  have "send_step\<^sup>*\<^sup>* (sample_durable, []) (overlapped, [Stored False m2, Stored False m1])"
    by (rule four_steps [OF 1 2 3 4])
  then show ?thesis by blast
qed

lemma concurrent_sends_witness:
  "distinct (map m_id (all_logged (s_messages overlapped))) \<and>
   filter (\<lambda>m. m_room m = ''dev'') (db_messages (s_db overlapped)) = room_log overlapped ''dev''"
proof -
  obtain m1 m2 where "send_step\<^sup>*\<^sup>* (sample_durable, []) (overlapped, [Stored False m2, Stored False m1])"
    using overlapped_run by blast
  from concurrent_sends [OF sample_durable_ok this] show ?thesis by (simp add: used_def)
qed

text \<open>
  The log is then out of order, although readers take its last message for the newest; a restart
  sorts it.
\<close>

lemma out_of_order:
  "map m_id (room_log overlapped ''dev'') = [2, 4, 7, 6] \<and>
   map m_id (room_log (reloaded overlapped) ''dev'') = [2, 4, 6, 7]"
  by code_simp

text \<open>
  A client that has seen 7 and asks for what came since, or whose cursor is at 7, is never given 6.
\<close>

lemma late_message_skipped:
  "messages_since ''dev'' 7 overlapped = []"
  by code_simp

text \<open>
  A room is deleted between the id and the append: the log comes back without its room, and the
  message shows up in the next room of that name.
\<close>

lemma late_append_revives_log:
  "let (r, s1) = free_take ''ann'' ''one'' sample_durable;
       s2 = the (store_message False (projr r) (snd (delete_room second ''dev'' s1)));
       s3 = snd (create_room second [] ''dev'' ''bob@web'' s2)
   in (has_key (s_rooms s2) ''dev'', map m_id (room_log s2 ''dev''), map m_body (room_log s3 ''dev''))
      = (False, [6], [''one''])"
  by code_simp

end
