(* ===== verification/Startup.thy ===== *)
theory Startup
  imports Recovery
begin

section \<open>Start-up, the sweep and clearing keep the invariants\<close>

text \<open>
  \<open>newStore\<close>, \<open>pruneOnStartup\<close>, \<open>cleanupStaleAgents\<close>, \<open>cleanupMessages\<close> and \<open>clearAll\<close>: the store
  they leave satisfies its invariant and is durable, and which agents are left.
\<close>

subsection \<open>Dropping agents\<close>

lemma keys_filter: "set (keys (filter (\<lambda>p. P (fst p)) m)) = {k \<in> set (keys m). P k}"
  by auto

lemma room_ok_narrow:
  assumes "room_ok ags k r" "distinct ms" "distinct (keys roles)"
    and "set ms \<subseteq> set (keys ags')" "set (keys roles) \<subseteq> set ms"
  shows "room_ok ags' k (r\<lparr>r_members := ms, r_roles := roles\<rparr>)"
  using assms by (simp add: room_ok_def)

lemma drop_members_ok:
  assumes "room_ok ags k r" "\<And>m. m \<in> set (keys ags) \<Longrightarrow> m \<notin> set gone \<Longrightarrow> m \<in> set (keys ags')"
  shows "room_ok ags' k (drop_members gone r)"
proof -
  have r: "distinct (r_members r)" "distinct (keys (r_roles r))" "set (r_members r) \<subseteq> set (keys ags)"
    "set (keys (r_roles r)) \<subseteq> set (r_members r)"
    using assms(1) by (simp_all add: room_ok_def del: set_map)
  show ?thesis
    unfolding drop_members_def
  proof (rule room_ok_narrow [OF assms(1)])
    show "set (filter (\<lambda>m. m \<notin> set gone) (r_members r)) \<subseteq> set (keys ags')"
      using assms(2) r(3) by (auto simp del: set_map)
    have "set (keys (filter (\<lambda>p. \<not> (fst p \<in> set gone \<and> fst p \<in> set (r_members r))) (r_roles r))) =
        {k \<in> set (keys (r_roles r)). \<not> (k \<in> set gone \<and> k \<in> set (r_members r))}" by (rule keys_filter)
    then show "set (keys (filter (\<lambda>p. \<not> (fst p \<in> set gone \<and> fst p \<in> set (r_members r))) (r_roles r)))
        \<subseteq> set (filter (\<lambda>m. m \<notin> set gone) (r_members r))"
      using r(4) by (simp only:) auto
  qed (use r in \<open>simp_all add: distinct_map_filter\<close>)
qed

lemma drop_members_store_ok:
  assumes "store_ok s" "agents_ok ags'"
    and "\<And>m. m \<in> set (keys (s_agents s)) \<Longrightarrow> m \<notin> set gone \<Longrightarrow> m \<in> set (keys ags')"
  shows "store_ok (s\<lparr>s_agents := ags', s_rooms := map_vals (\<lambda>_. drop_members gone) (s_rooms s)\<rparr>)"
proof -
  have "rooms_ok (map_vals (\<lambda>_. drop_members gone) (s_rooms s)) ags'"
    using assms(1) drop_members_ok [OF _ assms(3)]
    by (fastforce simp: store_ok_def rooms_ok_def snd_in_map_vals simp del: set_map)
  then show ?thesis using assms(1,2) by (auto simp: store_ok_def log_ok_map_rooms)
qed

lemma agents_ok_filter: "agents_ok ags \<Longrightarrow> agents_ok (filter P ags)"
  by (auto simp: agents_ok_def distinct_map_filter)

lemma prune_ok [inv]:
  assumes "store_ok s" shows "store_ok (prune_on_startup t s)"
proof -
  have "agents_ok (s_agents s)" using assms by (simp add: store_ok_def)
  moreover have "m \<in> set (keys (filter (\<lambda>p. \<not> P (snd p)) ags))"
    if "m \<in> set (keys ags)" "m \<notin> set (keys (filter (\<lambda>p. P (snd p)) ags))" for m P and ags :: "(string, agent) table"
    using that by force
  ultimately show ?thesis
    using assms unfolding prune_on_startup_def Let_def store_ok_full
    by (intro drop_members_store_ok agents_ok_filter)
qed

lemma durable_prune [dur]:
  assumes "store_ok s" "logged s" shows "durable (prune_on_startup t s)"
  unfolding prune_on_startup_def Let_def
  by (rule durable_full [where rooms = "s_rooms s" and n = "s_next_id s"])
    (use assms in \<open>simp_all add: store_ok_def logged_def\<close>)

lemma prune_agents:
  "s_agents (prune_on_startup t s) =
     filter (\<lambda>p. \<not> gone_at_startup (t - stale_agent_window s) (snd p)) (s_agents s)"
  by (simp add: prune_on_startup_def Let_def)

subsection \<open>The sweep\<close>

lemma forget_agent_ok [inv]:
  assumes "store_ok s" shows "store_ok (forget_agent aid s)"
proof -
  have "room_ok (del aid (s_agents s)) k (r\<lparr>r_members := remove1 aid (r_members r), r_roles := del aid (r_roles r)\<rparr>)"
    if "room_ok (s_agents s) k r" for k r
  proof (rule room_ok_narrow [OF that])
    have r: "distinct (r_members r)" "set (r_members r) \<subseteq> set (keys (s_agents s))"
      "set (keys (r_roles r)) \<subseteq> set (r_members r)"
      using that by (simp_all add: room_ok_def del: set_map)
    then show "set (remove1 aid (r_members r)) \<subseteq> set (keys (del aid (s_agents s)))"
      "set (keys (del aid (r_roles r))) \<subseteq> set (remove1 aid (r_members r))"
      by (auto simp del: set_map)
  qed (use that in \<open>simp_all add: room_ok_def\<close>)
  then have "rooms_ok (s_rooms (forget_agent aid s)) (s_agents (forget_agent aid s))"
    using assms by (fastforce simp: store_ok_def rooms_ok_def snd_in_map_vals forget_agent_def)
  then show ?thesis
    using assms by (simp add: store_ok_def forget_agent_def agents_ok_del log_ok_map_rooms)
qed

lemma logged_forget: "logged (forget_agent aid s) = logged s"
  by (rule logged_cong; simp add: forget_agent_def)

lemma logged_forgets: "logged (fold forget_agent gone s) = logged s"
  by (induction gone arbitrary: s) (simp_all add: logged_forget)

lemma tell_pruned_ok:
  "store_ok s \<Longrightarrow> store_ok (tell_pruned t gone s)" "durable s \<Longrightarrow> durable (tell_pruned t gone s)"
  by (auto simp: tell_pruned_def intro!: store_ok_emits durable_emits store_ok_fold durable_fold)

lemma cleanup_stale_ok [inv]: "store_ok s \<Longrightarrow> store_ok (cleanup_stale_agents t s)"
  by (auto simp: cleanup_stale_agents_def Let_def intro!: store_ok_fold tell_pruned_ok forget_agent_ok)

lemma durable_cleanup_stale [dur]: "durable s \<Longrightarrow> durable (cleanup_stale_agents t s)"
  by (auto simp: cleanup_stale_agents_def Let_def logged_forgets durable_logged
      intro!: durable_fold tell_pruned_ok)

lemma cleanup_messages_ok [inv]: "store_ok s \<Longrightarrow> store_ok (cleanup_messages t s)"
proof -
  assume "store_ok s"
  then have "store_ok (cleanup_attachments t s)" by (rule inv)
  then show ?thesis unfolding cleanup_messages_def by (intro store_ok_cleanup) (auto simp: store_ok_def)
qed

lemma durable_cleanup_messages [dur]: "durable s \<Longrightarrow> store_ok s \<Longrightarrow> durable (cleanup_messages t s)"
proof -
  assume d: "durable s" and "store_ok s"
  then have "store_ok (cleanup_attachments t s)" by (intro inv)
  then show ?thesis
    unfolding cleanup_messages_def
    using d by (intro durable_cleanup_reactions reactions_nonempty) (simp_all add: durable_attachments)
qed

subsection \<open>Clearing\<close>

lemma clear_parts_core [simp]:
  "store_ok (clear_all_prefs s) = store_ok s" "store_ok (clear_memory s) = store_ok s"
  "store_ok (clear_cards s) = store_ok s" "store_ok (clear_settings s) = store_ok s"
  "store_ok (clear_roles s) = store_ok s" "store_ok (clear_fleets s) = store_ok s"
  "store_ok (clear_sounds s) = store_ok s" "store_ok (clear_attachments s) = store_ok s"
  by (rule store_ok_cong; simp add: clear_all_prefs_def clear_memory_def clear_cards_def clear_settings_def
      put_settings_def clear_roles_def clear_fleets_def broadcast_fleets_updated_def clear_sounds_def
      clear_attachments_def)+

lemma clear_parts_durable [simp]:
  "durable (clear_memory s) = durable s" "durable (clear_cards s) = durable s"
  "durable (clear_settings s) = durable s" "durable (clear_roles s) = durable s"
  "durable (clear_sounds s) = durable s" "durable (clear_attachments s) = durable s"
  "durable (s\<lparr>s_macros := m, s_seen_defaults := x\<rparr>) = durable s"
  by (rule durable_cong; simp add: clear_memory_def clear_cards_def clear_settings_def
      put_settings_def clear_roles_def clear_sounds_def clear_attachments_def)+

lemma durable_no_reactions: "durable s \<Longrightarrow> durable (persist_reactions (s\<lparr>s_reactions := []\<rparr>))"
  by (simp add: durable_def logged_def persist_reactions_def)

lemma clear_frames [simp]:
  "s_rooms (clear_memory s) = s_rooms s" "s_agents (clear_memory s) = s_agents s"
  "s_messages (clear_memory s) = s_messages s" "s_next_id (clear_memory s) = s_next_id s" "s_reactions (clear_memory s) = s_reactions s"
  "s_rooms (clear_cards s) = s_rooms s" "s_agents (clear_cards s) = s_agents s"
  "s_messages (clear_cards s) = s_messages s" "s_next_id (clear_cards s) = s_next_id s" "s_reactions (clear_cards s) = s_reactions s"
  "s_rooms (clear_settings s) = s_rooms s" "s_agents (clear_settings s) = s_agents s"
  "s_messages (clear_settings s) = s_messages s" "s_next_id (clear_settings s) = s_next_id s" "s_reactions (clear_settings s) = s_reactions s"
  "s_rooms (clear_roles s) = s_rooms s" "s_agents (clear_roles s) = s_agents s"
  "s_messages (clear_roles s) = s_messages s" "s_next_id (clear_roles s) = s_next_id s" "s_reactions (clear_roles s) = s_reactions s"
  "s_rooms (clear_fleets s) = s_rooms s" "s_agents (clear_fleets s) = s_agents s"
  "s_messages (clear_fleets s) = s_messages s" "s_next_id (clear_fleets s) = s_next_id s" "s_reactions (clear_fleets s) = s_reactions s"
  "s_rooms (clear_sounds s) = s_rooms s" "s_agents (clear_sounds s) = s_agents s"
  "s_messages (clear_sounds s) = s_messages s" "s_next_id (clear_sounds s) = s_next_id s" "s_reactions (clear_sounds s) = s_reactions s"
  "s_rooms (clear_attachments s) = s_rooms s" "s_agents (clear_attachments s) = s_agents s"
  "s_messages (clear_attachments s) = s_messages s" "s_next_id (clear_attachments s) = s_next_id s" "s_reactions (clear_attachments s) = s_reactions s"
  "s_rooms (clear_prompts s) = s_rooms s" "s_agents (clear_prompts s) = s_agents s"
  "s_messages (clear_prompts s) = s_messages s" "s_next_id (clear_prompts s) = s_next_id s" "s_reactions (clear_prompts s) = s_reactions s"
  "s_rooms (persist_reactions s) = s_rooms s" "s_agents (persist_reactions s) = s_agents s"
  "s_messages (persist_reactions s) = s_messages s" "s_next_id (persist_reactions s) = s_next_id s" "s_reactions (persist_reactions s) = s_reactions s"
  "s_rooms (clear_all_prefs s) = s_rooms s" "s_agents (clear_all_prefs s) = s_agents s"
  "s_messages (clear_all_prefs s) = s_messages s" "s_next_id (clear_all_prefs s) = s_next_id s" "s_reactions (clear_all_prefs s) = s_reactions s"
  "s_rooms (offer_default kv s) = s_rooms s"
  by (simp_all add: clear_memory_def clear_cards_def clear_settings_def put_settings_def clear_roles_def
      clear_fleets_def broadcast_fleets_updated_def clear_sounds_def clear_attachments_def clear_prompts_def
      persist_reactions_def offer_default_def clear_all_prefs_def)

lemma store_ok_blank:
  "s_rooms s = [] \<Longrightarrow> s_agents s = [] \<Longrightarrow> s_messages s = [] \<Longrightarrow> s_reactions s = [] \<Longrightarrow> 0 \<le> s_next_id s \<Longrightarrow>
   store_ok s"
  by (simp add: store_ok_def rooms_ok_def agents_ok_def log_ok_def reactions_ok_def all_logged_def)

lemma prefs_frame [simp]: "db_reactions (s_db (clear_all_prefs s)) = db_reactions (s_db s)"
  by (simp add: clear_all_prefs_def persist_prefs_def)

lemma clear_all_ok [inv]:
  assumes "store_ok s" shows "store_ok (clear_all ds b s)"
proof (cases b)
  case False
  have "store_ok (s\<lparr>s_agents := [], s_rooms := map_vals (\<lambda>_. drop_members (keys (s_agents s))) (s_rooms s)\<rparr>)"
    using assms by (rule drop_members_store_ok) (simp_all add: agents_ok_def)
  then have "store_ok (s\<lparr>s_agents := [], s_sessions := [],
      s_rooms := map_vals (\<lambda>_. drop_members (keys (s_agents s))) (s_rooms s)\<rparr>)"
    by (simp add: store_ok_def)
  then show ?thesis using False by (simp add: clear_all_def)
next
  case True
  have "0 \<le> s_next_id s" using assms by (simp add: store_ok_def log_ok_def)
  then have "store_ok (apply_default_macros ds ((clear_cards (clear_memory (persist_reactions ((clear_attachments
      (persist_full_core (clear_all_prefs (s\<lparr>s_rooms := [], s_messages := [], s_agents := [], s_sessions := []\<rparr>))))
      \<lparr>s_reactions := []\<rparr>))))\<lparr>s_macros := [], s_seen_defaults := []\<rparr>))"
    by (intro inv store_ok_blank) simp_all
  then show ?thesis using True by (simp add: clear_all_def Let_def)
qed

lemma durable_clear_all [dur]:
  assumes "store_ok s" "durable s" shows "durable (clear_all ds b s)"
proof (cases b)
  case False
  have "durable (persist_full_core (s\<lparr>s_agents := [], s_sessions := [],
      s_rooms := map_vals (\<lambda>_. drop_members (keys (s_agents s))) (s_rooms s)\<rparr>))"
    by (rule durable_full [where rooms = "s_rooms s" and n = "s_next_id s"])
      (use assms in \<open>simp_all add: store_ok_def durable_def logged_def\<close>)
  then show ?thesis using False by (simp add: clear_all_def)
next
  case True
  let ?s0 = "clear_all_prefs (s\<lparr>s_rooms := [], s_messages := [], s_agents := [], s_sessions := []\<rparr>)"
  have "log_ok (s_messages ?s0) [] 0" by (simp add: log_ok_def all_logged_def)
  then have "durable (persist_full_core ?s0)"
    by (rule durable_full) (use assms(2) in \<open>simp_all add: durable_def logged_def\<close>)
  then show ?thesis
    using True
    by (simp add: clear_all_def Let_def durable_macro_ops durable_no_reactions durable_fleets durable_prompts)
qed

text \<open>
  After a full clear there is no room at all: not even \<open>_system\<close>, which only a start creates. Until
  then the notices that the server writes to it are lost, each with the id it took.
\<close>

lemma rooms_offers [simp]: "s_rooms (fold offer_default ds s) = s_rooms s"
  by (induction ds arbitrary: s) simp_all

lemma clear_all_no_rooms: "s_rooms (clear_all ds True s) = []"
  by (simp add: clear_all_def Let_def broadcasts apply_default_macros_def persist_macros_def)

lemma notice_lost_after_clear:
  "let s = clear_all ds True s0
   in s_messages (emit_system t system_room b s) = s_messages s \<and>
      s_next_id (emit_system t system_room b s) = s_next_id s + 1"
  by (simp add: Let_def emits emit_system_full_def clear_all_no_rooms has_key_def)

subsection \<open>Start-up\<close>

lemma new_store_eq:
  "new_store t (s_db s) =
     ensure_system_room t (cleanup_messages t (prune_on_startup t (reloaded s)))"
  by (simp add: new_store_def reloaded_def cleanup_messages_def)

lemma reloaded_logged:
  assumes "store_ok s" "durable s" shows "logged (reloaded s)"
proof -
  have d: "mirrors (db_messages (s_db s)) (s_messages s)" "distinct (keys (db_reactions (s_db s)))"
    "map_of (db_reactions (s_db s)) = map_of (s_reactions s)"
    using assms(2) by (simp_all add: durable_def logged_def)
  have db: "s_db (reloaded s) = s_db s" by (simp add: reloaded_def load_store_core)
  have "mirrors (db_messages (s_db s)) (s_messages (reloaded s))"
    using d(1) reloaded_tables(2) [OF assms] by (simp add: mirrors_def room_log_def)
  then show ?thesis
    using d reloaded_tables(4) [OF assms] by (simp add: logged_def db)
qed

lemma new_store_invariants:
  assumes "store_ok s" "durable s"
  shows "store_ok (new_store t (s_db s))" "durable (new_store t (s_db s))"
proof -
  have ok: "store_ok (prune_on_startup t (reloaded s))"
    by (intro inv reloaded_ok assms)
  have "durable (prune_on_startup t (reloaded s))"
    by (intro durable_prune reloaded_ok reloaded_logged assms)
  then show "store_ok (new_store t (s_db s))" "durable (new_store t (s_db s))"
    unfolding new_store_eq using ok
    by (auto intro!: ensure_system_room_ok durable_ensure_system_room cleanup_messages_ok durable_cleanup_messages)
qed

lemma cleanup_messages_frame [simp]:
  "s_agents (cleanup_messages t s) = s_agents s" "s_rooms (cleanup_messages t s) = s_rooms s"
  "s_messages (cleanup_messages t s) = s_messages s"
  by (simp_all add: cleanup_messages_def cleanup_attachments_def Let_def persist_attachments_def)

lemma ensure_system_frame [simp]:
  "s_agents (ensure_system_room t s) = s_agents s" "s_messages (ensure_system_room t s) = s_messages s"
  "has_key (s_rooms (ensure_system_room t s)) system_room"
  by (simp_all add: ensure_system_room_def has_key_def)

text \<open>C37. What a start makes of the tables of a durable store: the invariant holds and the store is
  durable again, the room _system is there, every room has the log it had, and the agents are
  those that were saved with a readable time not older than the stale window, and no others.\<close>

theorem startup_state:
  assumes "store_ok s" "durable s"
  shows "let u = new_store t (s_db s); old = reloaded s in
    store_ok u \<and> durable u \<and> has_key (s_rooms u) system_room \<and>
    room_log u r = room_log s r \<and>
    s_agents u = filter (\<lambda>p. \<exists>x. parse_stamp (a_last_seen (snd p)) = Some x \<and> t - stale_agent_window old \<le> x)
      (s_agents old)"
proof -
  have "\<not> gone_at_startup c a \<longleftrightarrow> (\<exists>x. parse_stamp (a_last_seen a) = Some x \<and> c \<le> x)" for c a
    by (auto simp: gone_at_startup_def last_seen_before_def)
  then have "s_agents (new_store t (s_db s)) =
      filter (\<lambda>p. \<exists>x. parse_stamp (a_last_seen (snd p)) = Some x \<and> t - stale_agent_window (reloaded s) \<le> x)
        (s_agents (reloaded s))"
    by (simp add: new_store_eq prune_agents)
  moreover have "room_log (new_store t (s_db s)) r = room_log s r"
    using reloaded_tables(2) [OF assms, of r]
    by (simp add: new_store_eq room_log_def prune_on_startup_def Let_def)
  moreover have "has_key (s_rooms (new_store t (s_db s))) system_room"
    by (simp add: new_store_eq)
  ultimately show ?thesis using new_store_invariants [OF assms] by (simp add: Let_def)
qed

lemma startup_state_witness:
  "keys (s_agents (new_store (700 * 86400 * second) (s_db sample_durable))) = [] \<and>
   map m_id (room_log (new_store (700 * 86400 * second) (s_db sample_durable)) ''dev'') = [2, 4]"
proof -
  have "map m_id (room_log sample_durable ''dev'') = [2, 4]"
    "filter (\<lambda>p. \<not> gone_at_startup (700 * 86400 * second - stale_agent_window (reloaded sample_durable)) (snd p))
       (s_agents (reloaded sample_durable)) = []" by code_simp+
  moreover have "\<not> gone_at_startup c a \<longleftrightarrow> (\<exists>x. parse_stamp (a_last_seen a) = Some x \<and> c \<le> x)" for c a
    by (auto simp: gone_at_startup_def last_seen_before_def)
  ultimately show ?thesis
    using startup_state [OF sample_durable_ok, of "700 * 86400 * second" "''dev''"] by (simp add: Let_def)
qed

lemma start_server_ok [inv]:
  assumes "store_ok s" "durable s"
  shows "store_ok (start_server sha ds stale rd t (s_db s))" "durable (start_server sha ds stale rd t (s_db s))"
proof -
  have n: "store_ok ((new_store t (s_db s))\<lparr>s_role_defaults := rd\<rparr>)"
    "durable ((new_store t (s_db s))\<lparr>s_role_defaults := rd\<rparr>)"
    using new_store_invariants [OF assms, of t]
    by (auto simp: store_ok_def durable_def logged_def)
  show "store_ok (start_server sha ds stale rd t (s_db s))"
    unfolding start_server_def using n(1) by (intro inv)
  have "durable (migrate_stale_macros sha ds stale ((new_store t (s_db s))\<lparr>s_role_defaults := rd\<rparr>))"
    using n(2) by (simp add: migrate_stale_macros_def durable_macros split: prod.split)
  then show "durable (start_server sha ds stale rd t (s_db s))"
    unfolding start_server_def by (rule durable_macro_ops)
qed

text \<open>
  An agent whose saved time is unreadable goes at the next start, and stays as long as the server
  runs: the sweep passes it over.
\<close>

lemma unreadable_time:
  "parse_stamp (a_last_seen a) = None \<Longrightarrow> gone_at_startup c a \<and> \<not> last_seen_before c a"
  by (simp add: gone_at_startup_def last_seen_before_def)

end
