(* ===== verification/Leaderboards.thy ===== *)
theory Leaderboards
  imports Settings Names RoleOps "HOL-Library.Product_Lexorder" "HOL-Library.Multiset"
begin

section \<open>Leaderboards\<close>

text \<open>
  \<open>internal/server/leaderboards.go\<close> and its handlers: the call for votes, the rating cards, and the
  view computed from them. The text of the clock is a parameter, and so is the arithmetic of
  \<open>float64\<close>: \<open>'f numbers\<close> holds the operations the code uses, and no fact about their rounding is
  used. Equal cards are interchangeable, so a stable sort stands for \<open>sort.Slice\<close>.
\<close>

definition leaderboard_categories :: "string list" where
  "leaderboard_categories =
     [''task_outcome'', ''role_execution'', ''collaboration_process'', ''judgment_scope'',
      ''context_understanding'']"

record 'f numbers =
  nu_int :: "int \<Rightarrow> 'f"
  nu_add :: "'f \<Rightarrow> 'f \<Rightarrow> 'f"
  nu_sub :: "'f \<Rightarrow> 'f \<Rightarrow> 'f"
  nu_mul :: "'f \<Rightarrow> 'f \<Rightarrow> 'f"
  nu_div :: "'f \<Rightarrow> 'f \<Rightarrow> 'f"
  nu_round :: "'f \<Rightarrow> 'f"

record participant =
  pt_id :: string
  pt_slug :: string
  pt_model :: string
  pt_harness :: string
  pt_role :: string

record submission =
  sb_subject :: string
  sb_ratings :: "(string, int option) table"

datatype leaderboard_error =
    LbDisabled
  | LbCategory string
  | LbRoomNotFound
  | LbNotLeader string string
  | LbNoParticipants string
  | LbNoCards
  | LbReviewer string
  | LbSubjectRequired
  | LbSubject string
  | LbRatingsCount
  | LbMissing string
  | LbRange string
  | LbUnknownCategory string

definition leaderboards_enabled :: "store \<Rightarrow> bool" where
  "leaderboards_enabled s = (case st_leaderboard (get_settings s) of None \<Rightarrow> True | Some b \<Rightarrow> b)"

definition valid_leaderboard_category :: "string \<Rightarrow> bool" where
  "valid_leaderboard_category c = (c \<in> set leaderboard_categories)"

definition normalize_leaderboard_category :: "string \<Rightarrow> leaderboard_error + string" where
  "normalize_leaderboard_category raw =
     (let c = trim_space raw in
      if c = [] \<or> c = ''overall'' then Inr ''overall''
      else if valid_leaderboard_category c then Inr c else Inl (LbCategory c))"

subsection \<open>The call for votes\<close>

definition is_ai :: "store \<Rightarrow> string \<Rightarrow> bool" where
  "is_ai s aid = (case map_of (s_agents s) aid of None \<Rightarrow> False | Some a \<Rightarrow> a_kind a = ''ai'')"

definition participant_of :: "store \<Rightarrow> room \<Rightarrow> string \<Rightarrow> participant list" where
  "participant_of s r m =
     (case map_of (s_agents s) m of
        None \<Rightarrow> []
      | Some a \<Rightarrow>
          if a_kind a \<noteq> ''ai'' then []
          else [\<lparr>pt_id = a_id a, pt_slug = a_name a, pt_model = a_model a, pt_harness = a_harness a,
                 pt_role = get_or [] (r_roles r) m\<rparr>])"

definition leaderboard_participants ::
    "string \<Rightarrow> string \<Rightarrow> bool \<Rightarrow> store \<Rightarrow> leaderboard_error + participant list" where
  "leaderboard_participants aid rid need_leader s =
     (case map_of (s_rooms s) rid of
        None \<Rightarrow> Inl LbRoomNotFound
      | Some r \<Rightarrow>
          if need_leader \<and> get_or [] (r_roles r) aid \<noteq> ''leader'' then Inl (LbNotLeader aid rid)
          else
            let ps = concat (map (participant_of s r) (r_members r))
            in if ps = [] then Inl (LbNoParticipants rid) else Inr (sort_key pt_id ps))"

definition participant_label :: "participant \<Rightarrow> string" where
  "participant_label p =
     pt_id p @ (if pt_model p \<noteq> [] \<or> pt_harness p \<noteq> []
                then '' ('' @ pt_model p @ ''/'' @ pt_harness p @ '')'' else [])"

definition participant_names :: "participant list \<Rightarrow> string" where
  "participant_names ps = join_with '', '' (map participant_label ps)"

definition voting_call :: "string \<Rightarrow> participant list \<Rightarrow> string" where
  "voting_call rid ps =
     ''Leader started a voting session for the recent task in room '' @ rid @ ''.'' @
     [char_of (10 :: nat)] @ ''Rate the current AI members: '' @ participant_names ps @
     [char_of (10 :: nat)] @
     ''Submit one numeric card for each participant, including yourself. '' @
     ''Self-reviews are recorded but excluded from default aggregates.''"

definition start_leaderboard_voting ::
    "int \<Rightarrow> string \<Rightarrow> string \<Rightarrow> store \<Rightarrow> (leaderboard_error + participant list) \<times> store" where
  "start_leaderboard_voting t aid rid s =
     (if \<not> leaderboards_enabled s then (Inl LbDisabled, s)
      else case leaderboard_participants aid rid True s of
             Inl e \<Rightarrow> (Inl e, s)
           | Inr ps \<Rightarrow> (Inr ps, emit_system_to t rid (voting_call rid ps) (Some (map pt_id ps)) s))"

subsection \<open>Cards\<close>

definition rating_fault :: "(string, int option) table \<Rightarrow> string \<Rightarrow> leaderboard_error option" where
  "rating_fault ratings c =
     (case map_of ratings c of
        None \<Rightarrow> Some (LbMissing c)
      | Some None \<Rightarrow> None
      | Some (Some n) \<Rightarrow> if n < 1 \<or> 5 < n then Some (LbRange c) else None)"

definition validate_ratings :: "(string, int option) table \<Rightarrow> leaderboard_error option" where
  "validate_ratings ratings =
     (if length ratings \<noteq> length leaderboard_categories then Some LbRatingsCount
      else case first_error (rating_fault ratings) leaderboard_categories of
             Some e \<Rightarrow> Some e
           | None \<Rightarrow>
               first_error (\<lambda>c. if valid_leaderboard_category c then None else Some (LbUnknownCategory c))
                 (keys ratings))"

definition subject_fault :: "store \<Rightarrow> submission \<Rightarrow> leaderboard_error option" where
  "subject_fault s c =
     (let subj = trim_space (sb_subject c) in
      if subj = [] then Some LbSubjectRequired
      else if \<not> is_ai s subj then Some (LbSubject subj) else None)"

definition make_card :: "string \<Rightarrow> string \<Rightarrow> store \<Rightarrow> submission \<Rightarrow> rating_card" where
  "make_card now aid s c =
     (let a = the (map_of (s_agents s) (trim_space (sb_subject c)))
      in \<lparr>rc_model = a_model a, rc_harness = a_harness a, rc_self = (aid = a_id a),
          rc_ratings = sb_ratings c, rc_created = now\<rparr>)"

definition persist_cards :: "store \<Rightarrow> store" where
  "persist_cards s = s\<lparr>s_db := (s_db s)\<lparr>db_cards := s_cards s\<rparr>\<rparr>"

definition broadcast_leaderboard_update :: "store \<Rightarrow> store" where
  "broadcast_leaderboard_update s = broadcast_meta LeaderboardUpdated s"

definition submit_leaderboard_cards ::
    "string \<Rightarrow> string \<Rightarrow> submission list \<Rightarrow> store \<Rightarrow> (leaderboard_error + rating_card list) \<times> store" where
  "submit_leaderboard_cards now aid cards s =
     (if \<not> leaderboards_enabled s then (Inl LbDisabled, s)
      else if cards = [] then (Inl LbNoCards, s)
      else if \<not> is_ai s aid then (Inl (LbReviewer aid), s)
      else case first_error (subject_fault s) cards of
             Some e \<Rightarrow> (Inl e, s)
           | None \<Rightarrow>
               (case first_error (\<lambda>c. validate_ratings (sb_ratings c)) cards of
                  Some e \<Rightarrow> (Inl e, s)
                | None \<Rightarrow>
                    let cleaned = map (make_card now aid s) cards
                    in (Inr cleaned,
                        broadcast_leaderboard_update
                          (persist_cards (s\<lparr>s_cards := s_cards s @ cleaned\<rparr>)))))"

definition post_leaderboard_cards ::
    "int \<Rightarrow> string \<Rightarrow> string \<Rightarrow> submission list \<Rightarrow> store \<Rightarrow> (leaderboard_error + rating_card list) \<times> store" where
  "post_leaderboard_cards t now aid cards s =
     (case submit_leaderboard_cards now aid cards s of
        (Inl e, s1) \<Rightarrow> (Inl e, s1)
      | (Inr cs, s1) \<Rightarrow> (Inr cs, emit_to_actor_rooms t aid (aid @ '' submitted leaderboard cards'') s1))"

subsection \<open>Aggregates\<close>

definition card_order :: "rating_card \<Rightarrow> string \<times> string \<times> string \<times> bool" where
  "card_order c = (rc_created c, rc_model c, rc_harness c, rc_self c)"

definition sort_leaderboard_cards :: "rating_card list \<Rightarrow> rating_card list" where
  "sort_leaderboard_cards cs = sort_key card_order cs"

definition mean :: "'f numbers \<Rightarrow> 'f list \<Rightarrow> 'f" where
  "mean nu vs =
     (if vs = [] then nu_int nu 0
      else nu_div nu (fold (\<lambda>v sum. nu_add nu sum v) vs (nu_int nu 0)) (nu_int nu (int (length vs))))"

definition variance :: "'f numbers \<Rightarrow> 'f list \<Rightarrow> 'f" where
  "variance nu vs =
     (if length vs < 2 then nu_int nu 0
      else let m = mean nu vs
           in nu_div nu
                (fold (\<lambda>v sum. let d = nu_sub nu v m in nu_add nu sum (nu_mul nu d d)) vs (nu_int nu 0))
                (nu_int nu (int (length vs))))"

definition round2 :: "'f numbers \<Rightarrow> 'f \<Rightarrow> 'f" where
  "round2 nu v = nu_div nu (nu_round nu (nu_mul nu v (nu_int nu 100))) (nu_int nu 100)"

record 'f accumulator =
  ac_model :: string
  ac_harness :: string
  ac_category :: "(string, 'f list) table"
  ac_na :: "(string, int) table"
  ac_cards :: int
  ac_ratings :: int
  ac_all :: "'f list"
  ac_trend :: "'f list"
  ac_last :: string

record 'f aggregate =
  ag_key :: string
  ag_model :: string
  ag_harness :: string
  ag_overall :: 'f
  ag_categories :: "(string, 'f) table"
  ag_counts :: "(string, int) table"
  ag_na :: "(string, int) table"
  ag_cards :: int
  ag_ratings :: int
  ag_high_variance :: bool
  ag_variance :: 'f
  ag_trend :: "'f list"
  ag_last :: string
  ag_self_included :: bool
  ag_peer_only :: 'f
  ag_self_delta :: 'f

definition card_key :: "bool \<Rightarrow> rating_card \<Rightarrow> string" where
  "card_key model_only c =
     (let m = canonical_model_slug (rc_model c) in if model_only then m else m @ ''|'' @ rc_harness c)"

definition fresh_accumulator :: "bool \<Rightarrow> rating_card \<Rightarrow> 'f accumulator" where
  "fresh_accumulator model_only c =
     \<lparr>ac_model = canonical_model_slug (rc_model c), ac_harness = (if model_only then [] else rc_harness c),
      ac_category = [], ac_na = [], ac_cards = 0, ac_ratings = 0, ac_all = [], ac_trend = [],
      ac_last = []\<rparr>"

definition add_rating ::
    "'f numbers \<Rightarrow> rating_card \<Rightarrow> string \<Rightarrow> 'f list \<times> 'f accumulator \<Rightarrow> 'f list \<times> 'f accumulator" where
  "add_rating nu c cat st =
     (case st of (scores, acc) \<Rightarrow>
        (case map_of (rc_ratings c) cat of
           Some (Some n) \<Rightarrow>
             (scores @ [nu_int nu n],
              acc\<lparr>ac_category := put cat (get_or [] (ac_category acc) cat @ [nu_int nu n]) (ac_category acc),
                  ac_all := ac_all acc @ [nu_int nu n], ac_ratings := ac_ratings acc + 1\<rparr>)
         | _ \<Rightarrow> (scores, acc\<lparr>ac_na := put cat (get_or 0 (ac_na acc) cat + 1) (ac_na acc)\<rparr>)))"

definition keep_last10 :: "'f list \<Rightarrow> 'f list" where
  "keep_last10 xs = (if 10 < length xs then drop (length xs - 10) xs else xs)"

definition add_card :: "'f numbers \<Rightarrow> rating_card \<Rightarrow> 'f accumulator \<Rightarrow> 'f accumulator" where
  "add_card nu c acc =
     (case fold (add_rating nu c) leaderboard_categories
             ([], acc\<lparr>ac_cards := ac_cards acc + 1, ac_last := rc_created c\<rparr>) of
        (scores, acc1) \<Rightarrow>
          if scores = [] then acc1
          else acc1\<lparr>ac_trend := keep_last10 (ac_trend acc1 @ [mean nu scores])\<rparr>)"

definition count_card ::
    "'f numbers \<Rightarrow> bool \<Rightarrow> bool \<Rightarrow> rating_card \<Rightarrow> (string, 'f accumulator) table \<Rightarrow>
     (string, 'f accumulator) table" where
  "count_card nu exclude_self model_only c accs =
     (let k = card_key model_only c in
      if exclude_self \<and> rc_self c then accs
      else if k = [] then accs
      else put k (add_card nu c (get_or (fresh_accumulator model_only c) accs k)) accs)"

definition category_means :: "'f numbers \<Rightarrow> 'f accumulator \<Rightarrow> (string, 'f) table" where
  "category_means nu acc =
     concat (map (\<lambda>cat. let vs = get_or [] (ac_category acc) cat
                        in if vs = [] then [] else [(cat, mean nu vs)]) leaderboard_categories)"

definition aggregate_of :: "'f::linorder numbers \<Rightarrow> bool \<Rightarrow> string \<times> 'f accumulator \<Rightarrow> 'f aggregate" where
  "aggregate_of nu exclude_self p =
     (let acc = snd p; means = category_means nu acc; v = variance nu (ac_all acc)
      in \<lparr>ag_key = fst p, ag_model = ac_model acc, ag_harness = ac_harness acc,
          ag_overall = round2 nu (mean nu (map snd means)),
          ag_categories = map_vals (\<lambda>_. round2 nu) means,
          ag_counts = map (\<lambda>cat. (cat, int (length (get_or [] (ac_category acc) cat)))) leaderboard_categories,
          ag_na = ac_na acc, ag_cards = ac_cards acc, ag_ratings = ac_ratings acc,
          ag_high_variance = (nu_div nu (nu_int nu 5) (nu_int nu 4) \<le> v),
          ag_variance = round2 nu v, ag_trend = map (round2 nu) (ac_trend acc),
          ag_last = ac_last acc, ag_self_included = (\<not> exclude_self),
          ag_peer_only = nu_int nu 0, ag_self_delta = nu_int nu 0\<rparr>)"

definition compute_aggregates ::
    "'f::linorder numbers \<Rightarrow> bool \<Rightarrow> bool \<Rightarrow> rating_card list \<Rightarrow> 'f aggregate list" where
  "compute_aggregates nu exclude_self model_only cards =
     map (aggregate_of nu exclude_self) (fold (count_card nu exclude_self model_only) cards [])"

subsection \<open>The view\<close>

definition overall_table :: "'f aggregate list \<Rightarrow> (string, 'f) table" where
  "overall_table as = fold (\<lambda>a. put (ag_key a) (ag_overall a)) as []"

definition annotate_delta ::
    "'f numbers \<Rightarrow> (string, 'f) table \<Rightarrow> (string, 'f) table \<Rightarrow> 'f aggregate \<Rightarrow> 'f aggregate" where
  "annotate_delta nu peer self a =
     (let a1 = (case map_of peer (ag_key a) of Some p \<Rightarrow> a\<lparr>ag_peer_only := p\<rparr> | None \<Rightarrow> a)
      in case map_of self (ag_key a) of
           None \<Rightarrow> a1
         | Some s \<Rightarrow>
             if ag_peer_only a1 = nu_int nu 0 then a1
             else a1\<lparr>ag_self_delta := round2 nu (nu_sub nu s (ag_peer_only a1))\<rparr>)"

definition annotate_self_deltas ::
    "'f numbers \<Rightarrow> 'f aggregate list \<Rightarrow> 'f aggregate list \<Rightarrow> 'f aggregate list \<Rightarrow> 'f aggregate list" where
  "annotate_self_deltas nu as peer self =
     map (annotate_delta nu (overall_table peer) (overall_table self)) as"

definition score_in :: "'f numbers \<Rightarrow> string \<Rightarrow> 'f aggregate \<Rightarrow> 'f" where
  "score_in nu cat a =
     (if cat = ''overall'' then ag_overall a else get_or (nu_int nu 0) (ag_categories a) cat)"

definition ranks_before :: "'f::linorder numbers \<Rightarrow> string \<Rightarrow> 'f aggregate \<Rightarrow> 'f aggregate \<Rightarrow> bool" where
  "ranks_before nu cat a b =
     (if score_in nu cat a = score_in nu cat b then
        (if ag_ratings a = ag_ratings b then ag_key a < ag_key b else ag_ratings b < ag_ratings a)
      else score_in nu cat b < score_in nu cat a)"

fun rank_insert :: "'f::linorder numbers \<Rightarrow> string \<Rightarrow> 'f aggregate \<Rightarrow> 'f aggregate list \<Rightarrow> 'f aggregate list" where
  "rank_insert nu cat a [] = [a]"
| "rank_insert nu cat a (b # bs) =
     (if ranks_before nu cat b a then b # rank_insert nu cat a bs else a # b # bs)"

definition rank_aggregates :: "'f::linorder numbers \<Rightarrow> string \<Rightarrow> 'f aggregate list \<Rightarrow> 'f aggregate list" where
  "rank_aggregates nu cat as = foldr (rank_insert nu cat) as []"

definition latest_rating_at :: "rating_card list \<Rightarrow> string" where
  "latest_rating_at cs = fold (\<lambda>c latest. if latest < rc_created c then rc_created c else latest) cs []"

record 'f leaderboard_view =
  lv_enabled :: bool
  lv_category :: string
  lv_exclude_self :: bool
  lv_aggregates :: "'f aggregate list"
  lv_rollups :: "'f aggregate list"
  lv_total_cards :: nat
  lv_latest :: string
  lv_best :: "'f aggregate option"

definition leaderboard_view_of ::
    "'f::linorder numbers \<Rightarrow> string \<Rightarrow> bool \<Rightarrow> store \<Rightarrow> leaderboard_error + 'f leaderboard_view" where
  "leaderboard_view_of nu raw exclude_self s =
     (case normalize_leaderboard_category raw of
        Inl e \<Rightarrow> Inl e
      | Inr cat \<Rightarrow>
          let cards = sort_leaderboard_cards (s_cards s);
              side = (\<lambda>model_only.
                let peer = compute_aggregates nu True model_only cards;
                    self = compute_aggregates nu False model_only cards
                in rank_aggregates nu cat
                     (annotate_self_deltas nu (if exclude_self then peer else self) peer self));
              selected = side False
          in Inr \<lparr>lv_enabled = leaderboards_enabled s, lv_category = cat, lv_exclude_self = exclude_self,
                  lv_aggregates = selected, lv_rollups = side True, lv_total_cards = length cards,
                  lv_latest = latest_rating_at cards,
                  lv_best = (case selected of [] \<Rightarrow> None | a # _ \<Rightarrow> Some a)\<rparr>)"

subsection \<open>Facts on cards\<close>

lemma card_frames [simp]:
  "s_rooms (broadcast_leaderboard_update s) = s_rooms s" "s_agents (broadcast_leaderboard_update s) = s_agents s"
  "s_messages (broadcast_leaderboard_update s) = s_messages s" "s_cards (broadcast_leaderboard_update s) = s_cards s"
  "s_next_id (broadcast_leaderboard_update s) = s_next_id s" "s_reactions (broadcast_leaderboard_update s) = s_reactions s"
  "s_db (broadcast_leaderboard_update s) = s_db s"
  "s_rooms (persist_cards s) = s_rooms s" "s_agents (persist_cards s) = s_agents s"
  "s_messages (persist_cards s) = s_messages s" "s_cards (persist_cards s) = s_cards s"
  "s_next_id (persist_cards s) = s_next_id s" "s_reactions (persist_cards s) = s_reactions s"
  "db_cards (s_db (persist_cards s)) = s_cards s"
  by (simp_all add: broadcast_leaderboard_update_def persist_cards_def broadcast_meta_def)

lemma submit_ok [inv]: "store_ok s \<Longrightarrow> store_ok (snd (submit_leaderboard_cards now aid cs s))"
proof -
  assume "store_ok s"
  moreover have "store_ok (broadcast_leaderboard_update (persist_cards (s\<lparr>s_cards := x\<rparr>))) = store_ok s" for x
    by (rule store_ok_cong) simp_all
  ultimately show ?thesis
    by (auto simp: submit_leaderboard_cards_def Let_def split: option.split)
qed

lemma leaderboard_ops_ok [inv]:
  assumes "store_ok s"
  shows "store_ok (snd (start_leaderboard_voting t aid rid s))"
    "store_ok (snd (post_leaderboard_cards t now aid cs s))"
proof -
  show "store_ok (snd (start_leaderboard_voting t aid rid s))"
    using assms by (auto simp: start_leaderboard_voting_def intro!: store_ok_emits split: sum.split)
  have "store_ok (emit_to_actor_rooms t a b u)" if "store_ok u" for a b u
    unfolding emit_to_actor_rooms_def using that by (rule store_ok_fold [rotated]) (simp add: store_ok_emits)
  then show "store_ok (snd (post_leaderboard_cards t now aid cs s))"
    using submit_ok [OF assms, of now aid cs] by (auto simp: post_leaderboard_cards_def split: prod.split sum.split)
qed

lemma validated_ratings:
  assumes "validate_ratings rs = None" "cat \<in> set leaderboard_categories"
  shows "\<exists>v. map_of rs cat = Some v \<and> (case v of None \<Rightarrow> True | Some n \<Rightarrow> 1 \<le> n \<and> n \<le> 5)"
proof -
  have "first_error (rating_fault rs) leaderboard_categories = None"
    using assms(1) by (simp add: validate_ratings_def split: if_splits option.splits)
  then have "rating_fault rs cat = None" using assms(2) by (simp add: first_error_None)
  then show ?thesis
    unfolding rating_fault_def by (cases "map_of rs cat") (simp_all split: option.splits if_splits)
qed


definition sample_card :: "string \<Rightarrow> submission" where
  "sample_card subj =
     \<lparr>sb_subject = subj, sb_ratings = map (\<lambda>c. (c, Some 4)) leaderboard_categories\<rparr>"


subsection \<open>Facts on aggregates\<close>

definition scored :: "string \<Rightarrow> rating_card \<Rightarrow> bool" where
  "scored cat c = (case map_of (rc_ratings c) cat of Some (Some _) \<Rightarrow> True | _ \<Rightarrow> False)"

definition counted :: "bool \<Rightarrow> bool \<Rightarrow> string \<Rightarrow> rating_card list \<Rightarrow> rating_card list" where
  "counted exclude_self model_only k cs =
     filter (\<lambda>c. \<not> (exclude_self \<and> rc_self c) \<and> card_key model_only c = k) cs"

lemma add_ratings:
  assumes "fold (add_rating nu c) cats (sc, acc) = (sc1, acc1)" "distinct cats"
  shows "length (get_or [] (ac_category acc1) cat) = length (get_or [] (ac_category acc) cat) +
      (if cat \<in> set cats \<and> scored cat c then 1 else 0) \<and>
    get_or 0 (ac_na acc1) cat = get_or 0 (ac_na acc) cat + (if cat \<in> set cats \<and> \<not> scored cat c then 1 else 0) \<and>
    ac_ratings acc1 = ac_ratings acc + int (length (filter (\<lambda>k. scored k c) cats)) \<and> ac_cards acc1 = ac_cards acc"
  using assms
proof (induction cats arbitrary: sc acc)
  case (Cons k cats)
  obtain sc2 acc2 where step: "add_rating nu c k (sc, acc) = (sc2, acc2)" by (cases "add_rating nu c k (sc, acc)")
  have one: "length (get_or [] (ac_category acc2) cat) = length (get_or [] (ac_category acc) cat) +
      (if cat = k \<and> scored k c then 1 else 0) \<and>
    get_or 0 (ac_na acc2) cat = get_or 0 (ac_na acc) cat + (if cat = k \<and> \<not> scored k c then 1 else 0) \<and>
    ac_ratings acc2 = ac_ratings acc + (if scored k c then 1 else 0) \<and> ac_cards acc2 = ac_cards acc"
    using step by (cases "map_of (rc_ratings c) k") (auto simp: add_rating_def scored_def split: option.splits)
  show ?case using Cons.IH [of sc2 acc2] Cons.prems step one by auto
qed simp

definition tallied :: "rating_card list \<Rightarrow> 'f accumulator \<Rightarrow> bool" where
  "tallied cs acc =
     (ac_cards acc = int (length cs) \<and>
      (\<forall>cat \<in> set leaderboard_categories.
         length (get_or [] (ac_category acc) cat) = length (filter (scored cat) cs) \<and>
         get_or 0 (ac_na acc) cat = int (length (filter (\<lambda>c. \<not> scored cat c) cs))) \<and>
      ac_ratings acc = (\<Sum>c\<leftarrow>cs. int (length (filter (\<lambda>cat. scored cat c) leaderboard_categories))))"

lemma tallied_fresh: "tallied [] (fresh_accumulator mo c)"
  by (simp add: tallied_def fresh_accumulator_def)

lemma tallied_add: "tallied cs acc \<Longrightarrow> tallied (cs @ [c]) (add_card nu c acc)"
proof -
  assume t: "tallied cs acc"
  obtain sc acc1 where f: "fold (add_rating nu c) leaderboard_categories
      ([], acc\<lparr>ac_cards := ac_cards acc + 1, ac_last := rc_created c\<rparr>) = (sc, acc1)" by fastforce
  have d: "distinct leaderboard_categories" by (simp add: leaderboard_categories_def)
  have "tallied (cs @ [c]) acc1"
    using t add_ratings [OF f d] by (simp add: tallied_def)
  then show ?thesis by (simp add: add_card_def f tallied_def)
qed

definition entry_tallied :: "rating_card list \<Rightarrow> 'f accumulator option \<Rightarrow> bool" where
  "entry_tallied cs entry =
     (case entry of None \<Rightarrow> cs = [] | Some acc \<Rightarrow> cs \<noteq> [] \<and> tallied cs acc)"

definition table_tallied ::
    "bool \<Rightarrow> bool \<Rightarrow> rating_card list \<Rightarrow> (string, 'f accumulator) table \<Rightarrow> bool" where
  "table_tallied ex mo cs accs =
     (distinct (keys accs) \<and>
      (\<forall>k. k \<noteq> [] \<longrightarrow> entry_tallied (counted ex mo k cs) (map_of accs k)) \<and>
      map_of accs [] = None)"

lemma table_tallied_step:
  assumes "table_tallied ex mo cs accs"
  shows "table_tallied ex mo (cs @ [c]) (count_card nu ex mo c accs)"
proof -
  let ?k = "card_key mo c"
  show ?thesis
  proof (cases "ex \<and> rc_self c \<or> ?k = []")
    case True
    have "j = [] \<or> counted ex mo j (cs @ [c]) = counted ex mo j cs" for j
      using True by (auto simp: counted_def)
    then have "(j \<noteq> [] \<longrightarrow> entry_tallied (counted ex mo j (cs @ [c])) e) =
        (j \<noteq> [] \<longrightarrow> entry_tallied (counted ex mo j cs) e)" for e :: "'a accumulator option" and j
      by metis
    moreover have "count_card nu ex mo c accs = accs"
      using True by (auto simp: count_card_def Let_def)
    ultimately show ?thesis using assms unfolding table_tallied_def by simp
  next
    case False
    have new: "counted ex mo j (cs @ [c]) = counted ex mo j cs @ (if j = ?k then [c] else [])" for j
      using False by (auto simp: counted_def)
    have "entry_tallied (counted ex mo ?k cs) (map_of accs ?k)"
      using assms False by (auto simp: table_tallied_def)
    then have "tallied (counted ex mo ?k cs) (get_or (fresh_accumulator mo c) accs ?k)"
      by (cases "map_of accs ?k") (auto simp: entry_tallied_def get_or_def tallied_fresh)
    then have t: "tallied (counted ex mo ?k cs @ [c]) (add_card nu c (get_or (fresh_accumulator mo c) accs ?k))"
      by (rule tallied_add)
    have r: "count_card nu ex mo c accs = put ?k (add_card nu c (get_or (fresh_accumulator mo c) accs ?k)) accs"
      using False by (auto simp: count_card_def Let_def)
    have "entry_tallied (counted ex mo j (cs @ [c])) (map_of (count_card nu ex mo c accs) j)" if "j \<noteq> []" for j
    proof (cases "j = ?k")
      case True
      then show ?thesis using t by (simp add: r new entry_tallied_def)
    next
      case other: False
      then have "map_of (count_card nu ex mo c accs) j = map_of accs j" by (simp add: r)
      then show ?thesis using assms other that by (simp add: new table_tallied_def)
    qed
    moreover have "distinct (keys (count_card nu ex mo c accs))" "map_of (count_card nu ex mo c accs) [] = None"
      using assms False by (auto simp: r table_tallied_def)
    ultimately show ?thesis by (simp add: table_tallied_def)
  qed
qed

lemma table_tallied_fold:
  "table_tallied ex mo seen accs \<Longrightarrow> table_tallied ex mo (seen @ cs) (fold (count_card nu ex mo) cs accs)"
proof (induction cs arbitrary: seen accs)
  case (Cons c cs)
  show ?case using Cons.IH [OF table_tallied_step [OF Cons.prems, of c nu]] by simp
qed simp

lemma table_tallied_compute: "table_tallied ex mo cs (fold (count_card nu ex mo) cs [])"
  using table_tallied_fold [of ex mo "[]" "[]" cs nu] by (simp add: table_tallied_def entry_tallied_def counted_def)

lemma length_filter_sort: "length (filter P (sort_key f xs)) = length (filter P xs)"
proof -
  have "mset (filter P (sort_key f xs)) = mset (filter P xs)" by simp
  then show ?thesis by (metis size_mset)
qed

definition accounted :: "bool \<Rightarrow> bool \<Rightarrow> rating_card list \<Rightarrow> 'f aggregate \<Rightarrow> bool" where
  "accounted ex mo cards a =
     (let cs = counted ex mo (ag_key a) cards
      in cs \<noteq> [] \<and> ag_cards a = int (length cs) \<and>
         ag_counts a = map (\<lambda>cat. (cat, int (length (filter (scored cat) cs)))) leaderboard_categories \<and>
         (\<forall>cat \<in> set leaderboard_categories.
            get_or 0 (ag_na a) cat = int (length (filter (\<lambda>c. \<not> scored cat c) cs))))"

lemma aggregate_accounted:
  assumes "a \<in> set (compute_aggregates nu ex mo cards)"
  shows "accounted ex mo cards a"
proof -
  let ?accs = "fold (count_card nu ex mo) cards []"
  have t: "table_tallied ex mo cards ?accs" by (rule table_tallied_compute)
  obtain k acc where k: "(k, acc) \<in> set ?accs" "a = aggregate_of nu ex (k, acc)"
    using assms by (auto simp: compute_aggregates_def)
  then have m: "map_of ?accs k = Some acc" using t by (auto simp: table_tallied_def)
  then have "k \<noteq> []" using t by (auto simp: table_tallied_def)
  then have "entry_tallied (counted ex mo k cards) (Some acc)"
    using t m by (metis table_tallied_def)
  then have "counted ex mo k cards \<noteq> []" "tallied (counted ex mo k cards) acc"
    by (simp_all add: entry_tallied_def)
  then show ?thesis
    using k(2) by (auto simp: accounted_def Let_def aggregate_of_def tallied_def)
qed

lemma accounted_sort: "accounted ex mo (sort_key f cards) a = accounted ex mo cards a"
proof -
  have len: "length (filter P (counted ex mo k (sort_key f cards))) = length (filter P (counted ex mo k cards))"
    for P k
    unfolding counted_def filter_filter by (rule length_filter_sort)
  have "(counted ex mo k (sort_key f cards) = []) = (counted ex mo k cards = [])"
    "length (counted ex mo k (sort_key f cards)) = length (counted ex mo k cards)" for k
    using len [of "\<lambda>_. True" k] by (simp_all flip: length_0_conv)
  then show ?thesis by (simp add: accounted_def Let_def len)
qed

lemma aggregate_keys:
  "map ag_key (compute_aggregates nu ex mo cards) = keys (fold (count_card nu ex mo) cards [])"
  by (simp add: compute_aggregates_def aggregate_of_def Let_def comp_def)

lemma annotate_same [simp]:
  "ag_key (annotate_delta nu p q a) = ag_key a" "ag_cards (annotate_delta nu p q a) = ag_cards a"
  "ag_counts (annotate_delta nu p q a) = ag_counts a" "ag_na (annotate_delta nu p q a) = ag_na a"
  by (simp_all add: annotate_delta_def Let_def split: option.split)

lemma set_rank_insert: "mset (rank_insert nu cat a bs) = add_mset a (mset bs)"
  by (induction bs) auto

lemma mset_rank: "mset (rank_aggregates nu cat as) = mset as"
  unfolding rank_aggregates_def by (induction as) (simp_all add: set_rank_insert)

lemma ranks_trans: "\<not> ranks_before nu cat b a \<Longrightarrow> \<not> ranks_before nu cat c b \<Longrightarrow> \<not> ranks_before nu cat c a"
  unfolding ranks_before_def by (auto split: if_splits)

lemma ranks_total: "ranks_before nu cat b a \<Longrightarrow> \<not> ranks_before nu cat a b"
  unfolding ranks_before_def by (auto split: if_splits)

lemma rank_insert_sorted:
  "sorted_wrt (\<lambda>x y. \<not> ranks_before nu cat y x) bs \<Longrightarrow>
   sorted_wrt (\<lambda>x y. \<not> ranks_before nu cat y x) (rank_insert nu cat a bs)"
proof (induction bs)
  case (Cons b bs)
  have "set (rank_insert nu cat a bs) = insert a (set bs)"
    using set_rank_insert [of nu cat a bs] by (metis set_mset_add_mset_insert set_mset_mset)
  then show ?case using Cons ranks_total ranks_trans by fastforce
qed simp

lemma rank_sorted: "sorted_wrt (\<lambda>x y. \<not> ranks_before nu cat y x) (rank_aggregates nu cat as)"
  unfolding rank_aggregates_def by (induction as) (simp_all add: rank_insert_sorted)

lemma view_sides:
  assumes "leaderboard_view_of nu raw ex s = Inr v"
  shows "\<exists>cat p q. lv_aggregates v = rank_aggregates nu cat
      (map (annotate_delta nu p q) (compute_aggregates nu ex False (sort_leaderboard_cards (s_cards s)))) \<and>
    lv_category v = cat"
  using assms
  by (cases ex) (auto simp: leaderboard_view_of_def Let_def annotate_self_deltas_def split: sum.splits; blast)+

text \<open>C39. The ranking accounts for every card. In a view, with self reviews excluded or not: each
  combination of model and harness that a counted card names has exactly one row, and no other
  has; the row counts exactly the cards of its combination, in every category so many scores and
  so many abstentions as those cards have; and no row stands below one that it beats by score,
  then by number of ratings, then by name.\<close>

theorem leaderboard_accounts:
  assumes "leaderboard_view_of nu raw ex s = Inr v"
  shows "distinct (map ag_key (lv_aggregates v)) \<and>
    (\<forall>k. k \<in> ag_key ` set (lv_aggregates v) \<longleftrightarrow> counted ex False k (s_cards s) \<noteq> [] \<and> k \<noteq> []) \<and>
    (\<forall>a \<in> set (lv_aggregates v). accounted ex False (s_cards s) a) \<and>
    sorted_wrt (\<lambda>x y. \<not> ranks_before nu (lv_category v) y x) (lv_aggregates v)"
proof -
  let ?cards = "sort_leaderboard_cards (s_cards s)"
  let ?as = "compute_aggregates nu ex False ?cards"
  let ?accs = "fold (count_card nu ex False) ?cards []"
  obtain cat p q where v: "lv_aggregates v = rank_aggregates nu cat (map (annotate_delta nu p q) ?as)"
    "lv_category v = cat" using view_sides [OF assms] by blast
  have t: "table_tallied ex False ?cards (fold (count_card nu ex False) ?cards [])"
    by (rule table_tallied_compute)
  have ms: "mset (map ag_key (lv_aggregates v)) = mset (map ag_key ?as)"
    unfolding v mset_map mset_rank by (simp add: multiset.map_comp comp_def)
  have rows: "set (lv_aggregates v) = annotate_delta nu p q ` set ?as"
    unfolding v using mset_rank [of nu cat "map (annotate_delta nu p q) ?as"]
    by (metis list.set_map set_mset_mset)
  have "distinct (map ag_key ?as)" using t by (simp add: aggregate_keys table_tallied_def)
  then have d: "distinct (map ag_key (lv_aggregates v))" using ms mset_eq_imp_distinct_iff by blast
  have "k \<in> ag_key ` set ?as \<longleftrightarrow> counted ex False k ?cards \<noteq> [] \<and> k \<noteq> []" for k
  proof -
    have "ag_key ` set ?as = set (keys (fold (count_card nu ex False) ?cards []))"
      using aggregate_keys [of nu ex False ?cards] by (metis list.set_map)
    moreover have "k \<in> set (keys m) \<longleftrightarrow> map_of m k \<noteq> None" for m :: "(string, 'a accumulator) table"
      by (simp add: map_of_eq_None_iff)
    moreover have "k \<noteq> [] \<longrightarrow> entry_tallied (counted ex False k ?cards) (map_of ?accs k)" "map_of ?accs [] = None"
      using t by (simp_all add: table_tallied_def)
    ultimately show ?thesis
      by (cases "k = []"; cases "map_of ?accs k") (auto simp: entry_tallied_def)
  qed
  moreover have "(counted ex False k ?cards = []) = (counted ex False k (s_cards s) = [])" for k
    unfolding sort_leaderboard_cards_def counted_def by (simp add: filter_empty_conv)
  moreover have "accounted ex False (s_cards s) (annotate_delta nu p q a)" if "a \<in> set ?as" for a
    using aggregate_accounted [OF that] by (simp add: sort_leaderboard_cards_def accounted_sort) (simp add: accounted_def)
  ultimately show ?thesis
    using d rows v(2) rank_sorted [of nu cat] by (auto simp: v(1) image_image)
qed

definition whole_numbers :: "int numbers" where
  "whole_numbers =
     \<lparr>nu_int = (\<lambda>n. n), nu_add = (+), nu_sub = (-), nu_mul = (*), nu_div = (div), nu_round = (\<lambda>x. x)\<rparr>"

definition voted :: store where
  "voted = snd (submit_leaderboard_cards ''now'' ''bob@web'' [sample_card ''cleo@web'', sample_card ''bob@web'']
             sample_store)"

lemma leaderboard_accounts_witness:
  "map ag_key (lv_aggregates (projr (leaderboard_view_of whole_numbers [] True voted))) = [''m2|codex''] \<and>
   counted True False ''m1|codex'' (s_cards voted) = []"
proof -
  let ?v = "leaderboard_view_of whole_numbers [] True voted"
  have "\<not> isl ?v" and k: "map ag_key (lv_aggregates (projr ?v)) = [''m2|codex'']" by code_simp+
  then have v: "?v = Inr (projr ?v)" by simp
  have "''m1|codex'' \<notin> set (map ag_key (lv_aggregates (projr ?v)))" unfolding k by simp
  then have "''m1|codex'' \<notin> ag_key ` set (lv_aggregates (projr ?v))" by (simp only: set_map not_False_eq_True)
  then show ?thesis using leaderboard_accounts [OF v] k by simp
qed

end
