(* ===== verification/Serving.thy ===== *)
theory Serving
  imports Startup Leaderboards
begin

section \<open>The server as a whole\<close>

text \<open>
  One step of the server is one request that changes the state, one step of a long poll, a tick of
  the background loop of \<open>startCleanup\<close>, or a restart. Every such step keeps the store well-formed
  and durable, so whatever happened, a restart gives back what was there.
\<close>

inductive serves :: "store \<Rightarrow> store \<Rightarrow> bool" where
  create_room: "serves s (snd (create_room t gen rid by s))"
| delete_room: "serves s (snd (delete_room t rid s))"
| join_room: "serves s (snd (join_room t rid aid s))"
| leave_room: "serves s (snd (leave_room_with_event t rid aid kicked s))"
| kick_agents: "serves s (snd (kick_agents t rid s))"
| room_prefs: "serves s (snd (post_room_prefs aid rid h p s))"
| room_memory: "serves s (snd (set_room_memory rid e s))"
| room_role: "serves s (snd (post_room_role t rid aid k s))"
| send: "serves s (snd (post_send json_ok gen t rid o1 s))"
| dm: "og_from o1 \<noteq> to \<Longrightarrow> serves s (snd (post_dm json_ok gen t to o1 s))"
| read_room: "serves s (snd (get_room_messages t rid aid l a b s))"
| mark_read: "serves s (snd (mark_read t aid rid i s))"
| room_wait_start: "serves s (snd (room_wait_start t aid rid since w s))"
| room_wait_park: "serves s (snd (room_wait_park t aid rid s))"
| room_wait_take: "serves s (snd (room_wait_take t aid rid n gone w m s))"
| room_wait_timeout: "serves s (snd (room_wait_timeout t aid s))"
| room_wait_end: "serves s (room_wait_end t aid rid c s)"
| agent_wait_start: "serves s (snd (agent_wait_start t aid since w s))"
| agent_wait_park: "serves s (snd (agent_wait_park t aid s))"
| agent_wait_take: "serves s (snd (agent_wait_take t aid since gone w m s))"
| agent_wait_event: "serves s (snd (agent_wait_event t aid gone e s))"
| agent_wait_timeout: "serves s (snd (agent_wait_timeout t aid s))"
| agent_wait_end: "serves s (agent_wait_end t aid c mc s)"
| register_human: "serves s (snd (register_human t n p m s))"
| register_ai: "serves s (snd (register_ai t rnd m h p meta f hint s))"
| deregister: "serves s (snd (deregister_agent t aid s))"
| heartbeat: "serves s (snd (heartbeat_agent t aid s))"
| agent_state: "serves s (snd (set_agent_state t aid st s))"
| put_reaction: "serves s (snd (put_reaction t mid aid raw s))"
| delete_reaction: "serves s (snd (delete_reaction t mid aid raw s))"
| put_macros: "serves s (snd (put_macros env rooms s))"
| put_fleets: "serves s (snd (replace_fleets v fs s))"
| put_fleet: "serves s (snd (set_fleet n fl s))"
| delete_fleet: "serves s (snd (delete_fleet n s))"
| clear_fleets: "serves s (clear_fleets s)"
| import_fleets: "serves s (snd (import_fleets v fs s))"
| put_settings: "serves s (snd (put_settings_request st s))"
| put_prompt: "serves s (snd (set_prompt k v s))"
| delete_prompt: "serves s (snd (delete_prompt_request k s))"
| delete_prompts: "serves s (delete_all_prompts s)"
| put_roles: "serves s (snd (put_roles t payload force s))"
| delete_role: "serves s (snd (delete_role t k force s))"
| delete_roles: "serves s (snd (delete_all_role_overrides force s))"
| prune: "serves s (clear_all ds everything s)"
| add_memory: "serves s (snd (post_memory t now gen aid sc req body src s))"
| update_memory: "serves s (snd (put_memory_request t now aid i v body s))"
| delete_memory: "serves s (snd (delete_memory_request t aid i v s))"
| clean_memory: "serves s (snd (clean_memory_request t aid sc req s))"
| start_voting: "serves s (snd (start_leaderboard_voting t aid rid s))"
| post_cards: "serves s (snd (post_leaderboard_cards t now aid cards s))"
| post_attachment: "serves s (snd (post_attachment t u f mi sz d s))"
| delete_attachment: "serves s (snd (delete_attachment_request i s))"
| post_sound: "serves s (snd (post_sound t u f d s))"
| delete_sound: "serves s (snd (delete_sound u s))"
| socket_open: "serves s (enter_ws aid s)"
| socket_close: "serves s (leave_ws aid s)"
| subscribe: "serves s (snd (subscribe_room rid s))"
| unsubscribe: "serves s (unsubscribe_room rid c s)"
| subscribe_all: "serves s (snd (subscribe_global s))"
| unsubscribe_all: "serves s (unsubscribe_global c s)"
| subscribe_meta: "serves s (snd (subscribe_meta s))"
| unsubscribe_meta: "serves s (unsubscribe_meta c s)"
| sweep_agents: "serves s (cleanup_stale_agents t s)"
| sweep_messages: "serves s (cleanup_messages t s)"
| sweep_states: "serves s (derive_agent_states t s)"
| restart: "serves s (start_server sha ds stale rd t (s_db s))"

lemma post_room_prefs_ok: "store_ok s \<Longrightarrow> store_ok (snd (post_room_prefs aid rid h p s))"
  using store_ok_set_pref [of aid rid h p s] by (auto simp: post_room_prefs_def split: prod.split)

lemma durable_leaderboard [dur]:
  assumes "durable s"
  shows "durable (snd (start_leaderboard_voting t aid rid s))"
    "durable (snd (post_leaderboard_cards t now aid cards s))"
proof -
  show "durable (snd (start_leaderboard_voting t aid rid s))"
    using assms by (auto simp: start_leaderboard_voting_def intro!: durable_emits split: sum.split)
  have "durable (broadcast_leaderboard_update (persist_cards (s\<lparr>s_cards := x\<rparr>))) = durable s" for x
    by (rule durable_cong) (simp_all add: persist_cards_def)
  then have "durable (snd (submit_leaderboard_cards now aid cards s))"
    using assms by (simp add: submit_leaderboard_cards_def Let_def split: option.split)
  then show "durable (snd (post_leaderboard_cards t now aid cards s))"
    using durable_actor_rooms by (auto simp: post_leaderboard_cards_def split: prod.split sum.split)
qed

lemma serves_store_ok:
  assumes "serves s s'" "store_ok s" "durable s" shows "store_ok s'"
  using assms by (induction rule: serves.induct) (simp_all add: inv post_room_prefs_ok)

lemma serves_durable:
  assumes "serves s s'" "store_ok s" "durable s" shows "durable s'"
  using assms by (induction rule: serves.induct) (simp_all add: dur start_server_ok)

interpretation serving: invariant_relation serves "\<lambda>s. store_ok s \<and> durable s"
  by unfold_locales (auto intro: serves_store_ok serves_durable)

lemma durable_empty: "durable empty_store"
  by (simp add: durable_def logged_def mirrors_def empty_store_def empty_db_def get_or_def agent_cores_def)

lemma served_good: "serves\<^sup>*\<^sup>* empty_store s \<Longrightarrow> store_ok s \<and> durable s"
  using serving.reachable_good [of empty_store s] by (simp add: store_ok_empty durable_empty)


definition sample_run :: store where
  "sample_run =
     snd (create_room second [] ''dev'' ''ann''
       (start_server (\<lambda>x. x) [] [] [] 0 (s_db empty_store)))"

lemma sample_run_served: "serves\<^sup>*\<^sup>* empty_store sample_run"
proof -
  have "serves\<^sup>*\<^sup>* empty_store (start_server (\<lambda>x. x) [] [] [] 0 (s_db empty_store))"
    by (rule r_into_rtranclp) (rule serves.restart)
  then show ?thesis unfolding sample_run_def
    by (rule rtranclp.rtrancl_into_rtrancl) (rule serves.create_room)
qed


end
