(* ===== verification/Credentials.thy ===== *)
theory Credentials
  imports Store "HOL-Library.Monad_Syntax"
begin

section \<open>Credential documents\<close>

text \<open>
  The credential files of Claude and Codex as \<open>internal/usages\<close> reads and edits them: the decoded
  structures of \<open>claude.go\<close> and \<open>codex.go\<close>, the refresh token of a document and the merge of a
  rotated one (\<open>credential_copyback.go\<close>), the expiry of a document (\<open>target_status.go\<close>), the
  throwaway copy of a run (\<open>claude_refresh.go\<close>, \<open>codex_maintenance.go\<close>) and the verdict on a run
  (\<open>target_refresh_run.go\<close>).

  A document is what the JSON library makes of the bytes of a file, \<open>None\<close> when they are not JSON.
  Decoding into a struct is written out: a missing field or \<open>null\<close> gives the zero value, a value of
  another type fails the whole document. Numbers are integers, field names match exactly. \<open>jwt\<close> is
  the decoding of one segment of a token (base64 and JSON).
\<close>

datatype json =
    JNull
  | JBool bool
  | JNumber int
  | JString string
  | JArray "json list"
  | JObject "(string, json) table"

type_synonym document = "json option"

definition as_fields :: "json \<Rightarrow> (string, json) table option" where
  "as_fields j = (case j of JNull \<Rightarrow> Some [] | JObject o1 \<Rightarrow> Some o1 | _ \<Rightarrow> None)"

definition text_field :: "(string, json) table \<Rightarrow> string \<Rightarrow> string option" where
  "text_field o1 k =
     (case get_or JNull o1 k of JNull \<Rightarrow> Some [] | JString v \<Rightarrow> Some v | _ \<Rightarrow> None)"

definition number_field :: "(string, json) table \<Rightarrow> string \<Rightarrow> int option" where
  "number_field o1 k =
     (case get_or JNull o1 k of JNull \<Rightarrow> Some 0 | JNumber n \<Rightarrow> Some n | _ \<Rightarrow> None)"

definition text_element :: "json \<Rightarrow> string option" where
  "text_element j = (case j of JNull \<Rightarrow> Some [] | JString v \<Rightarrow> Some v | _ \<Rightarrow> None)"

definition texts_field :: "(string, json) table \<Rightarrow> string \<Rightarrow> string list option" where
  "texts_field o1 k =
     (case get_or JNull o1 k of
        JNull \<Rightarrow> Some []
      | JArray xs \<Rightarrow>
          if list_ex (\<lambda>x. text_element x = None) xs then None
          else Some (List.map_filter text_element xs)
      | _ \<Rightarrow> None)"

definition first_nonempty :: "string \<Rightarrow> string \<Rightarrow> string" where
  "first_nonempty v w =
     (if trim_space v \<noteq> [] then trim_space v else if trim_space w \<noteq> [] then trim_space w else [])"

subsection \<open>Claude\<close>

record claude_tokens =
  ct_access :: string
  ct_access_s :: string
  ct_refresh :: string
  ct_refresh_s :: string
  ct_expires :: int
  ct_expires_s :: int
  ct_scopes :: "string list"
  ct_tier :: string
  ct_tier_s :: string
  ct_plan :: string
  ct_plan_s :: string

record claude_file =
  cf_oauth :: claude_tokens
  cf_oauth_s :: claude_tokens

definition decode_claude_tokens :: "json \<Rightarrow> claude_tokens option" where
  "decode_claude_tokens j =
     do { o1 \<leftarrow> as_fields j;
          access \<leftarrow> text_field o1 ''accessToken''; access_s \<leftarrow> text_field o1 ''access_token'';
          refresh \<leftarrow> text_field o1 ''refreshToken''; refresh_s \<leftarrow> text_field o1 ''refresh_token'';
          expires \<leftarrow> number_field o1 ''expiresAt''; expires_s \<leftarrow> number_field o1 ''expires_at'';
          scopes \<leftarrow> texts_field o1 ''scopes'';
          tier \<leftarrow> text_field o1 ''rateLimitTier''; tier_s \<leftarrow> text_field o1 ''rate_limit_tier'';
          plan \<leftarrow> text_field o1 ''subscriptionType''; plan_s \<leftarrow> text_field o1 ''subscription_type'';
          Some \<lparr>ct_access = access, ct_access_s = access_s, ct_refresh = refresh,
                ct_refresh_s = refresh_s, ct_expires = expires, ct_expires_s = expires_s,
                ct_scopes = scopes, ct_tier = tier, ct_tier_s = tier_s, ct_plan = plan,
                ct_plan_s = plan_s\<rparr> }"

definition decode_claude :: "document \<Rightarrow> claude_file option" where
  "decode_claude d =
     do { j \<leftarrow> d; o1 \<leftarrow> as_fields j;
          a \<leftarrow> decode_claude_tokens (get_or JNull o1 ''claudeAiOauth'');
          b \<leftarrow> decode_claude_tokens (get_or JNull o1 ''claude_ai_oauth'');
          Some \<lparr>cf_oauth = a, cf_oauth_s = b\<rparr> }"

record claude_credentials =
  cl_access :: string
  cl_refresh :: string
  cl_expires :: "int option"

definition millisecond :: int where "millisecond = 1000000"

definition claude_access :: "claude_tokens \<Rightarrow> string" where
  "claude_access t = first_nonempty (ct_access t) (ct_access_s t)"

text \<open>The section a reader of the usage or of the refresh token takes.\<close>

definition claude_section :: "claude_file \<Rightarrow> claude_tokens" where
  "claude_section f =
     (if claude_access (cf_oauth f) = [] \<and> claude_access (cf_oauth_s f) \<noteq> [] then cf_oauth_s f
      else cf_oauth f)"

definition load_claude_auth :: "document \<Rightarrow> claude_credentials option" where
  "load_claude_auth d =
     (case decode_claude d of
        None \<Rightarrow> None
      | Some f \<Rightarrow>
          let t = claude_section f;
              expires = (if ct_expires t \<noteq> 0 then Some (ct_expires t * millisecond)
                         else if ct_expires_s t \<noteq> 0 then Some (ct_expires_s t * millisecond)
                         else None)
          in if claude_access t = [] then None
             else Some \<lparr>cl_access = claude_access t,
                        cl_refresh = first_nonempty (ct_refresh t) (ct_refresh_s t),
                        cl_expires = expires\<rparr>)"

text \<open>The expiry of a valid document; \<open>None\<close> is an error.\<close>

definition validate_claude_credentials :: "document \<Rightarrow> int option" where
  "validate_claude_credentials d = Option.bind (load_claude_auth d) cl_expires"

subsection \<open>Codex\<close>

record codex_tokens =
  xt_access :: string
  xt_access_c :: string
  xt_refresh :: string
  xt_refresh_c :: string
  xt_id :: string
  xt_id_c :: string
  xt_account :: string
  xt_account_c :: string

record codex_file =
  xf_api_key :: string
  xf_tokens :: codex_tokens
  xf_last_refresh :: string

definition decode_codex_tokens :: "json \<Rightarrow> codex_tokens option" where
  "decode_codex_tokens j =
     do { o1 \<leftarrow> as_fields j;
          access \<leftarrow> text_field o1 ''access_token''; access_c \<leftarrow> text_field o1 ''accessToken'';
          refresh \<leftarrow> text_field o1 ''refresh_token''; refresh_c \<leftarrow> text_field o1 ''refreshToken'';
          idt \<leftarrow> text_field o1 ''id_token''; idt_c \<leftarrow> text_field o1 ''idToken'';
          account \<leftarrow> text_field o1 ''account_id''; account_c \<leftarrow> text_field o1 ''accountId'';
          Some \<lparr>xt_access = access, xt_access_c = access_c, xt_refresh = refresh,
                xt_refresh_c = refresh_c, xt_id = idt, xt_id_c = idt_c, xt_account = account,
                xt_account_c = account_c\<rparr> }"

definition decode_codex :: "document \<Rightarrow> codex_file option" where
  "decode_codex d =
     do { j \<leftarrow> d; o1 \<leftarrow> as_fields j;
          key \<leftarrow> text_field o1 ''OPENAI_API_KEY'';
          tokens \<leftarrow> decode_codex_tokens (get_or JNull o1 ''tokens'');
          refreshed \<leftarrow> text_field o1 ''last_refresh'';
          Some \<lparr>xf_api_key = key, xf_tokens = tokens, xf_last_refresh = refreshed\<rparr> }"

text \<open>What the standard library and the JSON library contribute: a token segment, a time stamp.\<close>

record readers =
  rd_jwt :: "string \<Rightarrow> json option"
  rd_time :: "string \<Rightarrow> int option"

definition token_claims :: "readers \<Rightarrow> string \<Rightarrow> json option" where
  "token_claims R token =
     (case split_on CHR ''.'' token of _ # payload # _ \<Rightarrow> rd_jwt R payload | _ \<Rightarrow> None)"

definition codex_token_expiry :: "readers \<Rightarrow> string \<Rightarrow> int option" where
  "codex_token_expiry R token =
     do { j \<leftarrow> token_claims R token; o1 \<leftarrow> as_fields j; e \<leftarrow> number_field o1 ''exp'';
          if e = 0 then None else Some (e * second) }"

fun first_claim :: "(string, json) table \<Rightarrow> string list \<Rightarrow> string option" where
  "first_claim o1 [] = None"
| "first_claim o1 (k # ks) =
     (case get_or JNull o1 k of
        JString v \<Rightarrow> if trim_space v \<noteq> [] then Some (trim_space v) else first_claim o1 ks
      | _ \<Rightarrow> first_claim o1 ks)"

definition codex_account_of :: "readers \<Rightarrow> string \<Rightarrow> string" where
  "codex_account_of R token =
     (case Option.bind (token_claims R token) as_fields of
        None \<Rightarrow> []
      | Some o1 \<Rightarrow>
          (case first_claim o1 [''https://api.openai.com/auth.chatgpt_account_id'',
                                ''chatgpt_account_id'', ''account_id''] of
             Some v \<Rightarrow> v
           | None \<Rightarrow>
               (case get_or JNull o1 ''https://api.openai.com/auth'' of
                  JObject auth \<Rightarrow>
                    (case first_claim auth [''chatgpt_account_id'', ''account_id''] of
                       Some v \<Rightarrow> v
                     | None \<Rightarrow> [])
                | _ \<Rightarrow> [])))"

record codex_credentials =
  cx_access :: string
  cx_refresh :: string
  cx_id :: string
  cx_account :: string
  cx_last_refresh :: "int option"

definition codex_access :: "codex_file \<Rightarrow> string" where
  "codex_access f = first_nonempty (xt_access (xf_tokens f)) (xt_access_c (xf_tokens f))"

definition parse_codex_auth_data :: "readers \<Rightarrow> document \<Rightarrow> codex_credentials option" where
  "parse_codex_auth_data R d =
     (case decode_codex d of
        None \<Rightarrow> None
      | Some f \<Rightarrow>
          let t = xf_tokens f;
              idt = first_nonempty (xt_id t) (xt_id_c t);
              account = first_nonempty (xt_account t) (xt_account_c t)
          in if trim_space (xf_api_key f) \<noteq> [] \<and> xt_access t = [] \<and> xt_access_c t = [] then None
             else if codex_access f = [] then None
             else Some \<lparr>cx_access = codex_access f,
                        cx_refresh = first_nonempty (xt_refresh t) (xt_refresh_c t),
                        cx_id = idt,
                        cx_account = first_nonempty (first_nonempty account (codex_account_of R idt))
                                       (codex_account_of R (codex_access f)),
                        cx_last_refresh =
                          (if xf_last_refresh f = [] then None else rd_time R (xf_last_refresh f))\<rparr>)"

definition parse_codex_auth_data_full :: "readers \<Rightarrow> document \<Rightarrow> codex_credentials option" where
  "parse_codex_auth_data_full R d =
     (case parse_codex_auth_data R d of
        None \<Rightarrow> None
      | Some c \<Rightarrow> if cx_refresh c = [] then None else Some c)"

subsection \<open>What the refresher reads\<close>

definition refresh_token :: "string \<Rightarrow> document \<Rightarrow> string option" where
  "refresh_token tool d =
     (case (if tool = ''codex'' then
              map_option (\<lambda>f. first_nonempty (xt_refresh (xf_tokens f)) (xt_refresh_c (xf_tokens f)))
                (decode_codex d)
            else
              map_option (\<lambda>f. first_nonempty (ct_refresh (claude_section f)) (ct_refresh_s (claude_section f)))
                (decode_claude d)) of
        None \<Rightarrow> None
      | Some token \<Rightarrow> if token = [] then None else Some token)"

text \<open>The section \<open>tolerantExpiry\<close> and \<open>accessTokenOf\<close> take.\<close>

definition tolerant_section :: "claude_file \<Rightarrow> claude_tokens" where
  "tolerant_section f = (if claude_access (cf_oauth f) = [] then cf_oauth_s f else cf_oauth f)"

definition tolerant_expiry :: "readers \<Rightarrow> string \<Rightarrow> document \<Rightarrow> int option" where
  "tolerant_expiry R tool d =
     (if tool = ''codex'' then
        (case parse_codex_auth_data R d of
           Some c \<Rightarrow> codex_token_expiry R (cx_access c)
         | None \<Rightarrow> Option.bind (decode_codex d) (\<lambda>f. codex_token_expiry R (codex_access f)))
      else
        do { f \<leftarrow> decode_claude d;
             let t = tolerant_section f;
                 ms = (if ct_expires t = 0 then ct_expires_s t else ct_expires t)
             in if ms \<le> 0 then None else Some (ms * millisecond) })"

definition access_token_of :: "string \<Rightarrow> document \<Rightarrow> string" where
  "access_token_of tool d =
     (if tool = ''codex'' then (case decode_codex d of None \<Rightarrow> [] | Some f \<Rightarrow> codex_access f)
      else (case decode_claude d of None \<Rightarrow> [] | Some f \<Rightarrow> claude_access (tolerant_section f)))"

text \<open>\<open>profileExpiry\<close>: outside the option an error, inside it an unknown expiry.\<close>

definition profile_expiry :: "readers \<Rightarrow> string \<Rightarrow> document option \<Rightarrow> int option option" where
  "profile_expiry R tool d =
     (case d of
        None \<Rightarrow> None
      | Some doc \<Rightarrow>
          if tool = ''codex'' then
            map_option (\<lambda>c. codex_token_expiry R (cx_access c)) (parse_codex_auth_data R doc)
          else map_option Some (validate_claude_credentials doc))"

definition credential_advanced :: "readers \<Rightarrow> string \<Rightarrow> document \<Rightarrow> document \<Rightarrow> bool" where
  "credential_advanced R tool start candidate =
     (if tool = ''codex'' then
        (case (parse_codex_auth_data_full R start, parse_codex_auth_data_full R candidate) of
           (Some old, Some new) \<Rightarrow>
             cx_access new \<noteq> cx_access old \<and>
             (case cx_last_refresh new of
                None \<Rightarrow> False
              | Some b \<Rightarrow> (case cx_last_refresh old of None \<Rightarrow> True | Some a \<Rightarrow> a < b))
         | _ \<Rightarrow> False)
      else if refresh_token ''claude'' candidate = None then False
      else (case (tolerant_expiry R ''claude'' start, tolerant_expiry R ''claude'' candidate) of
              (Some a, Some b) \<Rightarrow> a < b
            | _ \<Rightarrow> False))"

definition valid_rotated :: "readers \<Rightarrow> string \<Rightarrow> document \<Rightarrow> bool" where
  "valid_rotated R tool d =
     (refresh_token tool d \<noteq> None \<and>
      (if tool = ''claude'' then tolerant_expiry R ''claude'' d \<noteq> None
       else parse_codex_auth_data_full R d \<noteq> None))"

subsection \<open>Editing a document\<close>

text \<open>
  The two sections are stamped one after the other; a section without an expiry field is skipped,
  a document without any is refused.
\<close>

definition stamp_section ::
    "string \<Rightarrow> string \<Rightarrow> (string, json) table \<times> bool \<Rightarrow> ((string, json) table \<times> bool) option" where
  "stamp_section section expiry = (\<lambda>(root, updated).
     (case map_of root section of
        None \<Rightarrow> Some (root, updated)
      | Some raw \<Rightarrow>
          (case as_fields raw of
             None \<Rightarrow> None
           | Some tokens \<Rightarrow>
               if \<not> has_key tokens expiry then Some (root, updated)
               else Some (put section (JObject (put expiry (JNumber 1) tokens)) root, True))))"

definition force_expire_claude :: "document \<Rightarrow> document option" where
  "force_expire_claude d =
     do { j \<leftarrow> d; root \<leftarrow> as_fields j;
          st \<leftarrow> stamp_section ''claudeAiOauth'' ''expiresAt'' (root, False);
          (root1, updated) \<leftarrow> stamp_section ''claude_ai_oauth'' ''expires_at'' st;
          if updated then Some (Some (JObject root1)) else None }"

definition force_expire_codex :: "document \<Rightarrow> document option" where
  "force_expire_codex d =
     do { j \<leftarrow> d; root \<leftarrow> as_fields j; raw \<leftarrow> map_of root ''tokens''; tokens \<leftarrow> as_fields raw;
          if has_key tokens ''access_token'' then
            Some (Some (JObject (put ''tokens'' (JObject (put ''access_token'' (JString []) tokens)) root)))
          else if has_key tokens ''accessToken'' then
            Some (Some (JObject (put ''tokens'' (JObject (put ''accessToken'' (JString []) tokens)) root)))
          else None }"

definition force_expire :: "string \<Rightarrow> document \<Rightarrow> document option" where
  "force_expire tool d = (if tool = ''codex'' then force_expire_codex d else force_expire_claude d)"

definition merge_rotated_credentials :: "string \<Rightarrow> document \<Rightarrow> document \<Rightarrow> document option" where
  "merge_rotated_credentials tool current rotated =
     do { cj \<leftarrow> current; base \<leftarrow> as_fields cj; rj \<leftarrow> rotated; new \<leftarrow> as_fields rj;
          if tool = ''codex'' then
            do { section \<leftarrow> map_of new ''tokens'';
                 let base1 = put ''tokens'' section base
                 in Some (Some (JObject (case map_of new ''last_refresh'' of
                                           None \<Rightarrow> base1
                                         | Some v \<Rightarrow> put ''last_refresh'' v base1))) }
          else
            (case map_of new ''claudeAiOauth'' of
               Some section \<Rightarrow>
                 Some (Some (JObject (del ''claude_ai_oauth'' (put ''claudeAiOauth'' section base))))
             | None \<Rightarrow>
                 do { section \<leftarrow> map_of new ''claude_ai_oauth'';
                      Some (Some (JObject (del ''claudeAiOauth'' (put ''claude_ai_oauth'' section base)))) }) }"

definition only_claude_oauth :: "document \<Rightarrow> bool" where
  "only_claude_oauth d =
     (case Option.bind d as_fields of
        None \<Rightarrow> False
      | Some root \<Rightarrow>
          length root = 1 \<and> (has_key root ''claudeAiOauth'' \<or> has_key root ''claude_ai_oauth''))"

subsection \<open>The verdict on a run\<close>

datatype refresh_outcome = OutcomeRefreshed | OutcomeNotSent | OutcomeUnknown | OutcomeInvalidGrant

record run_result =
  rr_started :: bool
  rr_output :: string
  rr_error :: "string option"

record refresh_attempt =
  ra_outcome :: refresh_outcome
  ra_rotated :: "document option"
  ra_noop :: bool

text \<open>The token and whether the field is present, from the first section that has one.\<close>

fun token_field :: "(string, json) table \<Rightarrow> string list \<Rightarrow> string option" where
  "token_field fs [] = None"
| "token_field fs (k # ks) =
     (case map_of fs k of
        Some v \<Rightarrow> Some (case v of JString t \<Rightarrow> t | _ \<Rightarrow> [])
      | None \<Rightarrow> token_field fs ks)"

fun section_token :: "(string, json) table \<Rightarrow> string list \<Rightarrow> string option" where
  "section_token root [] = None"
| "section_token root (s # ss) =
     (case Option.bind (map_of root s) as_fields of
        None \<Rightarrow> section_token root ss
      | Some fs \<Rightarrow>
          (case token_field fs [''refreshToken'', ''refresh_token''] of
             Some t \<Rightarrow> Some t
           | None \<Rightarrow> section_token root ss))"

definition claude_refresh_token_field :: "document \<Rightarrow> string option" where
  "claude_refresh_token_field d =
     (case Option.bind d as_fields of
        None \<Rightarrow> None
      | Some root \<Rightarrow> section_token root [''claudeAiOauth'', ''claude_ai_oauth''])"

definition has_any :: "string \<Rightarrow> string list \<Rightarrow> bool" where
  "has_any text words = list_ex (\<lambda>w. contains (to_lower text) w) words"

text \<open>\<open>dial tcp [^ ]+: connect: (connection refused|network is unreachable|no route to host)\<close>\<close>

fun dial_failed :: "string \<Rightarrow> bool" where
  "dial_failed [] = False"
| "dial_failed (c # s) =
     ((has_prefix (c # s) ''dial tcp '' \<and>
       (let rest = drop 9 (c # s);
            address = takeWhile (\<lambda>x. x \<noteq> CHR '' '') rest;
            tail = dropWhile (\<lambda>x. x \<noteq> CHR '' '') rest
        in 2 \<le> length address \<and> last address = CHR '':'' \<and>
           list_ex (has_prefix tail) ['' connect: connection refused'', '' connect: network is unreachable'',
                                      '' connect: no route to host''])) \<or>
      dial_failed s)"

definition no_send :: "string \<Rightarrow> bool" where
  "no_send text =
     (has_any text [''enotfound'', ''eai_again'', ''econnrefused'', ''getaddrinfo'', ''no such host'',
                    ''could not resolve host'', ''network is unreachable''] \<or>
      dial_failed (to_lower text))"

definition codex_rejected :: "string \<Rightarrow> bool" where
  "codex_rejected text =
     has_any text [''refresh token has expired'', ''refresh token was already used'',
                   ''refresh token was revoked'', ''refresh token was rejected'',
                   ''since logged out or signed in to another account'']"

definition verdict :: "refresh_outcome \<Rightarrow> bool \<Rightarrow> refresh_attempt" where
  "verdict out noop = \<lparr>ra_outcome = out, ra_rotated = None, ra_noop = noop\<rparr>"

text \<open>
  \<open>rotated\<close> is the temporary copy after the run, \<open>None\<close> when it cannot be read. The error of a run is
  the text \<open>errString\<close> makes of it (redacted and cut).
\<close>

definition classify_refresh_run ::
    "string \<Rightarrow> run_result \<Rightarrow> document option \<Rightarrow> bool \<Rightarrow> string \<Rightarrow> refresh_attempt" where
  "classify_refresh_run tool run rotated advanced start_token =
     (if advanced \<and> rotated \<noteq> None then
        \<lparr>ra_outcome = OutcomeRefreshed, ra_rotated = rotated, ra_noop = False\<rparr>
      else if \<not> rr_started run then verdict OutcomeNotSent False
      else if tool = ''claude'' \<and> claude_refresh_token_field (case rotated of None \<Rightarrow> None | Some d \<Rightarrow> d) = Some [] \<and>
              start_token \<noteq> [] then verdict OutcomeInvalidGrant False
      else if tool = ''claude'' \<and> contains (rr_output run) ''invalid_grant'' then
        verdict OutcomeInvalidGrant False
      else if tool \<noteq> ''claude'' \<and> codex_rejected (rr_output run) then verdict OutcomeInvalidGrant False
      else (case rr_error run of
              None \<Rightarrow> verdict OutcomeNotSent True
            | Some e \<Rightarrow>
                if no_send (rr_output run) \<or> no_send e then verdict OutcomeNotSent False
                else verdict OutcomeUnknown False))"

text \<open>The delay after the \<open>n\<close>-th failure in a row: 5 minutes, doubled up to 30.\<close>

definition minute :: int where "minute = 60 * second"

fun backoff_from :: "nat \<Rightarrow> int \<Rightarrow> int" where
  "backoff_from 0 d = d"
| "backoff_from (Suc n) d = (if d < 30 * minute then backoff_from n (d * 2) else d)"

definition target_backoff :: "nat \<Rightarrow> int" where
  "target_backoff failures = min (30 * minute) (backoff_from (max failures 1 - 1) (5 * minute))"

end
