(* ===== verification/RefreshState.thy ===== *)
theory RefreshState
  imports Credentials
begin

section \<open>The memory of the token refresher\<close>

text \<open>
  \<open>internal/usages/target_refresh_state.go\<close>: the journal of runs in flight and the accounts that need
  a human, kept in one file that every change re-reads, edits and replaces. A change whose save
  failed is kept and applied again on top of whatever is read next.

  The record \<open>refresher\<close> holds the disk (\<open>k_\<close>), the memory of the process (\<open>p_\<close>) and a history that
  the code does not keep (\<open>h_\<close>). Every effect on the disk takes one entry of the script \<open>w_fates\<close>:
  it works or it fails, and when the script is used up the process is dead and nothing has an effect
  any more. A theorem about every script is one about every crash and every failing write.
  A temporary directory is named by its last path element; its age is kept beside its content, and
  \<open>k_dirs\<close> has the names handed out so far: the random names never repeat. \<open>k_listing\<close> tells whether
  the switcher can list its profiles.
\<close>

datatype journal_phase = Spending | Started | Rotated

type_synonym rescue_path = "string \<times> string \<times> int"

record journal_entry =
  je_tool :: string
  je_name :: string
  je_phase :: journal_phase
  je_hash :: string
  je_rescue :: "rescue_path option"
  je_temp :: string
  je_started :: int

datatype account_state = ReauthRequired | NeedsReloginSoon

record account_entry =
  ac_tool :: string
  ac_name :: string
  ac_state :: account_state
  ac_hash :: string
  ac_since :: int

record state_data =
  sd_journal :: "(string \<times> string, journal_entry) table"
  sd_accounts :: "(string \<times> string, account_entry) table"

definition new_state_data :: state_data where
  "new_state_data = \<lparr>sd_journal = [], sd_accounts = []\<rparr>"

datatype state_file = NoStateFile | CorruptStateFile | StateFile state_data

datatype state_notice = StateQuarantined | StateSaveFailed

datatype change =
    SetJournal journal_entry
  | ClearJournal string string
  | SetAccount account_entry

definition journal_key :: "journal_entry \<Rightarrow> string \<times> string" where
  "journal_key e = (je_tool e, je_name e)"

fun apply_change :: "change \<Rightarrow> state_data \<Rightarrow> state_data" where
  "apply_change (SetJournal e) d = d\<lparr>sd_journal := put (journal_key e) e (sd_journal d)\<rparr>"
| "apply_change (ClearJournal tool name) d = d\<lparr>sd_journal := del (tool, name) (sd_journal d)\<rparr>"
| "apply_change (SetAccount e) d =
     d\<lparr>sd_accounts := put (ac_tool e, ac_hash e) e (sd_accounts d)\<rparr>"

subsection \<open>Disk, process and history\<close>

datatype fate = Works | Fails

record profile_info =
  pi_tool :: string
  pi_name :: string
  pi_active :: bool
  pi_path :: string
  pi_credentials :: bool
  pi_away :: "int option"

record removed_profile =
  rm_tool :: string
  rm_hash :: string
  rm_at :: int

record last_rotation =
  lr_at :: int
  lr_expires :: int
  lr_hash :: string

record attempt_state =
  as_failures :: nat
  as_noops :: nat
  as_next :: "int option"

datatype run_event = Launched | Noted | Unsent

record refresher =
  k_state :: state_file
  k_profiles :: "profile_info list"
  k_listing :: bool
  k_files :: "(string, document) table"
  k_links :: "(string, string) table"
  k_rescues :: "(rescue_path, document) table"
  k_temps :: "(string, document \<times> int) table"
  k_dirs :: "string list"
  k_removed :: "removed_profile list"
  k_last :: "(string \<times> string, last_rotation) table"
  k_stamp :: int
  p_view :: state_data
  p_unsaved :: "change list"
  p_notices :: "state_notice list"
  p_repaired :: bool
  p_attempts :: "(string \<times> string, attempt_state) table"
  p_alerted :: "string list"
  p_alerts :: "(string \<times> string) list"
  p_pending :: "(string \<times> string, document) table"
  p_last :: "(string \<times> string, last_rotation) table"
  p_fanned :: "(string \<times> string \<times> document) list"
  h_runs :: "(run_event \<times> string \<times> string) list"
  w_fates :: "fate list"

definition alive :: "refresher \<Rightarrow> bool" where
  "alive w = (w_fates w \<noteq> [])"

definition disk :: "(refresher \<Rightarrow> refresher) \<Rightarrow> refresher \<Rightarrow> bool \<times> refresher" where
  "disk f w =
     (case w_fates w of
        [] \<Rightarrow> (False, w)
      | Works # fs \<Rightarrow> (True, f (w\<lparr>w_fates := fs\<rparr>))
      | Fails # fs \<Rightarrow> (False, w\<lparr>w_fates := fs\<rparr>))"

definition record_run :: "run_event \<Rightarrow> string \<times> string \<Rightarrow> refresher \<Rightarrow> refresher" where
  "record_run ev k w = (if alive w then w\<lparr>h_runs := (ev, k) # h_runs w\<rparr> else w)"

subsection \<open>Temporary directories\<close>

definition refresh_temp_min_age :: int where "refresh_temp_min_age = 15 * minute"

definition remove_refresh_temp_dir :: "string \<Rightarrow> refresher \<Rightarrow> refresher" where
  "remove_refresh_temp_dir dir w =
     (if dir = [] \<or> has_prefix dir ''.'' then w
      else snd (disk (\<lambda>w. w\<lparr>k_temps := del dir (k_temps w)\<rparr>) w))"

definition sweep_refresh_temp :: "string list \<Rightarrow> int \<Rightarrow> refresher \<Rightarrow> refresher" where
  "sweep_refresh_temp referenced now w =
     fold (\<lambda>(dir, doc, made) w.
              if dir \<in> set referenced \<or> now - made < refresh_temp_min_age then w
              else remove_refresh_temp_dir dir w)
       (filter (\<lambda>e. \<not> has_prefix (fst e) ''.'') (k_temps w)) w"

subsection \<open>Reading and changing the state\<close>

definition read_state_file :: "refresher \<Rightarrow> state_data option" where
  "read_state_file w =
     (case k_state w of
        NoStateFile \<Rightarrow> Some new_state_data
      | CorruptStateFile \<Rightarrow> None
      | StateFile d \<Rightarrow> Some d)"

definition state_view :: "refresher \<Rightarrow> state_data" where
  "state_view w =
     fold apply_change (p_unsaved w) (case read_state_file w of None \<Rightarrow> p_view w | Some d \<Rightarrow> d)"

definition view_state :: "refresher \<Rightarrow> state_data \<times> refresher" where
  "view_state w = (state_view w, w\<lparr>p_view := state_view w\<rparr>)"

definition quarantine :: "refresher \<Rightarrow> refresher" where
  "quarantine w =
     (case disk (\<lambda>w. w\<lparr>k_state := NoStateFile\<rparr>) w of
        (False, w1) \<Rightarrow> w1
      | (True, w1) \<Rightarrow> w1\<lparr>p_notices := p_notices w1 @ [StateQuarantined]\<rparr>)"

definition repair_state :: "int \<Rightarrow> refresher \<Rightarrow> refresher" where
  "repair_state now w =
     (if p_repaired w then w
      else
        let w1 = w\<lparr>p_repaired := True\<rparr>;
            w2 = (if read_state_file w1 = None then quarantine w1 else w1);
            (d, w3) = view_state w2;
            referenced = filter (\<lambda>dir. dir \<noteq> []) (map (je_temp \<circ> snd) (sd_journal d))
        in sweep_refresh_temp referenced now w3)"

definition max_state_backlog :: nat where "max_state_backlog = 256"

definition note_save_failure :: "refresher \<Rightarrow> refresher" where
  "note_save_failure w =
     (let w1 = (if max_state_backlog < length (p_unsaved w)
                then w\<lparr>p_unsaved := drop (length (p_unsaved w) - max_state_backlog) (p_unsaved w)\<rparr>
                else w)
      in if 16 \<le> length (p_notices w1) then w1
         else w1\<lparr>p_notices := p_notices w1 @ [StateSaveFailed]\<rparr>)"

definition keep_unsaved :: "change \<Rightarrow> refresher \<Rightarrow> refresher" where
  "keep_unsaved c w = note_save_failure (w\<lparr>p_unsaved := p_unsaved w @ [c]\<rparr>)"

text \<open>The first effect is the lock of the state file, the last one its replacement.\<close>

definition mutate :: "int \<Rightarrow> change \<Rightarrow> refresher \<Rightarrow> bool \<times> refresher" where
  "mutate now c w =
     (case disk (\<lambda>w. w) w of
        (False, w1) \<Rightarrow>
          let w2 = keep_unsaved c w1
          in (False, w2\<lparr>p_view := apply_change c (p_view w2)\<rparr>)
      | (True, w1) \<Rightarrow>
          let (d, w2) = view_state (repair_state now w1);
              d1 = apply_change c d
          in case disk (\<lambda>w. w\<lparr>k_state := StateFile d1\<rparr>) w2 of
               (False, w3) \<Rightarrow> (False, (keep_unsaved c w3)\<lparr>p_view := d1\<rparr>)
             | (True, w3) \<Rightarrow> (True, w3\<lparr>p_unsaved := [], p_view := d1\<rparr>))"

definition set_journal :: "int \<Rightarrow> journal_entry \<Rightarrow> refresher \<Rightarrow> bool \<times> refresher" where
  "set_journal now e = mutate now (SetJournal e)"

definition set_account :: "int \<Rightarrow> account_entry \<Rightarrow> refresher \<Rightarrow> bool \<times> refresher" where
  "set_account now e = mutate now (SetAccount e)"

text \<open>The entry that goes is the one of the state the change is applied to.\<close>

definition clear_journal :: "int \<Rightarrow> string \<Rightarrow> string \<Rightarrow> refresher \<Rightarrow> bool \<times> refresher" where
  "clear_journal now tool name w =
     (let seen = (case disk (\<lambda>w. w) w of
                    (False, w1) \<Rightarrow> p_view w1
                  | (True, w1) \<Rightarrow> state_view (repair_state now w1));
          gone = map_of (sd_journal seen) (tool, name);
          (ok, w2) = mutate now (ClearJournal tool name) w
      in (ok, case gone of
                None \<Rightarrow> w2
              | Some e \<Rightarrow> if je_temp e \<noteq> [] then remove_refresh_temp_dir (je_temp e) w2 else w2))"

definition journal_entries :: "refresher \<Rightarrow> journal_entry list \<times> refresher" where
  "journal_entries w = (let (d, w1) = view_state w in (map snd (sd_journal d), w1))"

definition account_entry_of :: "string \<Rightarrow> string \<Rightarrow> refresher \<Rightarrow> account_entry option \<times> refresher" where
  "account_entry_of tool hash w =
     (let (d, w1) = view_state w in (map_of (sd_accounts d) (tool, hash), w1))"

definition drain_notices :: "refresher \<Rightarrow> state_notice list \<times> refresher" where
  "drain_notices w = (p_notices w, w\<lparr>p_notices := []\<rparr>)"

end
