(* ===== verification/TokenRefresh.thy ===== *)
theory TokenRefresh
  imports RefreshState
begin

section \<open>The token refresher\<close>

text \<open>
  \<open>internal/usages/target_refresher.go\<close> with the copy-back of \<open>credential_copyback.go\<close> and the
  records of \<open>target_refresh_last.go\<close>: every due profile is refreshed by a run of the provider's CLI
  on a throwaway copy of its credentials. A run is journaled before the CLI starts, its result is
  written to a rescue file before it is committed, and an account whose refresh token may have been
  spent without a result is never tried again.

  \<open>surroundings\<close> collects what one call sees of the world: the clock, the gates the server
  installed, the account and switcher locks, the CLI (\<open>en_run\<close>, from the copy to the result and the
  copy afterwards), the fan-out, SHA-256 and the fresh names. Log lines and the wording of errors and
  alerts are left out. The switcher root is set and its list of removed profiles is readable.
\<close>

datatype fan_result = Fanned | HoldsLogin | FanFailed

record surroundings =
  en_now :: int
  en_enabled :: bool
  en_tool_on :: "string \<Rightarrow> bool"
  en_pending_login :: "string \<Rightarrow> bool"
  en_migrated :: "string \<Rightarrow> int option"
  en_lead :: "string \<Rightarrow> int"
  en_account_free :: bool
  en_switcher_free :: bool
  en_available :: bool
  en_reachable :: bool
  en_run :: "document \<Rightarrow> run_result \<times> document option"
  en_temp_dir :: string
  en_fan_out :: "string \<Rightarrow> string \<Rightarrow> document \<Rightarrow> fan_result"
  en_hash :: "string \<Rightarrow> string"
  en_readers :: readers

datatype refresh_error =
    AccountNeedsLogin account_state
  | RefreshBackoff
  | RefreshFailed
  | CommitFailed
  | CommitAborted
  | SettleFailed
  | ListingFailed
  | ProfileNotFound

definition hour :: int where "hour = 60 * minute"
definition refresh_min_gap :: int where "refresh_min_gap = 30 * minute"
definition target_switch_away_grace :: int where "target_switch_away_grace = 2 * minute"
definition codex_migration_quiet :: int where "codex_migration_quiet = 10 * minute"
definition target_noop_limit :: nat where "target_noop_limit = 3"
definition max_rotated_rescues :: nat where "max_rotated_rescues = 3"

subsection \<open>Files and profiles\<close>

definition raw_profiles :: "string \<Rightarrow> refresher \<Rightarrow> profile_info list option" where
  "raw_profiles tool w =
     (if k_listing w then Some (filter (\<lambda>p. pi_tool p = tool) (k_profiles w)) else None)"

definition resolved_path :: "refresher \<Rightarrow> string \<Rightarrow> string" where
  "resolved_path w path = get_or path (k_links w) path"

definition read_credential :: "refresher \<Rightarrow> string \<Rightarrow> document option" where
  "read_credential w path = map_of (k_files w) (resolved_path w path)"

definition path_is_link :: "refresher \<Rightarrow> string \<Rightarrow> bool" where
  "path_is_link w path = has_key (k_links w) path"

definition token_hash :: "surroundings \<Rightarrow> string \<Rightarrow> string \<Rightarrow> string" where
  "token_hash E tool token = en_hash E (tool @ [CHR 0x00] @ token)"

definition stored_token_hash :: "surroundings \<Rightarrow> string \<Rightarrow> string \<Rightarrow> refresher \<Rightarrow> string" where
  "stored_token_hash E tool path w =
     (case Option.bind (read_credential w path) (refresh_token tool) of
        None \<Rightarrow> []
      | Some token \<Rightarrow> token_hash E tool token)"

text \<open>Whether a document carries the refresh token with this hash.\<close>

definition carries :: "surroundings \<Rightarrow> string \<Rightarrow> string \<Rightarrow> document \<Rightarrow> bool" where
  "carries E tool hash d =
     (case refresh_token tool d of None \<Rightarrow> False | Some token \<Rightarrow> token_hash E tool token = hash)"

subsection \<open>Alerts and attempts\<close>

definition alert_id :: "string \<Rightarrow> string \<Rightarrow> string" where
  "alert_id kind key = kind @ ''/'' @ key"

definition profile_key :: "string \<Rightarrow> string \<Rightarrow> string" where
  "profile_key tool name = tool @ ''/'' @ name"

definition emit :: "string \<Rightarrow> string \<Rightarrow> refresher \<Rightarrow> refresher" where
  "emit kind key w =
     (if alert_id kind key \<in> set (p_alerted w) then w
      else w\<lparr>p_alerted := alert_id kind key # p_alerted w, p_alerts := p_alerts w @ [(kind, key)]\<rparr>)"

definition rearm :: "string \<Rightarrow> refresher \<Rightarrow> refresher" where
  "rearm key w =
     w\<lparr>p_alerted := filter (\<lambda>i. \<not> has_prefix (rev i) (rev (''/'' @ key))) (p_alerted w)\<rparr>"

definition state_kind :: "account_state \<Rightarrow> string" where
  "state_kind st =
     (case st of ReauthRequired \<Rightarrow> ''reauth_required'' | NeedsReloginSoon \<Rightarrow> ''needs_relogin_soon'')"

definition no_attempts :: attempt_state where
  "no_attempts = \<lparr>as_failures = 0, as_noops = 0, as_next = None\<rparr>"

definition attempts_of :: "string \<times> string \<Rightarrow> refresher \<Rightarrow> attempt_state" where
  "attempts_of k w = get_or no_attempts (p_attempts w) k"

definition set_attempts :: "string \<times> string \<Rightarrow> attempt_state \<Rightarrow> refresher \<Rightarrow> refresher" where
  "set_attempts k a w = w\<lparr>p_attempts := put k a (p_attempts w)\<rparr>"

definition back_off :: "int \<Rightarrow> attempt_state \<Rightarrow> attempt_state" where
  "back_off now a =
     a\<lparr>as_failures := as_failures a + 1, as_next := Some (now + target_backoff (as_failures a + 1))\<rparr>"

definition note_failure ::
    "surroundings \<Rightarrow> string \<times> string \<Rightarrow> string \<Rightarrow> bool \<Rightarrow> refresher \<Rightarrow> refresh_error option \<times> refresher" where
  "note_failure E k name noop w =
     (let a = attempts_of k w;
          b = (back_off (en_now E) a)\<lparr>as_noops := (if noop then as_noops a + 1 else 0)\<rparr>;
          w1 = set_attempts k b w
      in (Some RefreshFailed,
          if \<not> noop \<or> target_noop_limit \<le> as_noops b
          then emit ''refresh_failed'' (profile_key (fst k) name) w1 else w1))"

definition hold_pending :: "string \<times> string \<Rightarrow> document \<Rightarrow> refresher \<Rightarrow> refresher" where
  "hold_pending k d w = w\<lparr>p_pending := put k d (p_pending w)\<rparr>"

definition drop_pending :: "string \<times> string \<Rightarrow> refresher \<Rightarrow> refresher" where
  "drop_pending k w = w\<lparr>p_pending := del k (p_pending w)\<rparr>"

subsection \<open>Rescue files\<close>

definition rescues_of :: "string \<Rightarrow> string \<Rightarrow> refresher \<Rightarrow> rescue_path list" where
  "rescues_of tool name w =
     filter (\<lambda>(t, n, _). t = tool \<and> n = name) (keys (k_rescues w))"

definition remove_rescue :: "rescue_path \<Rightarrow> refresher \<Rightarrow> refresher" where
  "remove_rescue path w = snd (disk (\<lambda>w. w\<lparr>k_rescues := del path (k_rescues w)\<rparr>) w)"

definition prune_rotated_rescues :: "string \<Rightarrow> string \<Rightarrow> refresher \<Rightarrow> refresher" where
  "prune_rotated_rescues tool name w =
     fold remove_rescue
       (drop max_rotated_rescues (rev (sort_key (\<lambda>(_, _, stamp). stamp) (rescues_of tool name w)))) w"

text \<open>The name of a rescue file carries the clock reading, which no two calls share.\<close>

definition write_rescue :: "string \<Rightarrow> string \<Rightarrow> document \<Rightarrow> refresher \<Rightarrow> rescue_path option \<times> refresher" where
  "write_rescue tool name d w =
     (case disk (\<lambda>w. w\<lparr>k_rescues := put (tool, name, k_stamp w) d (k_rescues w),
                        k_stamp := k_stamp w + 1\<rparr>) w of
        (False, w1) \<Rightarrow> (None, w1)
      | (True, w1) \<Rightarrow> (Some (tool, name, k_stamp w), prune_rotated_rescues tool name w1))"

definition save_aborted_rotation :: "string \<Rightarrow> string \<Rightarrow> document \<Rightarrow> refresher \<Rightarrow> refresher" where
  "save_aborted_rotation tool name d w = snd (write_rescue tool name d w)"

subsection \<open>Committing rotated credentials\<close>

definition removed_token_time :: "surroundings \<Rightarrow> string \<Rightarrow> string \<Rightarrow> refresher \<Rightarrow> int option" where
  "removed_token_time E tool token w =
     (case filter (\<lambda>r. rm_tool r = tool \<and> rm_hash r = en_hash E token) (k_removed w) of
        [] \<Rightarrow> None
      | r # rs \<Rightarrow> Some (fold (\<lambda>r t. max t (rm_at r)) rs (rm_at r)))"

definition matching_profile_paths ::
    "refresher \<Rightarrow> profile_info list \<Rightarrow> string \<Rightarrow> string \<Rightarrow> string list \<times> bool" where
  "matching_profile_paths w ps tool token =
     (let candidates = filter (\<lambda>p. pi_tool p = tool \<and> pi_path p \<noteq> [] \<and>
                                   read_credential w (pi_path p) \<noteq> None) ps;
          token_of = (\<lambda>p. Option.bind (read_credential w (pi_path p)) (refresh_token tool))
      in (map pi_path (filter (\<lambda>p. token_of p = Some token) candidates),
          list_ex (\<lambda>p. token_of p = None) candidates))"

text \<open>Where the rotated credentials go: \<open>None\<close> aborts into a rescue file, \<open>Some None\<close> drops them.\<close>

definition copy_back_path ::
    "surroundings \<Rightarrow> string \<Rightarrow> string \<Rightarrow> string \<Rightarrow> int \<Rightarrow> refresher \<Rightarrow> string option option" where
  "copy_back_path E tool name token started_at w =
     (case raw_profiles tool w of
        None \<Rightarrow> None
      | Some ps \<Rightarrow>
          let (matches, unresolved) = matching_profile_paths w ps tool token;
              gone = (case removed_token_time E tool token w of
                        None \<Rightarrow> False
                      | Some t \<Rightarrow> started_at < t \<and> matches = [])
          in if gone then (if unresolved then None else Some None)
             else (case find (\<lambda>p. pi_name p = name) ps of
                     Some p \<Rightarrow> Some (Some (pi_path p))
                   | None \<Rightarrow> (case matches of [path] \<Rightarrow> Some (Some path) | _ \<Rightarrow> None)))"

definition write_stored_credential :: "string \<Rightarrow> document \<Rightarrow> refresher \<Rightarrow> bool \<times> refresher" where
  "write_stored_credential path d w =
     (if path_is_link w path \<and> read_credential w path = None then (False, w)
      else disk (\<lambda>w. w\<lparr>k_files := put (resolved_path w path) d (k_files w)\<rparr>) w)"

definition commit_rotated_credentials ::
    "surroundings \<Rightarrow> string \<Rightarrow> string \<Rightarrow> document \<Rightarrow> document \<Rightarrow> int \<Rightarrow> refresher \<Rightarrow> bool \<times> refresher" where
  "commit_rotated_credentials E tool name started rotated started_at w =
     (let abort = (False, save_aborted_rotation tool name rotated w) in
      if \<not> en_switcher_free E then abort
      else
        case refresh_token tool started of
          None \<Rightarrow> abort
        | Some before \<Rightarrow>
            (case copy_back_path E tool name before started_at w of
               None \<Rightarrow> abort
             | Some None \<Rightarrow> (False, w)
             | Some (Some path) \<Rightarrow>
                 (case read_credential w path of
                    None \<Rightarrow> abort
                  | Some current \<Rightarrow>
                      if refresh_token tool current \<noteq> Some before then abort
                      else
                        case merge_rotated_credentials tool current rotated of
                          None \<Rightarrow> abort
                        | Some merged \<Rightarrow>
                            let new = (if current = started \<and> (tool = ''codex'' \<or> only_claude_oauth current)
                                       then rotated else merged)
                            in case write_stored_credential path new w of
                                 (True, w1) \<Rightarrow> (True, w1)
                               | (False, w1) \<Rightarrow> (False, save_aborted_rotation tool name rotated w1))))"

definition holders ::
    "surroundings \<Rightarrow> string \<Rightarrow> string \<Rightarrow> refresher \<Rightarrow> (profile_info \<times> document) list option" where
  "holders E tool hash w =
     map_option
       (List.map_filter
          (\<lambda>p. if pi_path p = [] \<or> path_is_link w (pi_path p) then None
               else case read_credential w (pi_path p) of
                      None \<Rightarrow> None
                    | Some d \<Rightarrow> if carries E tool hash d then Some (p, d) else None))
       (raw_profiles tool w)"

definition pending_holders ::
    "surroundings \<Rightarrow> string \<Rightarrow> string \<Rightarrow> document \<Rightarrow> refresher \<Rightarrow>
     (profile_info \<times> document) list option" where
  "pending_holders E tool hash rotated w =
     map_option
       (filter (\<lambda>(p, d). \<not> (access_token_of tool rotated \<noteq> [] \<and>
                            access_token_of tool d = access_token_of tool rotated)))
       (holders E tool hash w)"

definition commit_holder ::
    "surroundings \<Rightarrow> string \<Rightarrow> document \<Rightarrow> int \<Rightarrow> profile_info \<times> document \<Rightarrow>
     string list \<times> refresher \<Rightarrow> string list \<times> refresher" where
  "commit_holder E tool rotated started_at = (\<lambda>(p, d) (done1, w).
     case commit_rotated_credentials E tool (pi_name p) d rotated started_at w of
       (True, w1) \<Rightarrow> (done1 @ [pi_name p], w1)
     | (False, w1) \<Rightarrow> (done1, w1))"

text \<open>\<open>None\<close> in the first component is an error: a profile still holds the spent token.\<close>

definition commit_to_holders ::
    "surroundings \<Rightarrow> string \<Rightarrow> string \<Rightarrow> document \<Rightarrow> int \<Rightarrow> refresher \<Rightarrow> string list option \<times> refresher" where
  "commit_to_holders E tool hash rotated started_at w =
     (case pending_holders E tool hash rotated w of
        None \<Rightarrow> (None, w)
      | Some hs \<Rightarrow>
          let (committed, w1) = fold (commit_holder E tool rotated started_at) hs ([], w)
          in (case pending_holders E tool hash rotated w1 of
                Some [] \<Rightarrow> (Some committed, w1)
              | _ \<Rightarrow> (None, w1)))"

subsection \<open>The last rotation of a profile\<close>

definition set_last_rotation :: "string \<times> string \<Rightarrow> last_rotation \<Rightarrow> refresher \<Rightarrow> refresher" where
  "set_last_rotation k l w =
     (let w1 = w\<lparr>p_last := put k l (p_last w)\<rparr>
      in snd (disk (\<lambda>w. w\<lparr>k_last := p_last w1\<rparr>) w1))"

definition note_rotation :: "surroundings \<Rightarrow> string \<Rightarrow> string \<Rightarrow> document \<Rightarrow> refresher \<Rightarrow> refresher" where
  "note_rotation E tool name rotated w =
     (case (tolerant_expiry (en_readers E) tool rotated, refresh_token tool rotated) of
        (Some expires, Some token) \<Rightarrow>
          set_last_rotation (tool, name)
            \<lparr>lr_at = en_now E, lr_expires = expires, lr_hash = token_hash E tool token\<rparr> w
      | _ \<Rightarrow> w)"

text \<open>The lead, and whether the profile rotated too recently.\<close>

definition effective_lead ::
    "surroundings \<Rightarrow> string \<Rightarrow> string \<Rightarrow> string \<Rightarrow> refresher \<Rightarrow> int \<times> bool" where
  "effective_lead E tool name current w =
     (let lead = en_lead E tool in
      case map_of (p_last w) (tool, name) of
        None \<Rightarrow> (lead, False)
      | Some l \<Rightarrow>
          if lr_hash l \<noteq> current then (lead, False)
          else
            let since = en_now E - lr_at l; life = lr_expires l - lr_at l
            in if 0 \<le> since \<and> since < refresh_min_gap then (lead, True)
               else if refresh_min_gap < life \<and> life - refresh_min_gap < lead
                    then (life - refresh_min_gap, False)
               else (lead, False))"

definition target_profile_due :: "int option \<Rightarrow> int \<Rightarrow> int \<Rightarrow> bool" where
  "target_profile_due expires now lead =
     (case expires of None \<Rightarrow> False | Some e \<Rightarrow> e - lead \<le> now)"

subsection \<open>Settling a run\<close>

definition fan_out :: "surroundings \<Rightarrow> string \<Rightarrow> string \<Rightarrow> string \<Rightarrow> refresher \<Rightarrow> refresher" where
  "fan_out E tool name fallback w =
     (let path = (case raw_profiles tool w of
                    None \<Rightarrow> fallback
                  | Some ps \<Rightarrow>
                      (case filter (\<lambda>q. pi_name q = name \<and> pi_path q \<noteq> []) ps of
                         [] \<Rightarrow> fallback
                       | qs \<Rightarrow> pi_path (last qs)))
      in case read_credential w path of
           None \<Rightarrow> emit ''fanout_failed'' (profile_key tool name) w
         | Some full \<Rightarrow>
             let w1 = w\<lparr>p_fanned := p_fanned w @ [(tool, name, full)]\<rparr>
             in (case en_fan_out E tool name full of
                   Fanned \<Rightarrow> w1
                 | HoldsLogin \<Rightarrow> emit ''login_pending'' (profile_key tool name) w1
                 | FanFailed \<Rightarrow> emit ''fanout_failed'' (profile_key tool name) w1))"

definition announce_commit ::
    "surroundings \<Rightarrow> string \<Rightarrow> document \<Rightarrow> string \<Rightarrow> string list \<Rightarrow> refresher \<Rightarrow> refresher" where
  "announce_commit E tool rotated fallback names w =
     fold (\<lambda>name w. fan_out E tool name fallback
                      (note_rotation E tool name rotated (rearm (profile_key tool name) w)))
       names w"

text \<open>A verdict that cannot be saved leaves the journal entry, so the next start derives it again.\<close>

definition settle :: "surroundings \<Rightarrow> account_entry \<Rightarrow> string \<Rightarrow> string \<Rightarrow> refresher \<Rightarrow> refresher" where
  "settle E e tool name w =
     (case set_account (en_now E) e w of
        (False, w1) \<Rightarrow> w1
      | (True, w1) \<Rightarrow> snd (clear_journal (en_now E) tool name w1))"

definition account_verdict ::
    "surroundings \<Rightarrow> string \<Rightarrow> string \<Rightarrow> account_state \<Rightarrow> string \<Rightarrow> account_entry" where
  "account_verdict E tool name st hash =
     \<lparr>ac_tool = tool, ac_name = name, ac_state = st, ac_hash = hash, ac_since = en_now E\<rparr>"

definition forget_rescue :: "rescue_path option \<Rightarrow> refresher \<Rightarrow> refresher" where
  "forget_rescue rescue w = (case rescue of None \<Rightarrow> w | Some path \<Rightarrow> remove_rescue path w)"

definition finish_commit ::
    "surroundings \<Rightarrow> string \<Rightarrow> string \<Rightarrow> string \<Rightarrow> rescue_path option \<Rightarrow> refresher \<Rightarrow> refresher" where
  "finish_commit E tool name hash rescue w =
     (let w1 = snd (clear_journal (en_now E) tool name (forget_rescue rescue w))
      in set_attempts (tool, hash) no_attempts (drop_pending (tool, hash) w1))"

text \<open>
  Where the new credentials of an interrupted run are: the rescue file, the copy in memory, or the
  temporary copy when it is a newer login than the stored one.
\<close>

definition recover_rotated ::
    "surroundings \<Rightarrow> journal_entry \<Rightarrow> document \<Rightarrow> refresher \<Rightarrow> document option" where
  "recover_rotated E e spent w =
     (let tool = je_tool e;
          usable = (\<lambda>d. case d of
                          None \<Rightarrow> None
                        | Some doc \<Rightarrow> if valid_rotated (en_readers E) tool doc then Some doc else None);
          rescued = usable (Option.bind (je_rescue e) (map_of (k_rescues w)));
          held = usable (map_of (p_pending w) (tool, je_hash e));
          copied = (if je_temp e = [] then None
                    else usable (map_option fst (map_of (k_temps w) (je_temp e))))
      in case rescued of
           Some d \<Rightarrow> Some d
         | None \<Rightarrow>
             (case held of
                Some d \<Rightarrow> Some d
              | None \<Rightarrow>
                  (case copied of
                     Some d \<Rightarrow> if credential_advanced (en_readers E) tool spent d then Some d else None
                   | None \<Rightarrow> None)))"

text \<open>The result tells whether the entry is settled.\<close>

definition recover_entry :: "surroundings \<Rightarrow> journal_entry \<Rightarrow> refresher \<Rightarrow> bool \<times> refresher" where
  "recover_entry E e w =
     (let tool = je_tool e; name = je_name e; hash = je_hash e; key = profile_key tool name in
      case holders E tool hash w of
        None \<Rightarrow> (False, w)
      | Some [] \<Rightarrow>
          (True, drop_pending (tool, hash) (snd (clear_journal (en_now E) tool name w)))
      | Some ((p, spent) # hs) \<Rightarrow>
          (case recover_rotated E e spent w of
             None \<Rightarrow>
               if je_phase e = Spending then (True, snd (clear_journal (en_now E) tool name w))
               else
                 let w1 = (if je_phase e = Rotated then emit ''recovery'' key w else w);
                     w2 = settle E (account_verdict E tool (pi_name p) NeedsReloginSoon hash) tool name w1
                 in (True, emit (state_kind NeedsReloginSoon) (profile_key tool (pi_name p)) w2)
           | Some rotated \<Rightarrow>
               (case commit_to_holders E tool hash rotated (je_started e) w of
                  (None, w1) \<Rightarrow> (False, emit ''recovery'' key (hold_pending (tool, hash) rotated w1))
                | (Some committed, w1) \<Rightarrow>
                    let w2 = snd (clear_journal (en_now E) tool name (forget_rescue (je_rescue e) w1));
                        w3 = emit ''recovery'' key (drop_pending (tool, hash) w2)
                    in (True, announce_commit E tool rotated (pi_path p) committed w3))))"

definition recover :: "surroundings \<Rightarrow> refresher \<Rightarrow> refresher" where
  "recover E w =
     (let (es, w1) = journal_entries w
      in fold (\<lambda>e w. snd (recover_entry E e w)) (sort_key (\<lambda>e. profile_key (je_tool e) (je_name e)) es) w1)"

definition settle_leftover ::
    "surroundings \<Rightarrow> journal_entry \<Rightarrow> refresher \<Rightarrow> refresh_error option \<times> refresher" where
  "settle_leftover E e w =
     (case recover_entry E e w of
        (True, w1) \<Rightarrow> (None, w1)
      | (False, w1) \<Rightarrow>
          let k = (je_tool e, je_hash e)
          in (Some SettleFailed, set_attempts k (back_off (en_now E) (attempts_of k w1)) w1))"

definition journal_for ::
    "string \<Rightarrow> string \<Rightarrow> string \<Rightarrow> refresher \<Rightarrow> journal_entry option \<times> refresher" where
  "journal_for tool name hash w =
     (let (es, w1) = journal_entries w
      in (find (\<lambda>e. je_tool e = tool \<and> je_name e = name \<and> je_hash e = hash) es, w1))"

subsection \<open>A run\<close>

text \<open>The flag tells whether the temporary directory is kept.\<close>

definition commit_rotated ::
    "surroundings \<Rightarrow> profile_info \<Rightarrow> string \<Rightarrow> document \<Rightarrow> string \<Rightarrow> refresher \<Rightarrow>
     (refresh_error option \<times> bool) \<times> refresher" where
  "commit_rotated E p hash rotated dir w =
     (let tool = pi_tool p; name = pi_name p; k = (tool, hash); key = profile_key tool name;
          (rescue, w1) = write_rescue tool name rotated w;
          w2 = hold_pending k rotated w1;
          entry = \<lparr>je_tool = tool, je_name = name, je_phase = Rotated, je_hash = hash,
                   je_rescue = rescue, je_temp = (if rescue = None then dir else []),
                   je_started = en_now E\<rparr>;
          (journaled, w3) = set_journal (en_now E) entry w2;
          at_risk = (rescue = None \<or> \<not> journaled)
      in case commit_to_holders E tool hash rotated (en_now E) w3 of
           (None, w4) \<Rightarrow>
             ((Some CommitFailed, at_risk),
              emit ''commit_failed'' key (set_attempts k (back_off (en_now E) (attempts_of k w4)) w4))
         | (Some [], w4) \<Rightarrow>
             ((Some CommitAborted, False),
              emit ''commit_aborted'' key
                (drop_pending k (snd (clear_journal (en_now E) tool name w4))))
         | (Some names, w4) \<Rightarrow>
             ((None, False),
              announce_commit E tool rotated (pi_path p) names
                (finish_commit E tool name hash rescue w4)))"

definition remove_temp :: "string \<Rightarrow> refresher \<Rightarrow> refresher" where
  "remove_temp dir w = snd (disk (\<lambda>w. w\<lparr>k_temps := del dir (k_temps w)\<rparr>) w)"

definition make_temp :: "string \<Rightarrow> document \<Rightarrow> int \<Rightarrow> refresher \<Rightarrow> bool \<times> refresher" where
  "make_temp dir d now w =
     (if dir = [] \<or> dir \<in> set (k_dirs w) then (False, w)
      else disk (\<lambda>w. w\<lparr>k_temps := put dir (d, now) (k_temps w), k_dirs := dir # k_dirs w\<rparr>) w)"

definition run_entry ::
    "surroundings \<Rightarrow> profile_info \<Rightarrow> string \<Rightarrow> journal_phase \<Rightarrow> journal_entry" where
  "run_entry E p hash phase =
     \<lparr>je_tool = pi_tool p, je_name = pi_name p, je_phase = phase, je_hash = hash, je_rescue = None,
      je_temp = en_temp_dir E, je_started = en_now E\<rparr>"

text \<open>
  The CLI process starts, the journal is told, the process runs and leaves the copy in its directory
  in a new state. A process that cannot be started reports so.
\<close>

definition run_cli ::
    "surroundings \<Rightarrow> profile_info \<Rightarrow> string \<Rightarrow> document \<Rightarrow> refresher \<Rightarrow> run_result \<times> refresher" where
  "run_cli E p hash copy w =
     (let k = (pi_tool p, hash); dir = en_temp_dir E in
      case disk (\<lambda>w. w) w of
        (False, w1) \<Rightarrow> (\<lparr>rr_started = False, rr_output = [], rr_error = Some []\<rparr>, w1)
      | (True, w1) \<Rightarrow>
          let w2 = w1\<lparr>h_runs := (Launched, k) # h_runs w1\<rparr>;
              (noted, w3) = set_journal (en_now E) (run_entry E p hash Started) w2;
              w4 = (if noted then w3\<lparr>h_runs := (Noted, k) # h_runs w3\<rparr> else w3);
              (run, after) = en_run E copy;
              w5 = (if \<not> alive w4 then w4
                    else w4\<lparr>k_temps := (case after of
                                         None \<Rightarrow> del dir (k_temps w4)
                                       | Some d \<Rightarrow> put dir (d, en_now E) (k_temps w4))\<rparr>)
          in (run, w5))"

definition conclude ::
    "surroundings \<Rightarrow> profile_info \<Rightarrow> string \<Rightarrow> refresh_attempt \<Rightarrow> refresher \<Rightarrow>
     (refresh_error option \<times> bool) \<times> refresher" where
  "conclude E p hash attempt w =
     (let tool = pi_tool p; name = pi_name p; k = (tool, hash); key = profile_key tool name;
          terminal = (\<lambda>st. ((Some (AccountNeedsLogin st), False),
                            emit (state_kind st) key
                              (settle E (account_verdict E tool name st hash) tool name w)))
      in case ra_outcome attempt of
           OutcomeRefreshed \<Rightarrow>
             commit_rotated E p hash (case ra_rotated attempt of None \<Rightarrow> None | Some d \<Rightarrow> d)
               (en_temp_dir E) w
         | OutcomeNotSent \<Rightarrow>
             let w1 = snd (clear_journal (en_now E) tool name (record_run Unsent k w));
                 (err, w2) = note_failure E k name (ra_noop attempt) w1
             in ((err, False), w2)
         | OutcomeInvalidGrant \<Rightarrow> terminal ReauthRequired
         | OutcomeUnknown \<Rightarrow> terminal NeedsReloginSoon)"

text \<open>From the temporary copy that is ready to the end of the run.\<close>

definition spend_copy ::
    "surroundings \<Rightarrow> profile_info \<Rightarrow> document \<Rightarrow> string \<Rightarrow> document \<Rightarrow> refresher \<Rightarrow>
     (refresh_error option \<times> bool) \<times> refresher" where
  "spend_copy E p start hash copy w =
     (let tool = pi_tool p; k = (tool, hash) in
      case set_journal (en_now E) (run_entry E p hash Spending) w of
        (False, w1) \<Rightarrow>
          let (err, w2) = note_failure E k (pi_name p) False w1 in ((err, False), w2)
      | (True, w1) \<Rightarrow>
          let (run, w2) = run_cli E p hash copy w1;
              rotated = map_option fst (map_of (k_temps w2) (en_temp_dir E));
              advanced = credential_advanced (en_readers E) tool start
                           (case rotated of None \<Rightarrow> None | Some d \<Rightarrow> d);
              start_token = (case refresh_token tool start of None \<Rightarrow> [] | Some token \<Rightarrow> token)
          in conclude E p hash (classify_refresh_run tool run rotated advanced start_token) w2)"

definition spend ::
    "surroundings \<Rightarrow> profile_info \<Rightarrow> document \<Rightarrow> string \<Rightarrow> refresher \<Rightarrow> refresh_error option \<times> refresher" where
  "spend E p start hash w =
     (let tool = pi_tool p; k = (tool, hash); dir = en_temp_dir E;
          give_up = (\<lambda>w. let (err, w1) = note_failure E k (pi_name p) False w
                         in (err, remove_temp dir w1))
      in case make_temp dir start (en_now E) w of
           (False, w1) \<Rightarrow> note_failure E k (pi_name p) False w1
         | (True, w1) \<Rightarrow>
             (case force_expire tool start of
                None \<Rightarrow> give_up w1
              | Some copy \<Rightarrow>
                  (case disk (\<lambda>w. w\<lparr>k_temps := put dir (copy, en_now E) (k_temps w)\<rparr>) w1 of
                     (False, w2) \<Rightarrow> give_up w2
                   | (True, w2) \<Rightarrow>
                       let ((err, keep), w3) = spend_copy E p start hash copy w2
                       in (err, if keep then w3 else remove_temp dir w3))))"

subsection \<open>A profile that is due\<close>

text \<open>
  \<open>refreshProfile\<close> in two halves: what makes a profile due, and what is done about its account.
  \<open>holds\<close> says that the caller has the account lock.
\<close>

definition refresh_account ::
    "surroundings \<Rightarrow> bool \<Rightarrow> profile_info \<Rightarrow> string \<Rightarrow> refresher \<Rightarrow> refresh_error option \<times> refresher" where
  "refresh_account E holds p hash w =
     (let tool = pi_tool p; name = pi_name p; k = (tool, hash);
          (entry, w1) = account_entry_of tool hash w
      in case entry of
           Some e \<Rightarrow>
             (Some (AccountNeedsLogin (ac_state e)),
              emit (state_kind (ac_state e)) (profile_key tool name) w1)
         | None \<Rightarrow>
             if (case as_next (attempts_of k w1) of None \<Rightarrow> False | Some t \<Rightarrow> en_now E < t)
             then (Some RefreshBackoff, w1)
             else if \<not> holds \<and> \<not> en_account_free E then (None, w1)
             else
               let (left, w2) = journal_for tool name hash w1
               in case left of
                    Some e \<Rightarrow> settle_leftover E e w2
                  | None \<Rightarrow>
                      if \<not> en_available E \<or> \<not> en_reachable E then note_failure E k name False w2
                      else
                        case read_credential w2 (pi_path p) of
                          None \<Rightarrow> (None, w2)
                        | Some start \<Rightarrow>
                            if \<not> carries E tool hash start then (None, w2)
                            else spend E p start hash w2)"

definition recently :: "int \<Rightarrow> int option \<Rightarrow> int \<Rightarrow> bool" where
  "recently now at span = (case at of None \<Rightarrow> False | Some t \<Rightarrow> now - t < span)"

definition due_hash :: "surroundings \<Rightarrow> bool \<Rightarrow> profile_info \<Rightarrow> refresher \<Rightarrow> string option" where
  "due_hash E holds p w =
     (let tool = pi_tool p; path = pi_path p in
      if (tool \<noteq> ''claude'' \<and> tool \<noteq> ''codex'') \<or> \<not> pi_credentials p \<or> path = [] then None
      else if \<not> en_tool_on E tool then None
      else if pi_active p \<and> en_pending_login E tool then None
      else if path_is_link w path then None
      else if \<not> holds \<and> recently (en_now E) (pi_away p) target_switch_away_grace then None
      else if tool = ''codex'' \<and> \<not> holds \<and> recently (en_now E) (en_migrated E tool) codex_migration_quiet
      then None
      else
        case profile_expiry (en_readers E) tool (read_credential w path) of
          None \<Rightarrow> None
        | Some expires \<Rightarrow>
            let (lead, too_soon) = effective_lead E tool (pi_name p) (stored_token_hash E tool path w) w
            in if too_soon \<or> \<not> target_profile_due expires (en_now E) lead then None
               else map_option (token_hash E tool)
                      (Option.bind (read_credential w path) (refresh_token tool)))"

definition refresh_profile ::
    "surroundings \<Rightarrow> bool \<Rightarrow> profile_info \<Rightarrow> refresher \<Rightarrow> refresh_error option \<times> refresher" where
  "refresh_profile E holds p w =
     (case due_hash E holds p w of
        None \<Rightarrow> (None, w)
      | Some hash \<Rightarrow> refresh_account E holds p hash w)"

definition refresh_incoming ::
    "surroundings \<Rightarrow> string \<Rightarrow> string \<Rightarrow> refresher \<Rightarrow> refresh_error option \<times> refresher" where
  "refresh_incoming E tool name w =
     (case raw_profiles tool w of
        None \<Rightarrow> (Some ListingFailed, w)
      | Some ps \<Rightarrow>
          (case find (\<lambda>p. pi_name p = name) ps of
             Some p \<Rightarrow> refresh_profile E True p w
           | None \<Rightarrow> (Some ProfileNotFound, w)))"

subsection \<open>Statuses and alerts\<close>

datatype credential_level = LevelOk | LevelExpiring | LevelExpired | LevelUnknown

definition target_alert_window :: int where "target_alert_window = 15 * minute"

text \<open>Go's integer division truncates, also below zero.\<close>

definition whole_seconds :: "int \<Rightarrow> int" where
  "whole_seconds d = (if d < 0 then - ((- d) div second) else d div second)"

definition credential_level :: "int option \<Rightarrow> int \<Rightarrow> credential_level \<times> int option" where
  "credential_level expires now =
     (case expires of
        None \<Rightarrow> (LevelUnknown, None)
      | Some e \<Rightarrow>
          (if e \<le> now then LevelExpired
           else if e - now < target_alert_window then LevelExpiring else LevelOk,
           Some (whole_seconds (e - now))))"

record target_status =
  ts_tool :: string
  ts_profile :: string
  ts_live :: bool
  ts_active :: bool
  ts_expires :: "int option"
  ts_seconds :: "int option"
  ts_level :: credential_level
  ts_state :: "string option"
  ts_next :: "int option"

definition account_state_of ::
    "surroundings \<Rightarrow> string \<Rightarrow> document \<Rightarrow> refresher \<Rightarrow> string option" where
  "account_state_of E tool d w =
     (case refresh_token tool d of
        None \<Rightarrow> None
      | Some token \<Rightarrow>
          let hash = token_hash E tool token; a = attempts_of (tool, hash) w
          in case map_of (sd_accounts (state_view w)) (tool, hash) of
               Some e \<Rightarrow> Some (state_kind (ac_state e))
             | None \<Rightarrow>
                 if 0 < as_failures a \<and> (as_noops a = 0 \<or> target_noop_limit \<le> as_noops a)
                 then Some ''refresh_failed'' else None)"

definition account_states :: "surroundings \<Rightarrow> refresher \<Rightarrow> (string, string) table" where
  "account_states E w =
     concat (map (\<lambda>tool. List.map_filter
                    (\<lambda>p. if pi_path p = [] then None
                         else Option.bind (read_credential w (pi_path p))
                                (\<lambda>d. map_option (\<lambda>st. (profile_key tool (pi_name p), st))
                                       (account_state_of E tool d w)))
                    (case raw_profiles tool w of None \<Rightarrow> [] | Some ps \<Rightarrow> ps))
              [''claude'', ''codex''])"

definition status_row ::
    "surroundings \<Rightarrow> string \<Rightarrow> string \<Rightarrow> bool \<Rightarrow> bool \<Rightarrow> document \<Rightarrow> target_status" where
  "status_row E tool name live active d =
     (let expires = tolerant_expiry (en_readers E) tool d;
          (level, seconds) = credential_level expires (en_now E)
      in \<lparr>ts_tool = tool, ts_profile = name, ts_live = live, ts_active = active,
          ts_expires = expires, ts_seconds = seconds, ts_level = level, ts_state = None,
          ts_next = None\<rparr>)"

definition profile_status ::
    "surroundings \<Rightarrow> profile_info \<Rightarrow> document \<Rightarrow> refresher \<Rightarrow> target_status" where
  "profile_status E p d w =
     (let tool = pi_tool p; row = status_row E tool (pi_name p) False (pi_active p) d
      in row\<lparr>ts_state := account_state_of E tool d w,
             ts_next := (case refresh_token tool d of
                           None \<Rightarrow> None
                         | Some token \<Rightarrow>
                             (case as_next (attempts_of (tool, token_hash E tool token) w) of
                                Some t \<Rightarrow> if en_now E < t then Some t else None
                              | None \<Rightarrow> None))\<rparr>)"

text \<open>
  \<open>live\<close> is the live credential file of a tool. The rows of a tool are sorted: the roles in falling
  order, so \<open>store\<close> comes before \<open>live\<close>, and the profiles by name.
\<close>

definition statuses ::
    "surroundings \<Rightarrow> (string \<Rightarrow> document option) \<Rightarrow> refresher \<Rightarrow> target_status list" where
  "statuses E live w =
     concat (map (\<lambda>tool.
         if \<not> en_tool_on E tool then []
         else case raw_profiles tool w of
                None \<Rightarrow> []
              | Some ps \<Rightarrow>
                  sort_key ts_profile
                    (List.map_filter
                       (\<lambda>p. if pi_path p = [] then None
                            else map_option (\<lambda>d. profile_status E p d w) (read_credential w (pi_path p)))
                       ps) @
                  (case live tool of None \<Rightarrow> [] | Some d \<Rightarrow> [status_row E tool [] True True d]))
       [''claude'', ''codex''])"

record credential_alert =
  ca_kind :: string
  ca_tool :: string
  ca_profile :: string
  ca_live :: bool

definition level_kind :: "credential_level \<Rightarrow> string" where
  "level_kind l =
     (case l of LevelOk \<Rightarrow> ''ok'' | LevelExpiring \<Rightarrow> ''expiring'' | LevelExpired \<Rightarrow> ''expired''
      | LevelUnknown \<Rightarrow> ''unknown'')"

definition credential_alerts :: "target_status list \<Rightarrow> credential_alert list" where
  "credential_alerts rows =
     concat (map (\<lambda>r.
         (let alert = (\<lambda>kind. \<lparr>ca_kind = kind, ca_tool = ts_tool r, ca_profile = ts_profile r,
                               ca_live = ts_live r\<rparr>)
          in (case ts_state r of None \<Rightarrow> [] | Some st \<Rightarrow> [alert st]) @
             (if ts_level r \<in> {LevelExpired, LevelExpiring} then [alert (level_kind (ts_level r))] else [])))
       rows)"

definition emit_expiry_alert :: "target_status \<Rightarrow> refresher \<Rightarrow> refresher" where
  "emit_expiry_alert r w =
     (case ts_expires r of
        None \<Rightarrow> w
      | Some e \<Rightarrow>
          if ts_level r \<in> {LevelExpired, LevelExpiring}
          then emit (level_kind (ts_level r))
                 (ts_tool r @ ''/'' @ (if ts_live r then ''live'' else ''store'') @ ''/'' @ ts_profile r @
                  ''@'' @ show_int (e div second)) w
          else w)"

subsection \<open>The due pass\<close>

definition notice_kind :: "state_notice \<Rightarrow> string" where
  "notice_kind n =
     (case n of StateQuarantined \<Rightarrow> ''state_quarantined'' | StateSaveFailed \<Rightarrow> ''state_save_failed'')"

definition report_state_notices :: "refresher \<Rightarrow> refresher" where
  "report_state_notices w =
     (let (ns, w1) = drain_notices w in fold (\<lambda>n. emit (notice_kind n) ''refresh-state'') ns w1)"

text \<open>A process that has died goes no further.\<close>

definition refresh_one ::
    "surroundings \<Rightarrow> profile_info \<Rightarrow> refresh_error list \<times> refresher \<Rightarrow> refresh_error list \<times> refresher" where
  "refresh_one E p = (\<lambda>(errs, w).
     if \<not> alive w then (errs, w)
     else
       let (err, w1) = refresh_profile E False p w
       in (case err of
             None \<Rightarrow> errs
           | Some RefreshBackoff \<Rightarrow> errs
           | Some (AccountNeedsLogin _) \<Rightarrow> errs
           | Some e \<Rightarrow> errs @ [e], w1))"

text \<open>\<open>Es\<close> gives every profile its own view of the clock, the locks and the CLI.\<close>

definition refresh_tool ::
    "(profile_info \<Rightarrow> surroundings) \<Rightarrow> string \<Rightarrow> refresh_error list \<times> refresher \<Rightarrow>
     refresh_error list \<times> refresher" where
  "refresh_tool Es tool = (\<lambda>(errs, w).
     case raw_profiles tool w of
       None \<Rightarrow> (errs @ [ListingFailed], w)
     | Some ps \<Rightarrow>
         fold (\<lambda>p. refresh_one (Es p) p) ps (errs, w))"

definition refresh_due ::
    "surroundings \<Rightarrow> (profile_info \<Rightarrow> surroundings) \<Rightarrow> (string \<Rightarrow> document option) \<Rightarrow> refresher \<Rightarrow>
     refresh_error list \<times> refresher" where
  "refresh_due E Es live w =
     (if \<not> en_enabled E then ([], w)
      else
        let (errs, w1) = fold (refresh_tool Es) [''claude'', ''codex''] ([], report_state_notices w)
        in (errs, fold emit_expiry_alert (statuses E live w1) w1))"

text \<open>A new process: what is on disk stays, the memory starts empty and the last rotations are read back.\<close>

definition restart :: "fate list \<Rightarrow> refresher \<Rightarrow> refresher" where
  "restart fs w =
     w\<lparr>p_view := new_state_data, p_unsaved := [], p_notices := [], p_repaired := False, p_attempts := [],
       p_alerted := [], p_pending := [], p_last := k_last w, w_fates := fs\<rparr>"

end
