(* ===== verification/SpendOnce.thy ===== *)
theory SpendOnce
  imports TokenRefresh StoreInv Names
begin

section \<open>No refresh token is spent twice\<close>

text \<open>
  The safety of the protocol of \<open>TokenRefresh\<close> for one refresh token of one account, under crashes
  and failing writes at any moment. The token is watched together with the profile that stores it.

  The refresher learns that a CLI may have spent the token when it has journaled the start of the
  run; it learns that the token was not spent from the verdict on the run. Between the two, for the
  rest of time if need be, no other run may start with that token.
\<close>

record watched =
  wt_sha :: "string \<Rightarrow> string"
  wt_readers :: readers
  wt_tool :: string
  wt_hash :: string
  wt_name :: string
  wt_access :: "string list"

definition wt_key :: "watched \<Rightarrow> string \<times> string" where
  "wt_key C = (wt_tool C, wt_hash C)"

definition wt_slot :: "watched \<Rightarrow> string \<times> string" where
  "wt_slot C = (wt_tool C, wt_name C)"

definition carried :: "watched \<Rightarrow> document \<Rightarrow> bool" where
  "carried C d =
     (case refresh_token (wt_tool C) d of
        None \<Rightarrow> False
      | Some token \<Rightarrow> wt_sha C (wt_tool C @ [CHR 0x00] @ token) = wt_hash C)"

subsection \<open>The history\<close>

fun owed :: "string \<times> string \<Rightarrow> (run_event \<times> string \<times> string) list \<Rightarrow> bool" where
  "owed k [] = False"
| "owed k ((ev, k1) # h) =
     (if k1 = k \<and> ev = Noted then True else if k1 = k \<and> ev = Unsent then False else owed k h)"

fun spent_once :: "string \<times> string \<Rightarrow> (run_event \<times> string \<times> string) list \<Rightarrow> bool" where
  "spent_once k [] = True"
| "spent_once k ((ev, k1) # h) = (\<not> (k1 = k \<and> ev = Launched \<and> owed k h) \<and> spent_once k h)"

subsection \<open>What is asked of the provider and of the surroundings\<close>

text \<open>The temporary copy of a run on such a document is never taken for a newer login.\<close>

definition calm :: "watched \<Rightarrow> document \<Rightarrow> bool" where
  "calm C d =
     (\<forall>tool copy s. force_expire tool d = Some copy \<longrightarrow>
        \<not> credential_advanced (wt_readers C) tool s copy)"

text \<open>
  A login that does not bring the watched token back: it has another refresh token and another access
  token, and merging it into a file leaves or replaces the login there.
\<close>

definition fresh_login :: "watched \<Rightarrow> document \<Rightarrow> bool" where
  "fresh_login C d =
     (\<not> carried C d \<and> access_token_of (wt_tool C) d \<notin> set (wt_access C) \<and> calm C d \<and>
      (\<forall>tool cur m. merge_rotated_credentials tool cur d = Some m \<longrightarrow>
         (carried C m \<longrightarrow>
            carried C cur \<and> access_token_of (wt_tool C) m = access_token_of (wt_tool C) cur) \<and>
         (calm C cur \<longrightarrow> calm C m)))"

text \<open>A copy that is taken for a newer login only if it is a fresh one.\<close>

definition inert :: "watched \<Rightarrow> string \<Rightarrow> document \<Rightarrow> bool" where
  "inert C tool d = (\<forall>s. credential_advanced (wt_readers C) tool s d \<longrightarrow> fresh_login C d)"

definition token_holder :: "watched \<Rightarrow> refresher \<Rightarrow> profile_info \<Rightarrow> document \<Rightarrow> bool" where
  "token_holder C w p d =
     (p \<in> set (k_profiles w) \<and> pi_tool p = wt_tool C \<and> pi_path p \<noteq> [] \<and>
      \<not> path_is_link w (pi_path p) \<and> read_credential w (pi_path p) = Some d \<and> carried C d)"

definition held :: "watched \<Rightarrow> refresher \<Rightarrow> bool" where
  "held C w = (\<exists>p d. token_holder C w p d)"

definition fits :: "watched \<Rightarrow> surroundings \<Rightarrow> bool" where
  "fits C E =
     (en_hash E = wt_sha C \<and> en_readers E = wt_readers C \<and>
      (\<forall>tool copy run d. en_run E copy = (run, Some d) \<longrightarrow> inert C tool copy \<longrightarrow> inert C tool d))"

subsection \<open>The invariant\<close>

definition slot_entry :: "watched \<Rightarrow> state_data \<Rightarrow> bool" where
  "slot_entry C d =
     (case map_of (sd_journal d) (wt_slot C) of
        None \<Rightarrow> False
      | Some e \<Rightarrow> je_hash e = wt_hash C \<and> je_phase e \<noteq> Spending)"

definition accounted :: "watched \<Rightarrow> state_data \<Rightarrow> bool" where
  "accounted C d = has_key (sd_accounts d) (wt_key C)"

fun spoils :: "watched \<Rightarrow> change \<Rightarrow> bool" where
  "spoils C (SetJournal e) =
     (journal_key e = wt_slot C \<and> (je_hash e \<noteq> wt_hash C \<or> je_phase e = Spending))"
| "spoils C (ClearJournal tool name) = ((tool, name) = wt_slot C)"
| "spoils C (SetAccount e) = False"

definition wf_state :: "state_data \<Rightarrow> bool" where
  "wf_state d =
     (distinct (keys (sd_journal d)) \<and> (\<forall>(k, e) \<in> set (sd_journal d). journal_key e = k))"

definition saved_state :: "refresher \<Rightarrow> state_data" where
  "saved_state w = (case k_state w of StateFile d \<Rightarrow> d | _ \<Rightarrow> new_state_data)"

definition secured :: "watched \<Rightarrow> refresher \<Rightarrow> bool" where
  "secured C w =
     (accounted C (saved_state w) \<or>
      (slot_entry C (saved_state w) \<and> (alive w \<longrightarrow> (\<forall>c \<in> set (p_unsaved w). \<not> spoils C c))))"

fun change_temp :: "change \<Rightarrow> string \<times> string" where
  "change_temp (SetJournal e) = (je_tool e, je_temp e)"
| "change_temp _ = ([], [])"

text \<open>The temporary directories an entry of the journal, or a change that waits to be saved, refers to.\<close>

definition referenced :: "refresher \<Rightarrow> (string \<times> string) set" where
  "referenced w =
     {(tool, dir). dir \<noteq> [] \<and>
        ((\<exists>(k, e) \<in> set (sd_journal (saved_state w)). (je_tool e, je_temp e) = (tool, dir)) \<or>
         (tool, dir) \<in> change_temp ` set (p_unsaved w))}"

definition copies_ok :: "watched \<Rightarrow> refresher \<Rightarrow> bool" where
  "copies_ok C w =
     ((\<forall>path d. map_of (k_rescues w) path = Some d \<longrightarrow> fresh_login C d) \<and>
      (\<forall>k d. map_of (p_pending w) k = Some d \<longrightarrow> fresh_login C d) \<and>
      (\<forall>tool dir d made. (tool, dir) \<in> referenced w \<longrightarrow> map_of (k_temps w) dir = Some (d, made) \<longrightarrow>
         inert C tool d) \<and>
      (\<forall>tool dir. (tool, dir) \<in> referenced w \<longrightarrow> dir \<in> set (k_dirs w)))"

definition holders_ok :: "watched \<Rightarrow> refresher \<Rightarrow> bool" where
  "holders_ok C w =
     (distinct (map pi_name (filter (\<lambda>p. pi_tool p = wt_tool C) (k_profiles w))) \<and>
      (\<forall>p \<in> set (k_profiles w). \<forall>d. read_credential w (pi_path p) = Some d \<longrightarrow> calm C d) \<and>
      (\<forall>p d. token_holder C w p d \<longrightarrow>
         pi_name p = wt_name C \<and> access_token_of (wt_tool C) d \<in> set (wt_access C)))"

definition guarded :: "watched \<Rightarrow> refresher \<Rightarrow> bool" where
  "guarded C w =
     (k_state w \<noteq> CorruptStateFile \<and> wf_state (saved_state w) \<and> holders_ok C w \<and> copies_ok C w \<and>
      (owed (wt_key C) (h_runs w) \<longrightarrow> held C w \<longrightarrow> secured C w) \<and>
      spent_once (wt_key C) (h_runs w))"

subsection \<open>Steps that only lose copies\<close>

text \<open>
  Most building blocks touch neither the state file nor a credential file: they change what the
  invariant does not read, or remove a copy.
\<close>

definition shrinks :: "refresher \<Rightarrow> refresher \<Rightarrow> bool" where
  "shrinks w w1 =
     (k_state w1 = k_state w \<and> k_profiles w1 = k_profiles w \<and> k_listing w1 = k_listing w \<and>
      k_files w1 = k_files w \<and> k_links w1 = k_links w \<and> p_unsaved w1 = p_unsaved w \<and>
      h_runs w1 = h_runs w \<and> k_dirs w1 = k_dirs w \<and>
      map_of (k_rescues w1) \<subseteq>\<^sub>m map_of (k_rescues w) \<and>
      map_of (p_pending w1) \<subseteq>\<^sub>m map_of (p_pending w) \<and>
      map_of (k_temps w1) \<subseteq>\<^sub>m map_of (k_temps w) \<and> (alive w1 \<longrightarrow> alive w))"

named_theorems shrinking \<open>building blocks that only lose copies\<close>

lemma shrinks_refl [shrinking]: "shrinks w w"
  by (simp add: shrinks_def)

lemma shrinks_trans: "shrinks a b \<Longrightarrow> shrinks b c \<Longrightarrow> shrinks a c"
  by (auto simp: shrinks_def intro: map_le_trans)

lemma disk_cases:
  obtains
    (works) fs where "disk f w = (True, f (w\<lparr>w_fates := fs\<rparr>))" "alive w"
  | (fails) fs where "disk f w = (False, w\<lparr>w_fates := fs\<rparr>)" "fs \<noteq> [] \<longrightarrow> alive w"
proof (cases "w_fates w")
  case Nil
  then have "disk f w = (False, w\<lparr>w_fates := []\<rparr>)" by (simp add: disk_def)
  then show ?thesis by (rule fails) simp
next
  case (Cons x fs)
  then show ?thesis
    by (cases x) (auto simp: disk_def alive_def intro: works fails)
qed

lemma alive_fates [simp]: "alive (w\<lparr>w_fates := fs\<rparr>) = (fs \<noteq> [])"
  by (simp add: alive_def)

lemma shrinks_fates: "fs \<noteq> [] \<longrightarrow> alive w \<Longrightarrow> shrinks w (w\<lparr>w_fates := fs\<rparr>)"
  by (simp add: shrinks_def)

lemma map_le_del: "map_of (del k m) \<subseteq>\<^sub>m map_of m"
  by (auto simp: map_le_def delete_conv split: if_splits)

lemma shrinks_disk:
  assumes "\<And>v. alive w \<Longrightarrow> shrinks v (f v)" "shrinks a w"
  shows "shrinks a (snd (disk f w))"
proof (cases rule: disk_cases [of f w])
  case (works fs)
  moreover have "shrinks w (w\<lparr>w_fates := fs\<rparr>)" using works(2) by (simp add: shrinks_fates)
  ultimately show ?thesis using assms shrinks_trans by (metis snd_conv)
next
  case (fails fs)
  then show ?thesis using assms(2) shrinks_fates shrinks_trans by (metis snd_conv)
qed

lemma shrinks_disk_id [shrinking]: "shrinks a w \<Longrightarrow> shrinks a (snd (disk (\<lambda>w. w) w))"
  by (rule shrinks_disk) (simp_all add: shrinks_refl)

lemma shrinks_remove_refresh_temp_dir [shrinking]:
  "shrinks a w \<Longrightarrow> shrinks a (remove_refresh_temp_dir dir w)"
  unfolding remove_refresh_temp_dir_def
  by (cases "dir = [] \<or> has_prefix dir ''.''")
    (simp_all only: if_True if_False, rule shrinks_disk, simp_all add: shrinks_def map_le_del alive_def)

lemma shrinks_remove_temp [shrinking]: "shrinks a w \<Longrightarrow> shrinks a (remove_temp dir w)"
  unfolding remove_temp_def by (rule shrinks_disk) (simp_all add: shrinks_def map_le_del alive_def)

lemma shrinks_remove_rescue [shrinking]: "shrinks a w \<Longrightarrow> shrinks a (remove_rescue path w)"
  unfolding remove_rescue_def by (rule shrinks_disk) (simp_all add: shrinks_def map_le_del alive_def)

lemma shrinks_fold:
  assumes "\<And>x v. shrinks a v \<Longrightarrow> shrinks a (f x v)" "shrinks a w"
  shows "shrinks a (fold f xs w)"
  using assms(2) by (induction xs arbitrary: w) (simp_all add: assms(1))

lemma shrinks_sweep [shrinking]: "shrinks a w \<Longrightarrow> shrinks a (sweep_refresh_temp dirs now w)"
  unfolding sweep_refresh_temp_def by (rule shrinks_fold) (auto intro: shrinking)

lemma shrinks_prune [shrinking]: "shrinks a w \<Longrightarrow> shrinks a (prune_rotated_rescues tool name w)"
  unfolding prune_rotated_rescues_def by (rule shrinks_fold) (auto intro: shrinking)

lemma shrinks_emit [shrinking]: "shrinks a w \<Longrightarrow> shrinks a (emit kind key w)"
  by (simp add: emit_def shrinks_def alive_def)

lemma shrinks_rearm [shrinking]: "shrinks a w \<Longrightarrow> shrinks a (rearm key w)"
  by (simp add: rearm_def shrinks_def alive_def)

lemma shrinks_set_attempts [shrinking]: "shrinks a w \<Longrightarrow> shrinks a (set_attempts k b w)"
  by (simp add: set_attempts_def shrinks_def alive_def)

lemma shrinks_drop_pending [shrinking]: "shrinks a w \<Longrightarrow> shrinks a (drop_pending k w)"
  by (rule shrinks_trans [of a w]) (simp_all add: drop_pending_def shrinks_def alive_def map_le_del)

lemma shrinks_note_failure [shrinking]:
  "shrinks a w \<Longrightarrow> shrinks a (snd (note_failure E k name noop w))"
  unfolding note_failure_def Let_def snd_conv
  by (cases "\<not> noop \<or> target_noop_limit \<le> as_noops ((back_off (en_now E) (attempts_of k w))
        \<lparr>as_noops := if noop then as_noops (attempts_of k w) + 1 else 0\<rparr>)")
    (simp_all only: if_True if_False, (intro shrinks_emit shrinks_set_attempts, assumption)+)

lemma shrinks_forget_rescue [shrinking]: "shrinks a w \<Longrightarrow> shrinks a (forget_rescue r w)"
  by (auto simp: forget_rescue_def split: option.splits intro: shrinking)

lemma shrinks_set_last_rotation [shrinking]:
  "shrinks a w \<Longrightarrow> shrinks a (set_last_rotation k l w)"
  unfolding set_last_rotation_def Let_def
  by (rule shrinks_disk) (simp_all add: shrinks_def alive_def)

lemma shrinks_note_rotation [shrinking]:
  "shrinks a w \<Longrightarrow> shrinks a (note_rotation E tool name d w)"
  by (auto simp: note_rotation_def split: option.splits intro: shrinking)

lemma shrinks_fan_out [shrinking]: "shrinks a w \<Longrightarrow> shrinks a (fan_out E tool name path w)"
proof -
  assume a: "shrinks a w"
  moreover from a have "shrinks a (w\<lparr>p_fanned := xs\<rparr>)" for xs by (simp add: shrinks_def alive_def)
  ultimately show ?thesis
    by (auto simp: fan_out_def Let_def split: option.splits fan_result.splits intro: shrinking)
qed

lemma shrinks_announce_commit [shrinking]:
  "shrinks a w \<Longrightarrow> shrinks a (announce_commit E tool d path names w)"
  unfolding announce_commit_def by (rule shrinks_fold) (auto intro: shrinking)

lemma shrinks_view_state [shrinking]: "shrinks a w \<Longrightarrow> shrinks a (snd (view_state w))"
  by (simp add: view_state_def shrinks_def alive_def)

lemma shrinks_repair_state [shrinking]:
  assumes "shrinks a w" "k_state w \<noteq> CorruptStateFile"
  shows "shrinks a (repair_state now w)"
proof -
  have "shrinks a (w\<lparr>p_repaired := True\<rparr>)" using assms(1) by (simp add: shrinks_def alive_def)
  moreover have "read_state_file (w\<lparr>p_repaired := True\<rparr>) \<noteq> None"
    using assms(2) by (auto simp: read_state_file_def split: state_file.splits)
  ultimately show ?thesis
    using assms(1) shrinks_view_state [of a "w\<lparr>p_repaired := True\<rparr>"]
    by (auto simp: repair_state_def Let_def split: prod.splits intro: shrinking)
qed

subsection \<open>The invariant under such steps\<close>

lemma saved_state_cong: "k_state w1 = k_state w \<Longrightarrow> saved_state w1 = saved_state w"
  by (simp add: saved_state_def)

lemma token_holder_cong:
  "k_profiles w1 = k_profiles w \<Longrightarrow> k_files w1 = k_files w \<Longrightarrow> k_links w1 = k_links w \<Longrightarrow>
   token_holder C w1 = token_holder C w"
  by (auto simp: token_holder_def path_is_link_def read_credential_def resolved_path_def intro!: ext)

lemma read_credential_cong:
  "k_files w1 = k_files w \<Longrightarrow> k_links w1 = k_links w \<Longrightarrow> read_credential w1 = read_credential w"
  by (auto simp: read_credential_def resolved_path_def intro!: ext)

lemma referenced_cong:
  "k_state w1 = k_state w \<Longrightarrow> p_unsaved w1 = p_unsaved w \<Longrightarrow> referenced w1 = referenced w"
  by (simp add: referenced_def saved_state_def)

lemma guarded_shrinks:
  assumes g: "guarded C w" and s: "shrinks w w1"
  shows "guarded C w1"
proof -
  from s have f: "k_state w1 = k_state w" "k_profiles w1 = k_profiles w" "k_files w1 = k_files w"
    "k_links w1 = k_links w" "p_unsaved w1 = p_unsaved w" "h_runs w1 = h_runs w" "k_dirs w1 = k_dirs w"
    by (simp_all add: shrinks_def)
  note eqs = saved_state_cong [OF f(1)] token_holder_cong [OF f(2-4)] read_credential_cong [OF f(3,4)]
    referenced_cong [OF f(1,5)] f
  have sub: "map_of (k_rescues w1) path = Some d \<Longrightarrow> map_of (k_rescues w) path = Some d"
    "map_of (p_pending w1) k = Some d \<Longrightarrow> map_of (p_pending w) k = Some d"
    "map_of (k_temps w1) dir = Some x \<Longrightarrow> map_of (k_temps w) dir = Some x" for path d k dir x
    using s unfolding shrinks_def map_le_def by (metis domI)+
  have "copies_ok C w1"
    using g sub unfolding guarded_def copies_ok_def eqs by blast
  moreover have "holders_ok C w1"
    using g unfolding guarded_def holders_ok_def eqs by simp
  moreover have "secured C w \<Longrightarrow> secured C w1"
    using s unfolding secured_def eqs by (auto simp: shrinks_def)
  ultimately show ?thesis
    using g unfolding guarded_def held_def eqs by blast
qed

subsection \<open>Changing the state file\<close>

lemma set_put_le: "set (put k v m) \<subseteq> insert (k, v) (set m)"
  by (induction m) auto

lemma set_del_le: "set (del k m) \<subseteq> set m"
  by (auto simp: AList.delete_eq)

definition entry_temps :: "state_data \<Rightarrow> (string \<times> string) set" where
  "entry_temps d = (\<lambda>(k, e). (je_tool e, je_temp e)) ` set (sd_journal d)"

lemma entry_temps_apply: "entry_temps (apply_change c d) \<subseteq> insert (change_temp c) (entry_temps d)"
proof (cases c)
  case (SetJournal e)
  then show ?thesis
    using set_put_le [of "journal_key e" e "sd_journal d"] by (auto simp: entry_temps_def)
next
  case (ClearJournal tool name)
  then show ?thesis using set_del_le [of "(tool, name)" "sd_journal d"] by (auto simp: entry_temps_def)
qed (auto simp: entry_temps_def)

lemma entry_temps_fold: "entry_temps (fold apply_change cs d) \<subseteq> change_temp ` set cs \<union> entry_temps d"
proof (induction cs arbitrary: d)
  case (Cons c cs)
  then show ?case using Cons [of "apply_change c d"] entry_temps_apply [of c d] by auto
qed simp

lemma referenced_iff:
  "x \<in> referenced w \<longleftrightarrow>
     snd x \<noteq> [] \<and> (x \<in> entry_temps (saved_state w) \<or> x \<in> change_temp ` set (p_unsaved w))"
  by (cases x) (force simp: referenced_def entry_temps_def)

lemma apply_wf: "wf_state d \<Longrightarrow> wf_state (apply_change c d)"
proof (cases c)
  case (SetJournal e)
  assume "wf_state d"
  then show ?thesis
    using SetJournal set_put_le [of "journal_key e" e "sd_journal d"]
    by (auto simp: wf_state_def distinct_update)
next
  case (ClearJournal tool name)
  assume "wf_state d"
  then show ?thesis
    using ClearJournal set_del_le [of "(tool, name)" "sd_journal d"]
    by (auto simp: wf_state_def distinct_delete)
qed (simp add: wf_state_def)

lemma apply_accounted: "accounted C d \<Longrightarrow> accounted C (apply_change c d)"
  by (cases c) (auto simp: accounted_def has_key_def update_conv')

lemma apply_slot: "slot_entry C d \<Longrightarrow> \<not> spoils C c \<Longrightarrow> slot_entry C (apply_change c d)"
  by (cases c) (auto simp: slot_entry_def update_conv' delete_conv')

lemma fold_wf: "wf_state d \<Longrightarrow> wf_state (fold apply_change cs d)"
  by (induction cs arbitrary: d) (simp_all add: apply_wf)

lemma fold_accounted: "accounted C d \<Longrightarrow> accounted C (fold apply_change cs d)"
  by (induction cs arbitrary: d) (simp_all add: apply_accounted)

lemma fold_slot:
  "slot_entry C d \<Longrightarrow> \<forall>c \<in> set cs. \<not> spoils C c \<Longrightarrow> slot_entry C (fold apply_change cs d)"
  by (induction cs arbitrary: d) (simp_all add: apply_slot)

lemma state_view_saved:
  "k_state w \<noteq> CorruptStateFile \<Longrightarrow> state_view w = fold apply_change (p_unsaved w) (saved_state w)"
  by (auto simp: state_view_def read_state_file_def saved_state_def split: state_file.splits)

lemma state_view_facts:
  assumes "guarded C w"
  shows "wf_state (state_view w)"
    and "accounted C (saved_state w) \<Longrightarrow> accounted C (state_view w)"
    and "x \<in> entry_temps (state_view w) \<Longrightarrow> snd x \<noteq> [] \<Longrightarrow> x \<in> referenced w"
    and "alive w \<Longrightarrow> owed (wt_key C) (h_runs w) \<Longrightarrow> held C w \<Longrightarrow>
      \<not> accounted C (saved_state w) \<Longrightarrow> slot_entry C (state_view w)"
proof -
  have ok: "k_state w \<noteq> CorruptStateFile" "wf_state (saved_state w)"
    and sec: "owed (wt_key C) (h_runs w) \<longrightarrow> held C w \<longrightarrow> secured C w"
    using assms by (simp_all add: guarded_def)
  note view = state_view_saved [OF ok(1)]
  show "wf_state (state_view w)" unfolding view by (rule fold_wf [OF ok(2)])
  show "accounted C (saved_state w) \<Longrightarrow> accounted C (state_view w)"
    unfolding view by (rule fold_accounted)
  show "x \<in> entry_temps (state_view w) \<Longrightarrow> snd x \<noteq> [] \<Longrightarrow> x \<in> referenced w"
    using entry_temps_fold [of "p_unsaved w" "saved_state w"] unfolding view referenced_iff by blast
  show "alive w \<Longrightarrow> owed (wt_key C) (h_runs w) \<Longrightarrow> held C w \<Longrightarrow>
      \<not> accounted C (saved_state w) \<Longrightarrow> slot_entry C (state_view w)"
    using sec fold_slot [of C "saved_state w" "p_unsaved w"] unfolding view secured_def by blast
qed

text \<open>What a change of the state file leaves alone.\<close>

definition steady :: "refresher \<Rightarrow> refresher \<Rightarrow> bool" where
  "steady w w1 =
     (k_profiles w1 = k_profiles w \<and> k_listing w1 = k_listing w \<and> k_files w1 = k_files w \<and>
      k_links w1 = k_links w \<and> h_runs w1 = h_runs w \<and> k_dirs w1 = k_dirs w \<and>
      map_of (k_rescues w1) \<subseteq>\<^sub>m map_of (k_rescues w) \<and>
      map_of (p_pending w1) \<subseteq>\<^sub>m map_of (p_pending w) \<and>
      map_of (k_temps w1) \<subseteq>\<^sub>m map_of (k_temps w) \<and> (alive w1 \<longrightarrow> alive w))"

lemma shrinks_steady: "shrinks w w1 \<Longrightarrow> steady w w1"
  by (simp add: shrinks_def steady_def)

lemma steady_trans: "steady a b \<Longrightarrow> steady b c \<Longrightarrow> steady a c"
  by (auto simp: steady_def intro: map_le_trans)

lemma steady_refl: "steady w w"
  by (simp add: steady_def)

lemma keep_unsaved_facts:
  "k_state (keep_unsaved c w) = k_state w" "steady w (keep_unsaved c w)"
  "set (p_unsaved (keep_unsaved c w)) \<subseteq> insert c (set (p_unsaved w))"
  "alive (keep_unsaved c w) = alive w"
  by (auto simp: keep_unsaved_def note_save_failure_def steady_def alive_def Let_def dest: in_set_dropD)

text \<open>The three ends of a change: never applied, kept for later, saved.\<close>

lemma mutate_cases:
  assumes "mutate now c w = (ok, w1)" "k_state w \<noteq> CorruptStateFile"
  obtains
    (kept) "\<not> ok" "steady w w1" "k_state w1 = k_state w"
      "set (p_unsaved w1) \<subseteq> insert c (set (p_unsaved w))"
  | (saved) "ok" "alive w" "steady w w1" "k_state w1 = StateFile (apply_change c (state_view w))"
      "p_unsaved w1 = []"
proof (cases rule: disk_cases [of "\<lambda>w. w" w])
  case (fails fs)
  let ?v = "w\<lparr>w_fates := fs\<rparr>"
  have "w1 = (keep_unsaved c ?v)\<lparr>p_view := apply_change c (p_view (keep_unsaved c ?v))\<rparr>" "\<not> ok"
    using assms(1) fails by (auto simp: mutate_def Let_def)
  moreover have "steady w ?v" using fails(2) by (simp add: steady_def)
  ultimately show ?thesis
    using keep_unsaved_facts [where c = c and w = ?v] steady_trans [of w ?v "keep_unsaved c ?v"]
    by (intro kept) (simp_all add: steady_def alive_def)
next
  case (works fs)
  let ?r = "repair_state now (w\<lparr>w_fates := fs\<rparr>)" and ?d = "apply_change c (state_view w)"
  define v where "v = snd (view_state ?r)"
  have r: "shrinks w ?r"
    by (rule shrinks_repair_state) (use assms(2) works(2) in \<open>simp_all add: shrinks_fates\<close>)
  then have s: "shrinks w v" unfolding v_def by (rule shrinks_view_state)
  have "state_view ?r = state_view w"
    using r assms(2) by (simp add: shrinks_def state_view_saved saved_state_def)
  then have "view_state ?r = (state_view w, v)" by (simp add: view_state_def v_def)
  then have m: "mutate now c w =
      (case disk (\<lambda>w. w\<lparr>k_state := StateFile ?d\<rparr>) v of
         (False, w3) \<Rightarrow> (False, (keep_unsaved c w3)\<lparr>p_view := ?d\<rparr>)
       | (True, w3) \<Rightarrow> (True, w3\<lparr>p_unsaved := [], p_view := ?d\<rparr>))"
    using works(1) by (simp add: mutate_def Let_def)
  show ?thesis
  proof (cases rule: disk_cases [of "\<lambda>w. w\<lparr>k_state := StateFile ?d\<rparr>" v])
    case (works fs1)
    then show ?thesis
      using assms(1) m s shrinks_steady [OF s] by (intro saved) (auto simp: steady_def shrinks_def alive_def)
  next
    case (fails fs1)
    let ?u = "v\<lparr>w_fates := fs1\<rparr>"
    have w1: "w1 = (keep_unsaved c ?u)\<lparr>p_view := ?d\<rparr>" "\<not> ok" using assms(1) m fails by auto
    have "steady w ?u" using shrinks_steady [OF s] fails(2) by (auto simp: steady_def)
    then have "steady w w1"
      using keep_unsaved_facts(2) [of ?u c] steady_trans [of w ?u "keep_unsaved c ?u"]
      unfolding w1(1) by (simp add: steady_def alive_def)
    then show ?thesis
      using keep_unsaved_facts(1,3) [where c = c and w = ?u] s w1
      by (intro kept) (simp_all add: shrinks_def)
  qed
qed

lemma saved_state_file [simp]: "k_state w = StateFile d \<Longrightarrow> saved_state w = d"
  by (simp add: saved_state_def)

text \<open>A change that may be applied at any later time without exposing the watched token.\<close>

definition harmless :: "watched \<Rightarrow> refresher \<Rightarrow> change \<Rightarrow> bool" where
  "harmless C w c =
     ((alive w \<longrightarrow> owed (wt_key C) (h_runs w) \<longrightarrow> held C w \<longrightarrow> \<not> accounted C (saved_state w) \<longrightarrow>
         \<not> spoils C c) \<and>
      (\<forall>tool dir. change_temp c = (tool, dir) \<longrightarrow> dir \<noteq> [] \<longrightarrow>
         dir \<in> set (k_dirs w) \<and>
         (\<forall>d made. map_of (k_temps w) dir = Some (d, made) \<longrightarrow> inert C tool d)))"

text \<open>The order of the states of a run: nobody gets the watched token, no verdict goes away.\<close>

definition later :: "watched \<Rightarrow> refresher \<Rightarrow> refresher \<Rightarrow> bool" where
  "later C w w1 =
     (k_profiles w1 = k_profiles w \<and> k_links w1 = k_links w \<and> k_listing w1 = k_listing w \<and>
      h_runs w1 = h_runs w \<and> k_dirs w1 = k_dirs w \<and> (held C w1 \<longrightarrow> held C w) \<and>
      (accounted C (saved_state w) \<longrightarrow> accounted C (saved_state w1)) \<and>
      map_of (k_temps w1) \<subseteq>\<^sub>m map_of (k_temps w) \<and> (alive w1 \<longrightarrow> alive w))"

lemma later_trans: "later C a b \<Longrightarrow> later C b c \<Longrightarrow> later C a c"
  by (auto simp: later_def intro: map_le_trans)

lemma later_refl: "later C w w"
  by (simp add: later_def)

lemma held_steady: "steady w w1 \<Longrightarrow> held C w1 = held C w"
proof -
  assume "steady w w1"
  then have "token_holder C w1 = token_holder C w" by (intro token_holder_cong) (simp_all add: steady_def)
  then show ?thesis by (simp add: held_def)
qed

lemma shrinks_later: "shrinks w w1 \<Longrightarrow> later C w w1"
  using held_steady [OF shrinks_steady, of w w1 C]
  by (simp add: later_def shrinks_def saved_state_def)

lemma guarded_steady:
  assumes g: "guarded C w" and s: "steady w w1"
    and "k_state w1 \<noteq> CorruptStateFile" "wf_state (saved_state w1)"
    and ref: "referenced w1 \<subseteq> insert (change_temp c) (referenced w)" and h: "harmless C w c"
    and "owed (wt_key C) (h_runs w) \<Longrightarrow> held C w \<Longrightarrow> secured C w1"
  shows "guarded C w1"
proof -
  from s have f: "k_profiles w1 = k_profiles w" "k_files w1 = k_files w" "k_links w1 = k_links w"
    "h_runs w1 = h_runs w" "k_dirs w1 = k_dirs w"
    by (simp_all add: steady_def)
  note eqs = token_holder_cong [OF f(1-3)] read_credential_cong [OF f(2,3)] f
  have sub: "map_of (k_rescues w1) path = Some d \<Longrightarrow> map_of (k_rescues w) path = Some d"
    "map_of (p_pending w1) k = Some d \<Longrightarrow> map_of (p_pending w) k = Some d"
    "map_of (k_temps w1) dir = Some x \<Longrightarrow> map_of (k_temps w) dir = Some x" for path d k dir x
    using s unfolding steady_def map_le_def by (metis domI)+
  have c: "copies_ok C w" using g by (simp add: guarded_def)
  have "inert C tool d \<and> dir \<in> set (k_dirs w)"
    if "(tool, dir) \<in> referenced w1" "map_of (k_temps w1) dir = Some (d, made)" for tool dir d made
  proof (cases "(tool, dir) = change_temp c")
    case True
    then show ?thesis
      using h that sub(3) unfolding harmless_def referenced_iff by (metis snd_conv)
  next
    case False
    then show ?thesis using that ref c sub(3) unfolding copies_ok_def by blast
  qed
  moreover have "dir \<in> set (k_dirs w)" if "(tool, dir) \<in> referenced w1" for tool dir
  proof (cases "(tool, dir) = change_temp c")
    case True
    then show ?thesis using h that unfolding harmless_def referenced_iff by (metis snd_conv)
  next
    case False
    then show ?thesis using that ref c unfolding copies_ok_def by blast
  qed
  ultimately have "copies_ok C w1"
    using c sub(1,2) unfolding copies_ok_def eqs by blast
  moreover have "holders_ok C w1"
    using g unfolding guarded_def holders_ok_def eqs by simp
  ultimately show ?thesis
    using g assms(3,4,7) unfolding guarded_def held_def eqs by blast
qed

lemma mutate_guarded:
  assumes g: "guarded C w" and h: "harmless C w c" and m: "mutate now c w = (ok, w1)"
  shows "guarded C w1 \<and> later C w w1 \<and> steady w w1 \<and>
    (ok \<longrightarrow> saved_state w1 = apply_change c (state_view w) \<and> p_unsaved w1 = []) \<and>
    referenced w1 \<subseteq> insert (change_temp c) (referenced w)"
proof -
  have nc: "k_state w \<noteq> CorruptStateFile" and wf: "wf_state (saved_state w)"
    and sec: "owed (wt_key C) (h_runs w) \<longrightarrow> held C w \<longrightarrow> secured C w"
    using g by (simp_all add: guarded_def)
  show ?thesis
    using m nc
  proof (cases rule: mutate_cases)
    case kept
    then have sv: "saved_state w1 = saved_state w" by (intro saved_state_cong)
    have ref: "referenced w1 \<subseteq> insert (change_temp c) (referenced w)"
    proof -
      have "change_temp ` set (p_unsaved w1) \<subseteq> insert (change_temp c) (change_temp ` set (p_unsaved w))"
        using kept(4) by blast
      then have "x \<in> referenced w" if "x \<in> referenced w1" "x \<noteq> change_temp c" for x
        using that unfolding referenced_iff sv by auto
      then show ?thesis by blast
    qed
    have "secured C w1" if o1: "owed (wt_key C) (h_runs w)" "held C w"
      using sec o1 h kept(2,4) unfolding secured_def sv harmless_def steady_def by blast
    then have "guarded C w1"
      using guarded_steady [OF g kept(2) _ _ ref h] nc wf kept(3) sv by simp
    then show ?thesis
      using kept ref sv held_steady [OF kept(2), of C] by (simp add: later_def steady_def)
  next
    case saved
    note view = state_view_facts [OF g]
    have sv: "saved_state w1 = apply_change c (state_view w)" using saved(4) by simp
    have ref: "referenced w1 \<subseteq> insert (change_temp c) (referenced w)"
    proof -
      have "x \<in> referenced w" if "x \<in> referenced w1" "x \<noteq> change_temp c" for x
        using that view(3) [of x] entry_temps_apply [of c "state_view w"]
        unfolding referenced_iff [of _ w1] sv saved(5) by auto
      then show ?thesis by blast
    qed
    have acc: "accounted C (saved_state w) \<Longrightarrow> accounted C (saved_state w1)"
      unfolding sv using view(2) by (intro apply_accounted)
    have "secured C w1" if o1: "owed (wt_key C) (h_runs w)" "held C w"
    proof (cases "accounted C (saved_state w)")
      case False
      then have "slot_entry C (apply_change c (state_view w))"
        using view(4) [OF saved(2) o1] h saved(2) o1 by (intro apply_slot) (simp_all add: harmless_def)
      then show ?thesis by (simp add: secured_def sv saved(5))
    qed (simp add: secured_def acc)
    then have "guarded C w1"
      using guarded_steady [OF g saved(3) _ _ ref h] saved(4) apply_wf [OF view(1)] sv by simp
    then show ?thesis
      using saved ref sv acc held_steady [OF saved(3), of C] by (simp add: later_def steady_def)
  qed
qed

lemma harmless_clear:
  "(alive w \<Longrightarrow> owed (wt_key C) (h_runs w) \<Longrightarrow> held C w \<Longrightarrow> \<not> accounted C (saved_state w) \<Longrightarrow>
      (tool, name) \<noteq> wt_slot C) \<Longrightarrow> harmless C w (ClearJournal tool name)"
  by (auto simp: harmless_def)

lemma clear_journal_guarded:
  assumes "guarded C w"
    and "alive w \<Longrightarrow> owed (wt_key C) (h_runs w) \<Longrightarrow> held C w \<Longrightarrow> \<not> accounted C (saved_state w) \<Longrightarrow>
      (tool, name) \<noteq> wt_slot C"
  shows "guarded C (snd (clear_journal now tool name w)) \<and>
    later C w (snd (clear_journal now tool name w))"
proof -
  obtain ok w1 where m: "mutate now (ClearJournal tool name) w = (ok, w1)"
    by (cases "mutate now (ClearJournal tool name) w")
  have h: "harmless C w (ClearJournal tool name)" using assms(2) by (rule harmless_clear)
  note g = mutate_guarded [OF assms(1) h m]
  have "shrinks w1 (snd (clear_journal now tool name w))"
    by (auto simp: clear_journal_def m Let_def split: option.splits intro: shrinking)
  then show ?thesis
    using g guarded_shrinks shrinks_later later_trans by blast
qed

subsection \<open>Rescues and credential files\<close>

lemma later_same:
  assumes "k_state w1 = k_state w" "k_profiles w1 = k_profiles w" "k_listing w1 = k_listing w"
    "k_files w1 = k_files w" "k_links w1 = k_links w" "h_runs w1 = h_runs w" "alive w1 \<longrightarrow> alive w"
    "k_dirs w1 = k_dirs w" "map_of (k_temps w1) \<subseteq>\<^sub>m map_of (k_temps w)"
  shows "later C w w1"
  using assms token_holder_cong [OF assms(2,4,5)] saved_state_cong [OF assms(1)]
  by (simp add: later_def held_def)

lemma guarded_copies:
  assumes g: "guarded C w" and "copies_ok C w1"
    and f: "k_state w1 = k_state w" "p_unsaved w1 = p_unsaved w" "k_profiles w1 = k_profiles w"
      "k_files w1 = k_files w" "k_links w1 = k_links w" "h_runs w1 = h_runs w"
    and "alive w1 \<longrightarrow> alive w"
  shows "guarded C w1"
proof -
  note eqs = token_holder_cong [OF f(3-5)] read_credential_cong [OF f(4,5)] saved_state_cong [OF f(1)] f
  have "holders_ok C w1" using g unfolding guarded_def holders_ok_def eqs by simp
  moreover have "secured C w \<Longrightarrow> secured C w1"
    using assms(9) unfolding secured_def eqs by auto
  ultimately show ?thesis
    using g assms(2) unfolding guarded_def held_def eqs by blast
qed

lemma referenced_same:
  "k_state w1 = k_state w \<Longrightarrow> p_unsaved w1 = p_unsaved w \<Longrightarrow> (x \<in> referenced w1) = (x \<in> referenced w)"
  using referenced_cong [of w1 w] by simp

lemma guarded_rescue:
  assumes g: "guarded C w" and f: "fresh_login C d" and a: "alive w"
  shows "guarded C (w\<lparr>w_fates := fs, k_rescues := put path d (k_rescues w), k_stamp := n\<rparr>)"
proof (rule guarded_copies [OF g])
  have "referenced (w\<lparr>w_fates := fs, k_rescues := put path d (k_rescues w), k_stamp := n\<rparr>) = referenced w"
    by (rule referenced_cong) simp_all
  then show "copies_ok C (w\<lparr>w_fates := fs, k_rescues := put path d (k_rescues w), k_stamp := n\<rparr>)"
    using g f by (auto simp: guarded_def copies_ok_def update_conv')
qed (simp_all add: a)

text \<open>What a rescue leaves alone beside the invariant.\<close>

lemma write_rescue_guarded:
  assumes g: "guarded C w" and f: "fresh_login C d" and r: "write_rescue tool name d w = (r, w1)"
  shows "guarded C w1 \<and> later C w w1 \<and> referenced w1 = referenced w \<and> k_dirs w1 = k_dirs w \<and>
    map_of (k_temps w1) \<subseteq>\<^sub>m map_of (k_temps w)"
proof (cases rule: disk_cases [of "\<lambda>w. w\<lparr>k_rescues := put (tool, name, k_stamp w) d (k_rescues w),
      k_stamp := k_stamp w + 1\<rparr>" w])
  case (fails fs)
  then have s: "shrinks w w1" using r by (auto simp: write_rescue_def Let_def intro: shrinks_fates)
  then have "referenced w1 = referenced w" by (intro referenced_cong) (simp_all add: shrinks_def)
  then show ?thesis
    using s guarded_shrinks [OF g s] shrinks_later [OF s] by (simp add: shrinks_def)
next
  case (works fs)
  define v where "v = w\<lparr>w_fates := fs, k_rescues := put (tool, name, k_stamp w) d (k_rescues w),
    k_stamp := k_stamp w + 1\<rparr>"
  have w1: "w1 = prune_rotated_rescues tool name v"
    using r works(1) by (simp add: write_rescue_def v_def Let_def)
  have s: "shrinks v w1" unfolding w1 by (intro shrinking)
  have gv: "guarded C v" unfolding v_def using guarded_rescue [OF g f works(2)] .
  have lv: "later C w v" unfolding v_def using works(2) by (intro later_same) simp_all
  have "referenced w1 = referenced v" using s by (intro referenced_cong) (simp_all add: shrinks_def)
  also have "\<dots> = referenced w" unfolding v_def by (intro referenced_cong) simp_all
  finally have ref: "referenced w1 = referenced w" .
  have "k_dirs w1 = k_dirs w" "map_of (k_temps w1) \<subseteq>\<^sub>m map_of (k_temps w)"
    using s by (simp_all add: shrinks_def v_def)
  then show ?thesis
    using ref guarded_shrinks [OF gv s] later_trans [OF lv shrinks_later [OF s]] by blast
qed

lemma save_aborted_guarded:
  assumes "guarded C w" "fresh_login C d"
  shows "guarded C (save_aborted_rotation tool name d w) \<and> later C w (save_aborted_rotation tool name d w)"
  using write_rescue_guarded [OF assms, of tool name] unfolding save_aborted_rotation_def
  by (cases "write_rescue tool name d w") auto

lemma write_file_guarded:
  fixes fs :: "fate list"
  assumes g: "guarded C w" and path: "path \<in> pi_path ` set (k_profiles w)"
    and cur: "read_credential w path = Some cur"
    and new: "carried C new \<Longrightarrow> carried C cur \<and>
      access_token_of (wt_tool C) new = access_token_of (wt_tool C) cur" "calm C new"
    and a: "alive w"
  defines "w1 \<equiv> w\<lparr>w_fates := fs, k_files := put (resolved_path w path) new (k_files w)\<rparr>"
  shows "guarded C w1 \<and> later C w w1"
proof -
  have read: "read_credential w1 q =
      (if resolved_path w q = resolved_path w path then Some new else read_credential w q)" for q
    by (simp add: w1_def read_credential_def resolved_path_def update_conv')
  have holder: "\<exists>d0. token_holder C w p d0 \<and>
      access_token_of (wt_tool C) d = access_token_of (wt_tool C) d0" if "token_holder C w1 p d" for p d
  proof (cases "resolved_path w (pi_path p) = resolved_path w path")
    case True
    then have "d = new" "read_credential w (pi_path p) = Some cur"
      using that read cur by (auto simp: token_holder_def read_credential_def)
    then show ?thesis
      using that new by (auto simp: token_holder_def path_is_link_def w1_def)
  next
    case False
    then have "token_holder C w p d"
      using that read by (simp add: token_holder_def path_is_link_def w1_def)
    then show ?thesis by blast
  qed
  have h: "holders_ok C w" using g by (simp add: guarded_def)
  have "holders_ok C w1"
    unfolding holders_ok_def
  proof (intro conjI ballI allI impI)
    show "distinct (map pi_name (filter (\<lambda>p. pi_tool p = wt_tool C) (k_profiles w1)))"
      using h by (simp add: holders_ok_def w1_def)
    show "calm C d" if "p \<in> set (k_profiles w1)" "read_credential w1 (pi_path p) = Some d" for p d
      using that h new(2) read by (auto simp: holders_ok_def w1_def split: if_splits)
    show "pi_name p = wt_name C" "access_token_of (wt_tool C) d \<in> set (wt_access C)"
      if "token_holder C w1 p d" for p d
      using holder [OF that] h by (auto simp: holders_ok_def)
  qed
  moreover have eqs: "saved_state w1 = saved_state w" "referenced w1 = referenced w"
    unfolding w1_def by (intro saved_state_cong referenced_cong; simp)+
  moreover have "copies_ok C w1"
    using g eqs by (simp add: guarded_def copies_ok_def w1_def)
  moreover have held: "held C w1 \<Longrightarrow> held C w" using holder unfolding held_def by blast
  moreover have "secured C w \<Longrightarrow> secured C w1"
    using a eqs by (auto simp: secured_def w1_def)
  ultimately show ?thesis
    using g a by (auto simp: guarded_def later_def w1_def)
qed

lemma copy_back_path_profile:
  assumes "copy_back_path E tool name token at w = Some (Some path)"
  shows "path \<in> pi_path ` set (k_profiles w)"
proof -
  obtain ps where ps: "raw_profiles tool w = Some ps" "set ps \<subseteq> set (k_profiles w)"
    using assms by (auto simp: copy_back_path_def raw_profiles_def split: if_splits)
  have m: "set (fst (matching_profile_paths w ps tool token)) \<subseteq> pi_path ` set ps"
    by (auto simp: matching_profile_paths_def Let_def)
  consider p where "find (\<lambda>p. pi_name p = name) ps = Some p" "path = pi_path p"
    | "fst (matching_profile_paths w ps tool token) = [path]"
    using assms ps(1) unfolding copy_back_path_def
    by (auto simp: Let_def split: prod.splits option.splits if_splits list.splits)
  then show ?thesis
  proof cases
    case 1
    then have "p \<in> set ps" by (simp add: find_SomeD)
    then show ?thesis using 1(2) ps(2) by blast
  next
    case 2
    then have "path \<in> set (fst (matching_profile_paths w ps tool token))" by simp
    then show ?thesis using m ps(2) by blast
  qed
qed

lemma merged_login:
  assumes "fresh_login C rotated" "merge_rotated_credentials tool cur rotated = Some merged" "calm C cur"
    and "new = rotated \<or> new = merged"
  shows "carried C new \<Longrightarrow> carried C cur \<and> access_token_of (wt_tool C) new = access_token_of (wt_tool C) cur"
    and "calm C new"
  using assms unfolding fresh_login_def by blast+

lemma write_stored_guarded:
  assumes g: "guarded C w" and f: "fresh_login C rotated"
    and path: "path \<in> pi_path ` set (k_profiles w)" and cur: "read_credential w path = Some cur"
    and merged: "merge_rotated_credentials tool cur rotated = Some merged" "new = rotated \<or> new = merged"
    and w: "write_stored_credential path new w = (ok, w1)"
  shows "guarded C w1 \<and> later C w w1"
proof -
  have calm: "calm C cur" using g path cur by (auto simp: guarded_def holders_ok_def)
  let ?f = "\<lambda>w. w\<lparr>k_files := put (resolved_path w path) new (k_files w)\<rparr>"
  have w: "disk ?f w = (ok, w1)" using w cur by (simp add: write_stored_credential_def)
  show ?thesis
  proof (cases rule: disk_cases [of ?f w])
    case (fails fs)
    then have "shrinks w w1" using w by (auto intro: shrinks_fates)
    then show ?thesis using guarded_shrinks [OF g] shrinks_later by blast
  next
    case (works fs)
    then have "w1 = w\<lparr>w_fates := fs, k_files := put (resolved_path w path) new (k_files w)\<rparr>"
      using w by (simp add: resolved_path_def)
    then show ?thesis
      using write_file_guarded [OF g path cur _ _ works(2), of new fs]
        merged_login [OF f merged(1) calm merged(2)] by simp
  qed
qed

lemma commit_rotated_credentials_guarded:
  assumes g: "guarded C w" and f: "fresh_login C rotated"
    and c: "commit_rotated_credentials E tool name started rotated at w = (ok, w1)"
  shows "guarded C w1 \<and> later C w w1"
proof (cases "w1 = save_aborted_rotation tool name rotated w \<or> w1 = w")
  case True
  then show ?thesis using save_aborted_guarded [OF g f] g later_refl by blast
next
  case False
  note c1 = c [unfolded commit_rotated_credentials_def Let_def]
  have free: "en_switcher_free E" using c1 False by (cases "en_switcher_free E") auto
  obtain before where b: "refresh_token tool started = Some before"
    using c1 free False by (cases "refresh_token tool started") auto
  obtain path where p: "copy_back_path E tool name before at w = Some (Some path)"
    using c1 free b False
    by (cases "copy_back_path E tool name before at w";
        cases "the (copy_back_path E tool name before at w)") auto
  obtain cur where cur: "read_credential w path = Some cur"
    using c1 free b p False by (cases "read_credential w path") auto
  have same: "refresh_token tool cur = Some before"
    using c1 free b p cur False by (cases "refresh_token tool cur = Some before") auto
  obtain merged where m: "merge_rotated_credentials tool cur rotated = Some merged"
    using c1 free b p cur same False by (cases "merge_rotated_credentials tool cur rotated") auto
  define new where
    "new = (if cur = started \<and> (tool = ''codex'' \<or> only_claude_oauth cur) then rotated else merged)"
  obtain ok2 w2 where w2: "write_stored_credential path new w = (ok2, w2)"
    by (cases "write_stored_credential path new w")
  have "w1 = (if ok2 then w2 else save_aborted_rotation tool name rotated w2)"
    using c1 free b p cur same m w2 by (cases ok2) (auto simp: new_def)
  moreover have "guarded C w2 \<and> later C w w2"
    using write_stored_guarded [OF g f copy_back_path_profile [OF p] cur m _ w2] by (auto simp: new_def)
  ultimately show ?thesis
    using save_aborted_guarded [OF _ f, of w2 tool name] later_trans by (cases ok2) auto
qed

lemma commit_holders_guarded:
  assumes "guarded C w" "fresh_login C rotated"
    and "fold (commit_holder E tool rotated at) hs (names, w) = (names1, w1)"
  shows "guarded C w1 \<and> later C w w1"
  using assms(1,3)
proof (induction hs arbitrary: names w)
  case (Cons h hs)
  obtain p d where h: "h = (p, d)" by (cases h)
  obtain ok w2 where c: "commit_rotated_credentials E tool (pi_name p) d rotated at w = (ok, w2)"
    by (cases "commit_rotated_credentials E tool (pi_name p) d rotated at w")
  have g2: "guarded C w2 \<and> later C w w2"
    by (rule commit_rotated_credentials_guarded [OF Cons(2) assms(2) c])
  obtain names2 where "fold (commit_holder E tool rotated at) hs (names2, w2) = (names1, w1)"
    using Cons(3) c by (cases ok) (auto simp: h commit_holder_def)
  then have "guarded C w1 \<and> later C w2 w1" using Cons(1) g2 by metis
  then show ?case using g2 later_trans [of C w w2 w1] by simp
qed (simp add: later_refl)

lemma in_map_filter: "y \<in> set (List.map_filter f xs) \<longleftrightarrow> (\<exists>x \<in> set xs. f x = Some y)"
  by (force simp: map_filter_def)

definition stored_holder :: "surroundings \<Rightarrow> string \<Rightarrow> string \<Rightarrow> refresher \<Rightarrow> profile_info \<Rightarrow> document \<Rightarrow> bool" where
  "stored_holder E tool hash w p d =
     (p \<in> set (k_profiles w) \<and> pi_tool p = tool \<and> pi_path p \<noteq> [] \<and> \<not> path_is_link w (pi_path p) \<and>
      read_credential w (pi_path p) = Some d \<and> carries E tool hash d)"

lemma in_holders:
  assumes "holders E tool hash w = Some hs"
  shows "(p, d) \<in> set hs \<longleftrightarrow> stored_holder E tool hash w p d"
proof -
  let ?f = "\<lambda>p. if pi_path p = [] \<or> path_is_link w (pi_path p) then None
               else case read_credential w (pi_path p) of
                      None \<Rightarrow> None
                    | Some d \<Rightarrow> if carries E tool hash d then Some (p, d) else None"
  have f: "?f q = Some (p, d) \<longleftrightarrow> q = p \<and> pi_path p \<noteq> [] \<and> \<not> path_is_link w (pi_path p) \<and>
      read_credential w (pi_path p) = Some d \<and> carries E tool hash d" for q
    by (cases "read_credential w (pi_path q)") auto
  have "hs = List.map_filter ?f (filter (\<lambda>p. pi_tool p = tool) (k_profiles w))"
    using assms by (simp add: holders_def raw_profiles_def split: if_splits)
  then show ?thesis
    by (simp only: in_map_filter f stored_holder_def set_filter) blast
qed

lemma carries_watched:
  "en_hash E = wt_sha C \<Longrightarrow> carries E (wt_tool C) (wt_hash C) = carried C"
  by (auto simp: carries_def carried_def token_hash_def intro!: ext split: option.splits)

text \<open>When a commit reports success for the watched token, nobody has that token any more.\<close>

lemma commit_to_holders_guarded:
  assumes g: "guarded C w" and f: "fresh_login C rotated"
    and c: "commit_to_holders E tool hash rotated at w = (r, w1)"
  shows "guarded C w1 \<and> later C w w1 \<and>
    (r \<noteq> None \<longrightarrow> (tool, hash) = wt_key C \<longrightarrow> en_hash E = wt_sha C \<longrightarrow> \<not> held C w1)"
proof (cases "pending_holders E tool hash rotated w")
  case None
  then show ?thesis using c g later_refl by (simp add: commit_to_holders_def)
next
  case (Some hs)
  obtain names w2 where fold: "fold (commit_holder E tool rotated at) hs ([], w) = (names, w2)"
    by (cases "fold (commit_holder E tool rotated at) hs ([], w)")
  then have w1: "w1 = w2" and r: "r \<noteq> None \<longleftrightarrow> pending_holders E tool hash rotated w2 = Some []"
    using c Some by (auto simp: commit_to_holders_def split: option.splits list.splits)
  have g2: "guarded C w2 \<and> later C w w2" by (rule commit_holders_guarded [OF g f fold])
  have "\<not> held C w2" if "r \<noteq> None" "(tool, hash) = wt_key C" "en_hash E = wt_sha C"
  proof
    assume "held C w2"
    then obtain p d where h: "token_holder C w2 p d" by (auto simp: held_def)
    then have acc: "access_token_of (wt_tool C) d \<in> set (wt_access C)"
      using g2 by (auto simp: guarded_def holders_ok_def)
    have key: "tool = wt_tool C" "hash = wt_hash C" using that(2) by (simp_all add: wt_key_def)
    have "pending_holders E tool hash rotated w2 = Some []" using \<open>r \<noteq> None\<close> r by blast
    then obtain hs2 where hs2: "holders E tool hash w2 = Some hs2"
      and empty: "filter (\<lambda>(p, d). \<not> (access_token_of tool rotated \<noteq> [] \<and>
                    access_token_of tool d = access_token_of tool rotated)) hs2 = []"
      by (auto simp: pending_holders_def)
    have "(p, d) \<in> set hs2"
      using h carries_watched [OF that(3)]
      unfolding in_holders [OF hs2] stored_holder_def token_holder_def key by simp
    then have "access_token_of tool d = access_token_of tool rotated"
      using empty by (auto simp: filter_empty_conv)
    then show False using acc f key by (simp add: fresh_login_def)
  qed
  then show ?thesis using g2 w1 by blast
qed

lemma guarded_hold_pending:
  assumes "guarded C w" "fresh_login C d"
  shows "guarded C (hold_pending k d w) \<and> later C w (hold_pending k d w) \<and>
    referenced (hold_pending k d w) = referenced w"
proof -
  have r: "referenced (hold_pending k d w) = referenced w"
    by (rule referenced_cong) (simp_all add: hold_pending_def)
  have "copies_ok C (hold_pending k d w)"
    unfolding copies_ok_def r using assms
    by (auto simp: guarded_def copies_ok_def hold_pending_def update_conv')
  then have "guarded C (hold_pending k d w)"
    by (rule guarded_copies [OF assms(1)]) (simp_all add: hold_pending_def alive_def)
  moreover have "later C w (hold_pending k d w)"
    by (rule later_same) (simp_all add: hold_pending_def alive_def)
  ultimately show ?thesis using r by blast
qed

subsection \<open>Settling an entry\<close>

lemma settle_guarded:
  assumes g: "guarded C w"
    and ok: "alive w \<Longrightarrow> owed (wt_key C) (h_runs w) \<Longrightarrow> held C w \<Longrightarrow> \<not> accounted C (saved_state w) \<Longrightarrow>
      (tool, name) = wt_slot C \<Longrightarrow> hash = wt_hash C"
  shows "guarded C (settle E (account_verdict E tool holder st hash) tool name w) \<and>
    later C w (settle E (account_verdict E tool holder st hash) tool name w)"
    (is "guarded C ?w \<and> later C w ?w")
proof -
  define w1 where w1_def: "w1 = ?w"
  let ?e = "account_verdict E tool holder st hash"
  obtain saved w2 where m: "mutate (en_now E) (SetAccount ?e) w = (saved, w2)"
    by (cases "mutate (en_now E) (SetAccount ?e) w")
  have h: "harmless C w (SetAccount ?e)" by (simp add: harmless_def)
  note mg = mutate_guarded [OF g h m]
  show ?thesis
  proof (cases saved)
    case False
    then show ?thesis using mg m by (simp add: settle_def set_account_def)
  next
    case True
    have w1: "w1 = snd (clear_journal (en_now E) tool name w2)"
      using m True by (simp add: w1_def settle_def set_account_def)
    have "(tool, name) \<noteq> wt_slot C"
      if "alive w2" "owed (wt_key C) (h_runs w2)" "held C w2" "\<not> accounted C (saved_state w2)"
    proof
      assume slot: "(tool, name) = wt_slot C"
      have "\<not> accounted C (saved_state w)" using mg that(4) by (auto simp: later_def)
      then have "hash = wt_hash C" using ok slot mg that by (simp add: later_def)
      then have "accounted C (saved_state w2)"
        using mg True slot
        by (simp add: accounted_def has_key_def account_verdict_def wt_slot_def wt_key_def update_conv')
      then show False using that(4) by blast
    qed
    then have "guarded C w1 \<and> later C w2 w1"
      unfolding w1 using mg by (intro clear_journal_guarded) auto
    then show ?thesis using mg later_trans unfolding w1_def by blast
  qed
qed

text \<open>What an entry of the journal must satisfy to be settled, and every entry of the view does.\<close>

definition entry_ok :: "watched \<Rightarrow> refresher \<Rightarrow> journal_entry \<Rightarrow> bool" where
  "entry_ok C w e =
     ((alive w \<longrightarrow> owed (wt_key C) (h_runs w) \<longrightarrow> held C w \<longrightarrow> \<not> accounted C (saved_state w) \<longrightarrow>
        journal_key e = wt_slot C \<longrightarrow> je_hash e = wt_hash C \<and> je_phase e \<noteq> Spending) \<and>
      (\<forall>d made. je_temp e \<noteq> [] \<longrightarrow> map_of (k_temps w) (je_temp e) = Some (d, made) \<longrightarrow>
         inert C (je_tool e) d))"

lemma entry_ok_later: "entry_ok C w e \<Longrightarrow> later C w w1 \<Longrightarrow> entry_ok C w1 e"
  unfolding entry_ok_def later_def map_le_def by (metis domI)

lemma view_entry_ok:
  assumes g: "guarded C w" and e: "(k, e) \<in> set (sd_journal (state_view w))"
  shows "entry_ok C w e"
  unfolding entry_ok_def
proof (intro conjI impI allI)
  note view = state_view_facts [OF g]
  have wf: "distinct (keys (sd_journal (state_view w)))" "journal_key e = k"
    using view(1) e by (auto simp: wf_state_def)
  {
    assume "alive w" "owed (wt_key C) (h_runs w)" "held C w" "\<not> accounted C (saved_state w)"
      and slot: "journal_key e = wt_slot C"
    then have "slot_entry C (state_view w)" by (intro view(4))
    moreover have "map_of (sd_journal (state_view w)) (wt_slot C) = Some e"
      using wf e slot by simp
    ultimately show "je_hash e = wt_hash C" "je_phase e \<noteq> Spending" by (simp_all add: slot_entry_def)
  }
  fix d made
  assume t: "je_temp e \<noteq> []" "map_of (k_temps w) (je_temp e) = Some (d, made)"
  have "(je_tool e, je_temp e) \<in> entry_temps (state_view w)" using e by (force simp: entry_temps_def)
  then have "(je_tool e, je_temp e) \<in> referenced w" using view(3) t(1) by simp
  then show "inert C (je_tool e) d" using g t by (auto simp: guarded_def copies_ok_def)
qed

lemma recover_rotated_fresh:
  assumes "guarded C w" "entry_ok C w e" "en_readers E = wt_readers C"
    and "recover_rotated E e spent w = Some d"
  shows "fresh_login C d"
proof -
  have c: "copies_ok C w" using assms(1) by (simp add: guarded_def)
  consider path where "map_of (k_rescues w) path = Some d"
    | "map_of (p_pending w) (je_tool e, je_hash e) = Some d"
    | made where "je_temp e \<noteq> []" "map_of (k_temps w) (je_temp e) = Some (d, made)"
        "credential_advanced (wt_readers C) (je_tool e) spent d"
    using assms(4) unfolding recover_rotated_def Let_def assms(3)
    by (auto split: option.splits if_splits simp: bind_eq_Some_conv)
  then show ?thesis
    using c assms(2) by cases (auto simp: copies_ok_def entry_ok_def inert_def)
qed

lemma guarded_then:
  assumes "guarded C w1" "later C w w1" "shrinks w1 w2"
  shows "guarded C w2 \<and> later C w w2"
  using assms guarded_shrinks shrinks_later later_trans by blast

lemma recover_entry_guarded:
  assumes g: "guarded C w" and e: "entry_ok C w e"
    and E: "en_hash E = wt_sha C" "en_readers E = wt_readers C"
  shows "guarded C (snd (recover_entry E e w)) \<and> later C w (snd (recover_entry E e w))"
proof (cases "holders E (je_tool e) (je_hash e) w")
  case None
  then show ?thesis using g later_refl by (simp add: recover_entry_def)
next
  case (Some hs)
  let ?clear = "\<lambda>w. snd (clear_journal (en_now E) (je_tool e) (je_name e) w)"
  have slot: "(je_tool e, je_name e) = wt_slot C \<longleftrightarrow> journal_key e = wt_slot C"
    by (simp add: journal_key_def)
  show ?thesis
  proof (cases hs)
    case Nil
    have "guarded C (?clear w) \<and> later C w (?clear w)"
    proof (rule clear_journal_guarded [OF g])
      assume "alive w" "owed (wt_key C) (h_runs w)" "held C w" "\<not> accounted C (saved_state w)"
      show "(je_tool e, je_name e) \<noteq> wt_slot C"
      proof
        assume s: "(je_tool e, je_name e) = wt_slot C"
        then have "je_hash e = wt_hash C" "je_tool e = wt_tool C"
          using e slot \<open>alive w\<close> \<open>owed (wt_key C) (h_runs w)\<close> \<open>held C w\<close> \<open>\<not> accounted C (saved_state w)\<close>
          by (simp_all add: entry_ok_def wt_slot_def)
        moreover obtain p d where "token_holder C w p d" using \<open>held C w\<close> by (auto simp: held_def)
        ultimately have "(p, d) \<in> set hs"
          using carries_watched [OF E(1)]
          unfolding in_holders [OF Some] stored_holder_def token_holder_def by simp
        then show False using Nil by simp
      qed
    qed
    moreover have "snd (recover_entry E e w) = drop_pending (je_tool e, je_hash e) (?clear w)"
      using Some Nil by (simp add: recover_entry_def Let_def)
    ultimately show ?thesis
      using guarded_then [of C "?clear w" w] shrinks_drop_pending [OF shrinks_refl] by metis
  next
    case (Cons h rest)
    obtain p spent where h: "h = (p, spent)" by (cases h)
    note unfold = recover_entry_def Let_def Some Cons h option.case list.case prod.case
    show ?thesis
    proof (cases "recover_rotated E e spent w")
      case None
      show ?thesis
      proof (cases "je_phase e = Spending")
        case True
        then have "guarded C (?clear w) \<and> later C w (?clear w)"
          using e slot by (intro clear_journal_guarded [OF g]) (auto simp: entry_ok_def)
        then show ?thesis using None True by (simp add: unfold)
      next
        case False
        define w1 where
          "w1 = (if je_phase e = Rotated then emit ''recovery'' (profile_key (je_tool e) (je_name e)) w else w)"
        have s: "shrinks w w1" by (auto simp: w1_def intro: shrinking)
        have l: "later C w w1" and g1: "guarded C w1"
          using s shrinks_later guarded_shrinks [OF g] by blast+
        let ?s = "settle E (account_verdict E (je_tool e) (pi_name p) NeedsReloginSoon (je_hash e))
          (je_tool e) (je_name e) w1"
        have "guarded C ?s \<and> later C w1 ?s"
          using entry_ok_later [OF e l] slot by (intro settle_guarded [OF g1]) (simp add: entry_ok_def)
        moreover have "snd (recover_entry E e w) =
            emit (state_kind NeedsReloginSoon) (profile_key (je_tool e) (pi_name p)) ?s"
          using None False by (simp add: unfold w1_def)
        ultimately show ?thesis
          using guarded_then [of C ?s w] l later_trans shrinks_emit [OF shrinks_refl] by metis
      qed
    next
      case rotated: (Some rotated)
      have f: "fresh_login C rotated" by (rule recover_rotated_fresh [OF g e E(2) rotated])
      obtain r w1 where c: "commit_to_holders E (je_tool e) (je_hash e) rotated (je_started e) w = (r, w1)"
        by (cases "commit_to_holders E (je_tool e) (je_hash e) rotated (je_started e) w")
      note g1 = commit_to_holders_guarded [OF g f c]
      show ?thesis
      proof (cases r)
        case None
        let ?h = "hold_pending (je_tool e, je_hash e) rotated w1"
        have h1: "guarded C ?h" "later C w1 ?h" using guarded_hold_pending [OF _ f] g1 by blast+
        have "later C w ?h" using g1 h1(2) later_trans by blast
        moreover have "snd (recover_entry E e w) =
            emit ''recovery'' (profile_key (je_tool e) (je_name e)) ?h"
          using rotated c None by (simp add: unfold)
        ultimately show ?thesis using guarded_then [OF h1(1) _ shrinks_emit [OF shrinks_refl]] by simp
      next
        case names: (Some names)
        let ?w2 = "forget_rescue (je_rescue e) w1"
        have s2: "shrinks w1 ?w2" by (intro shrinking)
        have g2: "guarded C ?w2" and l2: "later C w ?w2"
          using guarded_then [of C w1 w ?w2] g1 s2 by blast+
        have "guarded C (?clear ?w2) \<and> later C ?w2 (?clear ?w2)"
        proof (rule clear_journal_guarded [OF g2])
          assume a: "alive ?w2" "owed (wt_key C) (h_runs ?w2)" "held C ?w2"
            "\<not> accounted C (saved_state ?w2)"
          show "(je_tool e, je_name e) \<noteq> wt_slot C"
          proof
            assume sl: "(je_tool e, je_name e) = wt_slot C"
            then have "je_hash e = wt_hash C"
              using entry_ok_later [OF e l2] a slot by (simp add: entry_ok_def)
            then have "\<not> held C w1" using g1 names sl E(1) by (simp add: wt_key_def wt_slot_def)
            then show False using a(3) shrinks_later [OF s2] by (auto simp: later_def)
          qed
        qed
        moreover have "shrinks (?clear ?w2) (snd (recover_entry E e w))"
        proof -
          have "snd (recover_entry E e w) =
              announce_commit E (je_tool e) rotated (pi_path p) names
                (emit ''recovery'' (profile_key (je_tool e) (je_name e))
                  (drop_pending (je_tool e, je_hash e) (?clear ?w2)))"
            using rotated c names by (simp add: unfold)
          then show ?thesis
            by (simp only:) (intro shrinks_announce_commit shrinks_emit shrinks_drop_pending shrinks_refl)
        qed
        ultimately show ?thesis
          using guarded_then [of C "?clear ?w2" ?w2] later_trans [OF l2] by blast
      qed
    qed
  qed
qed

lemma recover_guarded:
  assumes g: "guarded C w" and E: "en_hash E = wt_sha C" "en_readers E = wt_readers C"
  shows "guarded C (recover E w) \<and> later C w (recover E w)"
proof -
  have fold: "guarded C v \<Longrightarrow> (\<And>e. e \<in> set es \<Longrightarrow> entry_ok C v e) \<Longrightarrow>
      guarded C (fold (\<lambda>e w. snd (recover_entry E e w)) es v) \<and>
      later C v (fold (\<lambda>e w. snd (recover_entry E e w)) es v)" for es v
  proof (induction es arbitrary: v)
    case (Cons e es)
    let ?v = "snd (recover_entry E e v)"
    have s: "guarded C ?v \<and> later C v ?v" using Cons(2,3) E by (intro recover_entry_guarded) simp_all
    have "entry_ok C ?v x" if "x \<in> set es" for x
      using Cons(3) [of x] that s entry_ok_later by simp
    then show ?case using Cons(1) [of ?v] s later_trans by fastforce
  qed (simp add: later_refl)
  let ?es = "map snd (sd_journal (state_view w))" and ?w = "snd (view_state w)"
  have s: "shrinks w ?w" by (intro shrinking)
  have r: "recover E w = fold (\<lambda>e w. snd (recover_entry E e w))
      (sort_key (\<lambda>e. profile_key (je_tool e) (je_name e)) ?es) ?w"
    by (simp add: recover_def journal_entries_def view_state_def Let_def)
  have "entry_ok C ?w e" if "e \<in> set ?es" for e
    using that view_entry_ok [OF g] entry_ok_later shrinks_later [OF s] by fastforce
  then have "guarded C (recover E w) \<and> later C ?w (recover E w)"
    unfolding r by (intro fold guarded_shrinks [OF g s]) simp
  then show ?thesis using later_trans [OF shrinks_later [OF s]] by blast
qed

subsection \<open>A run\<close>

text \<open>
  A run of an account under the name of the watched profile is a run of the watched token, as long as
  anybody holds that token. The temporary directory of a run has nothing stale in it.
\<close>

definition run_ok :: "watched \<Rightarrow> refresher \<Rightarrow> profile_info \<Rightarrow> string \<Rightarrow> bool" where
  "run_ok C w p hash =
     ((held C w \<longrightarrow> (pi_tool p, pi_name p) = wt_slot C \<longrightarrow> hash = wt_hash C) \<and>
      ((pi_tool p, hash) = wt_key C \<longrightarrow> pi_name p = wt_name C))"

definition dir_ok :: "watched \<Rightarrow> refresher \<Rightarrow> string \<Rightarrow> string \<Rightarrow> bool" where
  "dir_ok C w tool dir =
     (dir \<in> set (k_dirs w) \<and>
      (\<forall>d made. map_of (k_temps w) dir = Some (d, made) \<longrightarrow> inert C tool d))"

lemma run_ok_later: "run_ok C w p hash \<Longrightarrow> later C w w1 \<Longrightarrow> run_ok C w1 p hash"
  by (auto simp: run_ok_def later_def)

lemma dir_ok_later: "dir_ok C w tool dir \<Longrightarrow> later C w w1 \<Longrightarrow> dir_ok C w1 tool dir"
  unfolding dir_ok_def later_def map_le_def by (metis domI)

lemma slot_key: "(tool, name) = wt_slot C \<Longrightarrow> hash = wt_hash C \<Longrightarrow> (tool, hash) = wt_key C"
  by (simp add: wt_slot_def wt_key_def)

lemma clear_after_commit:
  assumes g: "guarded C w" and r: "run_ok C w p hash"
    and n: "(pi_tool p, hash) = wt_key C \<Longrightarrow> \<not> held C w"
  shows "guarded C (snd (clear_journal now (pi_tool p) (pi_name p) w)) \<and>
    later C w (snd (clear_journal now (pi_tool p) (pi_name p) w))"
  using r n slot_key by (intro clear_journal_guarded [OF g]) (auto simp: run_ok_def)

lemma commit_rotated_guarded:
  assumes g: "guarded C w" and r: "run_ok C w p hash" and f: "fresh_login C rotated"
    and d: "dir_ok C w (pi_tool p) dir" and E: "en_hash E = wt_sha C"
  shows "guarded C (snd (commit_rotated E p hash rotated dir w))"
proof -
  let ?tool = "pi_tool p" and ?k = "(pi_tool p, hash)"
  obtain rescue w1 where w1: "write_rescue ?tool (pi_name p) rotated w = (rescue, w1)"
    by (cases "write_rescue ?tool (pi_name p) rotated w")
  note g1 = write_rescue_guarded [OF g f w1]
  define w2 where "w2 = hold_pending ?k rotated w1"
  have g2: "guarded C w2" and l2: "later C w w2"
    using guarded_hold_pending [where C = C and w = w1 and k = ?k and d = rotated] f g1 later_trans unfolding w2_def by blast+
  define entry where "entry = \<lparr>je_tool = ?tool, je_name = pi_name p, je_phase = Rotated, je_hash = hash,
    je_rescue = rescue, je_temp = (if rescue = None then dir else []), je_started = en_now E\<rparr>"
  obtain ok w3 where w3: "mutate (en_now E) (SetJournal entry) w2 = (ok, w3)"
    by (cases "mutate (en_now E) (SetJournal entry) w2")
  have h: "harmless C w2 (SetJournal entry)"
    using run_ok_later [OF r l2] dir_ok_later [OF d l2]
    by (auto simp: harmless_def entry_def journal_key_def run_ok_def dir_ok_def)
  note g3 = mutate_guarded [OF g2 h w3]
  obtain r4 w4 where w4: "commit_to_holders E ?tool hash rotated (en_now E) w3 = (r4, w4)"
    by (cases "commit_to_holders E ?tool hash rotated (en_now E) w3")
  have g4: "guarded C w4" "later C w3 w4" "r4 \<noteq> None \<Longrightarrow> ?k = wt_key C \<Longrightarrow> \<not> held C w4"
    using commit_to_holders_guarded [OF _ f w4] g3 E by auto
  have l4: "later C w w4" using l2 g3 g4(2) later_trans by blast
  have c: "commit_rotated E p hash rotated dir w =
      (case r4 of
         None \<Rightarrow>
           ((Some CommitFailed, rescue = None \<or> \<not> ok),
            emit ''commit_failed'' (profile_key ?tool (pi_name p))
              (set_attempts ?k (back_off (en_now E) (attempts_of ?k w4)) w4))
       | Some [] \<Rightarrow>
           ((Some CommitAborted, False),
            emit ''commit_aborted'' (profile_key ?tool (pi_name p))
              (drop_pending ?k (snd (clear_journal (en_now E) ?tool (pi_name p) w4))))
       | Some names \<Rightarrow>
           ((None, False),
            announce_commit E ?tool rotated (pi_path p) names
              (finish_commit E ?tool (pi_name p) hash rescue w4)))"
    using w1 w3 w4 by (simp add: commit_rotated_def Let_def w2_def entry_def set_journal_def)
  show ?thesis
  proof (cases r4)
    case None
    then show ?thesis
      unfolding c by (auto intro!: guarded_shrinks [OF g4(1)] shrinking)
  next
    case (Some names)
    show ?thesis
    proof (cases names)
      case Nil
      have "guarded C (snd (clear_journal (en_now E) ?tool (pi_name p) w4))"
        using clear_after_commit [OF g4(1) run_ok_later [OF r l4]] g4(3) Some by blast
      then show ?thesis
        unfolding c Some Nil by (auto intro: guarded_shrinks shrinks_emit shrinks_drop_pending shrinks_refl)
    next
      case (Cons n ns)
      have s: "shrinks w4 (forget_rescue rescue w4)" by (intro shrinking)
      have "guarded C (snd (clear_journal (en_now E) ?tool (pi_name p) (forget_rescue rescue w4)))"
        using clear_after_commit [OF guarded_shrinks [OF g4(1) s]
            run_ok_later [OF r later_trans [OF l4 shrinks_later [OF s]]]] g4(3) Some
          held_steady [OF shrinks_steady [OF s], of C] by blast
      then show ?thesis
        unfolding c Some Cons finish_commit_def Let_def
        by (auto intro!: guarded_shrinks [of C "snd (clear_journal (en_now E) ?tool (pi_name p) (forget_rescue rescue w4))"]
            shrinks_announce_commit shrinks_set_attempts shrinks_drop_pending shrinks_refl)
    qed
  qed
qed

lemma guarded_runs:
  assumes g: "guarded C w" and "w1 = w\<lparr>h_runs := h\<rparr>"
    and "spent_once (wt_key C) h"
    and "owed (wt_key C) h \<Longrightarrow> held C w \<Longrightarrow> secured C w"
  shows "guarded C w1"
proof -
  have eqs: "saved_state w1 = saved_state w" "token_holder C w1 = token_holder C w"
    "read_credential w1 = read_credential w" "referenced w1 = referenced w"
    unfolding assms(2)
    by (intro saved_state_cong token_holder_cong read_credential_cong referenced_cong; simp)+
  have "copies_ok C w1" using g unfolding guarded_def copies_ok_def eqs by (simp add: assms(2))
  moreover have "holders_ok C w1" using g unfolding guarded_def holders_ok_def eqs by (simp add: assms(2))
  moreover have "secured C w1 = secured C w" unfolding secured_def eqs by (simp add: assms(2) alive_def)
  moreover have "held C w1 = held C w" unfolding held_def eqs ..
  ultimately show ?thesis
    using g assms(3,4) unfolding guarded_def eqs by (simp add: assms(2))
qed

lemma run_ok_cong:
  assumes "run_ok C w p hash" "k_profiles w1 = k_profiles w" "k_files w1 = k_files w" "k_links w1 = k_links w"
  shows "run_ok C w1 p hash"
proof -
  have "held C w1 = held C w" unfolding held_def token_holder_cong [OF assms(2-4)] ..
  then show ?thesis using assms(1) by (simp add: run_ok_def)
qed

lemma guarded_temps:
  assumes g: "guarded C w" and w1: "w1 = w\<lparr>w_fates := fs, k_temps := temps, k_dirs := dirs\<rparr>"
    and "alive w" "set (k_dirs w) \<subseteq> set dirs"
    and "\<And>tool dir d made. (tool, dir) \<in> referenced w \<Longrightarrow> map_of temps dir = Some (d, made) \<Longrightarrow> inert C tool d"
  shows "guarded C w1"
proof (rule guarded_copies [OF g])
  have "referenced w1 = referenced w" unfolding w1 by (rule referenced_cong) simp_all
  then show "copies_ok C w1"
    using g assms(4,5) unfolding copies_ok_def guarded_def by (auto simp: w1)
qed (simp_all add: w1 assms(3))

text \<open>The start of the CLI: the token is not owed before, and it is afterwards once that is journaled.\<close>

lemma launch_guarded:
  assumes g: "guarded C w" and n: "(pi_tool p, hash) = wt_key C \<Longrightarrow> \<not> owed (wt_key C) (h_runs w)"
  shows "guarded C (w\<lparr>h_runs := (Launched, pi_tool p, hash) # h_runs w\<rparr>)"
  using g n by (intro guarded_runs [OF g refl]) (auto simp: guarded_def)

lemma run_cli_guarded:
  assumes g: "guarded C w" and r: "run_ok C w p hash"
    and d: "dir_ok C w (pi_tool p) (en_temp_dir E)"
    and n: "(pi_tool p, hash) = wt_key C \<Longrightarrow> \<not> owed (wt_key C) (h_runs w)"
    and refs: "\<And>tool. (tool, en_temp_dir E) \<in> referenced w \<Longrightarrow> tool = pi_tool p"
    and E: "fits C E" and copy: "inert C (pi_tool p) copy"
    and c: "run_cli E p hash copy w = (run, w1)"
  shows "guarded C w1 \<and> run_ok C w1 p hash \<and> dir_ok C w1 (pi_tool p) (en_temp_dir E)"
proof (cases rule: disk_cases [of "\<lambda>w. w" w])
  case (fails fs)
  then have "w1 = w\<lparr>w_fates := fs\<rparr>" using c by (simp add: run_cli_def Let_def)
  then have s: "shrinks w w1" using fails(2) by (simp add: shrinks_fates)
  then show ?thesis
    using guarded_shrinks [OF g s] run_ok_later [OF r] dir_ok_later [OF d] shrinks_later by blast
next
  case (works fs)
  let ?k = "(pi_tool p, hash)" and ?dir = "en_temp_dir E" and ?e = "run_entry E p hash Started"
  define v where "v = w\<lparr>w_fates := fs\<rparr>"
  define w2 where "w2 = v\<lparr>h_runs := (Launched, ?k) # h_runs v\<rparr>"
  have s: "shrinks w v" unfolding v_def using works(2) by (simp add: shrinks_fates)
  have g2: "guarded C w2"
    unfolding w2_def using n by (intro launch_guarded guarded_shrinks [OF g s]) (simp add: v_def)
  have r2: "run_ok C w2 p hash"
    by (rule run_ok_cong [OF r]) (simp_all add: w2_def v_def)
  have d2: "dir_ok C w2 (pi_tool p) ?dir" using d by (simp add: dir_ok_def w2_def v_def)
  have "referenced w2 = referenced w" unfolding w2_def v_def by (intro referenced_cong) simp_all
  note refs2 = refs [folded this]
  obtain noted w3 where w3: "mutate (en_now E) (SetJournal ?e) w2 = (noted, w3)"
    by (cases "mutate (en_now E) (SetJournal ?e) w2")
  have h: "harmless C w2 (SetJournal ?e)"
    using r2 d2 by (auto simp: harmless_def run_entry_def journal_key_def run_ok_def dir_ok_def)
  note g3 = mutate_guarded [OF g2 h w3]
  define w4 where "w4 = (if noted then w3\<lparr>h_runs := (Noted, ?k) # h_runs w3\<rparr> else w3)"
  have ow: "owed (wt_key C) (h_runs w3) = owed (wt_key C) (h_runs w)"
    using g3 by (auto simp: later_def w2_def v_def)
  have g4: "guarded C w4"
  proof (cases noted)
    case True
    have "secured C w3" if "owed (wt_key C) ((Noted, ?k) # h_runs w3)" "held C w3"
    proof (cases "?k = wt_key C")
      case True
      then have "(pi_tool p, pi_name p) = wt_slot C"
        using r2 by (simp add: run_ok_def wt_key_def wt_slot_def)
      moreover have "saved_state w3 = apply_change (SetJournal ?e) (state_view w2)" "p_unsaved w3 = []"
        using g3 \<open>noted\<close> by simp_all
      ultimately show ?thesis
        using True
        by (simp add: secured_def slot_entry_def run_entry_def journal_key_def update_conv' wt_key_def)
    next
      case False
      then show ?thesis using that g3 by (simp add: guarded_def split: if_splits)
    qed
    then have "guarded C (w3\<lparr>h_runs := (Noted, ?k) # h_runs w3\<rparr>)"
      using g3 by (intro guarded_runs [OF _ refl]) (auto simp: guarded_def)
    then show ?thesis using True by (simp add: w4_def)
  next
    case False
    then show ?thesis using g3 by (simp add: w4_def)
  qed
  have same: "k_temps w4 = k_temps w3" "k_dirs w4 = k_dirs w3" "k_profiles w4 = k_profiles w3"
    "k_files w4 = k_files w3" "k_links w4 = k_links w3" "k_state w4 = k_state w3"
    "p_unsaved w4 = p_unsaved w3" "w_fates w4 = w_fates w3"
    by (simp_all add: w4_def)
  have h43: "held C w4 = held C w3"
    using token_holder_cong [OF same(3-5), of C] by (simp add: held_def)
  have ref4: "referenced w4 = referenced w3" by (rule referenced_cong [OF same(6,7)])
  have refs4: "tool = pi_tool p" if "(tool, ?dir) \<in> referenced w4" for tool
    using that g3 refs2 by (auto simp: ref4 run_entry_def)
  have r4: "run_ok C w4 p hash" using run_ok_later [OF r2, of w3] g3 h43 by (simp add: run_ok_def)
  have d4: "dir_ok C w4 (pi_tool p) ?dir" using dir_ok_later [OF d2, of w3] g3 by (simp add: dir_ok_def same)
  obtain run1 after where run1: "en_run E copy = (run1, after)" by (cases "en_run E copy")
  define temps where
    "temps = (case after of None \<Rightarrow> del ?dir (k_temps w4) | Some d \<Rightarrow> put ?dir (d, en_now E) (k_temps w4))"
  have w1: "w1 = (if \<not> alive w4 then w4 else w4\<lparr>k_temps := temps\<rparr>)"
    using c works(1) w3 run1
    by (cases after) (auto simp: run_cli_def Let_def v_def [symmetric] w2_def [symmetric]
        set_journal_def w4_def temps_def)
  have inert: "inert C (pi_tool p) d" if "map_of temps ?dir = Some (d, made)" for d made
  proof (cases after)
    case None
    then show ?thesis using that by (simp add: temps_def delete_conv')
  next
    case (Some x)
    then have "d = x" using that by (simp add: temps_def update_conv')
    moreover have "en_run E copy = (run1, Some x)" using run1 Some by simp
    ultimately show ?thesis using E copy unfolding fits_def by blast
  qed
  have others: "map_of temps dir = map_of (k_temps w4) dir" if "dir \<noteq> ?dir" for dir
    using that by (simp add: temps_def update_conv' delete_conv' split: option.split)
  show ?thesis
  proof (cases "alive w4")
    case False
    then show ?thesis using g4 r4 d4 by (simp add: w1)
  next
    case True
    have "guarded C (w4\<lparr>w_fates := w_fates w4, k_temps := temps, k_dirs := k_dirs w4\<rparr>)"
    proof (rule guarded_temps [OF g4 refl True])
      show "inert C tool d" if "(tool, dir) \<in> referenced w4" "map_of temps dir = Some (d, made)"
        for tool dir d made
      proof (cases "dir = ?dir")
        case True
        then show ?thesis using that refs4 inert by blast
      next
        case False
        then show ?thesis
          using that others g4 unfolding guarded_def copies_ok_def by metis
      qed
    qed simp
    moreover have "w4\<lparr>w_fates := w_fates w4, k_temps := temps, k_dirs := k_dirs w4\<rparr> = w1"
      using True by (simp add: w1)
    moreover have "run_ok C w1 p hash"
      by (rule run_ok_cong [OF r4]) (simp_all add: w1)
    moreover have "dir_ok C w1 (pi_tool p) ?dir"
      using d4 True inert by (auto simp: w1 dir_ok_def)
    ultimately show ?thesis by simp
  qed
qed

lemma guarded_unsent:
  assumes "guarded C w"
  shows "guarded C (record_run Unsent k w)" "alive (record_run Unsent k w) = alive w"
    "run_ok C w p hash \<Longrightarrow> run_ok C (record_run Unsent k w) p hash"
    "alive w \<Longrightarrow> \<not> owed k (h_runs (record_run Unsent k w))"
proof -
  show "guarded C (record_run Unsent k w)"
    using assms guarded_runs [OF assms refl, of "(Unsent, k) # h_runs w"]
    by (auto simp: record_run_def guarded_def)
  show "alive (record_run Unsent k w) = alive w"
    by (simp add: record_run_def alive_def)
  show "run_ok C w p hash \<Longrightarrow> run_ok C (record_run Unsent k w) p hash"
    by (erule run_ok_cong) (simp_all add: record_run_def)
  show "alive w \<Longrightarrow> \<not> owed k (h_runs (record_run Unsent k w))"
    by (cases k) (simp add: record_run_def)
qed

lemma conclude_guarded:
  assumes g: "guarded C w" and r: "run_ok C w p hash"
    and d: "dir_ok C w (pi_tool p) (en_temp_dir E)" and E: "en_hash E = wt_sha C"
    and f: "ra_outcome attempt = OutcomeRefreshed \<Longrightarrow> \<exists>doc. ra_rotated attempt = Some doc \<and> fresh_login C doc"
  shows "guarded C (snd (conclude E p hash attempt w))"
proof (cases "ra_outcome attempt")
  case OutcomeRefreshed
  then obtain doc where "ra_rotated attempt = Some doc" "fresh_login C doc" using f by blast
  then show ?thesis
    using commit_rotated_guarded [OF g r _ d E] OutcomeRefreshed by (simp add: conclude_def Let_def)
next
  case OutcomeNotSent
  let ?k = "(pi_tool p, hash)" and ?v = "record_run Unsent (pi_tool p, hash) w"
  note u = guarded_unsent [OF g]
  have "guarded C (snd (clear_journal (en_now E) (pi_tool p) (pi_name p) ?v))"
  proof -
    have "(pi_tool p, pi_name p) \<noteq> wt_slot C"
      if "alive ?v" "owed (wt_key C) (h_runs ?v)" "held C ?v"
    proof
      assume s: "(pi_tool p, pi_name p) = wt_slot C"
      then have "?k = wt_key C" using u(3) [OF r, of ?k] that(3) slot_key by (auto simp: run_ok_def)
      then show False using that(1,2) u(2,4) by metis
    qed
    then show ?thesis using clear_journal_guarded [OF u(1)] by blast
  qed
  moreover have "snd (conclude E p hash attempt w) =
      snd (note_failure E ?k (pi_name p) (ra_noop attempt)
        (snd (clear_journal (en_now E) (pi_tool p) (pi_name p) ?v)))"
    using OutcomeNotSent by (simp add: conclude_def Let_def split: prod.split)
  ultimately show ?thesis
    using guarded_shrinks shrinks_note_failure [OF shrinks_refl] by metis
next
  case OutcomeUnknown
  have "guarded C (settle E (account_verdict E (pi_tool p) (pi_name p) NeedsReloginSoon hash)
      (pi_tool p) (pi_name p) w)"
    using settle_guarded [OF g] r by (simp add: run_ok_def)
  then show ?thesis
    using OutcomeUnknown
    by (auto simp: conclude_def Let_def intro: guarded_shrinks shrinks_emit [OF shrinks_refl])
next
  case OutcomeInvalidGrant
  have "guarded C (settle E (account_verdict E (pi_tool p) (pi_name p) ReauthRequired hash)
      (pi_tool p) (pi_name p) w)"
    using settle_guarded [OF g] r by (simp add: run_ok_def)
  then show ?thesis
    using OutcomeInvalidGrant
    by (auto simp: conclude_def Let_def intro: guarded_shrinks shrinks_emit [OF shrinks_refl])
qed

lemma classify_refreshed:
  assumes "ra_outcome (classify_refresh_run tool run rotated advanced token) = OutcomeRefreshed"
  shows "advanced \<and> (\<exists>d. rotated = Some d \<and>
    ra_rotated (classify_refresh_run tool run rotated advanced token) = Some d)"
  using assms by (auto simp: classify_refresh_run_def verdict_def split: if_splits option.splits)

lemma spend_copy_guarded:
  assumes g: "guarded C w" and r: "run_ok C w p hash"
    and d: "dir_ok C w (pi_tool p) (en_temp_dir E)"
    and n: "(pi_tool p, hash) = wt_key C \<Longrightarrow> \<not> owed (wt_key C) (h_runs w)"
    and refs: "\<And>tool. (tool, en_temp_dir E) \<notin> referenced w"
    and E: "fits C E" and copy: "inert C (pi_tool p) copy"
  shows "guarded C (snd (spend_copy E p start hash copy w))"
proof -
  let ?e = "run_entry E p hash Spending"
  have E1: "en_hash E = wt_sha C" "en_readers E = wt_readers C" using E by (simp_all add: fits_def)
  obtain ok w1 where w1: "mutate (en_now E) (SetJournal ?e) w = (ok, w1)"
    by (cases "mutate (en_now E) (SetJournal ?e) w")
  have h: "harmless C w (SetJournal ?e)"
  proof -
    have "(pi_tool p, pi_name p) \<noteq> wt_slot C" if "owed (wt_key C) (h_runs w)" "held C w"
      using that r n slot_key by (auto simp: run_ok_def)
    then show ?thesis
      using d by (auto simp: harmless_def run_entry_def journal_key_def dir_ok_def)
  qed
  note g1 = mutate_guarded [OF g h w1]
  have run1: "run_ok C w1 p hash" "dir_ok C w1 (pi_tool p) (en_temp_dir E)"
    using run_ok_later [OF r] dir_ok_later [OF d] g1 by blast+
  show ?thesis
  proof (cases ok)
    case False
    then have "snd (spend_copy E p start hash copy w) =
        snd (note_failure E (pi_tool p, hash) (pi_name p) False w1)"
      using w1 by (simp add: spend_copy_def set_journal_def Let_def split: prod.split)
    then show ?thesis
      using guarded_shrinks [OF _ shrinks_note_failure [OF shrinks_refl]] g1 by simp
  next
    case True
    obtain run w2 where w2: "run_cli E p hash copy w1 = (run, w2)" by (cases "run_cli E p hash copy w1")
    have "tool = pi_tool p" if "(tool, en_temp_dir E) \<in> referenced w1" for tool
      using that g1 refs by (auto simp: run_entry_def)
    moreover have "(pi_tool p, hash) = wt_key C \<Longrightarrow> \<not> owed (wt_key C) (h_runs w1)"
      using n g1 by (simp add: later_def)
    ultimately have g2: "guarded C w2" "run_ok C w2 p hash" "dir_ok C w2 (pi_tool p) (en_temp_dir E)"
      using run_cli_guarded [OF _ run1 _ _ E copy w2] g1 by blast+
    define rotated where "rotated = map_option fst (map_of (k_temps w2) (en_temp_dir E))"
    define advanced where "advanced = credential_advanced (en_readers E) (pi_tool p) start
      (case rotated of None \<Rightarrow> None | Some d \<Rightarrow> d)"
    define token where "token = (case refresh_token (pi_tool p) start of None \<Rightarrow> [] | Some token \<Rightarrow> token)"
    let ?a = "classify_refresh_run (pi_tool p) run rotated advanced token"
    have "\<exists>doc. ra_rotated ?a = Some doc \<and> fresh_login C doc" if out: "ra_outcome ?a = OutcomeRefreshed"
    proof -
      obtain doc where doc: "advanced" "rotated = Some doc" "ra_rotated ?a = Some doc"
        using classify_refreshed [OF out] by blast
      then obtain made where "map_of (k_temps w2) (en_temp_dir E) = Some (doc, made)"
        by (auto simp: rotated_def)
      then have "inert C (pi_tool p) doc" using g2(3) by (auto simp: dir_ok_def)
      then show ?thesis using doc E1(2) by (auto simp: inert_def advanced_def)
    qed
    then have "guarded C (snd (conclude E p hash ?a w2))"
      using conclude_guarded [OF g2 E1(1)] by blast
    then show ?thesis
      using w1 w2 True
      by (simp add: spend_copy_def set_journal_def Let_def rotated_def advanced_def token_def)
  qed
qed

lemma spend_guarded:
  assumes g: "guarded C w" and r: "run_ok C w p hash"
    and n: "(pi_tool p, hash) = wt_key C \<Longrightarrow> \<not> owed (wt_key C) (h_runs w)"
    and E: "fits C E" and calm: "calm C start"
  shows "guarded C (snd (spend E p start hash w))"
proof -
  let ?dir = "en_temp_dir E" and ?k = "(pi_tool p, hash)"
  have lost: "guarded C v \<Longrightarrow> guarded C (snd (note_failure E ?k (pi_name p) False v))" for v
    by (rule guarded_shrinks [OF _ shrinks_note_failure [OF shrinks_refl]])
  have quit: "guarded C v \<Longrightarrow> guarded C (remove_temp ?dir v)" for v
    by (rule guarded_shrinks [OF _ shrinks_remove_temp [OF shrinks_refl]])
  obtain ok w1 where m: "make_temp ?dir start (en_now E) w = (ok, w1)"
    by (cases "make_temp ?dir start (en_now E) w")
  show ?thesis
  proof (cases ok)
    case False
    have "shrinks w w1"
    proof (cases "?dir = [] \<or> ?dir \<in> set (k_dirs w)")
      case True
      then show ?thesis using m by (auto simp: make_temp_def intro: shrinks_refl)
    next
      case fresh: False
      show ?thesis
        using m fresh False
        by (cases rule: disk_cases [of "\<lambda>w. w\<lparr>k_temps := put ?dir (start, en_now E) (k_temps w),
            k_dirs := ?dir # k_dirs w\<rparr>" w]) (auto simp: make_temp_def intro: shrinks_fates)
    qed
    then show ?thesis using False m lost guarded_shrinks [OF g] by (simp add: spend_def Let_def)
  next
    case True
    then have dir: "?dir \<notin> set (k_dirs w)" using m by (auto simp: make_temp_def split: if_splits)
    obtain fs where w1: "w1 = w\<lparr>w_fates := fs, k_temps := put ?dir (start, en_now E) (k_temps w),
        k_dirs := ?dir # k_dirs w\<rparr>" and a: "alive w"
      using m True dir
      by (cases rule: disk_cases [of "\<lambda>w. w\<lparr>k_temps := put ?dir (start, en_now E) (k_temps w),
            k_dirs := ?dir # k_dirs w\<rparr>" w]) (auto simp: make_temp_def split: if_splits)
    have free: "(tool, ?dir) \<notin> referenced w" for tool
      using g dir by (auto simp: guarded_def copies_ok_def)
    have temps: "inert C tool d"
      if "(tool, dir) \<in> referenced w" "map_of (put ?dir x (k_temps w)) dir = Some (d, made)"
      for tool dir d made x
    proof -
      have "map_of (k_temps w) dir = Some (d, made)"
        using that free by (auto simp: update_conv' split: if_splits)
      then show ?thesis using that(1) g unfolding guarded_def copies_ok_def by blast
    qed
    have g1: "guarded C w1"
      using temps by (intro guarded_temps [OF g w1 a]) auto
    have ref1: "referenced w1 = referenced w" unfolding w1 by (rule referenced_cong) simp_all
    show ?thesis
    proof (cases "force_expire (pi_tool p) start")
      case None
      then have "snd (spend E p start hash w) =
          remove_temp ?dir (snd (note_failure E ?k (pi_name p) False w1))"
        using m True by (simp add: spend_def Let_def split: prod.split)
      then show ?thesis using quit lost g1 by simp
    next
      case (Some copy)
      have inert: "inert C (pi_tool p) copy" using calm Some by (auto simp: calm_def inert_def)
      let ?f = "\<lambda>w. w\<lparr>k_temps := put ?dir (copy, en_now E) (k_temps w)\<rparr>"
      obtain ok2 w2 where w2: "disk ?f w1 = (ok2, w2)" by (cases "disk ?f w1")
      show ?thesis
      proof (cases ok2)
        case False
        then have "shrinks w1 w2"
          using w2 by (cases rule: disk_cases [of ?f w1]) (auto intro: shrinks_fates)
        moreover have "snd (spend E p start hash w) =
            remove_temp ?dir (snd (note_failure E ?k (pi_name p) False w2))"
          using m True Some w2 False by (simp add: spend_def Let_def split: prod.split)
        ultimately show ?thesis using quit lost guarded_shrinks [OF g1] by simp
      next
        case ok2: True
        then obtain fs2 where w2': "w2 = w1\<lparr>w_fates := fs2, k_temps := put ?dir (copy, en_now E) (k_temps w1)\<rparr>"
          and a1: "alive w1"
          using w2 by (cases rule: disk_cases [of ?f w1]) auto
        have "guarded C (w1\<lparr>w_fates := fs2, k_temps := put ?dir (copy, en_now E) (k_temps w1),
            k_dirs := k_dirs w1\<rparr>)"
        proof (rule guarded_temps [OF g1 refl a1])
          show "inert C tool d" if "(tool, dir) \<in> referenced w1"
            "map_of (put ?dir (copy, en_now E) (k_temps w1)) dir = Some (d, made)" for tool dir d made
          proof -
            have "dir \<noteq> ?dir" using that(1) free ref1 by auto
            then have "map_of (k_temps w1) dir = Some (d, made)" using that(2) by (simp add: update_conv')
            then show ?thesis using that(1) g1 unfolding guarded_def copies_ok_def by blast
          qed
        qed simp
        then have g2: "guarded C w2" by (simp add: w2')
        have ref2: "(tool, ?dir) \<notin> referenced w2" for tool
        proof -
          have "referenced w2 = referenced w1" unfolding w2' by (rule referenced_cong) simp_all
          then show ?thesis using free ref1 by simp
        qed
        have "run_ok C w2 p hash" by (rule run_ok_cong [OF r]) (simp_all add: w2' w1)
        moreover have "dir_ok C w2 (pi_tool p) ?dir"
          using inert by (auto simp: dir_ok_def w2' w1 update_conv')
        moreover have "h_runs w2 = h_runs w" by (simp add: w2' w1)
        ultimately have "guarded C (snd (spend_copy E p start hash copy w2))"
          using spend_copy_guarded [OF g2 _ _ _ ref2 E inert] n by simp
        moreover have "snd (spend E p start hash w) =
            (if snd (fst (spend_copy E p start hash copy w2)) then snd (spend_copy E p start hash copy w2)
             else remove_temp ?dir (snd (spend_copy E p start hash copy w2)))"
          using m True Some w2 ok2 by (simp add: spend_def Let_def split: prod.split)
        ultimately show ?thesis using quit by simp
      qed
    qed
  qed
qed

subsection \<open>The requests\<close>

lemma due_hash_holder:
  assumes "due_hash E holds p w = Some hash" "p \<in> set (k_profiles w)"
  obtains d where "stored_holder E (pi_tool p) hash w p d"
proof -
  have "pi_path p \<noteq> []" "\<not> path_is_link w (pi_path p)"
    "map_option (token_hash E (pi_tool p))
       (Option.bind (read_credential w (pi_path p)) (refresh_token (pi_tool p))) = Some hash"
    using assms(1) unfolding due_hash_def Let_def
    by (auto split: if_splits option.splits prod.splits)
  then show ?thesis
    using that assms(2)
    by (cases "read_credential w (pi_path p)";
        cases "refresh_token (pi_tool p) (the (read_credential w (pi_path p)))")
      (auto simp: stored_holder_def carries_def)
qed

lemma same_hash:
  "en_hash E = wt_sha C \<Longrightarrow> carries E (wt_tool C) hash d \<Longrightarrow> carried C d \<Longrightarrow> hash = wt_hash C"
  by (auto simp: carries_def carried_def token_hash_def split: option.splits)

lemma due_run_ok:
  assumes g: "guarded C w" and h: "stored_holder E (pi_tool p) hash w p d" and E: "en_hash E = wt_sha C"
  shows "run_ok C w p hash"
    and "(pi_tool p, hash) = wt_key C \<Longrightarrow> token_holder C w p d"
proof -
  have ok: "distinct (map pi_name (filter (\<lambda>p. pi_tool p = wt_tool C) (k_profiles w)))"
    "token_holder C w q c \<Longrightarrow> pi_name q = wt_name C" for q c
    using g by (auto simp: guarded_def holders_ok_def)
  have key: "token_holder C w p d" if "(pi_tool p, hash) = wt_key C"
    using h that carries_watched [OF E] by (auto simp: token_holder_def stored_holder_def wt_key_def)
  then show "(pi_tool p, hash) = wt_key C \<Longrightarrow> token_holder C w p d" .
  have "hash = wt_hash C" if "held C w" and slot: "(pi_tool p, pi_name p) = wt_slot C"
  proof -
    obtain q c where q: "token_holder C w q c" using \<open>held C w\<close> by (auto simp: held_def)
    then have "pi_name q = pi_name p" "pi_tool q = pi_tool p"
      using ok(2) slot by (auto simp: wt_slot_def token_holder_def)
    moreover have "q \<in> set (k_profiles w)" "p \<in> set (k_profiles w)"
      using q h by (auto simp: token_holder_def stored_holder_def)
    moreover have "pi_tool p = wt_tool C" using slot by (simp add: wt_slot_def)
    ultimately have "q = p" using ok(1) by (auto simp: distinct_map inj_on_def)
    then have "c = d" using q h by (simp add: token_holder_def stored_holder_def)
    then show ?thesis
      using same_hash [OF E, of hash d] h q slot by (simp add: stored_holder_def token_holder_def wt_slot_def)
  qed
  then show "run_ok C w p hash" using key ok(2) by (auto simp: run_ok_def)
qed

lemma open_run_found:
  assumes g: "guarded C w" and "alive w" "owed (wt_key C) (h_runs w)" "token_holder C w p d"
  shows "accounted C (state_view w) \<or>
    (\<exists>(k, e) \<in> set (sd_journal (state_view w)). je_tool e = wt_tool C \<and> je_name e = pi_name p \<and>
       je_hash e = wt_hash C)"
proof (cases "accounted C (saved_state w)")
  case True
  then show ?thesis using state_view_facts(2) [OF g] by blast
next
  case False
  have "held C w" using assms(4) by (auto simp: held_def)
  then have s: "slot_entry C (state_view w)" using state_view_facts(4) [OF g] assms(2,3) False by blast
  then obtain e where e: "map_of (sd_journal (state_view w)) (wt_slot C) = Some e" "je_hash e = wt_hash C"
    by (auto simp: slot_entry_def split: option.splits)
  then have "(wt_slot C, e) \<in> set (sd_journal (state_view w))" by (simp add: map_of_SomeD)
  moreover from this have "journal_key e = wt_slot C"
    using state_view_facts(1) [OF g] by (auto simp: wf_state_def)
  moreover have "pi_name p = wt_name C" using g assms(4) by (auto simp: guarded_def holders_ok_def)
  ultimately show ?thesis using e(2) by (force simp: journal_key_def wt_slot_def)
qed

lemma refresh_account_guarded:
  assumes g: "guarded C w" and a: "alive w" and E: "fits C E"
    and h: "stored_holder E (pi_tool p) hash w p d"
  shows "guarded C (snd (refresh_account E holds p hash w))"
proof -
  have E1: "en_hash E = wt_sha C" "en_readers E = wt_readers C" using E by (simp_all add: fits_def)
  let ?k = "(pi_tool p, hash)"
  define w1 where "w1 = w\<lparr>p_view := state_view w\<rparr>"
  have s: "shrinks w w1" by (simp add: w1_def shrinks_def alive_def)
  have view1: "state_view w1 = state_view w"
    using g by (simp add: guarded_def state_view_saved w1_def saved_state_def)
  note g1 = guarded_shrinks [OF g s]
  have step: "guarded C v" if "shrinks w1 v" for v using guarded_shrinks [OF g1 that] .
  have view: "account_entry_of tool x w = (map_of (sd_accounts (state_view w)) (tool, x), w1)"
    "journal_for tool name x w1 =
      (find (\<lambda>e. je_tool e = tool \<and> je_name e = name \<and> je_hash e = x) (map snd (sd_journal (state_view w))), w1)"
    for tool name x
    using view1 by (simp_all add: account_entry_of_def journal_for_def journal_entries_def view_state_def
        w1_def Let_def)
  show ?thesis
  proof (cases "map_of (sd_accounts (state_view w)) ?k")
    case (Some e)
    then show ?thesis
      by (simp add: refresh_account_def view Let_def step shrinks_emit shrinks_refl)
  next
    case unaccounted: None
    note unfold = refresh_account_def view Let_def unaccounted
    show ?thesis
    proof (cases "(case as_next (attempts_of ?k w1) of None \<Rightarrow> False | Some t \<Rightarrow> en_now E < t) \<or>
        \<not> holds \<and> \<not> en_account_free E")
      case True
      then show ?thesis using g1 by (auto simp: unfold)
    next
      case go: False
      define left where "left = find (\<lambda>e. je_tool e = pi_tool p \<and> je_name e = pi_name p \<and> je_hash e = hash)
        (map snd (sd_journal (state_view w)))"
      show ?thesis
      proof (cases left)
        case (Some e)
        have "e \<in> set (map snd (sd_journal (state_view w)))"
          using Some unfolding left_def find_Some_iff by auto
        then have "entry_ok C w1 e"
          using view_entry_ok [OF g1] view1 by auto
        then have rec: "guarded C (snd (recover_entry E e w1))"
          using recover_entry_guarded [OF g1 _ E1] by blast
        have "snd (refresh_account E holds p hash w) = snd (settle_leftover E e w1)"
          using go Some by (auto simp: unfold left_def)
        moreover have "shrinks (snd (recover_entry E e w1)) (snd (settle_leftover E e w1))"
          by (auto simp: settle_leftover_def Let_def split: prod.splits bool.splits
              intro: shrinks_refl shrinks_set_attempts)
        ultimately show ?thesis using guarded_shrinks [OF rec] by simp
      next
        case None
        have idle: "\<not> owed (wt_key C) (h_runs w)" if "?k = wt_key C"
        proof
          assume "owed (wt_key C) (h_runs w)"
          then have "accounted C (state_view w) \<or>
              (\<exists>(k, e) \<in> set (sd_journal (state_view w)). je_tool e = wt_tool C \<and> je_name e = pi_name p \<and>
                 je_hash e = wt_hash C)"
            using open_run_found [OF g a _ due_run_ok(2) [OF g h E1(1) that]] by blast
          moreover have "\<not> accounted C (state_view w)"
            using unaccounted that by (simp add: accounted_def has_key_def)
          ultimately show False
            using None that by (auto simp: left_def find_None_iff wt_key_def)
        qed
        show ?thesis
        proof (cases "\<not> en_available E \<or> \<not> en_reachable E")
          case True
          then have "snd (refresh_account E holds p hash w) = snd (note_failure E ?k (pi_name p) False w1)"
            using go None by (auto simp: unfold left_def)
          then show ?thesis using step shrinks_note_failure [OF shrinks_refl] by metis
        next
          case False
          have read: "read_credential w1 = read_credential w"
            by (rule read_credential_cong) (simp_all add: w1_def)
          show ?thesis
          proof (cases "\<exists>start. read_credential w (pi_path p) = Some start \<and> carries E (pi_tool p) hash start")
            case True
            then obtain start where st: "read_credential w (pi_path p) = Some start"
              "carries E (pi_tool p) hash start" by blast
            have "p \<in> set (k_profiles w)" using h by (simp add: stored_holder_def)
            then have "calm C start" using g st(1) by (auto simp: guarded_def holders_ok_def)
            moreover have "run_ok C w1 p hash"
              using run_ok_later [OF due_run_ok(1) [OF g h E1(1)] shrinks_later [OF s]] .
            moreover have "h_runs w1 = h_runs w" by (simp add: w1_def)
            ultimately have "guarded C (snd (spend E p start hash w1))"
              using spend_guarded [OF g1 _ _ E] idle by simp
            then show ?thesis using go None False st read by (auto simp: unfold left_def)
          next
            case no: False
            then have "snd (refresh_account E holds p hash w) = w1"
              using go None False read
              by (cases "read_credential w (pi_path p)") (auto simp: unfold left_def)
            then show ?thesis using g1 by simp
          qed
        qed
      qed
    qed
  qed
qed

lemma refresh_profile_guarded:
  assumes "guarded C w" "alive w" "fits C E" "p \<in> set (k_profiles w)"
  shows "guarded C (snd (refresh_profile E holds p w))"
proof (cases "due_hash E holds p w")
  case (Some hash)
  obtain d where "stored_holder E (pi_tool p) hash w p d" by (rule due_hash_holder [OF Some assms(4)])
  then show ?thesis
    using refresh_account_guarded [OF assms(1-3)] Some by (simp add: refresh_profile_def)
qed (simp add: refresh_profile_def assms(1))

subsection \<open>The listing stays\<close>

lemma profiles_disk: "(\<And>v. k_profiles (f v) = k_profiles v) \<Longrightarrow> k_profiles (snd (disk f w)) = k_profiles w"
  by (cases rule: disk_cases [of f w]) simp_all

lemma shrinks_profiles: "shrinks w w1 \<Longrightarrow> k_profiles w1 = k_profiles w"
  by (simp add: shrinks_def)

lemmas profiles_small =
  shrinks_profiles [OF shrinks_disk_id [OF shrinks_refl]] shrinks_profiles [OF shrinks_remove_temp [OF shrinks_refl]]
  shrinks_profiles [OF shrinks_remove_refresh_temp_dir [OF shrinks_refl]]
  shrinks_profiles [OF shrinks_sweep [OF shrinks_refl]] shrinks_profiles [OF shrinks_prune [OF shrinks_refl]]
  shrinks_profiles [OF shrinks_emit [OF shrinks_refl]] shrinks_profiles [OF shrinks_set_attempts [OF shrinks_refl]]
  shrinks_profiles [OF shrinks_drop_pending [OF shrinks_refl]]
  shrinks_profiles [OF shrinks_note_failure [OF shrinks_refl]]
  shrinks_profiles [OF shrinks_forget_rescue [OF shrinks_refl]]
  shrinks_profiles [OF shrinks_announce_commit [OF shrinks_refl]]
  shrinks_profiles [OF shrinks_view_state [OF shrinks_refl]]

lemma profiles_view [simp]: "k_profiles (snd (view_state w)) = k_profiles w"
  by (simp add: view_state_def)

lemma profiles_repair [simp]: "k_profiles (repair_state now w) = k_profiles w"
  by (simp add: repair_state_def quarantine_def Let_def split_beta profiles_small profiles_disk
      split: bool.split)

lemma profiles_mutate [simp]: "k_profiles (snd (mutate now c w)) = k_profiles w"
  using keep_unsaved_facts(2)
  by (simp add: mutate_def Let_def split_beta profiles_disk steady_def split: bool.split)

lemma profiles_clear_journal [simp]: "k_profiles (snd (clear_journal now tool name w)) = k_profiles w"
  by (simp add: clear_journal_def Let_def split_beta profiles_small split: option.split)

lemma profiles_write_rescue [simp]: "k_profiles (snd (write_rescue tool name d w)) = k_profiles w"
  by (simp add: write_rescue_def Let_def split_beta profiles_small profiles_disk split: bool.split)

lemma profiles_commit_credentials [simp]:
  "k_profiles (snd (commit_rotated_credentials E tool name started rotated at w)) = k_profiles w"
  by (simp add: commit_rotated_credentials_def save_aborted_rotation_def write_stored_credential_def
      Let_def split_beta profiles_disk split: bool.split option.split)

lemma profiles_commit_holders [simp]:
  "k_profiles (snd (fold (commit_holder E tool rotated at) hs st)) = k_profiles (snd st)"
proof (induction hs arbitrary: st)
  case (Cons h hs)
  have "k_profiles (snd (commit_holder E tool rotated at h st)) = k_profiles (snd st)"
    by (simp add: commit_holder_def split_beta split: bool.split)
  then show ?case using Cons by simp
qed simp

lemma profiles_commit_to_holders [simp]:
  "k_profiles (snd (commit_to_holders E tool hash rotated at w)) = k_profiles w"
  by (simp add: commit_to_holders_def split_beta Let_def split: option.split list.split)

lemma profiles_settle [simp]: "k_profiles (settle E e tool name w) = k_profiles w"
  by (simp add: settle_def set_account_def split_beta split: bool.split)

lemma profiles_recover_entry [simp]: "k_profiles (snd (recover_entry E e w)) = k_profiles w"
  by (simp add: recover_entry_def Let_def split_beta profiles_small hold_pending_def
      split: option.split list.split)

lemma profiles_settle_leftover [simp]: "k_profiles (snd (settle_leftover E e w)) = k_profiles w"
  by (simp add: settle_leftover_def Let_def split_beta profiles_small split: bool.split)

lemma profiles_commit_rotated [simp]:
  "k_profiles (snd (commit_rotated E p hash rotated dir w)) = k_profiles w"
  by (simp add: commit_rotated_def finish_commit_def set_journal_def Let_def split_beta profiles_small
      hold_pending_def split: option.split list.split)

lemma profiles_conclude [simp]: "k_profiles (snd (conclude E p hash attempt w)) = k_profiles w"
  by (simp add: conclude_def Let_def split_beta profiles_small record_run_def
      split: refresh_outcome.split option.split)

lemma profiles_run_cli [simp]: "k_profiles (snd (run_cli E p hash copy w)) = k_profiles w"
  by (simp add: run_cli_def set_journal_def Let_def split_beta profiles_small split: bool.split option.split)

lemma profiles_spend [simp]: "k_profiles (snd (spend E p start hash w)) = k_profiles w"
  by (simp add: spend_def spend_copy_def make_temp_def set_journal_def Let_def split_beta profiles_small
      profiles_disk split: bool.split option.split)

lemma profiles_refresh_profile [simp]: "k_profiles (snd (refresh_profile E holds p w)) = k_profiles w"
  by (simp add: refresh_profile_def refresh_account_def account_entry_of_def journal_for_def
      journal_entries_def Let_def split_beta profiles_small split: option.split)

subsection \<open>Every history\<close>

lemma refresh_one_guarded:
  assumes "guarded C (snd st)" "p \<in> set (k_profiles (snd st))" "fits C E"
  shows "guarded C (snd (refresh_one E p st))"
    and "k_profiles (snd (refresh_one E p st)) = k_profiles (snd st)"
  using assms refresh_profile_guarded [of C "snd st" E p False]
  by (simp_all add: refresh_one_def split_beta Let_def)

lemma refresh_list_guarded:
  assumes "guarded C (snd st)" "set ps \<subseteq> set (k_profiles (snd st))" "\<And>p. fits C (Es p)"
  shows "guarded C (snd (fold (\<lambda>p. refresh_one (Es p) p) ps st)) \<and>
    k_profiles (snd (fold (\<lambda>p. refresh_one (Es p) p) ps st)) = k_profiles (snd st)"
  using assms(1,2)
proof (induction ps arbitrary: st)
  case (Cons p ps)
  then show ?case using refresh_one_guarded [of C st p "Es p"] assms(3) by simp
qed simp

lemma refresh_tool_guarded:
  assumes "guarded C (snd st)" "\<And>p. fits C (Es p)"
  shows "guarded C (snd (refresh_tool Es tool st))"
proof (cases "k_listing (snd st)")
  case True
  then show ?thesis
    using refresh_list_guarded [OF assms(1) _ assms(2), of "filter (\<lambda>p. pi_tool p = tool) (k_profiles (snd st))"]
    by (auto simp: refresh_tool_def raw_profiles_def split_beta)
qed (simp add: refresh_tool_def raw_profiles_def split_beta assms(1))

lemma refresh_due_guarded:
  assumes g: "guarded C w" and E: "\<And>p. fits C (Es p)"
  shows "guarded C (snd (refresh_due E Es live w))"
proof (cases "en_enabled E")
  case True
  have "shrinks w (w\<lparr>p_notices := []\<rparr>)" by (simp add: shrinks_def alive_def)
  then have "shrinks w (report_state_notices w)"
    unfolding report_state_notices_def drain_notices_def Let_def prod.case
    by (intro shrinks_fold shrinks_emit)
  then have g1: "guarded C (report_state_notices w)" by (rule guarded_shrinks [OF g])
  define st where "st = refresh_tool Es ''codex'' (refresh_tool Es ''claude'' ([], report_state_notices w))"
  have gs: "guarded C (snd st)"
    unfolding st_def using g1 E by (intro refresh_tool_guarded) simp_all
  have alert: "shrinks (snd st) (fold emit_expiry_alert rows (snd st))" for rows
    by (rule shrinks_fold) (auto simp: emit_expiry_alert_def intro: shrinking split: option.split)
  have "snd (refresh_due E Es live w) = fold emit_expiry_alert (statuses E live (snd st)) (snd st)"
    using True by (simp add: refresh_due_def st_def Let_def split_beta)
  then show ?thesis using guarded_shrinks [OF gs alert] by simp
qed (simp add: refresh_due_def g)

text \<open>
  One step of the life of the refresher: a due pass, a refresh before a switch, the settling of the
  journal, a new process, or a change that somebody else makes to the profiles and their files. The
  script of a step may end the process at any of its effects. What others write does not give the
  watched token to anybody, and what a CLI that outlived its server leaves behind is inert.
\<close>

inductive refresher_step :: "watched \<Rightarrow> refresher \<Rightarrow> refresher \<Rightarrow> bool" for C where
  due_pass: "alive w \<Longrightarrow> (\<And>p. fits C (Es p)) \<Longrightarrow>
    refresher_step C w (snd (refresh_due E Es live (w\<lparr>w_fates := fs\<rparr>)))"
| incoming: "alive w \<Longrightarrow> fs \<noteq> [] \<Longrightarrow> fits C E \<Longrightarrow>
    refresher_step C w (snd (refresh_incoming E tool name (w\<lparr>w_fates := fs\<rparr>)))"
| settle_journal: "alive w \<Longrightarrow> fits C E \<Longrightarrow> refresher_step C w (recover E (w\<lparr>w_fates := fs\<rparr>))"
| new_process: "refresher_step C w (restart fs w)"
| others: "w1 = w\<lparr>k_profiles := ps, k_listing := l, k_files := files, k_links := lks,
      k_removed := rs, k_temps := temps\<rparr> \<Longrightarrow>
    holders_ok C w1 \<Longrightarrow> (held C w1 \<Longrightarrow> held C w) \<Longrightarrow>
    (\<And>dir d made. map_of temps dir = Some (d, made) \<Longrightarrow> map_of (k_temps w) dir \<noteq> Some (d, made) \<Longrightarrow>
       \<forall>tool. inert C tool d) \<Longrightarrow>
    refresher_step C w w1"

inductive_cases refresher_stepE: "refresher_step C w w1"

lemma restart_guarded:
  assumes g: "guarded C w"
  shows "guarded C (restart fs w)"
proof -
  let ?w = "restart fs w"
  have eqs: "saved_state ?w = saved_state w" "token_holder C ?w = token_holder C w"
    "read_credential ?w = read_credential w"
    by (simp_all add: restart_def saved_state_def token_holder_def read_credential_def resolved_path_def
        path_is_link_def fun_eq_iff)
  have ref: "referenced ?w \<subseteq> referenced w"
    unfolding subset_iff referenced_iff eqs by (simp add: restart_def)
  have "copies_ok C ?w"
    using g ref unfolding guarded_def copies_ok_def by (simp add: restart_def) blast
  moreover have "holders_ok C ?w" using g unfolding guarded_def holders_ok_def eqs by (simp add: restart_def)
  moreover have "secured C w \<Longrightarrow> secured C ?w" unfolding secured_def eqs by (auto simp: restart_def)
  moreover have "held C ?w = held C w" unfolding held_def eqs ..
  ultimately show ?thesis using g unfolding guarded_def eqs by (simp add: restart_def)
qed

lemma others_guarded:
  assumes g: "guarded C w"
    and w1: "w1 = w\<lparr>k_profiles := ps, k_listing := l, k_files := files, k_links := lks,
      k_removed := rs, k_temps := temps\<rparr>"
    and "holders_ok C w1" "held C w1 \<Longrightarrow> held C w"
    and temps: "\<And>dir d made. map_of temps dir = Some (d, made) \<Longrightarrow>
      map_of (k_temps w) dir \<noteq> Some (d, made) \<Longrightarrow> \<forall>tool. inert C tool d"
  shows "guarded C w1"
proof -
  have sv: "saved_state w1 = saved_state w" unfolding w1 by (rule saved_state_cong) simp
  have ref: "referenced w1 = referenced w" unfolding w1 by (rule referenced_cong) simp_all
  have "copies_ok C w1"
    unfolding copies_ok_def ref
  proof (intro conjI allI impI)
    fix tool dir d made
    assume r: "(tool, dir) \<in> referenced w" "map_of (k_temps w1) dir = Some (d, made)"
    show "inert C tool d"
    proof (cases "map_of (k_temps w) dir = Some (d, made)")
      case True
      then show ?thesis using g r(1) unfolding guarded_def copies_ok_def by blast
    next
      case False
      then show ?thesis using temps [of dir d made] r(2) by (simp add: w1)
    qed
  qed (use g in \<open>auto simp: w1 guarded_def copies_ok_def\<close>)
  moreover have "secured C w \<Longrightarrow> secured C w1" unfolding secured_def sv by (simp add: w1 alive_def)
  ultimately show ?thesis using g assms(3,4) unfolding guarded_def sv by (simp add: w1)
qed

lemma refresher_step_guarded:
  assumes "refresher_step C w w1" "guarded C w"
  shows "guarded C w1"
  using assms(1)
proof cases
  case (due_pass Es E live fs)
  then show ?thesis
    using refresh_due_guarded [OF guarded_shrinks [OF assms(2) shrinks_fates]] by blast
next
  case (incoming fs E tool name)
  let ?v = "w\<lparr>w_fates := fs\<rparr>"
  have g: "guarded C ?v" using guarded_shrinks [OF assms(2) shrinks_fates] incoming by blast
  have "guarded C (snd (refresh_profile E True p ?v))" if "p \<in> set (k_profiles ?v)" for p
    using refresh_profile_guarded [OF g _ incoming(4) that] incoming(3) by simp
  then show ?thesis
    unfolding incoming(1)
    using g by (auto simp: refresh_incoming_def raw_profiles_def split: option.split dest!: find_SomeD)
next
  case (settle_journal E fs)
  then show ?thesis
    using recover_guarded [OF guarded_shrinks [OF assms(2) shrinks_fates]] by (auto simp: fits_def)
next
  case (new_process fs)
  then show ?thesis using restart_guarded [OF assms(2)] by simp
next
  case (others ps l files lks rs temps)
  then show ?thesis by (intro others_guarded [OF assms(2)]) blast+
qed

interpretation spending: invariant_relation "refresher_step C" "guarded C" for C
  by unfold_locales (rule refresher_step_guarded)

text \<open>A refresher that has never run: no journal, no rescue, nothing in memory.\<close>

definition unused :: "watched \<Rightarrow> refresher \<Rightarrow> bool" where
  "unused C w =
     (k_state w = NoStateFile \<and> k_rescues w = [] \<and> p_unsaved w = [] \<and> p_pending w = [] \<and>
      h_runs w = [] \<and> holders_ok C w)"

lemma unused_guarded: "unused C w \<Longrightarrow> guarded C w"
  by (auto simp: unused_def guarded_def saved_state_def new_state_data_def wf_state_def copies_ok_def
      referenced_def)


subsection \<open>Samples\<close>

definition sample_login :: "string \<Rightarrow> string \<Rightarrow> int \<Rightarrow> document" where
  "sample_login access token expires =
     Some (JObject [(''claudeAiOauth'',
       JObject [(''accessToken'', JString access), (''refreshToken'', JString token),
                (''expiresAt'', JNumber expires)])])"

definition sample_profile :: "string \<Rightarrow> profile_info" where
  "sample_profile n =
     \<lparr>pi_tool = ''claude'', pi_name = n, pi_active = False, pi_path = n, pi_credentials = True,
      pi_away = None\<rparr>"

definition sample_refresher :: "string list \<Rightarrow> refresher" where
  "sample_refresher ns =
     \<lparr>k_state = NoStateFile, k_profiles = map sample_profile ns, k_listing = True,
      k_files = map (\<lambda>n. (n, sample_login ''a'' ''r'' 1000)) ns, k_links = [], k_rescues = [],
      k_temps = [], k_dirs = [], k_removed = [], k_last = [], k_stamp = 0, p_view = new_state_data,
      p_unsaved = [], p_notices = [], p_repaired = False, p_attempts = [], p_alerted = [],
      p_alerts = [], p_pending = [], p_last = [], p_fanned = [], h_runs = [], w_fates = [Works]\<rparr>"

text \<open>The digest of the tool and the token is the token here.\<close>

definition sample_readers :: readers where
  "sample_readers = \<lparr>rd_jwt = (\<lambda>_. None), rd_time = (\<lambda>_. None)\<rparr>"

definition sample_surroundings ::
    "int \<Rightarrow> string \<Rightarrow> (document \<Rightarrow> run_result \<times> document option) \<Rightarrow> surroundings" where
  "sample_surroundings now dir run =
     \<lparr>en_now = now, en_enabled = True, en_tool_on = (\<lambda>_. True), en_pending_login = (\<lambda>_. False),
      en_migrated = (\<lambda>_. None), en_lead = (\<lambda>_. hour), en_account_free = True,
      en_switcher_free = True, en_available = True, en_reachable = True, en_run = run,
      en_temp_dir = dir, en_fan_out = (\<lambda>_ _ _. Fanned), en_hash = drop 7,
      en_readers = sample_readers\<rparr>"

definition timed_out :: "document \<Rightarrow> run_result \<times> document option" where
  "timed_out copy = (\<lparr>rr_started = True, rr_output = [], rr_error = Some ''timeout''\<rparr>, Some copy)"

definition rotates :: "document \<Rightarrow> run_result \<times> document option" where
  "rotates copy = (\<lparr>rr_started = True, rr_output = [], rr_error = None\<rparr>, Some (sample_login ''b'' ''q'' 99999999))"

definition sample_watched :: watched where
  "sample_watched =
     \<lparr>wt_sha = drop 7, wt_readers = sample_readers, wt_tool = ''claude'', wt_hash = ''r'',
      wt_name = ''x'', wt_access = [''a'']\<rparr>"

lemma sample_login_calm: "calm C (sample_login access token expires)"
  unfolding calm_def
proof (intro allI impI)
  fix tool copy s
  assume f: "force_expire tool (sample_login access token expires) = Some copy"
  then have t: "tool \<noteq> ''codex''"
    by (auto simp: force_expire_def force_expire_codex_def sample_login_def as_fields_def)
  then have copy: "copy = sample_login access token 1"
    using f by (auto simp: force_expire_def force_expire_claude_def sample_login_def as_fields_def
        stamp_section_def has_key_def)
  have low: "millisecond \<le> a" if "tolerant_expiry R ''claude'' s = Some a" for a R
    using that by (auto simp: tolerant_expiry_def Let_def millisecond_def bind_eq_Some_conv split: if_splits)
  have high: "b = millisecond" if "tolerant_expiry R ''claude'' copy = Some b" for b R
    using that unfolding copy
    by (auto simp: tolerant_expiry_def Let_def sample_login_def decode_claude_def decode_claude_tokens_def
        as_fields_def text_field_def number_field_def texts_field_def get_or_def tolerant_section_def
        bind_eq_Some_conv claude_access_def split: if_splits)
  show "\<not> credential_advanced (wt_readers C) tool s copy"
  proof
    assume "credential_advanced (wt_readers C) tool s copy"
    then obtain a b where "tolerant_expiry (wt_readers C) ''claude'' s = Some a"
        "tolerant_expiry (wt_readers C) ''claude'' copy = Some b" "a < b"
      using t by (auto simp: credential_advanced_def split: option.splits if_splits)
    with low [of "wt_readers C" a] high [of "wt_readers C" b] show False by simp
  qed
qed

lemma sample_unused: "unused sample_watched (sample_refresher [''x''])"
proof -
  let ?w = "sample_refresher [''x'']"
  let ?p = "sample_profile ''x''" and ?d = "sample_login ''a'' ''r'' 1000"
  have profiles: "k_profiles ?w = [?p]" by (simp add: sample_refresher_def)
  have stored: "read_credential ?w (pi_path ?p) = Some ?d"
    by (simp add: sample_refresher_def sample_profile_def read_credential_def resolved_path_def get_or_def)
  have holder: "p = ?p \<and> d = ?d" if "token_holder sample_watched ?w p d" for p d
  proof -
    have "p = ?p" using that profiles by (simp add: token_holder_def)
    then show ?thesis using that stored by (simp add: token_holder_def)
  qed
  have access: "access_token_of (wt_tool sample_watched) ?d \<in> set (wt_access sample_watched)"
    by code_simp
  have "pi_name p = wt_name sample_watched \<and>
      access_token_of (wt_tool sample_watched) d \<in> set (wt_access sample_watched)"
    if "token_holder sample_watched ?w p d" for p d
    using holder [OF that] access by (simp add: sample_watched_def sample_profile_def)
  moreover have "distinct (map pi_name (filter (\<lambda>p. pi_tool p = wt_tool sample_watched) (k_profiles ?w)))"
    unfolding profiles by simp
  moreover have "\<forall>p \<in> set (k_profiles ?w). \<forall>d. read_credential ?w (pi_path p) = Some d \<longrightarrow>
      calm sample_watched d"
    using stored by (simp add: profiles sample_login_calm)
  ultimately have "holders_ok sample_watched ?w" unfolding holders_ok_def by blast
  then show ?thesis by (simp add: unused_def sample_refresher_def)
qed

lemma timed_out_fits: "fits sample_watched (sample_surroundings now dir timed_out)"
  by (simp add: fits_def sample_watched_def sample_surroundings_def timed_out_def)

text \<open>The eighth effect is the last one: the CLI has started and the server dies.\<close>

definition crashed :: refresher where
  "crashed = snd (refresh_incoming (sample_surroundings 0 ''1'' timed_out) ''claude'' ''x''
     ((sample_refresher [''x''])\<lparr>w_fates := replicate 7 Works\<rparr>))"

lemma crashed_owes: "h_runs crashed = [(Noted, ''claude'', ''r''), (Launched, ''claude'', ''r'')]"
  by code_simp


subsection \<open>Two profiles with one token\<close>

text \<open>
  The profiles \<open>x\<close> and \<open>y\<close> store the same login. The run for \<open>x\<close> rotates it and is committed to \<open>x\<close>;
  the write to \<open>y\<close> fails. The journal entry stays under \<open>x\<close>, which is no longer due, and the entry of
  the account is looked up under \<open>y\<close>: six minutes later the spent token goes to the CLI again. A
  profile that is renamed while its entry is open is in the same position.
\<close>

definition half_committed :: refresher where
  "half_committed =
     (sample_refresher [''x'', ''y''])
       \<lparr>k_state := StateFile
          \<lparr>sd_journal =
             [((''claude'', ''x''),
               \<lparr>je_tool = ''claude'', je_name = ''x'', je_phase = Rotated, je_hash = ''r'',
                je_rescue = Some (''claude'', ''x'', 0), je_temp = [], je_started = 0\<rparr>)],
           sd_accounts = []\<rparr>,
        k_files := [(''x'', sample_login ''b'' ''q'' 99999999), (''y'', sample_login ''a'' ''r'' 1000)],
        k_rescues := [((''claude'', ''x'', 0), sample_login ''b'' ''q'' 99999999),
                      ((''claude'', ''y'', 1), sample_login ''b'' ''q'' 99999999)],
        k_dirs := [''1''], k_stamp := 2,
        p_view :=
          \<lparr>sd_journal =
             [((''claude'', ''x''),
               \<lparr>je_tool = ''claude'', je_name = ''x'', je_phase = Rotated, je_hash = ''r'',
                je_rescue = Some (''claude'', ''x'', 0), je_temp = [], je_started = 0\<rparr>)],
           sd_accounts = []\<rparr>,
        p_repaired := True,
        p_attempts :=
          [((''claude'', ''r''), \<lparr>as_failures = 1, as_noops = 0, as_next = Some (5 * minute)\<rparr>)],
        p_alerted := [''commit_failed/claude/x''], p_alerts := [(''commit_failed'', ''claude/x'')],
        p_pending := [((''claude'', ''r''), sample_login ''b'' ''q'' 99999999)],
        h_runs := [(Noted, ''claude'', ''r''), (Launched, ''claude'', ''r'')]\<rparr>"

lemma half_committed_reached:
  "snd (refresh_profile (sample_surroundings 0 ''1'' rotates) False (sample_profile ''x'')
     ((sample_refresher [''x'', ''y''])\<lparr>w_fates := replicate 11 Works @ Fails # replicate 3 Works\<rparr>)) =
   half_committed"
  by code_simp

lemma shared_token_respent:
  "h_runs (snd (refresh_profile (sample_surroundings (6 * minute) ''2'' timed_out) False
     (sample_profile ''y'') (half_committed\<lparr>w_fates := replicate 8 Works\<rparr>))) =
   [(Noted, ''claude'', ''r''), (Launched, ''claude'', ''r''), (Noted, ''claude'', ''r''), (Launched, ''claude'', ''r'')]"
  by code_simp

end
