(* ===== verification/UsageConfig.thy ===== *)
theory UsageConfig
  imports Credentials
begin

section \<open>The configuration of the usage quotas\<close>

text \<open>
  \<open>internal/usages/store.go\<close> (the file \<open>config.json\<close>), the provider table of \<open>provider.go\<close>, the cron
  lines of \<open>warmup_schedule.go\<close> and the cookie headers of \<open>ollama.go\<close> and \<open>mistral.go\<close>.

  A file is absent, unreadable, or a JSON document. \<open>load_config\<close> reads it with defaults and the
  migrations of older fields, \<open>save_config\<close> validates and writes. The environment variable that
  overrides the interval and the regular expressions that find a cookie in a pasted command are
  parameters.
\<close>

subsection \<open>Providers\<close>

definition known_providers :: "string list" where
  "known_providers = [''codex'', ''claude-code'', ''github-copilot'', ''mistral'', ''ollama-cloud'']"

definition known_provider :: "string \<Rightarrow> bool" where
  "known_provider key = list_ex (\<lambda>k. key = k) known_providers"

fun take_known :: "string list \<Rightarrow> string list \<Rightarrow> string list" where
  "take_known seen [] = []"
| "take_known seen (k # ks) =
     (if \<not> known_provider k \<or> k \<in> set seen then take_known seen ks
      else k # take_known (k # seen) ks)"

definition normalize_provider_order :: "string list \<Rightarrow> string list" where
  "normalize_provider_order order =
     (let out = take_known [] order
      in out @ filter (\<lambda>k. k \<notin> set out) known_providers)"

record provider_config =
  pv_enabled :: bool
  pv_token :: string
  pv_api_key :: string
  pv_auth_mode :: string
  pv_host :: string
  pv_cookie :: string

definition no_provider_config :: provider_config where
  "no_provider_config =
     \<lparr>pv_enabled = False, pv_token = [], pv_api_key = [], pv_auth_mode = [], pv_host = [], pv_cookie = []\<rparr>"

record usage_config =
  uc_interval :: int
  uc_display :: string
  uc_order :: "string list"
  uc_auto :: bool
  uc_managed :: bool
  uc_claude_flag :: string
  uc_codex_flag :: string
  uc_mode :: string
  uc_schedule :: string
  uc_providers :: "(string, provider_config) table"

definition default_refresh_sec :: int where "default_refresh_sec = 120"
definition min_refresh_sec :: int where "min_refresh_sec = 15"
definition default_claude_flag :: string where "default_claude_flag = ''--model haiku''"
definition default_codex_flag :: string where "default_codex_flag = ''--model gpt-5.6-luna''"

definition default_config :: usage_config where
  "default_config =
     \<lparr>uc_interval = default_refresh_sec, uc_display = ''left'', uc_order = [], uc_auto = False,
      uc_managed = False, uc_claude_flag = default_claude_flag, uc_codex_flag = default_codex_flag,
      uc_mode = ''off'', uc_schedule = [],
      uc_providers = map (\<lambda>k. (k, no_provider_config)) known_providers\<rparr>"

definition complete_providers ::
    "(string, provider_config) table \<Rightarrow> (string, provider_config) table" where
  "complete_providers ps =
     fold (\<lambda>k ps. if has_key ps k then ps else put k no_provider_config ps) known_providers ps"

subsection \<open>Valid values\<close>

definition valid_warmup_mode :: "string \<Rightarrow> bool" where
  "valid_warmup_mode m = (m \<in> {''off'', ''force'', ''scheduled'', ''smart''})"

definition valid_percent_display :: "string \<Rightarrow> bool" where
  "valid_percent_display v = (v = ''left'' \<or> v = ''used'')"

definition model_char :: "bool \<Rightarrow> char \<Rightarrow> bool" where
  "model_char dot c =
     (between 65 90 c \<or> between 97 122 c \<or> between 48 57 c \<or> c = CHR ''-'' \<or> dot \<and> c = CHR ''.'')"

definition model_flag :: "bool \<Rightarrow> string \<Rightarrow> bool" where
  "model_flag dot v =
     (v = [] \<or> has_prefix v ''--model '' \<and> drop 8 v \<noteq> [] \<and> list_all (model_char dot) (drop 8 v))"

definition valid_claude_model_flag :: "string \<Rightarrow> bool" where
  "valid_claude_model_flag = model_flag False"

definition valid_codex_model_flag :: "string \<Rightarrow> bool" where
  "valid_codex_model_flag = model_flag True"

subsection \<open>Cron lines\<close>

text \<open>\<open>strings.Fields\<close>.\<close>

fun words_from :: "string list \<Rightarrow> string \<Rightarrow> string list" where
  "words_from [] w = (if w = [] then [] else [w])"
| "words_from (r # rs) w =
     (if is_space r then (if w = [] then words_from rs [] else w # words_from rs [])
      else words_from rs (w @ r))"

definition fields_of :: "string \<Rightarrow> string list" where
  "fields_of s = words_from (runes s) []"

text \<open>\<open>strconv.Atoi\<close>: a sign and decimal digits within 64 bits.\<close>

definition atoi :: "string \<Rightarrow> int option" where
  "atoi s =
     (let (neg, ds) = (case s of c # t \<Rightarrow> if c = CHR ''-'' then (True, t)
                                         else if c = CHR ''+'' then (False, t) else (False, s)
                               | [] \<Rightarrow> (False, []));
          n = int (number_of ds); v = (if neg then - n else n)
      in if ds = [] \<or> \<not> list_all (between 48 57) ds \<or> v < - (2 ^ 63) \<or> 2 ^ 63 \<le> v then None
         else Some v)"

datatype cron_value = AnyValue | OneValue int

record warmup_schedule =
  ws_minute :: cron_value
  ws_hour :: cron_value
  ws_day :: cron_value
  ws_month :: cron_value
  ws_weekday :: cron_value

definition parse_cron_value :: "int \<Rightarrow> int \<Rightarrow> string \<Rightarrow> cron_value option" where
  "parse_cron_value lo hi field =
     (if field = ''*'' then Some AnyValue
      else case atoi field of
             None \<Rightarrow> None
           | Some v \<Rightarrow> if v < lo \<or> hi < v then None else Some (OneValue v))"

definition sunday_zero :: "cron_value \<Rightarrow> cron_value" where
  "sunday_zero v = (if v = OneValue 7 then OneValue 0 else v)"

text \<open>A line without text has no schedule (\<open>Some None\<close>); a bad line is an error (\<open>None\<close>).\<close>

definition parse_warmup_schedule :: "string \<Rightarrow> warmup_schedule option option" where
  "parse_warmup_schedule raw =
     (let text = trim_space raw in
      if text = [] then Some None
      else
        case fields_of text of
          [mi, ho, da, mo, we] \<Rightarrow>
            do { a \<leftarrow> parse_cron_value 0 59 mi;
                 b \<leftarrow> parse_cron_value 0 23 ho;
                 c \<leftarrow> parse_cron_value 1 31 da;
                 d \<leftarrow> parse_cron_value 1 12 mo;
                 e \<leftarrow> parse_cron_value 0 7 we;
                 Some (Some \<lparr>ws_minute = a, ws_hour = b, ws_day = c, ws_month = d,
                             ws_weekday = sunday_zero e\<rparr>) }
        | _ \<Rightarrow> None)"

fun schedule_lines :: "string list \<Rightarrow> warmup_schedule list option" where
  "schedule_lines [] = Some []"
| "schedule_lines (l # ls) =
     (if trim_space l = [] then schedule_lines ls
      else
        case parse_warmup_schedule l of
          None \<Rightarrow> None
        | Some s \<Rightarrow>
            (case schedule_lines ls of
               None \<Rightarrow> None
             | Some ss \<Rightarrow> Some (case s of None \<Rightarrow> ss | Some x \<Rightarrow> x # ss)))"

definition parse_warmup_schedules :: "string \<Rightarrow> warmup_schedule list option" where
  "parse_warmup_schedules raw = schedule_lines (split_on (CHR 0x0A) raw)"

text \<open>A moment as the fields of the local clock.\<close>

record clock_time =
  cl_minute :: int
  cl_hour :: int
  cl_day :: int
  cl_month :: int
  cl_weekday :: int

definition cron_matches :: "cron_value \<Rightarrow> int \<Rightarrow> bool" where
  "cron_matches v n = (case v of AnyValue \<Rightarrow> True | OneValue k \<Rightarrow> k = n)"

definition schedule_matches :: "warmup_schedule \<Rightarrow> clock_time \<Rightarrow> bool" where
  "schedule_matches s t =
     (if \<not> cron_matches (ws_minute s) (cl_minute t) \<or> \<not> cron_matches (ws_hour s) (cl_hour t) \<or>
         \<not> cron_matches (ws_month s) (cl_month t)
      then False
      else
        let day = cron_matches (ws_day s) (cl_day t);
            weekday = cron_matches (ws_weekday s) (cl_weekday t)
        in if ws_day s \<noteq> AnyValue \<and> ws_weekday s \<noteq> AnyValue then day \<or> weekday
           else day \<and> weekday)"

definition warmup_schedules_match :: "warmup_schedule list \<Rightarrow> clock_time \<Rightarrow> bool" where
  "warmup_schedules_match ss t = list_ex (\<lambda>s. schedule_matches s t) ss"

subsection \<open>Pasted cookies and keys\<close>

definition strip_wrapping_quotes :: "string \<Rightarrow> string" where
  "strip_wrapping_quotes s =
     (let v = trim_space s in
      if 2 \<le> length v \<and> (hd v = CHR 0x22 \<and> last v = CHR 0x22 \<or> hd v = CHR 0x27 \<and> last v = CHR 0x27)
      then butlast (tl v) else v)"

definition normalize_ollama_auth_mode :: "string \<Rightarrow> string" where
  "normalize_ollama_auth_mode s =
     (let v = to_lower (trim_space s) in
      if v = ''cookie'' \<or> v = ''web'' then ''cookie''
      else if v = ''api_key'' \<or> v = ''api'' then ''api_key'' else ''auto'')"

definition normalize_ollama_api_key :: "string \<Rightarrow> string" where
  "normalize_ollama_api_key s = trim_space (strip_wrapping_quotes s)"

fun cut_at :: "char \<Rightarrow> string \<Rightarrow> (string \<times> string) option" where
  "cut_at d [] = None"
| "cut_at d (c # s) =
     (if c = d then Some ([], s) else map_option (\<lambda>(a, b). (c # a, b)) (cut_at d s))"

definition add_cookie :: "string \<Rightarrow> (string, string) table \<Rightarrow> (string, string) table" where
  "add_cookie part ps =
     (case cut_at (CHR ''='') part of
        None \<Rightarrow> ps
      | Some (n, v) \<Rightarrow>
          if trim_space n = [] then ps
          else put (trim_space n) (trim_space (strip_wrapping_quotes v)) ps)"

definition cookie_pairs :: "string \<Rightarrow> (string, string) table" where
  "cookie_pairs s = fold add_cookie (split_on (CHR '';'') s) []"

definition serialize_cookies :: "(string, string) table \<Rightarrow> string" where
  "serialize_cookies ps =
     join_with ''; '' (map (\<lambda>k. k @ ''='' @ get_or [] ps k) (sort (keys ps)))"

text \<open>\<open>extract\<close> finds the header from a pasted command; it gives the empty text when there is none.\<close>

definition cookie_text :: "(string \<Rightarrow> string) \<Rightarrow> string \<Rightarrow> string" where
  "cookie_text extract input =
     (let v0 = trim_space input;
          v1 = (if extract v0 \<noteq> [] then extract v0 else v0);
          v2 = trim_space (strip_wrapping_quotes v1)
      in if has_prefix (to_lower v2) ''cookie:'' then trim_space (drop 7 v2) else v2)"

definition one_line :: "string \<Rightarrow> string" where
  "one_line s = map (\<lambda>c. if c = CHR 0x0D \<or> c = CHR 0x0A then CHR '' '' else c) s"

definition ollama_session_cookie :: "string \<Rightarrow> bool" where
  "ollama_session_cookie n =
     (n \<in> {''session'', ''__Secure-session'', ''ollama_session'', ''__Host-ollama_session'', ''wos-session'',
           ''__Secure-next-auth.session-token'', ''next-auth.session-token''} \<or>
      has_prefix n ''__Secure-next-auth.session-token.'' \<or> has_prefix n ''next-auth.session-token.'')"

definition normalize_ollama_cookie :: "(string \<Rightarrow> string) \<Rightarrow> string \<Rightarrow> string option" where
  "normalize_ollama_cookie extract input =
     (if trim_space input = [] then None
      else
        let ps = cookie_pairs (one_line (cookie_text extract input)) in
        if ps = [] \<or> \<not> list_ex ollama_session_cookie (keys ps) then None
        else Some (serialize_cookies ps))"

definition valid_csrf_token :: "string \<Rightarrow> bool" where
  "valid_csrf_token s =
     (trim_space s \<noteq> [] \<and>
      list_all (\<lambda>c. c \<notin> {CHR '';'', CHR '','', CHR 0x0D, CHR 0x0A}) (trim_space s))"

definition normalize_mistral_cookie :: "(string \<Rightarrow> string) \<Rightarrow> string \<Rightarrow> string option" where
  "normalize_mistral_cookie extract input =
     (let v = cookie_text extract input in
      if trim_space input = [] \<or> CHR 0x0D \<in> set v \<or> CHR 0x0A \<in> set v then None
      else
        let ps = cookie_pairs v in
        if ps = [] \<or> \<not> valid_csrf_token (get_or [] ps ''csrftoken'') \<or>
           \<not> list_ex (\<lambda>n. has_prefix n ''ory_session_'') (keys ps)
        then None
        else Some (serialize_cookies ps))"

subsection \<open>Reading the file\<close>

datatype config_file = NoConfig | BadConfig | ConfigFile json

text \<open>A field that is absent or \<open>null\<close> keeps the value there; one of another type is an error.\<close>

definition keep_text :: "string \<Rightarrow> (string, json) table \<Rightarrow> string \<Rightarrow> string option" where
  "keep_text v fs k = (case get_or JNull fs k of JNull \<Rightarrow> Some v | JString w \<Rightarrow> Some w | _ \<Rightarrow> None)"

definition keep_bool :: "bool \<Rightarrow> (string, json) table \<Rightarrow> string \<Rightarrow> bool option" where
  "keep_bool v fs k = (case get_or JNull fs k of JNull \<Rightarrow> Some v | JBool w \<Rightarrow> Some w | _ \<Rightarrow> None)"

definition keep_number :: "int \<Rightarrow> (string, json) table \<Rightarrow> string \<Rightarrow> int option" where
  "keep_number v fs k = (case get_or JNull fs k of JNull \<Rightarrow> Some v | JNumber w \<Rightarrow> Some w | _ \<Rightarrow> None)"

definition decode_provider :: "json \<Rightarrow> provider_config option" where
  "decode_provider j =
     do { fs \<leftarrow> as_fields j;
          enabled \<leftarrow> keep_bool False fs ''enabled'';
          token \<leftarrow> keep_text [] fs ''token'';
          api_key \<leftarrow> keep_text [] fs ''api_key'';
          auth_mode \<leftarrow> keep_text [] fs ''auth_mode'';
          host \<leftarrow> keep_text [] fs ''enterprise_host'';
          cookie \<leftarrow> keep_text [] fs ''cookie'';
          Some \<lparr>pv_enabled = enabled, pv_token = token, pv_api_key = api_key, pv_auth_mode = auth_mode,
                pv_host = host, pv_cookie = cookie\<rparr> }"

fun decode_providers ::
    "(string, json) table \<Rightarrow> (string, provider_config) table \<Rightarrow>
     (string, provider_config) table option" where
  "decode_providers [] ps = Some ps"
| "decode_providers ((k, j) # fs) ps =
     (case decode_provider j of None \<Rightarrow> None | Some p \<Rightarrow> decode_providers fs (put k p ps))"

definition providers_field ::
    "(string, provider_config) table \<Rightarrow> (string, json) table \<Rightarrow>
     (string, provider_config) table option" where
  "providers_field ps fs =
     (case map_of fs ''providers'' of
        None \<Rightarrow> Some ps
      | Some JNull \<Rightarrow> Some []
      | Some (JObject entries) \<Rightarrow> decode_providers entries ps
      | Some _ \<Rightarrow> None)"

definition decode_config :: "(string, json) table \<Rightarrow> usage_config option" where
  "decode_config fs =
     do { interval \<leftarrow> keep_number default_refresh_sec fs ''refresh_interval_sec'';
          display \<leftarrow> keep_text ''left'' fs ''percent_display'';
          order \<leftarrow> texts_field fs ''provider_order'';
          auto \<leftarrow> keep_bool False fs ''token_auto_refresh'';
          managed \<leftarrow> keep_bool False fs ''token_auto_refresh_managed'';
          claude_flag \<leftarrow> keep_text default_claude_flag fs ''claude_model_flag'';
          codex_flag \<leftarrow> keep_text default_codex_flag fs ''codex_model_flag'';
          mode \<leftarrow> keep_text ''off'' fs ''warmup_mode'';
          schedule \<leftarrow> keep_text [] fs ''warmup_schedule'';
          providers \<leftarrow> providers_field (uc_providers default_config) fs;
          Some \<lparr>uc_interval = interval, uc_display = display, uc_order = order, uc_auto = auto,
                uc_managed = managed, uc_claude_flag = claude_flag, uc_codex_flag = codex_flag,
                uc_mode = mode, uc_schedule = schedule, uc_providers = providers\<rparr> }"

definition migrate_auto_refresh :: "(string, json) table \<Rightarrow> usage_config \<Rightarrow> usage_config option" where
  "migrate_auto_refresh fs c =
     (if has_key fs ''token_auto_refresh'' \<or> \<not> has_key fs ''claude_auto_refresh'' then Some c
      else do { auto \<leftarrow> keep_bool (uc_auto c) fs ''claude_auto_refresh'';
                Some (c\<lparr>uc_auto := auto, uc_managed := auto \<or> uc_managed c\<rparr>) })"

definition migrate_warmup_mode :: "(string, json) table \<Rightarrow> usage_config \<Rightarrow> usage_config option" where
  "migrate_warmup_mode fs c =
     (if has_key fs ''warmup_mode'' then Some c
      else do { warmup \<leftarrow> keep_bool False fs ''claude_auto_warmup'';
                smart \<leftarrow> keep_bool False fs ''warmup_smart_spacing'';
                Some (c\<lparr>uc_mode :=
                  (if \<not> warmup then ''off'' else if smart then ''smart''
                   else if trim_space (uc_schedule c) \<noteq> [] then ''scheduled'' else ''force'')\<rparr>) })"

definition repair_config :: "usage_config \<Rightarrow> usage_config" where
  "repair_config c =
     c\<lparr>uc_claude_flag := (if valid_claude_model_flag (uc_claude_flag c) then uc_claude_flag c
                          else default_claude_flag),
       uc_codex_flag := (if valid_codex_model_flag (uc_codex_flag c) then uc_codex_flag c
                         else default_codex_flag),
       uc_mode := (if valid_warmup_mode (uc_mode c) then uc_mode c else ''off''),
       uc_providers := complete_providers (uc_providers c),
       uc_interval := (if uc_interval c = 0 then default_refresh_sec
                       else max min_refresh_sec (uc_interval c)),
       uc_display := (if valid_percent_display (uc_display c) then uc_display c else ''left''),
       uc_order := normalize_provider_order (uc_order c)\<rparr>"

text \<open>\<open>None\<close> is an error. The defaults of an absent file are returned as they are.\<close>

definition load_config :: "config_file \<Rightarrow> usage_config option" where
  "load_config f =
     (case f of
        NoConfig \<Rightarrow> Some default_config
      | BadConfig \<Rightarrow> None
      | ConfigFile j \<Rightarrow>
          do { fs \<leftarrow> as_fields j;
               c \<leftarrow> decode_config fs;
               c1 \<leftarrow> migrate_auto_refresh fs c;
               c2 \<leftarrow> migrate_warmup_mode fs c1;
               Some (repair_config c2) })"

subsection \<open>Writing the file\<close>

datatype config_error =
    IntervalTooSmall
  | BadPercentDisplay
  | BadWarmupMode
  | BadClaudeFlag
  | BadCodexFlag
  | BadSchedule

definition text_entry :: "string \<Rightarrow> string \<Rightarrow> (string, json) table" where
  "text_entry k v = (if v = [] then [] else [(k, JString v)])"

definition encode_provider :: "provider_config \<Rightarrow> json" where
  "encode_provider p =
     JObject ((''enabled'', JBool (pv_enabled p)) # text_entry ''token'' (pv_token p) @
       text_entry ''api_key'' (pv_api_key p) @ text_entry ''auth_mode'' (pv_auth_mode p) @
       text_entry ''enterprise_host'' (pv_host p) @ text_entry ''cookie'' (pv_cookie p))"

definition encode_config :: "usage_config \<Rightarrow> json" where
  "encode_config c =
     JObject
       ([(''refresh_interval_sec'', JNumber (uc_interval c)),
         (''percent_display'', JString (uc_display c))] @
        (if uc_order c = [] then [] else [(''provider_order'', JArray (map JString (uc_order c)))]) @
        [(''token_auto_refresh'', JBool (uc_auto c))] @
        (if uc_managed c then [(''token_auto_refresh_managed'', JBool True)] else []) @
        [(''claude_model_flag'', JString (uc_claude_flag c)),
         (''codex_model_flag'', JString (uc_codex_flag c))] @
        text_entry ''warmup_mode'' (uc_mode c) @ text_entry ''warmup_schedule'' (uc_schedule c) @
        [(''providers'', JObject (map_vals (\<lambda>_. encode_provider) (uc_providers c))),
         (''claude_auto_refresh'', JBool (uc_auto c))])"

definition saved_config :: "usage_config \<Rightarrow> usage_config" where
  "saved_config c =
     c\<lparr>uc_providers := complete_providers (uc_providers c),
       uc_display := (if uc_display c = [] then ''left'' else uc_display c),
       uc_order := normalize_provider_order (uc_order c)\<rparr>"

definition save_config :: "usage_config \<Rightarrow> config_error + config_file" where
  "save_config c =
     (let s = saved_config c in
      if uc_interval s < min_refresh_sec then Inl IntervalTooSmall
      else if \<not> valid_percent_display (uc_display s) then Inl BadPercentDisplay
      else if \<not> valid_warmup_mode (uc_mode s) then Inl BadWarmupMode
      else if \<not> valid_claude_model_flag (uc_claude_flag s) then Inl BadClaudeFlag
      else if \<not> valid_codex_model_flag (uc_codex_flag s) then Inl BadCodexFlag
      else if parse_warmup_schedules (uc_schedule s) = None then Inl BadSchedule
      else Inr (ConfigFile (encode_config s)))"

text \<open>The interval in force and whether the environment overrides it.\<close>

definition refresh_interval :: "string \<Rightarrow> usage_config \<Rightarrow> int \<times> bool" where
  "refresh_interval env c =
     (case (if env = [] then None else atoi env) of
        Some sec \<Rightarrow> (max min_refresh_sec sec * second, True)
      | None \<Rightarrow> (max min_refresh_sec (uc_interval c) * second, False))"

subsection \<open>The order of the providers\<close>

lemma distinct_known [simp]: "distinct known_providers"
  by (simp add: known_providers_def)

lemma known_provider_iff: "known_provider k \<longleftrightarrow> k \<in> set known_providers"
  by (auto simp: known_provider_def list_ex_iff)

lemma take_known_set: "set (take_known seen ks) = {k \<in> set ks. known_provider k \<and> k \<notin> set seen}"
  by (induction ks arbitrary: seen) auto

lemma take_known_distinct: "distinct (take_known seen ks)"
  by (induction ks arbitrary: seen) (auto simp: take_known_set)

lemma take_known_id:
  "distinct ks \<Longrightarrow> set ks \<subseteq> set known_providers \<Longrightarrow> set ks \<inter> set seen = {} \<Longrightarrow> take_known seen ks = ks"
  by (induction ks arbitrary: seen) (auto simp: known_provider_iff)

lemma provider_order_all: "set (normalize_provider_order ks) = set known_providers"
  by (auto simp: normalize_provider_order_def Let_def take_known_set known_provider_iff)

lemma provider_order_distinct: "distinct (normalize_provider_order ks)"
  by (auto simp: normalize_provider_order_def Let_def take_known_distinct)

lemma provider_order_idem [simp]:
  "normalize_provider_order (normalize_provider_order ks) = normalize_provider_order ks"
proof -
  let ?o = "normalize_provider_order ks"
  have "take_known [] ?o = ?o"
    by (rule take_known_id) (simp_all add: provider_order_distinct provider_order_all)
  then show ?thesis
    using provider_order_all [of ks] by (simp add: normalize_provider_order_def [of ?o] Let_def)
qed

lemma map_of_complete:
  "map_of (complete_providers ps) k =
     (if k \<in> set known_providers \<and> \<not> has_key ps k then Some no_provider_config else map_of ps k)"
proof -
  have "map_of (fold (\<lambda>k ps. if has_key ps k then ps else put k no_provider_config ps) ks ps) k =
      (if k \<in> set ks \<and> \<not> has_key ps k then Some no_provider_config else map_of ps k)" for ks
    by (induction ks arbitrary: ps) (auto simp: has_key_def)
  then show ?thesis by (simp add: complete_providers_def)
qed

lemma distinct_complete: "distinct (keys ps) \<Longrightarrow> distinct (keys (complete_providers ps))"
proof -
  have "distinct (keys ps) \<Longrightarrow>
      distinct (keys (fold (\<lambda>k ps. if has_key ps k then ps else put k no_provider_config ps) ks ps))" for ks
    by (induction ks arbitrary: ps) auto
  then show "distinct (keys ps) \<Longrightarrow> ?thesis" by (simp add: complete_providers_def)
qed

lemma has_key_complete: "k \<in> set known_providers \<Longrightarrow> has_key (complete_providers ps) k"
  by (auto simp: has_key_def map_of_complete)

subsection \<open>What the file gives\<close>

definition config_ok :: "usage_config \<Rightarrow> bool" where
  "config_ok c =
     (min_refresh_sec \<le> uc_interval c \<and> valid_percent_display (uc_display c) \<and>
      valid_warmup_mode (uc_mode c) \<and> valid_claude_model_flag (uc_claude_flag c) \<and>
      valid_codex_model_flag (uc_codex_flag c) \<and>
      (uc_order c = [] \<or> normalize_provider_order (uc_order c) = uc_order c) \<and>
      distinct (keys (uc_providers c)) \<and> (\<forall>k \<in> set known_providers. has_key (uc_providers c) k))"

definition schedule_ok :: "usage_config \<Rightarrow> bool" where
  "schedule_ok c = (parse_warmup_schedules (uc_schedule c) \<noteq> None)"

lemma default_flags_valid:
  "valid_claude_model_flag default_claude_flag" "valid_codex_model_flag default_codex_flag"
  by code_simp+

lemma default_config_ok: "config_ok default_config"
  by (auto simp: config_ok_def default_config_def default_flags_valid min_refresh_sec_def
      default_refresh_sec_def valid_percent_display_def valid_warmup_mode_def has_key_def
      known_providers_def)

lemma decode_providers_distinct:
  "decode_providers fs ps = Some qs \<Longrightarrow> distinct (keys ps) \<Longrightarrow> distinct (keys qs)"
  by (induction fs ps rule: decode_providers.induct) (auto split: option.splits)

lemma default_providers_distinct: "distinct (keys (uc_providers default_config))"
  using default_config_ok by (simp add: config_ok_def)

lemma providers_field_distinct:
  assumes "providers_field (uc_providers default_config) fs = Some ps" shows "distinct (keys ps)"
  using assms decode_providers_distinct default_providers_distinct
  by (auto simp: providers_field_def split: option.splits json.splits)

lemma repair_config_ok:
  assumes "distinct (keys (uc_providers c))" shows "config_ok (repair_config c)"
  using assms
  by (auto simp: config_ok_def repair_config_def default_flags_valid min_refresh_sec_def
      default_refresh_sec_def valid_percent_display_def valid_warmup_mode_def distinct_complete
      has_key_complete)

lemma load_config_ok:
  assumes "load_config f = Some c" shows "config_ok c"
proof (cases f)
  case (ConfigFile j)
  then obtain fs c0 c1 c2 where
      "decode_config fs = Some c0" "migrate_auto_refresh fs c0 = Some c1"
      "migrate_warmup_mode fs c1 = Some c2" and c: "c = repair_config c2"
    using assms by (auto simp: load_config_def bind_eq_Some_conv)
  then have "distinct (keys (uc_providers c2))"
    by (auto simp: decode_config_def migrate_auto_refresh_def migrate_warmup_mode_def
        bind_eq_Some_conv providers_field_distinct split: if_splits)
  then show ?thesis unfolding c by (rule repair_config_ok)
qed (use assms default_config_ok in \<open>auto simp: load_config_def\<close>)

subsection \<open>Writing and reading back\<close>

definition same_config :: "usage_config \<Rightarrow> usage_config \<Rightarrow> bool" where
  "same_config c d =
     (c = d\<lparr>uc_providers := uc_providers c\<rparr> \<and> map_of (uc_providers c) = map_of (uc_providers d))"

lemma get_text_entry:
  "get_or d (text_entry k v @ t) k' = (if k' = k \<and> v \<noteq> [] then JString v else get_or d t k')"
  by (simp add: get_or_def text_entry_def)

lemma map_of_text_entry:
  "map_of (text_entry k v @ t) k' = (if k' = k \<and> v \<noteq> [] then Some (JString v) else map_of t k')"
  by (simp add: text_entry_def)

lemmas read_back = get_or_Cons get_or_Nil get_text_entry get_text_entry [where t = "[]", simplified]

lemma decode_encode_provider: "decode_provider (encode_provider p) = Some p"
  by (simp add: decode_provider_def encode_provider_def as_fields_def keep_bool_def keep_text_def
      read_back)

lemma decode_encode_providers:
  "decode_providers (map_vals (\<lambda>_. encode_provider) es) ps = Some (fold (\<lambda>(k, p). put k p) es ps)"
  by (induction es arbitrary: ps) (auto simp: map_vals_def decode_encode_provider)

lemma map_of_fold_put_pairs:
  "distinct (keys es) \<Longrightarrow> map_of (fold (\<lambda>(k, p). put k p) es ps) = map_of ps ++ map_of es"
proof (induction es arbitrary: ps)
  case (Cons e es)
  obtain k p where e: "e = (k, p)" by (cases e)
  then have "map_of es k = None" using Cons.prems by (simp add: map_of_eq_None_iff)
  then show ?case using Cons e by (auto simp: map_add_def fun_eq_iff split: option.splits)
qed simp

lemma decoded_providers:
  assumes "distinct (keys ps)" "\<forall>k \<in> set known_providers. has_key ps k"
  shows "\<exists>qs. decode_providers (map_vals (\<lambda>_. encode_provider) ps) (uc_providers default_config) = Some qs \<and>
    map_of qs = map_of ps"
proof -
  have dom: "dom (map_of (uc_providers default_config)) = set known_providers"
    by (auto simp: default_config_def known_providers_def)
  have "map_of (uc_providers default_config) k = None" if "map_of ps k = None" for k
  proof -
    have "k \<notin> set known_providers" using that assms(2) by (auto simp: has_key_def)
    then show ?thesis using dom by blast
  qed
  then have "map_of (uc_providers default_config) ++ map_of ps = map_of ps"
    by (auto simp: map_add_def fun_eq_iff split: option.splits)
  then show ?thesis
    using map_of_fold_put_pairs [OF assms(1)] by (simp add: decode_encode_providers)
qed

lemma complete_map_id:
  "(\<forall>k \<in> set known_providers. has_key ps k) \<Longrightarrow> map_of (complete_providers ps) = map_of ps"
  by (auto simp: map_of_complete fun_eq_iff)

lemma map_filter_texts: "List.map_filter text_element (map JString xs) = xs"
  by (induction xs) (auto simp: text_element_def List.map_filter_simps)

lemma no_bad_text: "\<not> list_ex (\<lambda>x. text_element x = None) (map JString xs)"
  by (auto simp: list_ex_iff text_element_def)

lemma decode_encode_config:
  assumes "distinct (keys (uc_providers c))" "\<forall>k \<in> set known_providers. has_key (uc_providers c) k"
    "uc_mode c \<noteq> []" "encode_config c = JObject fs"
  shows "\<exists>d. decode_config fs = Some d \<and> same_config d c \<and> has_key fs ''token_auto_refresh'' \<and>
    has_key fs ''warmup_mode''"
proof -
  obtain qs where q: "decode_providers (map_vals (\<lambda>_. encode_provider) (uc_providers c))
        (uc_providers default_config) = Some qs" "map_of qs = map_of (uc_providers c)"
    using decoded_providers [OF assms(1,2)] by blast
  have fs: "fs = (''refresh_interval_sec'', JNumber (uc_interval c)) #
      (''percent_display'', JString (uc_display c)) #
      (if uc_order c = [] then [] else [(''provider_order'', JArray (map JString (uc_order c)))]) @
      (''token_auto_refresh'', JBool (uc_auto c)) #
      (if uc_managed c then [(''token_auto_refresh_managed'', JBool True)] else []) @
      (''claude_model_flag'', JString (uc_claude_flag c)) #
      (''codex_model_flag'', JString (uc_codex_flag c)) #
      text_entry ''warmup_mode'' (uc_mode c) @ text_entry ''warmup_schedule'' (uc_schedule c) @
      [(''providers'', JObject (map_vals (\<lambda>_. encode_provider) (uc_providers c))),
       (''claude_auto_refresh'', JBool (uc_auto c))]"
    using assms(4) by (simp add: encode_config_def)
  have order: "texts_field fs ''provider_order'' = Some (uc_order c)"
    by (simp add: fs texts_field_def read_back map_filter_texts no_bad_text)
  have providers: "providers_field (uc_providers default_config) fs = Some qs"
    by (simp add: fs providers_field_def map_of_text_entry q del: map_of_append)
  have "decode_config fs = Some
      \<lparr>uc_interval = uc_interval c, uc_display = uc_display c, uc_order = uc_order c,
       uc_auto = uc_auto c, uc_managed = uc_managed c, uc_claude_flag = uc_claude_flag c,
       uc_codex_flag = uc_codex_flag c, uc_mode = uc_mode c, uc_schedule = uc_schedule c,
       uc_providers = qs\<rparr>"
    using assms(3)
    by (simp add: decode_config_def order providers)
      (simp add: fs keep_number_def keep_text_def keep_bool_def read_back)
  then have "decode_config fs = Some (c\<lparr>uc_providers := qs\<rparr>)" by simp
  moreover have "has_key fs ''token_auto_refresh'' \<and> has_key fs ''warmup_mode''"
    using assms(3) by (simp add: fs has_key_def map_of_text_entry del: map_of_append)
  ultimately show ?thesis using q(2) by (auto simp: same_config_def)
qed

lemma repair_same:
  assumes "same_config d c" "config_ok c" "normalize_provider_order (uc_order c) = uc_order c"
  shows "same_config (repair_config d) c"
proof -
  obtain qs where d: "d = c\<lparr>uc_providers := qs\<rparr>" and m: "map_of qs = map_of (uc_providers c)"
    using assms(1) by (auto simp: same_config_def)
  have "\<forall>k \<in> set known_providers. has_key qs k"
    using assms(2) m by (auto simp: config_ok_def has_key_def)
  then have "map_of (complete_providers qs) = map_of (uc_providers c)"
    using m by (simp add: complete_map_id)
  moreover have "repair_config d = c\<lparr>uc_providers := complete_providers qs\<rparr>"
    using assms(2,3) unfolding d
    by (simp add: repair_config_def config_ok_def min_refresh_sec_def)
  ultimately show ?thesis by (simp add: same_config_def)
qed

lemma saved_config_ok:
  assumes "save_config c = Inr f" "distinct (keys (uc_providers c))"
  shows "config_ok (saved_config c)" "schedule_ok (saved_config c)"
    "f = ConfigFile (encode_config (saved_config c))"
  using assms
  by (auto simp: save_config_def Let_def config_ok_def schedule_ok_def saved_config_def
      distinct_complete has_key_complete split: if_splits)

lemma save_load:
  assumes "save_config c = Inr f" "distinct (keys (uc_providers c))"
  shows "\<exists>d. load_config f = Some d \<and> same_config d (saved_config c)"
proof -
  let ?s = "saved_config c"
  note ok = saved_config_ok [OF assms]
  obtain fs where fs: "encode_config ?s = JObject fs" by (simp add: encode_config_def)
  have "uc_mode ?s \<noteq> []" using ok(1) by (auto simp: config_ok_def valid_warmup_mode_def)
  then obtain d where d: "decode_config fs = Some d" "same_config d ?s"
      "has_key fs ''token_auto_refresh''" "has_key fs ''warmup_mode''"
    using decode_encode_config [of ?s fs] ok(1) fs by (auto simp: config_ok_def)
  have "load_config f = Some (repair_config d)"
    by (simp add: ok(3) load_config_def fs as_fields_def d migrate_auto_refresh_def
        migrate_warmup_mode_def)
  moreover have "normalize_provider_order (uc_order ?s) = uc_order ?s"
    by (simp add: saved_config_def)
  ultimately show ?thesis using repair_same [OF d(2) ok(1)] by blast
qed

text \<open>
  What was loaded can be saved again, unless the cron lines in the file are bad: reading does not look
  at them, so one bad line blocks every later write of the file, whatever the write is about.
\<close>

lemma saved_loaded_ok:
  assumes "load_config f = Some c" shows "config_ok (saved_config c)"
  using load_config_ok [OF assms]
  by (auto simp: config_ok_def saved_config_def distinct_complete has_key_complete valid_percent_display_def)

lemma save_loaded:
  assumes "load_config f = Some c"
  shows "(\<exists>g. save_config c = Inr g) \<longleftrightarrow> schedule_ok c"
    and "\<not> schedule_ok c \<Longrightarrow> save_config c = Inl BadSchedule"
  using saved_loaded_ok [OF assms]
  by (auto simp: save_config_def Let_def config_ok_def schedule_ok_def saved_config_def)

lemma same_schedule:
  assumes "same_config d c" shows "schedule_ok d = schedule_ok c"
  using assms unfolding same_config_def schedule_ok_def
  by (metis usage_config.select_convs(9) usage_config.surjective usage_config.update_convs(10))

text \<open>C8. What is written is read back. After a write that succeeds the file reads back as the
  configuration that was written: every field, and every entry of every provider. And what was read
  back can be written again.\<close>

theorem usage_config_round_trip:
  assumes "save_config c = Inr f" "distinct (keys (uc_providers c))"
  shows "\<exists>d. load_config f = Some d \<and> same_config d (saved_config c) \<and> (\<exists>g. save_config d = Inr g)"
proof -
  obtain d where d: "load_config f = Some d" "same_config d (saved_config c)"
    using save_load [OF assms] by blast
  then have "schedule_ok d" using same_schedule saved_config_ok(2) [OF assms] by blast
  then show ?thesis using d save_loaded(1) [OF d(1)] by blast
qed

lemma usage_config_round_trip_witness:
  "\<exists>f d. save_config (default_config\<lparr>uc_schedule := ''0 4 * * 7''\<rparr>) = Inr f \<and> load_config f = Some d \<and>
     (\<exists>g. save_config d = Inr g)"
proof -
  let ?c = "default_config\<lparr>uc_schedule := ''0 4 * * 7''\<rparr>"
  have "(case save_config ?c of Inl _ \<Rightarrow> False | Inr _ \<Rightarrow> True)" by code_simp
  then obtain f where f: "save_config ?c = Inr f" by (cases "save_config ?c") auto
  have "distinct (keys (uc_providers ?c))" by code_simp
  from usage_config_round_trip [OF f this] f show ?thesis by blast
qed

end
