(* ===== verification/UsageCache.thy ===== *)
theory UsageCache
  imports UsageConfig RefreshState Complex_Main
begin

section \<open>The cache of the usage quotas\<close>

text \<open>
  \<open>internal/usages/manager.go\<close> with the cache file of \<open>store.go\<close> and \<open>redact.go\<close>: one entry per
  profile and provider, when an entry is fetched again, what a failed fetch leaves in it, and what is
  done when profiles are switched while a fetch runs.

  \<open>usage_manager\<close> is the state of a \<open>Manager\<close> with its two files. \<open>usage_world\<close> is what one call
  sees: the clock, the profiles the switcher lists, the credential files, the environment. A provider's
  answer (\<open>fetch_result\<close>) is a parameter, with the classification of transport errors as a flag. A
  percentage is a rational number. Locks and writes are taken to succeed; a JSON file gives back what
  was written.
\<close>

subsection \<open>Snapshots and entries\<close>

record usage_window =
  wn_key :: string
  wn_percent :: rat
  wn_reset :: "int option"
  wn_duration :: int

record usage_credits =
  cd_label :: string
  cd_balance :: rat
  cd_limit :: rat

record usage_snapshot =
  sn_status :: string
  sn_plan :: string
  sn_windows :: "usage_window list"
  sn_credits :: "usage_credits option"
  sn_last :: "int option"
  sn_stale :: bool
  sn_error :: string
  sn_detail :: "(string, string) table option"

definition empty_snapshot :: usage_snapshot where
  "empty_snapshot =
     \<lparr>sn_status = [], sn_plan = [], sn_windows = [], sn_credits = None, sn_last = None,
      sn_stale = False, sn_error = [], sn_detail = None\<rparr>"

record usage_profile =
  up_name :: string
  up_active :: bool
  up_credentials :: bool
  up_expires :: "int option"
  up_email :: string
  up_snap :: usage_snapshot

definition profile_from_snapshot :: "usage_snapshot \<Rightarrow> string \<Rightarrow> usage_profile" where
  "profile_from_snapshot snap n =
     \<lparr>up_name = n, up_active = False, up_credentials = False, up_expires = None, up_email = [],
      up_snap = snap\<rparr>"

record usage_entry =
  ue_profile :: usage_profile
  ue_email_at :: "int option"
  ue_email_scope :: string

definition entry_of :: "usage_profile \<Rightarrow> usage_entry" where
  "entry_of p = \<lparr>ue_profile = p, ue_email_at = None, ue_email_scope = []\<rparr>"

definition no_entry :: usage_entry where
  "no_entry = entry_of (profile_from_snapshot empty_snapshot [])"

abbreviation entry_name :: "usage_entry \<Rightarrow> string" where
  "entry_name e \<equiv> up_name (ue_profile e)"

abbreviation entry_snap :: "usage_entry \<Rightarrow> usage_snapshot" where
  "entry_snap e \<equiv> up_snap (ue_profile e)"

type_synonym usage_cache = "(string, usage_entry list) table"

datatype cache_file = NoCache | BadCache | CacheFile usage_cache

text \<open>A profile as the switcher lists it.\<close>

record listed_profile = profile_info +
  lp_email :: string
  lp_expires :: "int option"

subsection \<open>Redaction\<close>

text \<open>\<open>strings.ReplaceAll\<close> with a text to find that is not empty.\<close>

function replace_all :: "string \<Rightarrow> string \<Rightarrow> string \<Rightarrow> string" where
  "replace_all s old new =
     (if old = [] then s
      else case s of
             [] \<Rightarrow> []
           | c # t \<Rightarrow>
               if has_prefix s old then new @ replace_all (drop (length old) s) old new
               else c # replace_all t old new)"
  by pat_completeness auto
termination
  by (relation "measure (\<lambda>(s, _, _). length s)") (auto simp: neq_Nil_conv)

declare replace_all.simps [simp del]

definition redact_string :: "string list \<Rightarrow> string \<Rightarrow> string" where
  "redact_string secrets s =
     fold (\<lambda>secret out. if secret = [] then out else replace_all out secret ''[redacted]'') secrets s"

definition redact_snapshot :: "string list \<Rightarrow> usage_snapshot \<Rightarrow> usage_snapshot" where
  "redact_snapshot secrets s =
     s\<lparr>sn_error := redact_string secrets (sn_error s), sn_plan := redact_string secrets (sn_plan s),
       sn_credits := map_option (\<lambda>c. c\<lparr>cd_label := redact_string secrets (cd_label c)\<rparr>) (sn_credits s),
       sn_detail :=
         map_option (\<lambda>fs. fold (\<lambda>(k, v). put (redact_string secrets k) (redact_string secrets v)) fs [])
           (sn_detail s)\<rparr>"

definition redact_entry :: "string list \<Rightarrow> usage_entry \<Rightarrow> usage_entry" where
  "redact_entry secrets e =
     e\<lparr>ue_profile := (ue_profile e)\<lparr>up_snap := redact_snapshot secrets (entry_snap e)\<rparr>\<rparr>"

definition config_secrets :: "usage_config \<Rightarrow> string list" where
  "config_secrets c =
     concat (map (\<lambda>(_, p). [pv_token p, pv_api_key p, pv_cookie p]) (uc_providers c))"

subsection \<open>The world and the manager\<close>

record usage_world =
  wd_now :: int
  wd_env :: string
  wd_listed :: "string \<Rightarrow> listed_profile list option"
  wd_docs :: "(string, document) table"
  wd_live :: "string \<Rightarrow> string"
  wd_sha :: "document \<Rightarrow> string"
  wd_readers :: readers
  wd_registered :: "string \<Rightarrow> bool"
  wd_eligible :: "string \<Rightarrow> bool \<times> bool \<times> string"
  wd_switcher :: bool
  wd_available :: bool
  wd_owns :: "string \<Rightarrow> bool"
  wd_migrated :: "string \<Rightarrow> bool"
  wd_alerts :: "string list"
  wd_scope :: string

record token_state =
  tk_status :: string
  tk_reason :: string

record usage_manager =
  um_config :: config_file
  um_cache :: cache_file
  um_force :: "int option"
  um_generation :: "(string, nat) table"
  um_fingerprints :: "(string, string) table"
  um_tokens :: "(string, token_state) table"
  um_epoch :: nat
  um_last_epoch :: nat
  um_last_attempt :: "int option"
  um_requested :: bool

datatype usage_error =
    ConfigUnreadable
  | ConfigRejected config_error
  | UnknownProvider
  | ForceCooldown int
  | SecretMissing
  | CookieRejected
  | FetchFailed

definition load_cache :: "cache_file \<Rightarrow> usage_cache" where
  "load_cache f = (case f of CacheFile c \<Rightarrow> c | _ \<Rightarrow> [])"

definition save_cache :: "usage_cache \<Rightarrow> usage_manager \<Rightarrow> (usage_error + unit) \<times> usage_manager" where
  "save_cache cache u =
     (case load_config (um_config u) of
        None \<Rightarrow> (Inl ConfigUnreadable, u)
      | Some c \<Rightarrow>
          (Inr (), u\<lparr>um_cache :=
             CacheFile (map_vals (\<lambda>_. map (redact_entry (config_secrets c))) cache)\<rparr>))"

subsection \<open>Profiles of a provider\<close>

definition tool_for_registry_key :: "string \<Rightarrow> string" where
  "tool_for_registry_key key =
     (if key = ''claude-code'' then ''claude'' else if key = ''codex'' then ''codex'' else [])"

definition registry_key_for_tool :: "string \<Rightarrow> string" where
  "registry_key_for_tool tool = (if tool = ''claude'' then ''claude-code'' else tool)"

definition has_file :: "usage_world \<Rightarrow> string \<Rightarrow> bool" where
  "has_file W path = (path \<noteq> [] \<and> has_key (wd_docs W) path)"

definition read_file :: "usage_world \<Rightarrow> string \<Rightarrow> document option" where
  "read_file W path = map_of (wd_docs W) path"

definition local_profile :: "string \<Rightarrow> string \<Rightarrow> bool \<Rightarrow> int option \<Rightarrow> listed_profile" where
  "local_profile tool path has expires =
     \<lparr>pi_tool = tool, pi_name = ''local'', pi_active = True, pi_path = path, pi_credentials = has,
      pi_away = None, lp_email = [], lp_expires = expires\<rparr>"

definition implicit_profile :: "usage_world \<Rightarrow> config_file \<Rightarrow> string \<Rightarrow> listed_profile" where
  "implicit_profile W f key =
     (if key = ''claude-code'' then
        let path = wd_live W ''claude''
        in local_profile ''claude'' path (has_file W path)
             (if has_file W path
              then Option.bind (Option.bind (read_file W path) load_claude_auth) cl_expires else None)
      else if key = ''codex'' then
        let path = wd_live W ''codex''
        in local_profile ''codex'' path (has_file W path)
             (if has_file W path
              then Option.bind (Option.bind (read_file W path) (parse_codex_auth_data (wd_readers W)))
                     (codex_token_expiry (wd_readers W) \<circ> cx_access)
              else None)
      else
        let pc = (case load_config f of None \<Rightarrow> no_provider_config
                                      | Some c \<Rightarrow> get_or no_provider_config (uc_providers c) key)
        in local_profile [] []
             (key = ''github-copilot'' \<and> trim_space (pv_token pc) \<noteq> [] \<or>
              key = ''mistral'' \<and> trim_space (pv_cookie pc) \<noteq> [] \<or>
              key = ''ollama-cloud'' \<and>
                (trim_space (pv_cookie pc) \<noteq> [] \<or> trim_space (pv_api_key pc) \<noteq> [])) None)"

definition list_profiles_or_local ::
    "(string \<Rightarrow> listed_profile list option) \<Rightarrow> string \<Rightarrow> listed_profile \<Rightarrow> listed_profile list option" where
  "list_profiles_or_local lister tool loc =
     (if tool = [] then Some [loc]
      else case lister tool of
             None \<Rightarrow> None
           | Some [] \<Rightarrow> Some [loc]
           | Some ps \<Rightarrow> Some ps)"

definition listed_profiles_for_provider ::
    "usage_world \<Rightarrow> config_file \<Rightarrow> string \<Rightarrow> listed_profile list option" where
  "listed_profiles_for_provider W f key =
     list_profiles_or_local (wd_listed W) (tool_for_registry_key key) (implicit_profile W f key)"

definition profiles_for_provider :: "usage_world \<Rightarrow> config_file \<Rightarrow> string \<Rightarrow> listed_profile list" where
  "profiles_for_provider W f key =
     (case listed_profiles_for_provider W f key of
        None \<Rightarrow> [implicit_profile W f key]
      | Some ps \<Rightarrow> ps)"

definition resolve_profiles :: "usage_world \<Rightarrow> config_file \<Rightarrow> (string, listed_profile list) table" where
  "resolve_profiles W f = map (\<lambda>k. (k, profiles_for_provider W f k)) known_providers"

subsection \<open>Who owns the active credentials\<close>

definition credential_fingerprint :: "usage_world \<Rightarrow> string \<Rightarrow> string" where
  "credential_fingerprint W path =
     (case read_file W path of None \<Rightarrow> ''unreadable'' | Some d \<Rightarrow> wd_sha W d)"

record profile_owner =
  ow_profile :: listed_profile
  ow_fingerprint :: string

definition active_profile_owner :: "usage_world \<Rightarrow> config_file \<Rightarrow> string \<Rightarrow> profile_owner option" where
  "active_profile_owner W f key =
     map_option (\<lambda>p. \<lparr>ow_profile = p, ow_fingerprint = credential_fingerprint W (pi_path p)\<rparr>)
       (find pi_active (profiles_for_provider W f key))"

definition same_active_profile_owner :: "profile_owner \<Rightarrow> profile_owner \<Rightarrow> bool" where
  "same_active_profile_owner l r =
     (pi_name (ow_profile l) = pi_name (ow_profile r) \<and>
      pi_path (ow_profile l) = pi_path (ow_profile r) \<and> ow_fingerprint l = ow_fingerprint r)"

definition active_credentials_changed :: "usage_world \<Rightarrow> string \<Rightarrow> usage_manager \<Rightarrow> bool" where
  "active_credentials_changed W key u =
     (case active_profile_owner W (um_config u) key of
        None \<Rightarrow> False
      | Some o1 \<Rightarrow>
          pi_name (ow_profile o1) \<noteq> ''local'' \<and> pi_path (ow_profile o1) \<noteq> [] \<and>
          map_of (um_fingerprints u) key \<noteq> Some (ow_fingerprint o1))"

subsection \<open>Bringing the cache in line with the profiles\<close>

definition newer_entry :: "usage_entry \<Rightarrow> usage_entry \<Rightarrow> usage_entry" where
  "newer_entry current candidate =
     (case sn_last (entry_snap current) of
        None \<Rightarrow> candidate
      | Some t \<Rightarrow>
          (case sn_last (entry_snap candidate) of
             None \<Rightarrow> current
           | Some t1 \<Rightarrow> if t < t1 then candidate else current))"

definition set_entry_name :: "string \<Rightarrow> usage_entry \<Rightarrow> usage_entry" where
  "set_entry_name n e = e\<lparr>ue_profile := (ue_profile e)\<lparr>up_name := n\<rparr>\<rparr>"

text \<open>One step of the loop that files the entries under their profile names.\<close>

definition file_entry ::
    "bool \<Rightarrow> string list \<Rightarrow> usage_entry \<Rightarrow> (string, usage_entry) table \<Rightarrow> (string, usage_entry) table" where
  "file_entry implicit valid e0 by_name =
     (let legacy = (entry_name e0 = [] \<or> entry_name e0 = ''default'');
          e = (if legacy then set_entry_name ''local'' e0 else e0);
          n = entry_name e
      in if legacy \<and> \<not> implicit then by_name
         else if n \<notin> set valid then by_name
         else put n (case map_of by_name n of None \<Rightarrow> e | Some cur \<Rightarrow> newer_entry cur e) by_name)"

definition profile_facts :: "listed_profile \<Rightarrow> usage_profile \<Rightarrow> usage_profile" where
  "profile_facts p q =
     q\<lparr>up_name := pi_name p, up_active := pi_active p, up_credentials := pi_credentials p,
       up_expires := lp_expires p, up_email := (if lp_email p \<noteq> [] then lp_email p else up_email q)\<rparr>"

definition normalize_profile_entries :: "usage_entry list \<Rightarrow> listed_profile list \<Rightarrow> usage_entry list" where
  "normalize_profile_entries es ps =
     (let implicit = (map pi_name ps = [''local'']);
          by_name = fold (file_entry implicit (map pi_name ps)) es []
      in map (\<lambda>p. let e = get_or no_entry by_name (pi_name p)
                  in e\<lparr>ue_profile := profile_facts p (ue_profile e)\<rparr>) ps)"

definition normalize_cache ::
    "(string, listed_profile list) table \<Rightarrow> usage_cache \<Rightarrow> usage_cache \<times> bool" where
  "normalize_cache resolved cache =
     fold (\<lambda>key (c, changed).
             let es = get_or [] c key;
                 es1 = normalize_profile_entries es (get_or [] resolved key)
             in (put key es1 c, changed \<or> es1 \<noteq> es))
       known_providers (cache, False)"

subsection \<open>The response\<close>

record usage_provider =
  vp_name :: string
  vp_order :: nat
  vp_enabled :: bool
  vp_available :: bool
  vp_host :: string
  vp_token :: bool
  vp_auth_mode :: string
  vp_api_key :: bool
  vp_cookie :: bool
  vp_switch :: "bool \<times> bool \<times> string"
  vp_profiles :: "usage_profile list"

record usage_settings =
  vs_interval :: int
  vs_env :: bool
  vs_display :: string
  vs_auto :: bool
  vs_claude_flag :: string
  vs_codex_flag :: string
  vs_mode :: string
  vs_schedule :: string
  vs_available :: bool
  vs_warmup_available :: bool
  vs_tokens :: "(string, token_state) table"

record usage_response =
  vr_providers :: "usage_provider list"
  vr_settings :: usage_settings
  vr_switcher :: bool
  vr_alerts :: "string list"

definition shown_token_states :: "usage_world \<Rightarrow> bool \<Rightarrow> usage_manager \<Rightarrow> (string, token_state) table" where
  "shown_token_states W auto u =
     (if um_tokens u \<noteq> [] then um_tokens u
      else map (\<lambda>tool. (tool,
             \<lparr>tk_status = (if \<not> auto then ''off'' else if wd_migrated W tool then ''migrated'' else ''pending''),
              tk_reason = []\<rparr>)) [''claude'', ''codex''])"

definition decorate_settings :: "usage_world \<Rightarrow> usage_config \<Rightarrow> usage_manager \<Rightarrow> usage_settings" where
  "decorate_settings W c u =
     (let (interval, env) = refresh_interval (wd_env W) c in
      \<lparr>vs_interval = interval div second, vs_env = env, vs_display = uc_display c, vs_auto = uc_auto c,
       vs_claude_flag = uc_claude_flag c, vs_codex_flag = uc_codex_flag c, vs_mode = uc_mode c,
       vs_schedule = uc_schedule c, vs_available = wd_available W,
       vs_warmup_available = (uc_auto c \<and> wd_available W \<and> \<not> wd_owns W ''claude''),
       vs_tokens = shown_token_states W (uc_auto c) u\<rparr>)"

definition ollama_provider_auth_mode :: "string \<Rightarrow> provider_config \<Rightarrow> string" where
  "ollama_provider_auth_mode key pc =
     (if key \<noteq> ''ollama-cloud'' \<or> trim_space (pv_auth_mode pc) = [] then []
      else normalize_ollama_auth_mode (pv_auth_mode pc))"

definition provider_row ::
    "usage_world \<Rightarrow> usage_config \<Rightarrow> usage_cache \<Rightarrow> nat \<times> string \<Rightarrow> usage_provider" where
  "provider_row W c cache = (\<lambda>(i, key).
     (let pc = get_or no_provider_config (uc_providers c) key; tool = tool_for_registry_key key in
      \<lparr>vp_name = key, vp_order = i, vp_enabled = pv_enabled pc, vp_available = wd_registered W key,
       vp_host = pv_host pc, vp_token = (key = ''github-copilot'' \<and> pv_token pc \<noteq> []),
       vp_auth_mode = ollama_provider_auth_mode key pc,
       vp_api_key = (key = ''ollama-cloud'' \<and> trim_space (pv_api_key pc) \<noteq> []),
       vp_cookie = ((key = ''ollama-cloud'' \<or> key = ''mistral'') \<and> pv_cookie pc \<noteq> []),
       vp_switch = (if tool = [] then (False, False, []) else wd_eligible W tool),
       vp_profiles = map ue_profile (get_or [] cache key)\<rparr>))"

definition assemble_response :: "usage_world \<Rightarrow> usage_config \<Rightarrow> usage_cache \<Rightarrow> usage_manager \<Rightarrow> usage_response" where
  "assemble_response W c cache u =
     \<lparr>vr_providers = map (provider_row W c cache) (enumerate 0 (normalize_provider_order (uc_order c))),
      vr_settings = decorate_settings W c u, vr_switcher = wd_switcher W, vr_alerts = wd_alerts W\<rparr>"

text \<open>Read both files, normalise the cache, save it when that changed it, and answer from it.\<close>

definition published ::
    "usage_world \<Rightarrow> usage_manager \<Rightarrow> (usage_error + usage_config \<times> usage_cache \<times> usage_response) \<times> usage_manager" where
  "published W u =
     (case load_config (um_config u) of
        None \<Rightarrow> (Inl ConfigUnreadable, u)
      | Some c \<Rightarrow>
          let (cache, changed) = normalize_cache (resolve_profiles W (um_config u)) (load_cache (um_cache u));
              u1 = (if changed then snd (save_cache cache u) else u)
          in (Inr (c, cache, assemble_response W c cache u1), u1))"

definition usage_snapshot_request ::
    "usage_world \<Rightarrow> string \<Rightarrow> usage_manager \<Rightarrow> (usage_error + usage_response) \<times> usage_manager" where
  "usage_snapshot_request W provider u =
     (if provider \<noteq> [] \<and> \<not> known_provider provider then (Inl UnknownProvider, u)
      else case published W u of
             (Inl e, u1) \<Rightarrow> (Inl e, u1)
           | (Inr (c, cache, r), u1) \<Rightarrow> (Inr r, u1))"

subsection \<open>When an entry is fetched\<close>

definition force_cooldown :: int where "force_cooldown = min_refresh_sec * second"

text \<open>The whole seconds that are left, rounded up; a refresh that may run starts the next cooldown.\<close>

definition check_force_cooldown :: "int \<Rightarrow> usage_manager \<Rightarrow> int \<times> usage_manager" where
  "check_force_cooldown now u =
     (case um_force u of
        Some last1 \<Rightarrow>
          if now - last1 < force_cooldown
          then ((force_cooldown - (now - last1) + second - 1) div second, u)
          else (0, u\<lparr>um_force := Some now\<rparr>)
      | None \<Rightarrow> (0, u\<lparr>um_force := Some now\<rparr>))"

definition find_entry :: "usage_entry list \<Rightarrow> string \<Rightarrow> usage_entry option" where
  "find_entry es n = find (\<lambda>e. entry_name e = n) es"

fun set_entry :: "usage_entry list \<Rightarrow> string \<Rightarrow> usage_entry \<Rightarrow> usage_entry list" where
  "set_entry [] n e = [e]"
| "set_entry (x # xs) n e = (if entry_name x = n then e # xs else x # set_entry xs n e)"

definition fetch_due :: "int \<Rightarrow> int \<Rightarrow> bool \<Rightarrow> bool \<Rightarrow> usage_entry option \<Rightarrow> bool" where
  "fetch_due now interval force changed entry =
     (force \<or> changed \<or>
      (case Option.bind entry (\<lambda>e. sn_last (entry_snap e)) of None \<Rightarrow> True | Some t \<Rightarrow> interval \<le> now - t))"

subsection \<open>What a fetch leaves in the entry\<close>

text \<open>
  An error may carry a snapshot of its own; \<open>fe_transient\<close> is \<open>isTransientTransportError\<close> of it,
  \<open>fa_deadline\<close> tells that the ten seconds of the fetch were over. \<open>fa_email\<close> is the answer of the
  separate lookup of an address, \<open>None\<close> when it failed.
\<close>

record fetch_error =
  fe_snapshot :: "usage_snapshot option"
  fe_text :: string
  fe_transient :: bool

datatype fetch_result = FetchOk usage_snapshot | FetchErr fetch_error

record fetch_answer =
  fa_result :: fetch_result
  fa_deadline :: bool
  fa_email :: "string option"

definition transient_code :: "string \<Rightarrow> bool" where
  "transient_code v =
     (if has_prefix v ''http_''
      then (case atoi (drop 5 v) of
              None \<Rightarrow> False
            | Some code \<Rightarrow> code = 429 \<or> 500 \<le> code \<and> code \<le> 599)
      else False)"

definition has_transient_http_status :: "(string, string) table option \<Rightarrow> bool" where
  "has_transient_http_status detail =
     (case detail of
        None \<Rightarrow> False
      | Some fs \<Rightarrow> get_or [] fs ''usage.challenge'' = ''cloudflare'' \<or> list_ex (transient_code \<circ> snd) fs)"

definition should_preserve_previous :: "bool \<Rightarrow> usage_snapshot \<Rightarrow> usage_entry \<Rightarrow> bool" where
  "should_preserve_previous transient err previous =
     (if entry_name previous = [] then False
      else if sn_status (entry_snap previous) \<noteq> ''ok'' \<and> sn_status (entry_snap previous) \<noteq> ''stale_cache''
      then False
      else if sn_status err = ''timeout'' then True
      else if sn_status err \<noteq> ''fetch_error'' then False
      else transient \<or> has_transient_http_status (sn_detail err))"

definition error_snapshot :: "fetch_error \<Rightarrow> bool \<Rightarrow> usage_snapshot" where
  "error_snapshot e deadline =
     (let s = (case fe_snapshot e of
                 None \<Rightarrow> empty_snapshot\<lparr>sn_status := ''fetch_error'', sn_error := fe_text e\<rparr>
               | Some s \<Rightarrow>
                   s\<lparr>sn_status := (if sn_status s = [] then ''fetch_error'' else sn_status s),
                     sn_error := (if sn_error s = [] then fe_text e else sn_error s)\<rparr>)
      in if deadline then s\<lparr>sn_status := ''timeout''\<rparr> else s)"

definition stale_entry :: "usage_snapshot \<Rightarrow> usage_entry \<Rightarrow> usage_entry" where
  "stale_entry err previous =
     entry_of ((ue_profile previous)\<lparr>up_snap := (entry_snap previous)
       \<lparr>sn_status := ''stale_cache'', sn_stale := True, sn_error := sn_error err,
        sn_detail := sn_detail err\<rparr>\<rparr>)"

definition fetched_entry :: "string \<Rightarrow> int \<Rightarrow> fetch_answer \<Rightarrow> usage_entry \<Rightarrow> usage_entry \<times> bool" where
  "fetched_entry n now a previous =
     (case fa_result a of
        FetchOk s \<Rightarrow>
          (entry_of (profile_from_snapshot
             (s\<lparr>sn_status := (if sn_status s = [] then ''ok'' else sn_status s), sn_last := Some now\<rparr>) n),
           True)
      | FetchErr e \<Rightarrow>
          let err = error_snapshot e (fa_deadline a) in
          (if should_preserve_previous (fe_transient e) err previous then stale_entry err previous
           else entry_of (profile_from_snapshot (err\<lparr>sn_last := Some now\<rparr>) n),
           False))"

definition fetch_one ::
    "usage_world \<Rightarrow> string \<Rightarrow> int \<Rightarrow> fetch_answer \<Rightarrow> usage_entry \<Rightarrow> usage_entry" where
  "fetch_one W key now a previous =
     (if \<not> wd_registered W key
      then entry_of (profile_from_snapshot (empty_snapshot\<lparr>sn_status := ''not_configured''\<rparr>) ''local'')
      else fst (fetched_entry ''local'' now a previous))"

definition unsupported_tool :: fetch_answer where
  "unsupported_tool =
     \<lparr>fa_result = FetchErr \<lparr>fe_snapshot = None, fe_text = ''unsupported switcher tool'', fe_transient = False\<rparr>,
      fa_deadline = False, fa_email = None\<rparr>"

definition fetch_stored_profile ::
    "listed_profile \<Rightarrow> int \<Rightarrow> fetch_answer \<Rightarrow> usage_entry \<Rightarrow> usage_entry \<times> bool" where
  "fetch_stored_profile p now a previous =
     fetched_entry (pi_name p) now
       (if pi_tool p = ''claude'' \<or> pi_tool p = ''codex'' then a else unsupported_tool) previous"

definition expired_entry :: "string \<Rightarrow> listed_profile \<Rightarrow> usage_entry \<Rightarrow> int \<Rightarrow> usage_entry option" where
  "expired_entry key p previous now =
     (if key \<noteq> ''claude-code'' \<and> key \<noteq> ''codex'' then None
      else case lp_expires p of
             None \<Rightarrow> None
           | Some t \<Rightarrow>
               if now < t then None
               else
                 let q = (if entry_name previous \<noteq> [] then ue_profile previous
                          else profile_from_snapshot empty_snapshot (pi_name p));
                     s = up_snap q;
                     stale = (entry_name previous \<noteq> [] \<and> (sn_windows s \<noteq> [] \<or> sn_credits s \<noteq> None))
                 in Some (entry_of (q\<lparr>up_snap :=
                      s\<lparr>sn_stale := stale \<or> sn_stale s, sn_status := ''expired'',
                        sn_error := ''access token expired'', sn_detail := None,
                        sn_last := (case sn_last s of None \<Rightarrow> Some now | Some t1 \<Rightarrow> Some t1)\<rparr>\<rparr>)))"

subsection \<open>A fetch, before and after the answer of the provider\<close>

record fetch_job =
  jb_key :: string
  jb_profile :: listed_profile
  jb_owner :: "(profile_owner \<times> nat) option"
  jb_previous :: usage_entry
  jb_interval :: int
  jb_now :: int
  jb_enabled_only :: bool
  jb_stored :: string

definition provider_enabled :: "usage_config \<Rightarrow> string \<Rightarrow> bool" where
  "provider_enabled c key = pv_enabled (get_or no_provider_config (uc_providers c) key)"

definition fetch_begin ::
    "usage_world \<Rightarrow> string \<Rightarrow> listed_profile \<Rightarrow> bool \<Rightarrow> bool \<Rightarrow> usage_manager \<Rightarrow>
     usage_error + fetch_job option" where
  "fetch_begin W key p0 force enabled_only u =
     (let owner = (if pi_active p0 then active_profile_owner W (um_config u) key else None);
          p = (case owner of None \<Rightarrow> p0 | Some o1 \<Rightarrow> ow_profile o1)
      in if pi_active p0 \<and> (owner = None \<or> pi_name p \<noteq> pi_name p0 \<or> pi_path p \<noteq> pi_path p0) then Inr None
         else
           case load_config (um_config u) of
             None \<Rightarrow> Inl ConfigUnreadable
           | Some c \<Rightarrow>
               if enabled_only \<and> \<not> provider_enabled c key then Inr None
               else
                 let prev = find_entry (get_or [] (load_cache (um_cache u)) key) (pi_name p);
                     interval = fst (refresh_interval (wd_env W) c);
                     changed = (pi_active p \<and> active_credentials_changed W key u)
                 in if \<not> fetch_due (wd_now W) interval force changed prev then Inr None
                    else Inr (Some
                      \<lparr>jb_key = key, jb_profile = p,
                       jb_owner = map_option (\<lambda>o1. (o1, get_or 0 (um_generation u) key)) owner,
                       jb_previous = (case prev of None \<Rightarrow> no_entry | Some e \<Rightarrow> e),
                       jb_interval = interval, jb_now = wd_now W, jb_enabled_only = enabled_only,
                       jb_stored = (if pi_active p then [] else credential_fingerprint W (pi_path p))\<rparr>))"

definition email_floor :: int where "email_floor = 3600 * second"

definition with_email :: "usage_world \<Rightarrow> fetch_job \<Rightarrow> fetch_answer \<Rightarrow> usage_entry \<Rightarrow> usage_entry" where
  "with_email W j a e =
     (let prev = jb_previous j; old = ue_email_at prev in
      if \<not> pi_active (jb_profile j) \<or> \<not> wd_registered W (jb_key j) \<or> jb_key j \<noteq> ''github-copilot'' then e
      else if old = None \<or> ue_email_scope prev \<noteq> wd_scope W \<or>
              max email_floor (jb_interval j) \<le> jb_now j - the old
      then (case fa_email a of
              Some addr \<Rightarrow>
                if addr = [] then e
                else e\<lparr>ue_profile := (ue_profile e)\<lparr>up_email := addr\<rparr>, ue_email_at := Some (wd_now W),
                       ue_email_scope := wd_scope W\<rparr>
            | None \<Rightarrow> e)
      else e\<lparr>ue_profile := (ue_profile e)\<lparr>up_email := up_email (ue_profile prev)\<rparr>, ue_email_at := old,
             ue_email_scope := ue_email_scope prev\<rparr>)"

text \<open>The entry of a job and whether the provider answered without an error.\<close>

definition job_entry :: "usage_world \<Rightarrow> fetch_job \<Rightarrow> fetch_answer \<Rightarrow> usage_entry \<times> bool" where
  "job_entry W j a =
     (let p = jb_profile j; prev = jb_previous j;
          (e, ok) = (case expired_entry (jb_key j) p prev (jb_now j) of
                       Some x \<Rightarrow> (x, True)
                     | None \<Rightarrow>
                         if pi_active p then (fetch_one W (jb_key j) (jb_now j) a prev, True)
                         else fetch_stored_profile p (jb_now j) a prev)
      in (with_email W j a (e\<lparr>ue_profile := profile_facts p (ue_profile e)\<rparr>), ok))"

definition still_owner :: "usage_world \<Rightarrow> fetch_job \<Rightarrow> usage_manager \<Rightarrow> bool" where
  "still_owner W j u =
     (case jb_owner j of
        None \<Rightarrow> True
      | Some (o1, generation) \<Rightarrow>
          (case active_profile_owner W (um_config u) (jb_key j) of
             None \<Rightarrow> False
           | Some cur \<Rightarrow>
               generation = get_or 0 (um_generation u) (jb_key j) \<and> same_active_profile_owner o1 cur))"

record fetch_report =
  fr_changed :: bool
  fr_failed :: bool

text \<open>
  \<open>None\<close> in the first component is an error of the files. A provider that was disabled meanwhile is
  reported as changed although nothing is written.
\<close>

definition fetch_end ::
    "usage_world \<Rightarrow> fetch_job \<Rightarrow> fetch_answer \<Rightarrow> usage_manager \<Rightarrow> fetch_report option \<times> usage_manager" where
  "fetch_end W j a u =
     (let key = jb_key j; p = jb_profile j; (e, ok) = job_entry W j a;
          seen = (\<lambda>u. case jb_owner j of
                        None \<Rightarrow> u
                      | Some (o1, _) \<Rightarrow> u\<lparr>um_fingerprints := put key (ow_fingerprint o1) (um_fingerprints u)\<rparr>)
      in if \<not> pi_active p \<and> jb_stored j \<noteq> credential_fingerprint W (pi_path p)
         then (Some \<lparr>fr_changed = False, fr_failed = True\<rparr>, u)
         else if \<not> still_owner W j u then (Some \<lparr>fr_changed = False, fr_failed = False\<rparr>, u)
         else
           case load_config (um_config u) of
             None \<Rightarrow> (None, u)
           | Some c \<Rightarrow>
               if jb_enabled_only j \<and> \<not> provider_enabled c key
               then (Some \<lparr>fr_changed = True, fr_failed = \<not> ok\<rparr>, seen u)
               else
                 let cache = load_cache (um_cache u);
                     e1 = redact_entry (config_secrets c) e;
                     u1 = snd (save_cache (put key (set_entry (get_or [] cache key) (pi_name p) e1) cache) u)
                 in (Some \<lparr>fr_changed = True, fr_failed = \<not> ok\<rparr>, seen u1))"

definition fetch_profile ::
    "usage_world \<Rightarrow> (string \<Rightarrow> string \<Rightarrow> fetch_answer) \<Rightarrow> bool \<Rightarrow> bool \<Rightarrow> string \<times> listed_profile \<Rightarrow>
     usage_manager \<Rightarrow> fetch_report option \<times> usage_manager" where
  "fetch_profile W net force enabled_only = (\<lambda>(key, p) u.
     (case fetch_begin W key p force enabled_only u of
        Inl _ \<Rightarrow> (None, u)
      | Inr None \<Rightarrow> (Some \<lparr>fr_changed = False, fr_failed = False\<rparr>, u)
      | Inr (Some j) \<Rightarrow> fetch_end W j (net key (pi_name p)) u))"

subsection \<open>Refreshing\<close>

definition fetch_targets ::
    "usage_world \<Rightarrow> string list \<Rightarrow> bool \<Rightarrow> usage_config \<Rightarrow> usage_cache \<Rightarrow> usage_manager \<Rightarrow>
     (string \<times> listed_profile) list" where
  "fetch_targets W ks force c cache u =
     concat (map (\<lambda>key.
       if \<not> provider_enabled c key then []
       else map (Pair key)
              (filter (\<lambda>p. fetch_due (wd_now W) (fst (refresh_interval (wd_env W) c)) force
                            (pi_active p \<and> active_credentials_changed W key u)
                            (find_entry (get_or [] cache key) (pi_name p)))
                (profiles_for_provider W (um_config u) key))) ks)"

fun fetch_all ::
    "(string \<times> listed_profile \<Rightarrow> usage_manager \<Rightarrow> fetch_report option \<times> usage_manager) \<Rightarrow>
     (string \<times> listed_profile) list \<Rightarrow> usage_manager \<Rightarrow> fetch_report option list \<times> usage_manager" where
  "fetch_all f [] u = ([], u)"
| "fetch_all f (t # ts) u =
     (let (r, u1) = f t u; (rs, u2) = fetch_all f ts u1 in (r # rs, u2))"

definition refresh_with_change ::
    "usage_world \<Rightarrow> (string \<Rightarrow> string \<Rightarrow> fetch_answer) \<Rightarrow> string \<Rightarrow> bool \<Rightarrow> usage_manager \<Rightarrow>
     (usage_error + usage_response \<times> bool) \<times> usage_manager" where
  "refresh_with_change W net provider force u =
     (let ks = (if provider = [] then known_providers else [provider]) in
      case published W u of
        (Inl e, u1) \<Rightarrow> (Inl e, u1)
      | (Inr (c, cache, r), u1) \<Rightarrow>
          let ts = fetch_targets W ks force c cache u1 in
          if ts = [] then (Inr (r, False), u1)
          else
            let (rs, u2) = fetch_all (fetch_profile W net force True) ts u1;
                bad = list_ex (\<lambda>x. x = None) rs;
                changed = list_ex (\<lambda>x. case x of None \<Rightarrow> False | Some y \<Rightarrow> fr_changed y) rs
            in if bad \<and> (provider \<noteq> [] \<or> list_all (\<lambda>x. x = None) rs) then (Inl FetchFailed, u2)
               else (case published W u2 of
                       (Inl e, u3) \<Rightarrow> (Inl e, u3)
                     | (Inr (_, _, r1), u3) \<Rightarrow> (Inr (r1, changed), u3)))"

text \<open>The last component is what the update hook is called with.\<close>

definition force_refresh ::
    "usage_world \<Rightarrow> (string \<Rightarrow> string \<Rightarrow> fetch_answer) \<Rightarrow> string \<Rightarrow> usage_manager \<Rightarrow>
     (usage_error + usage_response) \<times> usage_manager \<times> usage_response option" where
  "force_refresh W net provider u =
     (if provider \<noteq> [] \<and> \<not> known_provider provider then (Inl UnknownProvider, u, None)
      else
        let (wait, u1) = check_force_cooldown (wd_now W) u in
        if 0 < wait then (Inl (ForceCooldown wait), u1, None)
        else case refresh_with_change W net provider True u1 of
               (Inl e, u2) \<Rightarrow> (Inl e, u2, None)
             | (Inr (r, changed), u2) \<Rightarrow> (Inr r, u2, if changed then Some r else None))"

definition poll_tick ::
    "usage_world \<Rightarrow> (string \<Rightarrow> string \<Rightarrow> fetch_answer) \<Rightarrow> usage_manager \<Rightarrow> usage_manager \<times> usage_response option" where
  "poll_tick W net u =
     (case refresh_with_change W net [] False u of
        (Inl e, u1) \<Rightarrow> (u1, None)
      | (Inr (r, changed), u1) \<Rightarrow>
          (u1, if changed \<and> vr_providers r \<noteq> [] then Some (r\<lparr>vr_switcher := wd_switcher W\<rparr>) else None))"

definition fetch_profile_snapshot ::
    "usage_world \<Rightarrow> (string \<Rightarrow> string \<Rightarrow> fetch_answer) \<Rightarrow> string \<Rightarrow> string \<Rightarrow> string \<Rightarrow> usage_manager \<Rightarrow>
     usage_profile option \<times> usage_manager" where
  "fetch_profile_snapshot W net tool name path u =
     (let key = registry_key_for_tool tool;
          p = \<lparr>pi_tool = tool, pi_name = name, pi_active = False, pi_path = path,
               pi_credentials = has_file W path, pi_away = None, lp_email = [], lp_expires = None\<rparr>
      in case fetch_profile W net False False (key, p) u of
           (None, u1) \<Rightarrow> (None, u1)
         | (Some r, u1) \<Rightarrow>
             (if fr_failed r then None
              else Some (case find_entry (get_or [] (load_cache (um_cache u1)) key) name of
                           None \<Rightarrow> profile_from_snapshot empty_snapshot []
                         | Some e \<Rightarrow> ue_profile e),
              u1))"

text \<open>After a switch: the entry goes, and a fetch in flight no longer counts.\<close>

fun remove_entry :: "string \<Rightarrow> usage_entry list \<Rightarrow> usage_entry list" where
  "remove_entry n [] = []"
| "remove_entry n (x # xs) = (if entry_name x = n then xs else x # remove_entry n xs)"

definition invalidate_profile_snapshot :: "string \<Rightarrow> string \<Rightarrow> usage_manager \<Rightarrow> usage_manager" where
  "invalidate_profile_snapshot tool name u =
     (let key = registry_key_for_tool tool;
          u1 = u\<lparr>um_generation := put key (get_or 0 (um_generation u) key + 1) (um_generation u),
                 um_fingerprints := del key (um_fingerprints u)\<rparr>;
          cache = load_cache (um_cache u)
      in snd (save_cache (put key (remove_entry name (get_or [] cache key)) cache) u1))"

subsection \<open>Settings\<close>

definition store_config ::
    "usage_config \<Rightarrow> usage_manager \<Rightarrow> (usage_error + usage_config) \<times> usage_manager" where
  "store_config c u =
     (case save_config c of
        Inl e \<Rightarrow> (Inl (ConfigRejected e), u)
      | Inr f \<Rightarrow> (Inr c, u\<lparr>um_config := f\<rparr>))"

record settings_update =
  su_interval :: int
  su_display :: string
  su_order :: "string list option"
  su_auto :: "bool option"
  su_mode :: "string option"
  su_schedule :: "string option"
  su_claude_flag :: "string option"
  su_codex_flag :: "string option"

definition invalid_update :: "settings_update \<Rightarrow> config_error option" where
  "invalid_update q =
     (if su_interval q \<noteq> 0 \<and> su_interval q < min_refresh_sec then Some IntervalTooSmall
      else if su_display q \<noteq> [] \<and> \<not> valid_percent_display (su_display q) then Some BadPercentDisplay
      else if \<not> (case su_mode q of None \<Rightarrow> True | Some m \<Rightarrow> valid_warmup_mode m) then Some BadWarmupMode
      else if (case su_schedule q of None \<Rightarrow> False | Some l \<Rightarrow> parse_warmup_schedules l = None)
           then Some BadSchedule
      else if \<not> (case su_claude_flag q of None \<Rightarrow> True | Some v \<Rightarrow> valid_claude_model_flag v)
           then Some BadClaudeFlag
      else if \<not> (case su_codex_flag q of None \<Rightarrow> True | Some v \<Rightarrow> valid_codex_model_flag v)
           then Some BadCodexFlag
      else None)"

definition updated_config :: "settings_update \<Rightarrow> usage_config \<Rightarrow> usage_config" where
  "updated_config q c =
     c\<lparr>uc_interval := (if su_interval q \<noteq> 0 then su_interval q else uc_interval c),
       uc_display := (if su_display q \<noteq> [] then su_display q else uc_display c),
       uc_order := (case su_order q of None \<Rightarrow> uc_order c | Some ks \<Rightarrow> normalize_provider_order ks),
       uc_auto := (case su_auto q of None \<Rightarrow> uc_auto c | Some b \<Rightarrow> b),
       uc_managed := (su_auto q = Some True \<or> uc_managed c),
       uc_mode := (case su_mode q of None \<Rightarrow> uc_mode c | Some m \<Rightarrow> m),
       uc_schedule := (case su_schedule q of None \<Rightarrow> uc_schedule c | Some l \<Rightarrow> l),
       uc_claude_flag := (case su_claude_flag q of None \<Rightarrow> uc_claude_flag c | Some v \<Rightarrow> v),
       uc_codex_flag := (case su_codex_flag q of None \<Rightarrow> uc_codex_flag c | Some v \<Rightarrow> v)\<rparr>"

definition pending_tokens :: "(string, token_state) table" where
  "pending_tokens =
     [(''claude'', \<lparr>tk_status = ''pending'', tk_reason = []\<rparr>),
      (''codex'', \<lparr>tk_status = ''pending'', tk_reason = []\<rparr>)]"

definition update_settings ::
    "usage_world \<Rightarrow> settings_update \<Rightarrow> usage_manager \<Rightarrow> (usage_error + usage_settings) \<times> usage_manager" where
  "update_settings W q u =
     (case invalid_update q of
        Some e \<Rightarrow> (Inl (ConfigRejected e), u)
      | None \<Rightarrow>
          (case load_config (um_config u) of
             None \<Rightarrow> (Inl ConfigUnreadable, u)
           | Some c \<Rightarrow>
               (case store_config (updated_config q c) u of
                  (Inl e, u1) \<Rightarrow> (Inl e, u1)
                | (Inr c1, u1) \<Rightarrow>
                    let u2 = (if uc_auto c1 \<noteq> uc_auto c
                              then u1\<lparr>um_epoch := um_epoch u1 + 1, um_tokens := pending_tokens,
                                      um_requested := True\<rparr>
                              else u1)
                    in (Inr (decorate_settings W c1 u2), u2))))"

text \<open>
  Read the configuration, change one provider, write it. The other handlers of \<open>http.go\<close> that change
  a provider are instances of it.
\<close>

definition change_provider ::
    "string \<Rightarrow> (provider_config \<Rightarrow> usage_error + provider_config) \<Rightarrow> usage_manager \<Rightarrow>
     (usage_error + usage_config) \<times> usage_manager" where
  "change_provider key f u =
     (case load_config (um_config u) of
        None \<Rightarrow> (Inl ConfigUnreadable, u)
      | Some c \<Rightarrow>
          (case f (get_or no_provider_config (uc_providers c) key) of
             Inl e \<Rightarrow> (Inl e, u)
           | Inr pc \<Rightarrow> store_config (c\<lparr>uc_providers := put key pc (uc_providers c)\<rparr>) u))"

definition provider_ready :: "string \<Rightarrow> provider_config \<Rightarrow> bool" where
  "provider_ready key pc =
     (if key = ''github-copilot'' then pv_token pc \<noteq> []
      else if key = ''mistral'' then pv_cookie pc \<noteq> []
      else if key = ''ollama-cloud'' then
        (let mode = normalize_ollama_auth_mode (pv_auth_mode pc); cookie = (pv_cookie pc \<noteq> []);
             api_key = (trim_space (pv_api_key pc) \<noteq> [])
         in if mode = ''cookie'' then cookie else if mode = ''api_key'' then api_key else cookie \<or> api_key)
      else True)"

definition set_provider_enabled ::
    "string \<Rightarrow> bool \<Rightarrow> usage_manager \<Rightarrow> (usage_error + usage_config) \<times> usage_manager" where
  "set_provider_enabled key enabled u =
     (if \<not> known_provider key then (Inl UnknownProvider, u)
      else change_provider key
             (\<lambda>pc. if enabled \<and> \<not> provider_ready key pc then Inl SecretMissing
                   else Inr (pc\<lparr>pv_enabled := enabled\<rparr>)) u)"

definition forget_snapshots :: "string \<Rightarrow> usage_manager \<Rightarrow> usage_manager" where
  "forget_snapshots key u = snd (save_cache (del key (load_cache (um_cache u))) u)"

definition new_cookie ::
    "(string \<Rightarrow> string option) \<Rightarrow> string option \<Rightarrow> string \<Rightarrow> string option" where
  "new_cookie tidy cookie old =
     (case cookie of
        None \<Rightarrow> Some old
      | Some raw \<Rightarrow> if trim_space raw = [] then Some [] else tidy (trim_space raw))"

definition ollama_provider ::
    "(string \<Rightarrow> string) \<Rightarrow> string \<Rightarrow> string option \<Rightarrow> string option \<Rightarrow> provider_config \<Rightarrow>
     usage_error + provider_config" where
  "ollama_provider extract auth_mode api_key cookie pc =
     (let mode = normalize_ollama_auth_mode (if auth_mode \<noteq> [] then auth_mode else pv_auth_mode pc);
          api = (case api_key of None \<Rightarrow> pv_api_key pc | Some v \<Rightarrow> normalize_ollama_api_key v)
      in case new_cookie (normalize_ollama_cookie extract) cookie (pv_cookie pc) of
           None \<Rightarrow> Inl CookieRejected
         | Some c \<Rightarrow>
             Inr (pc\<lparr>pv_auth_mode := mode, pv_api_key := api, pv_cookie := c,
                     pv_enabled := (if mode = ''cookie'' then c \<noteq> [] else if mode = ''api_key'' then api \<noteq> []
                                    else c \<noteq> [] \<or> api \<noteq> [])\<rparr>))"

definition set_ollama_config ::
    "(string \<Rightarrow> string) \<Rightarrow> string \<Rightarrow> string option \<Rightarrow> string option \<Rightarrow> usage_manager \<Rightarrow>
     (usage_error + usage_config) \<times> usage_manager" where
  "set_ollama_config extract auth_mode api_key cookie u =
     (case change_provider ''ollama-cloud'' (ollama_provider extract auth_mode api_key cookie) u of
        (Inl e, u1) \<Rightarrow> (Inl e, u1)
      | (Inr c, u1) \<Rightarrow> (Inr c, forget_snapshots ''ollama-cloud'' u1))"

definition mistral_provider ::
    "(string \<Rightarrow> string) \<Rightarrow> string option \<Rightarrow> provider_config \<Rightarrow> usage_error + provider_config" where
  "mistral_provider extract cookie pc =
     (case new_cookie (normalize_mistral_cookie extract) cookie (pv_cookie pc) of
        None \<Rightarrow> Inl CookieRejected
      | Some c \<Rightarrow> Inr (pc\<lparr>pv_cookie := c, pv_enabled := (c \<noteq> [])\<rparr>))"

definition set_mistral_config ::
    "(string \<Rightarrow> string) \<Rightarrow> string option \<Rightarrow> usage_manager \<Rightarrow> (usage_error + usage_config) \<times> usage_manager" where
  "set_mistral_config extract cookie u =
     (case change_provider ''mistral'' (mistral_provider extract cookie) u of
        (Inl e, u1) \<Rightarrow> (Inl e, u1)
      | (Inr c, u1) \<Rightarrow> (Inr c, forget_snapshots ''mistral'' u1))"

definition copilot_host :: "string \<Rightarrow> usage_manager \<Rightarrow> (usage_error + usage_config) \<times> usage_manager" where
  "copilot_host host = change_provider ''github-copilot'' (\<lambda>pc. Inr (pc\<lparr>pv_host := host\<rparr>))"

definition copilot_login :: "string \<Rightarrow> usage_manager \<Rightarrow> (usage_error + usage_config) \<times> usage_manager" where
  "copilot_login token =
     change_provider ''github-copilot'' (\<lambda>pc. Inr (pc\<lparr>pv_token := token, pv_enabled := True\<rparr>))"

definition copilot_logout :: "usage_manager \<Rightarrow> (usage_error + usage_config) \<times> usage_manager" where
  "copilot_logout =
     change_provider ''github-copilot'' (\<lambda>pc. Inr (pc\<lparr>pv_token := [], pv_enabled := False\<rparr>))"

definition sanitize_usage_config :: "usage_config \<Rightarrow> usage_config" where
  "sanitize_usage_config c =
     c\<lparr>uc_providers := map_vals (\<lambda>_ pc. pc\<lparr>pv_token := [], pv_api_key := [], pv_cookie := []\<rparr>)
         (uc_providers c)\<rparr>"

subsection \<open>Following the switch of the token copies\<close>

text \<open>
  A pass of the controller that moves the credential files to the token-copy model or back. It runs
  without a lock between \<open>reconcile_begin\<close> and \<open>reconcile_end\<close>; its result is a parameter.
\<close>

record copy_pass =
  cp_epoch :: nat
  cp_auto :: bool
  cp_now :: int

definition token_status :: "(string, token_state) table \<Rightarrow> string \<Rightarrow> string" where
  "token_status ts tool = tk_status (get_or \<lparr>tk_status = [], tk_reason = []\<rparr> ts tool)"

definition off_tokens :: "(string, token_state) table" where
  "off_tokens =
     [(''claude'', \<lparr>tk_status = ''off'', tk_reason = []\<rparr>), (''codex'', \<lparr>tk_status = ''off'', tk_reason = []\<rparr>)]"

definition copy_minute :: int where "copy_minute = 60 * second"

definition copy_backoff :: "int \<Rightarrow> usage_manager \<Rightarrow> bool" where
  "copy_backoff now u =
     ((token_status (um_tokens u) ''claude'' = ''waiting'' \<or> token_status (um_tokens u) ''codex'' = ''waiting'') \<and>
      um_last_epoch u = um_epoch u \<and>
      (case um_last_attempt u of None \<Rightarrow> False | Some t \<Rightarrow> now - t < copy_minute))"

definition reconcile_begin :: "usage_world \<Rightarrow> usage_manager \<Rightarrow> copy_pass option \<times> usage_manager" where
  "reconcile_begin W u =
     (case load_config (um_config u) of
        None \<Rightarrow> (None, u)
      | Some c \<Rightarrow>
          (case (if uc_auto c \<and> \<not> uc_managed c then store_config (c\<lparr>uc_managed := True\<rparr>) u else (Inr c, u)) of
             (Inl _, u1) \<Rightarrow> (None, u1)
           | (Inr _, u1) \<Rightarrow>
               if \<not> uc_auto c \<and> \<not> uc_managed c then (None, u1\<lparr>um_tokens := off_tokens\<rparr>)
               else if copy_backoff (wd_now W) u1 then (None, u1)
               else (Some \<lparr>cp_epoch = um_epoch u, cp_auto = uc_auto c, cp_now = wd_now W\<rparr>, u1)))"

definition reconcile_end ::
    "copy_pass \<Rightarrow> (string, token_state) table \<Rightarrow> usage_manager \<Rightarrow> usage_manager" where
  "reconcile_end p result u =
     (let u1 = (if um_epoch u = cp_epoch p
                then u\<lparr>um_tokens := result, um_last_epoch := cp_epoch p, um_last_attempt := Some (cp_now p)\<rparr>
                else u)
      in if \<not> cp_auto p \<and> token_status result ''claude'' = ''off'' \<and> token_status result ''codex'' = ''off''
         then (case load_config (um_config u1) of
                 None \<Rightarrow> u1
               | Some c \<Rightarrow>
                   if uc_auto c \<or> \<not> uc_managed c then u1
                   else snd (store_config (c\<lparr>uc_managed := False\<rparr>) u1))
         else u1)"

end
