(* ===== verification/UsageSteps.thy ===== *)
theory UsageSteps
  imports UsageCache StoreInv
begin

section \<open>What the usage manager promises\<close>

text \<open>
  The operations of \<open>UsageCache\<close> as a step relation: the configuration file stays well-formed and
  every valid change of the settings goes through; the cache follows the profiles; a failing provider
  leaves the last good numbers; a fetch that a switch overtakes leaves nothing.
\<close>

subsection \<open>The configuration file\<close>

definition config_good :: "config_file \<Rightarrow> bool" where
  "config_good f = (case load_config f of None \<Rightarrow> False | Some c \<Rightarrow> schedule_ok c)"

named_theorems conf \<open>operations that leave the configuration file alone\<close>

lemma config_save_cache [conf]: "um_config (snd (save_cache cache u)) = um_config u"
  by (simp add: save_cache_def split: option.split)

lemma config_published [conf]: "um_config (snd (published W u)) = um_config u"
  by (simp add: published_def Let_def case_prod_beta conf split: option.split)

lemma config_snapshot_request [conf]: "um_config (snd (usage_snapshot_request W p u)) = um_config u"
  using config_published [of W u]
  by (cases "published W u") (auto simp: usage_snapshot_request_def split: sum.split)

lemma config_fetch_end [conf]: "um_config (snd (fetch_end W j a u)) = um_config u"
  by (cases "jb_owner j")
    (simp_all add: fetch_end_def Let_def case_prod_beta conf split: option.split)

lemma config_fetch_profile [conf]: "um_config (snd (fetch_profile W net force eo t u)) = um_config u"
  by (cases t) (simp add: fetch_profile_def conf split: sum.split option.split)

lemma config_fetch_all [conf]:
  assumes "\<And>t u. um_config (snd (f t u)) = um_config u"
  shows "um_config (snd (fetch_all f ts u)) = um_config u"
  by (induction ts arbitrary: u) (simp_all add: Let_def case_prod_beta assms)

lemma config_refresh [conf]: "um_config (snd (refresh_with_change W net p force u)) = um_config u"
proof -
  obtain r u1 where p1: "published W u = (r, u1)" by (cases "published W u")
  then have u1: "um_config u1 = um_config u" using config_published [of W u] by simp
  let ?f = "fetch_profile W net force True"
  have all: "um_config (snd (fetch_all ?f ts u1)) = um_config u" for ts
    using config_fetch_all [of ?f ts u1] u1 by (simp add: conf)
  have "um_config (snd (published W (snd (fetch_all ?f ts u1)))) = um_config u" for ts
    by (simp add: conf all)
  then show ?thesis
    using p1 u1 all by (simp add: refresh_with_change_def Let_def case_prod_beta split: sum.split)
qed

lemma config_cooldown [conf]: "um_config (snd (check_force_cooldown now u)) = um_config u"
  by (simp add: check_force_cooldown_def split: option.split)

lemma config_force [conf]: "um_config (fst (snd (force_refresh W net p u))) = um_config u"
proof -
  obtain w u1 where c: "check_force_cooldown (wd_now W) u = (w, u1)"
    by (cases "check_force_cooldown (wd_now W) u")
  then have "um_config u1 = um_config u" using config_cooldown [of "wd_now W" u] by simp
  moreover obtain r u2 where "refresh_with_change W net p True u1 = (r, u2)"
    by (cases "refresh_with_change W net p True u1")
  moreover from this have "um_config u2 = um_config u1"
    using config_refresh [of W net p True u1] by simp
  ultimately show ?thesis
    using c by (auto simp: force_refresh_def split: sum.split)
qed

lemma config_tick [conf]: "um_config (fst (poll_tick W net u)) = um_config u"
  using config_refresh [of W net "[]" False u]
  by (cases "refresh_with_change W net [] False u") (auto simp: poll_tick_def split: sum.split)

lemma config_profile_snapshot [conf]:
  "um_config (snd (fetch_profile_snapshot W net tool name path u)) = um_config u"
  by (simp add: fetch_profile_snapshot_def Let_def case_prod_beta conf split: option.split)

lemma config_invalidate [conf]: "um_config (invalidate_profile_snapshot tool name u) = um_config u"
  by (simp add: invalidate_profile_snapshot_def Let_def conf)

lemma config_forget [conf]: "um_config (forget_snapshots key u) = um_config u"
  by (simp add: forget_snapshots_def conf)

subsection \<open>Handlers that write it\<close>

text \<open>Each of them leaves the file as it is or writes one that reads back well.\<close>

definition config_kept_or_good :: "usage_manager \<Rightarrow> usage_manager \<Rightarrow> bool" where
  "config_kept_or_good u u1 = (um_config u1 = um_config u \<or> config_good (um_config u1))"

lemma store_config_good:
  assumes "store_config c u = (r, u1)" "distinct (keys (uc_providers c))"
  shows "config_kept_or_good u u1"
proof (cases "save_config c")
  case (Inr f)
  then obtain d where "load_config f = Some d" "same_config d (saved_config c)"
    using save_load assms(2) by blast
  moreover from this(2) have "uc_schedule d = uc_schedule (saved_config c)"
    unfolding same_config_def by (metis usage_config.select_convs(9) usage_config.surjective usage_config.update_convs(10))
  moreover have "schedule_ok (saved_config c)" using saved_config_ok(2) Inr assms(2) by blast
  ultimately have "config_good f"
    by (simp add: config_good_def schedule_ok_def)
  then show ?thesis using assms(1) Inr by (auto simp: store_config_def config_kept_or_good_def)
qed (use assms in \<open>auto simp: store_config_def config_kept_or_good_def\<close>)

lemma loaded_distinct: "load_config f = Some c \<Longrightarrow> distinct (keys (uc_providers c))"
  using load_config_ok by (simp add: config_ok_def)

lemma change_provider_good: "config_kept_or_good u (snd (change_provider key f u))"
proof (cases "load_config (um_config u)")
  case (Some c)
  have "config_kept_or_good u (snd (store_config (c\<lparr>uc_providers := put key pc (uc_providers c)\<rparr>) u))" for pc
    by (rule store_config_good [OF prod.collapse [symmetric]]) (simp add: loaded_distinct [OF Some])
  then show ?thesis
    using Some by (simp add: change_provider_def config_kept_or_good_def split: sum.split)
qed (simp add: change_provider_def config_kept_or_good_def)

lemma update_settings_good: "config_kept_or_good u (snd (update_settings W q u))"
proof (cases "load_config (um_config u)")
  case (Some c)
  obtain r u1 where s: "store_config (updated_config q c) u = (r, u1)"
    by (cases "store_config (updated_config q c) u")
  have "distinct (keys (uc_providers (updated_config q c)))"
    using loaded_distinct [OF Some] by (simp add: updated_config_def)
  then have "config_kept_or_good u u1" by (rule store_config_good [OF s])
  then show ?thesis
    using Some s
    by (auto simp: update_settings_def Let_def config_kept_or_good_def split: option.split sum.split)
qed (simp add: update_settings_def config_kept_or_good_def split: option.split)

lemma reconcile_begin_good: "config_kept_or_good u (snd (reconcile_begin W u))"
proof (cases "load_config (um_config u)")
  case (Some c)
  obtain r u1 where s: "store_config (c\<lparr>uc_managed := True\<rparr>) u = (r, u1)"
    by (cases "store_config (c\<lparr>uc_managed := True\<rparr>) u")
  have "config_kept_or_good u u1"
    by (rule store_config_good [OF s]) (simp add: loaded_distinct [OF Some])
  then show ?thesis
    using Some s by (auto simp: reconcile_begin_def config_kept_or_good_def split: sum.split)
qed (simp add: reconcile_begin_def config_kept_or_good_def)

lemma reconcile_end_good: "config_kept_or_good u (reconcile_end p ts u)"
proof -
  define u1 where "u1 = (if um_epoch u = cp_epoch p
    then u\<lparr>um_tokens := ts, um_last_epoch := cp_epoch p, um_last_attempt := Some (cp_now p)\<rparr> else u)"
  have k: "um_config u1 = um_config u" by (simp add: u1_def)
  have "config_kept_or_good u (snd (store_config (c\<lparr>uc_managed := False\<rparr>) u1))"
    if "load_config (um_config u1) = Some c" for c
    using store_config_good [OF prod.collapse [symmetric], of "c\<lparr>uc_managed := False\<rparr>" u1]
      loaded_distinct [OF that] k
    by (simp add: config_kept_or_good_def)
  moreover have "config_kept_or_good u u1" by (simp add: k config_kept_or_good_def)
  ultimately show ?thesis
    unfolding reconcile_end_def u1_def [symmetric] by (simp split: option.split)
qed

lemma set_provider_enabled_good: "config_kept_or_good u (snd (set_provider_enabled key b u))"
  using change_provider_good by (simp add: set_provider_enabled_def config_kept_or_good_def)

lemma set_ollama_good: "config_kept_or_good u (snd (set_ollama_config extract m a ck u))"
  using change_provider_good [of u "''ollama-cloud''" "ollama_provider extract m a ck"]
  by (cases "change_provider ''ollama-cloud'' (ollama_provider extract m a ck) u")
    (simp add: set_ollama_config_def config_kept_or_good_def conf split: sum.split)

lemma set_mistral_good: "config_kept_or_good u (snd (set_mistral_config extract ck u))"
  using change_provider_good [of u "''mistral''" "mistral_provider extract ck"]
  by (cases "change_provider ''mistral'' (mistral_provider extract ck) u")
    (simp add: set_mistral_config_def config_kept_or_good_def conf split: sum.split)

subsection \<open>All operations as steps\<close>

inductive usage_step :: "usage_manager \<Rightarrow> usage_manager \<Rightarrow> bool" where
  get: "usage_step u (snd (usage_snapshot_request W p u))"
| force: "usage_step u (fst (snd (force_refresh W net p u)))"
| tick: "usage_step u (fst (poll_tick W net u))"
| fetch_answer: "usage_step u (snd (fetch_end W j a u))"
| profile_snapshot: "usage_step u (snd (fetch_profile_snapshot W net tool name path u))"
| invalidate: "usage_step u (invalidate_profile_snapshot tool name u)"
| change: "usage_step u (snd (update_settings W q u))"
| enabling: "usage_step u (snd (set_provider_enabled key b u))"
| ollama: "usage_step u (snd (set_ollama_config extract m api ck u))"
| mistral: "usage_step u (snd (set_mistral_config extract ck u))"
| host: "usage_step u (snd (copilot_host h u))"
| login: "usage_step u (snd (copilot_login token u))"
| logout: "usage_step u (snd (copilot_logout u))"
| copies_begin: "usage_step u (snd (reconcile_begin W u))"
| copies_end: "usage_step u (reconcile_end p ts u)"

lemma usage_step_config: "usage_step u u1 \<Longrightarrow> config_kept_or_good u u1"
proof (induction rule: usage_step.induct)
  case (host u h) show ?case unfolding copilot_host_def by (rule change_provider_good)
next
  case (login u token) show ?case unfolding copilot_login_def by (rule change_provider_good)
next
  case (logout u) show ?case unfolding copilot_logout_def by (rule change_provider_good)
next
  case (change u W q) show ?case by (rule update_settings_good)
next
  case (enabling u key b) show ?case by (rule set_provider_enabled_good)
next
  case (ollama u ex1 m api ck) show ?case by (rule set_ollama_good)
next
  case (mistral u ex1 ck) show ?case by (rule set_mistral_good)
next
  case (copies_begin u W) show ?case by (rule reconcile_begin_good)
next
  case (copies_end u p ts) show ?case by (rule reconcile_end_good)
qed (simp_all add: config_kept_or_good_def conf)

interpretation usage: invariant_relation usage_step "\<lambda>u. config_good (um_config u)"
proof unfold_locales
  show "config_good (um_config u1)" if "usage_step u u1" "config_good (um_config u)" for u u1
    using usage_step_config [OF that(1)] that(2) by (auto simp: config_kept_or_good_def)
qed

lemma valid_update_stored:
  assumes "config_good (um_config u)" "invalid_update q = None"
  shows "\<exists>v. fst (update_settings W q u) = Inr v"
proof -
  obtain c where c: "load_config (um_config u) = Some c" "schedule_ok c"
    using assms(1) by (auto simp: config_good_def split: option.splits)
  have ok: "config_ok c" using load_config_ok c(1) .
  let ?d = "updated_config q c"
  have valid: "min_refresh_sec \<le> uc_interval ?d" "valid_percent_display (uc_display ?d)"
    "valid_warmup_mode (uc_mode ?d)" "valid_claude_model_flag (uc_claude_flag ?d)"
    "valid_codex_model_flag (uc_codex_flag ?d)" "parse_warmup_schedules (uc_schedule ?d) \<noteq> None"
    using ok c(2) assms(2)
    by (auto simp: updated_config_def config_ok_def schedule_ok_def invalid_update_def
        split: option.splits if_splits)
  then have "\<exists>f. save_config ?d = Inr f"
    by (auto simp: save_config_def Let_def saved_config_def valid_percent_display_def)
  then show ?thesis
    using c(1) assms(2) by (auto simp: update_settings_def store_config_def Let_def)
qed

text \<open>C5. The configuration file stays well-formed. Whatever requests, polls, switches and passes of
  the token copies follow, a file that reads well keeps reading well: the interval is at least the
  minimum, the mode, the display and the model flags are valid ones, the cron lines parse, every known
  provider has an entry, the order lists each of them once. And every change of the settings whose
  fields are valid is accepted.\<close>

theorem usage_config_well_formed:
  assumes "config_good (um_config u0)" "usage_step\<^sup>*\<^sup>* u0 u"
  shows "\<exists>c. load_config (um_config u) = Some c \<and> config_ok c \<and> schedule_ok c \<and>
    (invalid_update q = None \<longrightarrow> (\<exists>v. fst (update_settings W q u) = Inr v))"
proof -
  have good: "config_good (um_config u)" by (rule usage.reachable_good [OF assms(2,1)])
  then obtain c where "load_config (um_config u) = Some c" "schedule_ok c"
    by (auto simp: config_good_def split: option.splits)
  then show ?thesis using load_config_ok valid_update_stored [OF good] by blast
qed

definition sample_manager :: usage_manager where
  "sample_manager =
     \<lparr>um_config = NoConfig, um_cache = NoCache, um_force = None, um_generation = [],
      um_fingerprints = [], um_tokens = [], um_epoch = 0, um_last_epoch = 0, um_last_attempt = None,
      um_requested = False\<rparr>"

definition no_update :: settings_update where
  "no_update =
     \<lparr>su_interval = 0, su_display = [], su_order = None, su_auto = None, su_mode = None,
      su_schedule = None, su_claude_flag = None, su_codex_flag = None\<rparr>"

definition sample_world :: usage_world where
  "sample_world =
     \<lparr>wd_now = 0, wd_env = [], wd_listed = (\<lambda>_. Some []), wd_docs = [], wd_live = (\<lambda>t. t),
      wd_sha = (\<lambda>_. []), wd_readers = \<lparr>rd_jwt = (\<lambda>_. None), rd_time = (\<lambda>_. None)\<rparr>,
      wd_registered = (\<lambda>_. True), wd_eligible = (\<lambda>_. (True, False, [])), wd_switcher = True,
      wd_available = True, wd_owns = (\<lambda>_. False), wd_migrated = (\<lambda>_. False), wd_alerts = [],
      wd_scope = []\<rparr>"

definition nightly :: settings_update where
  "nightly = no_update\<lparr>su_mode := Some ''scheduled'', su_schedule := Some ''0 4 * * 7''\<rparr>"

lemma usage_config_well_formed_witness:
  "\<exists>v. fst (update_settings sample_world nightly
     (snd (update_settings sample_world nightly sample_manager))) = Inr v"
proof -
  have "config_good (um_config sample_manager)" by code_simp
  moreover have "usage_step\<^sup>*\<^sup>* sample_manager (snd (update_settings sample_world nightly sample_manager))"
    by (rule r_into_rtranclp) (rule usage_step.change)
  moreover have "invalid_update nightly = None" by code_simp
  ultimately show ?thesis using usage_config_well_formed by blast
qed

text \<open>One bad cron line in the file blocks a change that has nothing to do with it.\<close>

definition hand_edited :: config_file where
  "hand_edited = ConfigFile (JObject [(''warmup_schedule'', JString ''0 25 * * *'')])"

lemma bad_schedule_blocks_logout:
  "load_config hand_edited \<noteq> None \<and>
   fst (copilot_logout (sample_manager\<lparr>um_config := hand_edited\<rparr>)) = Inl (ConfigRejected BadSchedule)"
  by code_simp

subsection \<open>The cache follows the profiles\<close>

text \<open>
  Where a filed entry comes from: an entry of that name, or one from before names were kept when the
  local login is all there is.
\<close>

definition files_under :: "bool \<Rightarrow> string \<Rightarrow> usage_entry \<Rightarrow> bool" where
  "files_under implicit n e =
     (if entry_name e = [] \<or> entry_name e = ''default'' then implicit \<and> n = ''local'' else entry_name e = n)"

lemma file_entry_source:
  assumes "map_of (file_entry implicit valid e0 t) n = Some e"
  shows "map_of t n = Some e \<or>
    (files_under implicit n e0 \<and> entry_snap e = entry_snap e0 \<and> ue_email_at e = ue_email_at e0 \<and>
     up_email (ue_profile e) = up_email (ue_profile e0))"
  using assms
  by (auto simp: file_entry_def Let_def files_under_def set_entry_name_def newer_entry_def
      split: if_splits option.splits)

lemma filed_source:
  assumes "map_of (fold (file_entry implicit valid) es t) n = Some e"
  shows "map_of t n = Some e \<or>
    (\<exists>e0 \<in> set es. files_under implicit n e0 \<and> entry_snap e = entry_snap e0 \<and>
       ue_email_at e = ue_email_at e0 \<and> up_email (ue_profile e) = up_email (ue_profile e0))"
  using assms
proof (induction es arbitrary: t)
  case (Cons x xs)
  then show ?case using file_entry_source [of implicit valid x t n e] by fastforce
qed simp

lemma normalized_names: "map entry_name (normalize_profile_entries es ps) = map pi_name ps"
  by (simp add: normalize_profile_entries_def Let_def profile_facts_def comp_def)

lemma normalized_source:
  assumes "e \<in> set (normalize_profile_entries es ps)"
  shows "entry_snap e = empty_snapshot \<or>
    (\<exists>e0 \<in> set es. files_under (map pi_name ps = [''local'']) (entry_name e) e0 \<and>
       entry_snap e = entry_snap e0)"
proof -
  let ?t = "fold (file_entry (map pi_name ps = [''local'']) (map pi_name ps)) es []"
  obtain p where p: "p \<in> set ps" "e = (get_or no_entry ?t (pi_name p))
      \<lparr>ue_profile := profile_facts p (ue_profile (get_or no_entry ?t (pi_name p)))\<rparr>"
    using assms by (auto simp: normalize_profile_entries_def Let_def)
  then have n: "entry_name e = pi_name p" "entry_snap e = entry_snap (get_or no_entry ?t (pi_name p))"
    by (simp_all add: profile_facts_def)
  show ?thesis
  proof (cases "map_of ?t (pi_name p)")
    case None
    then show ?thesis
      using n by (simp add: get_or_def no_entry_def entry_of_def profile_from_snapshot_def)
  next
    case (Some e1)
    then show ?thesis using filed_source [OF Some] n by (auto simp: get_or_def)
  qed
qed

definition plain_names :: "listed_profile list \<Rightarrow> bool" where
  "plain_names ps =
     (distinct (map pi_name ps) \<and> (\<forall>p \<in> set ps. pi_name p \<noteq> [] \<and> pi_name p \<noteq> ''default''))"

lemma file_entry_fresh:
  assumes "entry_name e \<notin> {[], ''default''}" "entry_name e \<in> set valid" "\<not> has_key t (entry_name e)"
  shows "file_entry implicit valid e t = put (entry_name e) e t"
  using assms by (simp add: file_entry_def Let_def has_key_def)

lemma filed_fresh:
  assumes "distinct (map entry_name es)" "\<forall>e \<in> set es. entry_name e \<notin> {[], ''default''} \<and> entry_name e \<in> set valid"
    "\<forall>e \<in> set es. \<not> has_key t (entry_name e)"
  shows "fold (file_entry implicit valid) es t = fold (\<lambda>(k, p). put k p) (map (\<lambda>e. (entry_name e, e)) es) t"
  using assms
proof (induction es arbitrary: t)
  case (Cons x xs)
  have "file_entry implicit valid x t = put (entry_name x) x t"
    using Cons.prems by (intro file_entry_fresh) auto
  moreover have "\<forall>e \<in> set xs. \<not> has_key (put (entry_name x) x t) (entry_name e)"
    using Cons.prems by (auto simp: image_iff)
  ultimately show ?case using Cons by simp
qed simp

lemma filed_normalized:
  assumes "plain_names ps" "p \<in> set ps" "e \<in> set es" "entry_name e = pi_name p"
    "map entry_name es = map pi_name ps"
  shows "map_of (fold (file_entry implicit (map pi_name ps)) es []) (pi_name p) = Some e"
proof -
  let ?es = "map (\<lambda>e. (entry_name e, e)) es"
  have d: "distinct (map entry_name es)" using assms(1,5) by (simp add: plain_names_def)
  have n: "entry_name e \<in> set (map pi_name ps)" if "e \<in> set es" for e
    using that by (subst assms(5) [symmetric]) simp
  then have "\<forall>e \<in> set es. entry_name e \<notin> {[], ''default''} \<and> entry_name e \<in> set (map pi_name ps)"
    using assms(1) by (fastforce simp: plain_names_def)
  then have "fold (file_entry implicit (map pi_name ps)) es [] = fold (\<lambda>(k, p). put k p) ?es []"
    using d by (intro filed_fresh) (simp_all add: has_key_def)
  moreover have "keys ?es = map entry_name es" by simp
  then have "map_of (fold (\<lambda>(k, p). put k p) ?es []) = map_of ?es"
    using map_of_fold_put_pairs [of ?es "[]"] d by (simp add: comp_def)
  moreover have "map_of ?es (pi_name p) = Some e"
    using assms(3,4) d by (intro map_of_is_SomeI) (auto simp: comp_def image_iff intro!: bexI [of _ e])
  ultimately show ?thesis by simp
qed

lemma profile_facts_idem: "profile_facts p (profile_facts p q) = profile_facts p q"
  by (simp add: profile_facts_def)

lemma normalized_again:
  assumes "plain_names ps"
  shows "normalize_profile_entries (normalize_profile_entries es ps) ps = normalize_profile_entries es ps"
proof -
  define t where "t = fold (file_entry (map pi_name ps = [''local'']) (map pi_name ps)) es []"
  define f where "f = (\<lambda>p. (get_or no_entry t (pi_name p))
    \<lparr>ue_profile := profile_facts p (ue_profile (get_or no_entry t (pi_name p)))\<rparr>)"
  have n: "normalize_profile_entries es ps = map f ps"
    by (simp add: normalize_profile_entries_def Let_def f_def t_def)
  have f: "entry_name (f p) = pi_name p" "(f p)\<lparr>ue_profile := profile_facts p (ue_profile (f p))\<rparr> = f p" for p
    by (simp_all add: f_def profile_facts_def)
  have "map_of (fold (file_entry implicit (map pi_name ps)) (map f ps) []) (pi_name p) = Some (f p)"
    if "p \<in> set ps" for p implicit
    using filed_normalized [OF assms that, of "f p" "map f ps"] that f by (simp add: comp_def)
  then have "normalize_profile_entries (map f ps) ps = map f ps"
    by (simp add: normalize_profile_entries_def Let_def get_or_def f)
  then show ?thesis by (simp add: n)
qed


definition sample_listed :: "string \<Rightarrow> bool \<Rightarrow> listed_profile" where
  "sample_listed n active =
     \<lparr>pi_tool = ''claude'', pi_name = n, pi_active = active, pi_path = n, pi_credentials = True,
      pi_away = None, lp_email = [], lp_expires = None\<rparr>"

definition sample_numbers :: usage_snapshot where
  "sample_numbers = empty_snapshot\<lparr>sn_status := ''ok'', sn_plan := ''pro'', sn_last := Some 0\<rparr>"

definition sample_entry :: "string \<Rightarrow> usage_entry" where
  "sample_entry n = entry_of (profile_from_snapshot sample_numbers n)"


text \<open>
  The switcher accepts a profile named \<open>default\<close>. Its entry is taken for one of the old kind and
  dropped each time, so it never shows numbers and is due again at every tick.
\<close>

lemma default_profile_never_shown:
  assumes "map pi_name ps \<noteq> [''local'']" "e \<in> set (normalize_profile_entries es ps)"
    "entry_name e = ''default''"
  shows "entry_snap e = empty_snapshot \<and> fetch_due now interval False False (Some e)"
proof -
  have "entry_snap e = empty_snapshot"
    using normalized_source [OF assms(2)] assms(1,3) by (auto simp: files_under_def split: if_splits)
  then show ?thesis by (simp add: fetch_due_def empty_snapshot_def)
qed

subsection \<open>When a provider fails\<close>

definition transient_failure :: "fetch_answer \<Rightarrow> bool" where
  "transient_failure a =
     (case fa_result a of
        FetchOk s \<Rightarrow> False
      | FetchErr e \<Rightarrow>
          sn_status (error_snapshot e (fa_deadline a)) = ''timeout'' \<or>
          sn_status (error_snapshot e (fa_deadline a)) = ''fetch_error'' \<and>
            (fe_transient e \<or> has_transient_http_status (sn_detail (error_snapshot e (fa_deadline a)))))"

lemma with_email_snap [simp]: "entry_snap (with_email W j a e) = entry_snap e"
  by (simp add: with_email_def Let_def split: option.split)

lemma profile_facts_snap [simp]: "up_snap (profile_facts p q) = up_snap q"
  by (simp add: profile_facts_def)


definition rate_limited :: fetch_answer where
  "rate_limited =
     \<lparr>fa_result = FetchErr \<lparr>fe_snapshot = Some (empty_snapshot\<lparr>sn_status := ''fetch_error'',
        sn_detail := Some [(''usage.status'', ''http_429'')]\<rparr>), fe_text = ''429'', fe_transient = False\<rparr>,
      fa_deadline = False, fa_email = None\<rparr>"

definition sample_job :: fetch_job where
  "sample_job =
     \<lparr>jb_key = ''claude-code'', jb_profile = sample_listed ''work'' False, jb_owner = None,
      jb_previous = sample_entry ''work'', jb_interval = 120 * second, jb_now = 120 * second,
      jb_enabled_only = True, jb_stored = []\<rparr>"


subsection \<open>A switch while a fetch runs\<close>

text \<open>
  Fetches of the active profile of one provider, cut where the provider is asked: a fetch begins, the
  provider answers for whoever is the active profile at that moment, the answer is filed. In between
  the switcher makes another profile the active one (\<open>switch\<close>) and the handler of the switch then drops
  both entries (\<open>dropped\<close>); no second switch starts before that. \<open>fy_filed\<close> is a history: the profile
  under which an answer was filed and the one it was given for.
\<close>

record fetch_system =
  fy_world :: usage_world
  fy_manager :: usage_manager
  fy_switching :: bool
  fy_jobs :: "(fetch_job \<times> (fetch_answer \<times> string option) option) list"
  fy_filed :: "(string \<times> string option) list"

definition live_name :: "string \<Rightarrow> fetch_system \<Rightarrow> string option" where
  "live_name K y =
     map_option (\<lambda>o1. pi_name (ow_profile o1)) (active_profile_owner (fy_world y) (um_config (fy_manager y)) K)"

definition generation :: "string \<Rightarrow> fetch_system \<Rightarrow> nat" where
  "generation K y = get_or 0 (um_generation (fy_manager y)) K"

definition filed_now :: "fetch_job \<Rightarrow> string option \<Rightarrow> fetch_report option \<Rightarrow> (string \<times> string option) list" where
  "filed_now j who r =
     (case r of None \<Rightarrow> []
      | Some x \<Rightarrow> if fr_changed x then [(pi_name (jb_profile j), who)] else [])"

inductive fetch_race :: "string \<Rightarrow> fetch_system \<Rightarrow> fetch_system \<Rightarrow> bool" for K where
  begins:
    "fetch_begin (fy_world y) K p force eo (fy_manager y) = Inr (Some j) \<Longrightarrow> pi_active p \<Longrightarrow>
     fetch_race K y (y\<lparr>fy_jobs := (j, None) # fy_jobs y\<rparr>)"
| answers:
    "fy_jobs y = js @ (j, None) # ks \<Longrightarrow>
     fetch_race K y (y\<lparr>fy_jobs := js @ (j, Some (a, live_name K y)) # ks\<rparr>)"
| ends:
    "fy_jobs y = js @ (j, Some (a, who)) # ks \<Longrightarrow>
     fetch_end (fy_world y) j a (fy_manager y) = (r, u) \<Longrightarrow>
     fetch_race K y (y\<lparr>fy_manager := u, fy_jobs := js @ ks, fy_filed := filed_now j who r @ fy_filed y\<rparr>)"
| switch:
    "\<not> fy_switching y \<Longrightarrow> live_name K (y\<lparr>fy_world := W\<rparr>) \<noteq> live_name K y \<Longrightarrow>
     fetch_race K y (y\<lparr>fy_world := W, fy_switching := True\<rparr>)"
| dropped:
    "K = registry_key_for_tool tool \<Longrightarrow>
     fetch_race K y (y\<lparr>fy_manager :=
       invalidate_profile_snapshot tool new (invalidate_profile_snapshot tool old (fy_manager y)),
       fy_switching := False\<rparr>)"
| others:
    "live_name K (y\<lparr>fy_world := W, fy_manager := u\<rparr>) = live_name K y \<Longrightarrow>
     generation K y \<le> generation K (y\<lparr>fy_manager := u\<rparr>) \<Longrightarrow>
     fetch_race K y (y\<lparr>fy_world := W, fy_manager := u\<rparr>)"

definition job_sound :: "string \<Rightarrow> fetch_system \<Rightarrow> fetch_job \<times> (fetch_answer \<times> string option) option \<Rightarrow> bool" where
  "job_sound K y = (\<lambda>(j, ans).
     jb_key j = K \<and>
     (\<exists>o1 g. jb_owner j = Some (o1, g) \<and> ow_profile o1 = jb_profile j \<and> g \<le> generation K y \<and>
       (g = generation K y \<longrightarrow>
          (\<not> fy_switching y \<longrightarrow> live_name K y = Some (pi_name (jb_profile j))) \<and>
          (live_name K y = Some (pi_name (jb_profile j)) \<longrightarrow>
             (case ans of None \<Rightarrow> True | Some (a, who) \<Rightarrow> who = Some (pi_name (jb_profile j)))))))"

definition race_sound :: "string \<Rightarrow> fetch_system \<Rightarrow> bool" where
  "race_sound K y =
     ((\<forall>x \<in> set (fy_jobs y). job_sound K y x) \<and> (\<forall>(n, who) \<in> set (fy_filed y). who = Some n))"

lemma generation_save_cache [simp]: "um_generation (snd (save_cache c u)) = um_generation u"
  by (simp add: save_cache_def split: option.split)

lemma generation_fetch_end: "um_generation (snd (fetch_end W j a u)) = um_generation u"
  by (cases "jb_owner j") (simp_all add: fetch_end_def Let_def case_prod_beta split: option.split)

lemma generation_invalidate:
  "get_or 0 (um_generation (invalidate_profile_snapshot tool n u)) (registry_key_for_tool tool) =
   get_or 0 (um_generation u) (registry_key_for_tool tool) + 1"
  by (simp add: invalidate_profile_snapshot_def Let_def)

lemma fetch_begin_owner:
  assumes "fetch_begin W K p force eo u = Inr (Some j)" "pi_active p"
  shows "\<exists>o1. active_profile_owner W (um_config u) K = Some o1 \<and> jb_key j = K \<and>
    jb_owner j = Some (o1, get_or 0 (um_generation u) K) \<and> jb_profile j = ow_profile o1"
  using assms by (auto simp: fetch_begin_def Let_def split: option.splits if_splits)

lemma fetch_end_filed:
  assumes "fetch_end W j a u = (Some r, u1)" "fr_changed r" "jb_owner j = Some (o1, g)"
  shows "g = get_or 0 (um_generation u) (jb_key j) \<and>
    (\<exists>o2. active_profile_owner W (um_config u) (jb_key j) = Some o2 \<and>
       pi_name (ow_profile o2) = pi_name (ow_profile o1))"
proof -
  have "still_owner W j u"
    using assms(1,2) by (auto simp: fetch_end_def Let_def split: prod.splits if_splits)
  then show ?thesis
    using assms(3) by (auto simp: still_owner_def same_active_profile_owner_def split: option.splits)
qed

lemma job_sound_cong:
  assumes "live_name K y1 = live_name K y" "generation K y1 = generation K y"
    "fy_switching y1 = fy_switching y"
  shows "job_sound K y1 = job_sound K y"
  by (simp add: job_sound_def assms fun_eq_iff)

lemma job_sound_later:
  assumes "job_sound K y x" "generation K y < generation K y1"
  shows "job_sound K y1 x"
  using assms by (fastforce simp: job_sound_def)

lemma job_sound_others:
  assumes "job_sound K y x" "generation K y \<le> generation K y1" "live_name K y1 = live_name K y"
    "fy_switching y1 = fy_switching y"
  shows "job_sound K y1 x"
proof (cases "generation K y1 = generation K y")
  case True
  then show ?thesis using assms(1) job_sound_cong [OF assms(3) True assms(4)] by simp
next
  case False
  then show ?thesis using assms(1,2) job_sound_later [of K y x y1] by simp
qed

lemma race_sound_same:
  assumes "race_sound K y" "live_name K y1 = live_name K y" "generation K y1 = generation K y"
    "fy_switching y1 = fy_switching y" "set (fy_jobs y1) \<subseteq> insert x (set (fy_jobs y))"
    "x \<in> set (fy_jobs y1) \<longrightarrow> job_sound K y x" "\<forall>(n, who) \<in> set (fy_filed y1). who = Some n"
  shows "race_sound K y1"
  using assms(1,5,6,7) job_sound_cong [OF assms(2-4)] by (auto simp: race_sound_def)

lemma fetch_race_sound:
  assumes "fetch_race K y y1" "race_sound K y" shows "race_sound K y1"
  using assms(1)
proof cases
  case (begins p force eo j)
  obtain o1 where o: "active_profile_owner (fy_world y) (um_config (fy_manager y)) K = Some o1"
      "jb_key j = K" "jb_owner j = Some (o1, generation K y)" "jb_profile j = ow_profile o1"
    using fetch_begin_owner [OF begins(2,3)] by (auto simp: generation_def)
  have "job_sound K y (j, None)" using o by (simp add: job_sound_def live_name_def)
  then show ?thesis
    using assms(2) by (intro race_sound_same [OF assms(2), of y1 "(j, None)"])
      (simp_all add: begins(1) live_name_def generation_def race_sound_def)
next
  case (answers js j ks a)
  have "job_sound K y (j, None)" using assms(2) answers(2) by (auto simp: race_sound_def)
  then have "job_sound K y (j, Some (a, live_name K y))" by (auto simp: job_sound_def)
  then show ?thesis
    using assms(2) by (intro race_sound_same [OF assms(2), of y1 "(j, Some (a, live_name K y))"])
      (auto simp: answers live_name_def generation_def race_sound_def)
next
  case (ends js j a who ks r u)
  have j: "job_sound K y (j, Some (a, who))" using assms(2) ends(2) by (auto simp: race_sound_def)
  have u: "um_config u = um_config (fy_manager y)" "um_generation u = um_generation (fy_manager y)"
    using config_fetch_end [of "fy_world y" j a "fy_manager y"]
      generation_fetch_end [of "fy_world y" j a "fy_manager y"] ends(3) by simp_all
  have "who = Some n" if "(n, who1) \<in> set (filed_now j who r)" for n who1
  proof -
    note filed = that
    obtain x where x: "r = Some x" "fr_changed x" "n = pi_name (jb_profile j)"
      using filed by (auto simp: filed_now_def split: option.splits if_splits)
    then show ?thesis
      using j fetch_end_filed [OF ends(3) [unfolded x(1)] x(2)]
      by (fastforce simp: job_sound_def live_name_def generation_def)
  qed
  then have "\<forall>(n, who1) \<in> set (filed_now j who r @ fy_filed y). who1 = Some n"
    using assms(2) by (fastforce simp: race_sound_def filed_now_def split: option.splits)
  then show ?thesis
    using j by (intro race_sound_same [OF assms(2), of y1 "(j, Some (a, who))"])
      (auto simp: ends(1,2) live_name_def generation_def u)
next
  case (switch W)
  have "job_sound K y1 x" if "job_sound K y x" for x
    using that switch by (fastforce simp: job_sound_def generation_def)
  then show ?thesis using assms(2) switch(1) by (simp add: race_sound_def)
next
  case (dropped tool new old)
  have "generation K y < generation K y1"
    using dropped by (simp add: generation_def generation_invalidate)
  then show ?thesis
    using assms(2) dropped(1) job_sound_later by (fastforce simp: race_sound_def)
next
  case (others W u)
  have "generation K y \<le> generation K y1" "live_name K y1 = live_name K y"
    using others by (simp_all add: generation_def)
  then show ?thesis
    using assms(2) others(1) job_sound_others [of K y _ y1] by (simp add: race_sound_def)
qed

interpretation fetch_races: invariant_relation "fetch_race K" "race_sound K" for K
  by unfold_locales (rule fetch_race_sound)


lemma one_pair: "map fst xs = [a] \<Longrightarrow> \<exists>b. xs = [(a, b)]"
  by (cases xs) auto

definition two_profiles :: "string \<Rightarrow> usage_world" where
  "two_profiles active =
     sample_world\<lparr>wd_listed := (\<lambda>tool. Some [sample_listed ''home'' (active = ''home''),
                                                sample_listed ''work'' (active = ''work'')])\<rparr>"

definition fetch_ready :: fetch_system where
  "fetch_ready =
     \<lparr>fy_world = two_profiles ''home'', fy_manager = sample_manager, fy_switching = False, fy_jobs = [],
      fy_filed = []\<rparr>"

definition good_answer :: fetch_answer where
  "good_answer = \<lparr>fa_result = FetchOk sample_numbers, fa_deadline = False, fa_email = None\<rparr>"

definition ready_job :: fetch_job where
  "ready_job =
     (case fetch_begin (two_profiles ''home'') ''claude-code'' (sample_listed ''home'' True) True False sample_manager of
        Inr (Some j) \<Rightarrow> j | _ \<Rightarrow> sample_job)"


end
