(* ===== verification/Retry.thy ===== *)
theory Retry
  imports UsageConfig
begin

section \<open>Requests that are tried again\<close>

text \<open>
  \<open>internal/usages/retry.go\<close>: \<open>doWithRetry\<close> sends a request, and sends it again after a wait when the
  transport failed in a passing way or the answer says so. A duration is a signed 64-bit number of
  nanoseconds: products are wrapped (\<open>wrap64\<close>). What the network and the context do is a script with
  one entry per attempt; the parser of HTTP dates is a parameter that gives the time until then.
\<close>

definition wrap64 :: "int \<Rightarrow> int" where
  "wrap64 n = (n + 2 ^ 63) mod 2 ^ 64 - 2 ^ 63"

lemma wrap64_small: "- (2 ^ 63) \<le> n \<Longrightarrow> n < 2 ^ 63 \<Longrightarrow> wrap64 n = n"
  by (simp add: wrap64_def)

record retry_policy =
  rp_retries :: int
  rp_codes :: "int list"
  rp_methods :: "string list"
  rp_base :: int
  rp_limit :: int

definition with_defaults :: "retry_policy \<Rightarrow> retry_policy" where
  "with_defaults p =
     p\<lparr>rp_retries := (if rp_retries p < 0 then 0 else if rp_retries p = 0 then 1 else rp_retries p),
       rp_base := (if rp_base p \<le> 0 then second else rp_base p),
       rp_limit := (if rp_limit p \<le> 0 then 10 * second else rp_limit p)\<rparr>"

record http_request =
  hr_method :: string
  hr_body :: bool
  hr_replay :: bool

datatype http_outcome =
    TransportError bool
  | HttpResponse int string

text \<open>The context can end before an attempt, while it runs and while the next one is waited for.\<close>

record attempt_script =
  sc_done_before :: bool
  sc_outcome :: http_outcome
  sc_done_after :: bool
  sc_done_waiting :: bool

definition retryable_method :: "retry_policy \<Rightarrow> string \<Rightarrow> bool" where
  "retryable_method p m =
     (let m1 = map (\<lambda>c. if between 97 122 c then char_of (byte c - 32) else c) m;
          up = (\<lambda>s. map (\<lambda>c. if between 97 122 c then char_of (byte c - 32) else c) s)
      in if rp_methods p \<noteq> [] then list_ex (\<lambda>a. m1 = up a) (rp_methods p)
         else m1 \<in> {''GET'', ''HEAD'', ''OPTIONS''})"

definition retryable_status :: "retry_policy \<Rightarrow> int \<Rightarrow> bool" where
  "retryable_status p code =
     (if rp_codes p \<noteq> [] then code \<in> set (rp_codes p)
      else code \<in> {408, 429, 500, 502, 503, 504})"

definition can_replay_body :: "http_request \<Rightarrow> bool" where
  "can_replay_body q = (\<not> hr_body q \<or> hr_replay q)"

definition should_retry :: "retry_policy \<Rightarrow> http_request \<Rightarrow> int \<Rightarrow> http_outcome \<Rightarrow> bool" where
  "should_retry p q attempt out =
     (if \<not> retryable_method p (hr_method q) \<or> rp_retries p \<le> attempt then False
      else if \<not> can_replay_body q then False
      else case out of TransportError transient \<Rightarrow> transient | HttpResponse code _ \<Rightarrow> retryable_status p code)"

definition retry_after_delay :: "(string \<Rightarrow> int option) \<Rightarrow> string \<Rightarrow> int option" where
  "retry_after_delay until raw =
     (let v = trim_space raw in
      if v = [] then None
      else case atoi v of
             Some s \<Rightarrow> if s < 0 then Some 0 else Some (wrap64 (s * second))
           | None \<Rightarrow> (case until v of Some d \<Rightarrow> Some (max 0 d) | None \<Rightarrow> None))"

fun doubled :: "nat \<Rightarrow> int \<Rightarrow> int \<Rightarrow> int" where
  "doubled 0 d limit = min d limit"
| "doubled (Suc n) d limit = (let d1 = wrap64 (d * 2) in if limit \<le> d1 then limit else doubled n d1 limit)"

definition retry_delay :: "(string \<Rightarrow> int option) \<Rightarrow> retry_policy \<Rightarrow> nat \<Rightarrow> http_outcome \<Rightarrow> int" where
  "retry_delay until p attempt out =
     (case (case out of HttpResponse _ header \<Rightarrow> retry_after_delay until header | _ \<Rightarrow> None) of
        Some d \<Rightarrow> min d (rp_limit p)
      | None \<Rightarrow> doubled attempt (rp_base p) (rp_limit p))"

datatype retry_result = RetryDone http_outcome | RetryCancelled

text \<open>The result, the requests that were sent and the waits between them.\<close>

fun attempts_from ::
    "(string \<Rightarrow> int option) \<Rightarrow> retry_policy \<Rightarrow> http_request \<Rightarrow> (nat \<Rightarrow> attempt_script) \<Rightarrow> nat \<Rightarrow> nat \<Rightarrow>
     retry_result \<times> nat \<times> int list" where
  "attempts_from until p q script attempt 0 = (RetryCancelled, 0, [])"
| "attempts_from until p q script attempt (Suc left) =
     (let s = script attempt; out = sc_outcome s in
      if sc_done_before s then (RetryCancelled, 0, [])
      else if (case out of TransportError _ \<Rightarrow> sc_done_after s | _ \<Rightarrow> False) then (RetryCancelled, 1, [])
      else if left = 0 \<or> \<not> should_retry p q (int attempt) out then (RetryDone out, 1, [])
      else
        let d = retry_delay until p attempt out in
        if sc_done_waiting s then (RetryCancelled, 1, [d])
        else let (r, n, ds) = attempts_from until p q script (attempt + 1) left in (r, n + 1, d # ds))"

definition do_with_retry ::
    "(string \<Rightarrow> int option) \<Rightarrow> retry_policy \<Rightarrow> http_request \<Rightarrow> (nat \<Rightarrow> attempt_script) \<Rightarrow>
     retry_result \<times> nat \<times> int list" where
  "do_with_retry until p0 q script =
     (let p = with_defaults p0 in attempts_from until p q script 0 (nat (rp_retries p + 1)))"

subsection \<open>Bounds\<close>

lemma doubled_le: "doubled n d limit \<le> limit"
  by (induction n d limit rule: doubled.induct) (auto simp: Let_def)

lemma doubled_pos:
  "0 < d \<Longrightarrow> 0 < limit \<Longrightarrow> d < 2 ^ 62 \<Longrightarrow> limit < 2 ^ 62 \<Longrightarrow> 0 < doubled n d limit"
proof (induction n d limit rule: doubled.induct)
  case (2 n d limit)
  then have w: "wrap64 (d * 2) = d * 2" by (intro wrap64_small) auto
  show ?case
  proof (cases "limit \<le> d * 2")
    case False
    then have "0 < doubled n (wrap64 (d * 2)) limit" using 2 w by (intro "2.IH") (auto simp: Let_def)
    then show ?thesis using False w by (simp add: Let_def)
  qed (use 2 w in \<open>simp add: Let_def\<close>)
qed simp

lemma retry_delay_le: "retry_delay until p n out \<le> rp_limit p"
  by (auto simp: retry_delay_def doubled_le split: option.split)

lemma attempts_from_bounds:
  assumes "attempts_from until p q script k left = (r, n, ds)"
  shows "n \<le> left \<and> length ds \<le> n \<and> (\<forall>d \<in> set ds. d \<le> rp_limit p) \<and>
    (\<forall>out. r = RetryDone out \<longrightarrow> 0 < n \<and> length ds + 1 = n \<and> out = sc_outcome (script (k + n - 1))) \<and>
    (\<not> retryable_method p (hr_method q) \<or> \<not> can_replay_body q \<longrightarrow> n \<le> 1)"
  using assms
proof (induction left arbitrary: k r n ds)
  case (Suc left)
  obtain r1 n1 ds1 where rec: "attempts_from until p q script (k + 1) left = (r1, n1, ds1)"
    by (cases "attempts_from until p q script (k + 1) left") auto
  note IH = Suc.IH [OF rec]
  have once: "should_retry p q (int k) out \<Longrightarrow> retryable_method p (hr_method q) \<and> can_replay_body q" for out
    by (auto simp: should_retry_def split: if_splits)
  show ?case
    using Suc.prems IH rec once retry_delay_le
    by (auto simp: Let_def split: if_splits http_outcome.splits)
qed simp

text \<open>C9. Retries are bounded. A request with retries goes out at most once more than the policy's
  retries, and only once when its method or its body does not allow another try; every wait is at most
  the longest delay of the policy; and a result that is returned is the outcome of the last request.
  The loop ends whatever the network does.\<close>

theorem retries_bounded:
  assumes "do_with_retry until p q script = (r, n, ds)"
  shows "int n \<le> rp_retries (with_defaults p) + 1 \<and> length ds \<le> n \<and>
    (\<forall>d \<in> set ds. d \<le> rp_limit (with_defaults p)) \<and>
    (\<forall>out. r = RetryDone out \<longrightarrow> 0 < n \<and> length ds + 1 = n \<and> out = sc_outcome (script (n - 1))) \<and>
    (\<not> retryable_method (with_defaults p) (hr_method q) \<or> \<not> can_replay_body q \<longrightarrow> n \<le> 1)"
proof -
  have "0 \<le> rp_retries (with_defaults p)" by (simp add: with_defaults_def)
  then show ?thesis
    using attempts_from_bounds [of until "with_defaults p" q script 0 "nat (rp_retries (with_defaults p) + 1)" r n ds]
      assms
    by (auto simp: do_with_retry_def Let_def)
qed

definition sample_policy :: retry_policy where
  "sample_policy = \<lparr>rp_retries = 2, rp_codes = [], rp_methods = [], rp_base = 0, rp_limit = 0\<rparr>"

definition sample_get :: http_request where
  "sample_get = \<lparr>hr_method = ''get'', hr_body = False, hr_replay = False\<rparr>"

definition always :: "http_outcome \<Rightarrow> nat \<Rightarrow> attempt_script" where
  "always out k = \<lparr>sc_done_before = False, sc_outcome = out, sc_done_after = False, sc_done_waiting = False\<rparr>"

lemma sample_retry:
  "do_with_retry (\<lambda>_. None) sample_policy sample_get (always (HttpResponse 503 ''7'')) =
   (RetryDone (HttpResponse 503 ''7''), 3, [7 * second, 7 * second])"
  by code_simp

lemma retries_bounded_witness:
  "do_with_retry (\<lambda>_. None) sample_policy sample_get (always (HttpResponse 503 ''7'')) =
     (RetryDone (HttpResponse 503 ''7''), 3, [7 * second, 7 * second]) \<and>
   (3::int) \<le> rp_retries (with_defaults sample_policy) + 1"
  using retries_bounded [OF sample_retry] sample_retry by simp

text \<open>
  The waits have no lower bound: a number of seconds in \<open>Retry-After\<close> that does not fit 64 bits of
  nanoseconds wraps to a time in the past, and the request is sent again at once.
\<close>

lemma retry_after_wraps:
  "retry_after_delay (\<lambda>_. None) ''9223372037'' = Some (- 9223372036709551616) \<and>
   retry_delay (\<lambda>_. None) (with_defaults sample_policy) 0 (HttpResponse 429 ''9223372037'') < 0"
  by code_simp

end
