(* ===== verification/Maintenance.thy ===== *)
theory Maintenance
  imports UsageCache TokenRefresh
begin

section \<open>Maintenance of stored profiles\<close>

text \<open>
  The refreshes and warm-ups that run while a tool is not owned by the token refresher:
  \<open>internal/usages/maintenance_guard.go\<close>, \<open>claude_refresh.go\<close>, \<open>claude_warmup.go\<close>,
  \<open>codex_maintenance.go\<close> and the triggers of \<open>manager.go\<close>.

  A job is started by the poller and ends some time later. The four coordinators keep their state per
  profile name; one guard over all of them holds an account, named by a hash of its refresh token, for
  the whole job. \<open>maintainers\<close> has the slots of the coordinators in one table, the accounts that are
  held, what the smart and the scheduled mode remember, and a history of the starts (\<open>mt_log\<close>) that
  the code does not keep. \<open>mw_taken\<close> tells that the lock file of an account is held by another
  process or by a switch, or cannot be taken.
\<close>

definition near_expiry_window :: int where "near_expiry_window = 10 * minute"
definition refresh_fail_backoff :: int where "refresh_fail_backoff = 5 * minute"
definition warmup_cooldown :: int where "warmup_cooldown = hour"
definition switch_away_grace :: int where "switch_away_grace = 8 * hour"
definition session_window :: int where "session_window = 5 * hour"

record maint_world =
  mw_world :: usage_world
  mw_taken :: "string \<Rightarrow> bool"
  mw_link :: "string \<Rightarrow> bool"
  mw_hash :: "string \<Rightarrow> string"
  mw_clock :: clock_time

abbreviation mw_now :: "maint_world \<Rightarrow> int" where
  "mw_now M \<equiv> wd_now (mw_world M)"

datatype job_kind = ClaudeRefresh | ClaudeWarm | CodexRefresh | CodexWarm

text \<open>
  \<open>sl_held\<close> is the account a running job holds, \<open>sl_last\<close> the last attempt, for \<open>ClaudeRefresh\<close> the
  last failure, \<open>sl_retry\<close> the earliest next attempt of a refresh that was not needed.
\<close>

record job_slot =
  sl_held :: "string option"
  sl_last :: "int option"
  sl_retry :: "int option"

record job_start =
  js_kind :: job_kind
  js_profile :: listed_profile
  js_at :: int

record maintainers =
  mt_slots :: "(job_kind \<times> string, job_slot) table"
  mt_busy :: "string list"
  mt_minute :: "int option"
  mt_spaced :: "int option"
  mt_spaced_name :: string
  mt_codex_spaced :: "int option"
  mt_codex_spaced_name :: string
  mt_log :: "job_start list"

definition new_maintainers :: maintainers where
  "new_maintainers =
     \<lparr>mt_slots = [], mt_busy = [], mt_minute = None, mt_spaced = None, mt_spaced_name = [],
      mt_codex_spaced = None, mt_codex_spaced_name = [], mt_log = []\<rparr>"

definition free_slot :: job_slot where
  "free_slot = \<lparr>sl_held = None, sl_last = None, sl_retry = None\<rparr>"

definition slot_of :: "maintainers \<Rightarrow> job_kind \<times> string \<Rightarrow> job_slot" where
  "slot_of m k = get_or free_slot (mt_slots m) k"

definition set_slot :: "job_kind \<times> string \<Rightarrow> job_slot \<Rightarrow> maintainers \<Rightarrow> maintainers" where
  "set_slot k s m = m\<lparr>mt_slots := put k s (mt_slots m)\<rparr>"

subsection \<open>The account guard\<close>

definition maintenance_identity :: "maint_world \<Rightarrow> string \<Rightarrow> listed_profile \<Rightarrow> string" where
  "maintenance_identity M tool p =
     (case Option.bind (read_file (mw_world M) (pi_path p)) (refresh_token tool) of
        Some token \<Rightarrow> mw_hash M (tool @ [CHR 0x00] @ token)
      | None \<Rightarrow> mw_hash M (tool @ [CHR 0x00] @ ''name'' @ [CHR 0x00] @ pi_name p))"

definition acquire_account ::
    "maint_world \<Rightarrow> string \<Rightarrow> listed_profile \<Rightarrow> maintainers \<Rightarrow> (string \<times> maintainers) option" where
  "acquire_account M tool p m =
     (let i = maintenance_identity M tool p in
      if i \<in> set (mt_busy m) \<or> mw_taken M i then None
      else Some (i, m\<lparr>mt_busy := i # mt_busy m\<rparr>))"

definition release_account :: "string \<Rightarrow> maintainers \<Rightarrow> maintainers" where
  "release_account i m = m\<lparr>mt_busy := filter (\<lambda>j. j \<noteq> i) (mt_busy m)\<rparr>"

text \<open>The active profile, and one whose file is a link to the live one, are left alone.\<close>

definition maintenance_target_blocked :: "(string \<Rightarrow> bool) \<Rightarrow> listed_profile \<Rightarrow> bool" where
  "maintenance_target_blocked link p = (pi_active p \<or> pi_path p \<noteq> [] \<and> link (pi_path p))"

definition maintenance_grace_blocked :: "int \<Rightarrow> listed_profile \<Rightarrow> bool" where
  "maintenance_grace_blocked now p =
     (case pi_away p of None \<Rightarrow> False | Some t \<Rightarrow> now - t < switch_away_grace)"

subsection \<open>Starting and ending jobs\<close>

definition recent :: "int \<Rightarrow> int \<Rightarrow> int option \<Rightarrow> bool" where
  "recent gap now t = (case t of None \<Rightarrow> False | Some t1 \<Rightarrow> now - t1 < gap)"

text \<open>What the coordinators have in common: the slot must be free, no wait may be left, and the guard
  must give the account.\<close>

definition start_job ::
    "maint_world \<Rightarrow> job_kind \<Rightarrow> string \<Rightarrow> (job_slot \<Rightarrow> bool) \<Rightarrow> (job_slot \<Rightarrow> job_slot) \<Rightarrow> listed_profile \<Rightarrow>
     maintainers \<Rightarrow> bool \<times> maintainers" where
  "start_job M kind tool waits stamp p m =
     (let k = (kind, pi_name p); s = slot_of m k in
      if sl_held s \<noteq> None \<or> waits s then (False, m)
      else case acquire_account M tool p m of
             None \<Rightarrow> (False, m)
           | Some (i, m1) \<Rightarrow>
               (True, (set_slot k ((stamp s)\<lparr>sl_held := Some i\<rparr>) m1)
                 \<lparr>mt_log := mt_log m @ [\<lparr>js_kind = kind, js_profile = p, js_at = mw_now M\<rparr>]\<rparr>))"

definition claude_refresh_start :: "maint_world \<Rightarrow> listed_profile \<Rightarrow> maintainers \<Rightarrow> bool \<times> maintainers" where
  "claude_refresh_start M =
     start_job M ClaudeRefresh ''claude''
       (\<lambda>s. recent refresh_fail_backoff (mw_now M) (sl_last s) \<or>
            (case sl_retry s of None \<Rightarrow> False | Some t \<Rightarrow> mw_now M < t))
       (\<lambda>s. s)"

definition claude_warm_start :: "maint_world \<Rightarrow> listed_profile \<Rightarrow> maintainers \<Rightarrow> bool \<times> maintainers" where
  "claude_warm_start M =
     start_job M ClaudeWarm ''claude'' (\<lambda>s. recent warmup_cooldown (mw_now M) (sl_last s))
       (\<lambda>s. s\<lparr>sl_last := Some (mw_now M)\<rparr>)"

definition codex_claim ::
    "maint_world \<Rightarrow> job_kind \<Rightarrow> int \<Rightarrow> listed_profile \<Rightarrow> maintainers \<Rightarrow> bool \<times> maintainers" where
  "codex_claim M kind cooldown =
     start_job M kind ''codex'' (\<lambda>s. recent cooldown (mw_now M) (sl_last s))
       (\<lambda>s. s\<lparr>sl_last := Some (mw_now M)\<rparr>)"

definition when_available ::
    "maint_world \<Rightarrow> (listed_profile \<Rightarrow> maintainers \<Rightarrow> bool \<times> maintainers) \<Rightarrow> listed_profile \<Rightarrow>
     maintainers \<Rightarrow> bool \<times> maintainers" where
  "when_available M start p m = (if wd_available (mw_world M) then start p m else (False, m))"

definition maybe_claude_refresh :: "maint_world \<Rightarrow> listed_profile \<Rightarrow> maintainers \<Rightarrow> bool \<times> maintainers" where
  "maybe_claude_refresh M = when_available M (claude_refresh_start M)"

definition maybe_claude_warm :: "maint_world \<Rightarrow> listed_profile \<Rightarrow> maintainers \<Rightarrow> bool \<times> maintainers" where
  "maybe_claude_warm M = when_available M (claude_warm_start M)"

definition maybe_codex_refresh :: "maint_world \<Rightarrow> listed_profile \<Rightarrow> maintainers \<Rightarrow> bool \<times> maintainers" where
  "maybe_codex_refresh M = when_available M (codex_claim M CodexRefresh refresh_fail_backoff)"

definition maybe_codex_warm :: "maint_world \<Rightarrow> listed_profile \<Rightarrow> maintainers \<Rightarrow> bool \<times> maintainers" where
  "maybe_codex_warm M = when_available M (codex_claim M CodexWarm warmup_cooldown)"

definition release_slot :: "job_kind \<times> string \<Rightarrow> maintainers \<Rightarrow> maintainers" where
  "release_slot k m =
     (let s = slot_of m k;
          m1 = (case sl_held s of None \<Rightarrow> m | Some i \<Rightarrow> release_account i m)
      in set_slot k (s\<lparr>sl_held := None\<rparr>) m1)"

datatype refresh_verdict = VerdictSuccess | VerdictFailure | VerdictNoop "int option"

definition claude_refresh_finish :: "int \<Rightarrow> string \<Rightarrow> refresh_verdict \<Rightarrow> maintainers \<Rightarrow> maintainers" where
  "claude_refresh_finish now name v m =
     (let k = (ClaudeRefresh, name); m1 = release_slot k m; s = slot_of m1 k
      in set_slot k
           (case v of
              VerdictSuccess \<Rightarrow> s\<lparr>sl_last := None, sl_retry := None\<rparr>
            | VerdictNoop retry \<Rightarrow> s\<lparr>sl_last := None, sl_retry := retry\<rparr>
            | VerdictFailure \<Rightarrow> s\<lparr>sl_last := Some now\<rparr>) m1)"

definition claude_warm_finish :: "string \<Rightarrow> maintainers \<Rightarrow> maintainers" where
  "claude_warm_finish name m = release_slot (ClaudeWarm, name) m"

definition codex_finish :: "job_kind \<Rightarrow> string \<Rightarrow> maintainers \<Rightarrow> maintainers" where
  "codex_finish kind name m = release_slot (kind, name) m"

subsection \<open>Which profiles qualify\<close>

definition maintainable :: "maint_world \<Rightarrow> string \<Rightarrow> listed_profile \<Rightarrow> bool" where
  "maintainable M tool p =
     (pi_tool p = tool \<and> \<not> maintenance_target_blocked (mw_link M) p \<and>
      \<not> maintenance_grace_blocked (mw_now M) p \<and> pi_credentials p)"

definition near_expiry :: "maint_world \<Rightarrow> listed_profile \<Rightarrow> bool" where
  "near_expiry M p =
     (case lp_expires p of None \<Rightarrow> False | Some e \<Rightarrow> e - near_expiry_window \<le> mw_now M)"

definition claude_profile_needs_refresh :: "maint_world \<Rightarrow> listed_profile \<Rightarrow> bool" where
  "claude_profile_needs_refresh M p = (maintainable M ''claude'' p \<and> near_expiry M p)"

definition claude_profile_eligible_for_warmup :: "maint_world \<Rightarrow> listed_profile \<Rightarrow> bool" where
  "claude_profile_eligible_for_warmup M p = maintainable M ''claude'' p"

definition codex_profile_needs_refresh :: "maint_world \<Rightarrow> listed_profile \<Rightarrow> bool" where
  "codex_profile_needs_refresh M p = (maintainable M ''codex'' p \<and> near_expiry M p)"

definition codex_profile_eligible_for_warmup :: "maint_world \<Rightarrow> listed_profile \<Rightarrow> bool" where
  "codex_profile_eligible_for_warmup M p = maintainable M ''codex'' p"

definition after_now :: "int \<Rightarrow> int option \<Rightarrow> bool" where
  "after_now now t = (case t of None \<Rightarrow> False | Some t1 \<Rightarrow> now < t1)"

text \<open>The first session window decides.\<close>

definition snapshot_out_of_window :: "int \<Rightarrow> usage_snapshot \<Rightarrow> bool" where
  "snapshot_out_of_window now s =
     (if sn_status s \<noteq> ''ok'' then False
      else case find (\<lambda>w. wn_key w = ''session'') (sn_windows s) of
             None \<Rightarrow> True
           | Some w \<Rightarrow> \<not> after_now now (wn_reset w))"

definition snapshot_weekly_exhausted :: "int \<Rightarrow> string list \<Rightarrow> usage_snapshot \<Rightarrow> bool" where
  "snapshot_weekly_exhausted now ks s =
     list_ex (\<lambda>w. wn_key w \<in> set ks \<and> 100 \<le> wn_percent w \<and> after_now now (wn_reset w)) (sn_windows s)"

definition out_of_window_since :: "usage_snapshot \<Rightarrow> int option" where
  "out_of_window_since s =
     Option.bind (find (\<lambda>w. wn_key w = ''session'' \<and> wn_reset w \<noteq> None) (sn_windows s)) wn_reset"

record warmup_candidate =
  wc_profile :: listed_profile
  wc_out :: "int option"

text \<open>The candidates and how many profiles share the spacing.\<close>

definition warmup_candidates ::
    "maint_world \<Rightarrow> (listed_profile \<Rightarrow> bool) \<Rightarrow> string list \<Rightarrow> usage_entry list \<Rightarrow> listed_profile list \<Rightarrow>
     warmup_candidate list \<times> nat" where
  "warmup_candidates M eligible weekly entries ps =
     (let rows = List.map_filter (\<lambda>p.
            if \<not> eligible p then None
            else case find_entry entries (pi_name p) of
                   None \<Rightarrow> None
                 | Some e \<Rightarrow>
                     if snapshot_weekly_exhausted (mw_now M) weekly (entry_snap e) then None
                     else Some (p, entry_snap e)) ps
      in (map (\<lambda>(p, s). \<lparr>wc_profile = p, wc_out = out_of_window_since s\<rparr>)
            (filter (\<lambda>(_, s). snapshot_out_of_window (mw_now M) s) rows),
          length rows))"

text \<open>No window at all first, then the window that ended first, then the name.\<close>

definition longest_idle_first :: "warmup_candidate list \<Rightarrow> warmup_candidate list" where
  "longest_idle_first cs =
     sort_key (\<lambda>c. wc_out c \<noteq> None)
       (sort_key (\<lambda>c. case wc_out c of None \<Rightarrow> 0 | Some t \<Rightarrow> t)
         (sort_key (\<lambda>c. pi_name (wc_profile c)) cs))"

subsection \<open>The triggers\<close>

definition trigger_claude_refresh :: "maint_world \<Rightarrow> usage_manager \<Rightarrow> maintainers \<Rightarrow> maintainers" where
  "trigger_claude_refresh M u m =
     (if wd_owns (mw_world M) ''claude'' then m
      else case load_config (um_config u) of
             None \<Rightarrow> m
           | Some c \<Rightarrow>
               if \<not> uc_auto c then m
               else fold (\<lambda>p m. if claude_profile_needs_refresh M p
                                then snd (maybe_claude_refresh M p m) else m)
                      (profiles_for_provider (mw_world M) (um_config u) ''claude-code'') m)"

definition warmup_schedule_due :: "maint_world \<Rightarrow> string \<Rightarrow> maintainers \<Rightarrow> bool \<times> maintainers" where
  "warmup_schedule_due M raw m =
     (let now = mw_now M; this = now - now mod minute in
      case parse_warmup_schedules raw of
        None \<Rightarrow> (False, m)
      | Some ss \<Rightarrow>
          if ss = [] \<or> \<not> warmup_schedules_match ss (mw_clock M) \<or> mt_minute m = Some this then (False, m)
          else (True, m\<lparr>mt_minute := Some this\<rparr>))"

definition spacing_gap :: "nat \<Rightarrow> int" where
  "spacing_gap eligible = session_window div int eligible"

text \<open>
  One pass over the candidates of the smart mode. The result is \<open>None\<close> when the pass ends without a
  start and the next one may begin, \<open>Some\<close> when the scan is over.
\<close>

fun claude_spaced_pass ::
    "maint_world \<Rightarrow> int \<Rightarrow> (listed_profile \<Rightarrow> bool) \<Rightarrow> listed_profile list \<Rightarrow> maintainers \<Rightarrow>
     maintainers option" where
  "claude_spaced_pass M gap skip [] m = None"
| "claude_spaced_pass M gap skip (p # ps) m =
     (if skip p then claude_spaced_pass M gap skip ps m
      else if pi_name p \<noteq> mt_spaced_name m \<and> recent gap (mw_now M) (mt_spaced m) then Some m
      else case maybe_claude_warm M p m of
             (True, m1) \<Rightarrow> Some (m1\<lparr>mt_spaced := Some (mw_now M), mt_spaced_name := pi_name p\<rparr>)
           | (False, m1) \<Rightarrow> claude_spaced_pass M gap skip ps m1)"

definition trigger_spaced_claude_warmup ::
    "maint_world \<Rightarrow> warmup_candidate list \<Rightarrow> nat \<Rightarrow> maintainers \<Rightarrow> maintainers" where
  "trigger_spaced_claude_warmup M cs eligible m =
     (if cs = [] \<or> eligible = 0 then m
      else
        let ps = map wc_profile (longest_idle_first cs); gap = spacing_gap eligible in
        case claude_spaced_pass M gap (\<lambda>p. 1 < length ps \<and> pi_name p = mt_spaced_name m) ps m of
          Some m1 \<Rightarrow> m1
        | None \<Rightarrow>
            (case claude_spaced_pass M gap (\<lambda>p. pi_name p \<noteq> mt_spaced_name m) ps m of
               Some m1 \<Rightarrow> m1
             | None \<Rightarrow> m))"

definition trigger_claude_warmup :: "maint_world \<Rightarrow> usage_manager \<Rightarrow> maintainers \<Rightarrow> maintainers" where
  "trigger_claude_warmup M u m =
     (if wd_owns (mw_world M) ''claude'' then m
      else case load_config (um_config u) of
             None \<Rightarrow> m
           | Some c \<Rightarrow>
               if \<not> uc_auto c \<or> uc_mode c = ''off'' \<or> \<not> wd_available (mw_world M) then m
               else
                 let (due, m1) = (if uc_mode c = ''scheduled'' then warmup_schedule_due M (uc_schedule c) m
                                  else (True, m));
                     (cs, eligible) = warmup_candidates M (claude_profile_eligible_for_warmup M) [''weekly'']
                       (get_or [] (load_cache (um_cache u)) ''claude-code'')
                       (profiles_for_provider (mw_world M) (um_config u) ''claude-code'')
                 in if \<not> due then m1
                    else if uc_mode c = ''smart'' then trigger_spaced_claude_warmup M cs eligible m1
                    else fold (\<lambda>x m. snd (maybe_claude_warm M (wc_profile x) m)) cs m1)"

fun codex_spaced_pass ::
    "maint_world \<Rightarrow> bool \<Rightarrow> listed_profile list \<Rightarrow> maintainers \<Rightarrow> maintainers" where
  "codex_spaced_pass M several [] m = m"
| "codex_spaced_pass M several (p # ps) m =
     (if pi_name p = mt_codex_spaced_name m \<and> several then codex_spaced_pass M several ps m
      else case maybe_codex_warm M p m of
             (True, m1) \<Rightarrow> m1\<lparr>mt_codex_spaced := Some (mw_now M), mt_codex_spaced_name := pi_name p\<rparr>
           | (False, m1) \<Rightarrow> codex_spaced_pass M several ps m1)"

definition trigger_spaced_codex_warmup ::
    "maint_world \<Rightarrow> warmup_candidate list \<Rightarrow> nat \<Rightarrow> maintainers \<Rightarrow> maintainers" where
  "trigger_spaced_codex_warmup M cs eligible m =
     (if cs = [] \<or> eligible = 0 \<or> recent (spacing_gap eligible) (mw_now M) (mt_codex_spaced m) then m
      else codex_spaced_pass M (1 < length cs) (map wc_profile (longest_idle_first cs)) m)"

definition trigger_codex_maintenance :: "maint_world \<Rightarrow> usage_manager \<Rightarrow> maintainers \<Rightarrow> maintainers" where
  "trigger_codex_maintenance M u m =
     (case load_config (um_config u) of
        None \<Rightarrow> m
      | Some c \<Rightarrow>
          if \<not> uc_auto c \<or> \<not> wd_available (mw_world M) then m
          else
            let ps = profiles_for_provider (mw_world M) (um_config u) ''codex'';
                owned = wd_owns (mw_world M) ''codex'';
                m1 = fold (\<lambda>p m. if \<not> owned \<and> codex_profile_needs_refresh M p
                                 then snd (maybe_codex_refresh M p m) else m) ps m;
                due = (uc_mode c = ''scheduled'' \<longrightarrow>
                       (case parse_warmup_schedules (uc_schedule c) of
                          None \<Rightarrow> False | Some ss \<Rightarrow> warmup_schedules_match ss (mw_clock M)));
                (cs, eligible) = warmup_candidates M (codex_profile_eligible_for_warmup M)
                  [''weekly'', ''codex_spark_weekly''] (get_or [] (load_cache (um_cache u)) ''codex'') ps
            in if uc_mode c = ''off'' \<or> owned \<or> \<not> due then m1
               else if uc_mode c = ''smart'' then trigger_spaced_codex_warmup M cs eligible m1
               else fold (\<lambda>x m. snd (maybe_codex_warm M (wc_profile x) m)) cs m1)"

text \<open>What a tick of the poller does before it fetches.\<close>

definition maintenance_tick :: "maint_world \<Rightarrow> usage_manager \<Rightarrow> maintainers \<Rightarrow> maintainers" where
  "maintenance_tick M u m =
     trigger_codex_maintenance M u (trigger_claude_warmup M u (trigger_claude_refresh M u m))"

subsection \<open>What a job does\<close>

text \<open>
  A run of the CLI on a throwaway copy of the stored credentials, outside of every lock, and the
  copy-back of \<open>TokenRefresh\<close>. The copy lies in the temporary directory of the system and is gone
  when the run ends.
\<close>

datatype run_end = RunOk | RunBlocked | RunNoop | RunFailed

definition run_blocked :: "surroundings \<Rightarrow> listed_profile \<Rightarrow> refresher \<Rightarrow> bool" where
  "run_blocked E p w =
     (maintenance_target_blocked (path_is_link w) p \<or> maintenance_grace_blocked (en_now E) p)"

definition validate_full_claude :: "document \<Rightarrow> int option" where
  "validate_full_claude d =
     (case load_claude_auth d of
        None \<Rightarrow> None
      | Some c \<Rightarrow> if cl_refresh c = [] then None else cl_expires c)"

definition copy_back ::
    "surroundings \<Rightarrow> string \<Rightarrow> listed_profile \<Rightarrow> document \<Rightarrow> document \<Rightarrow> refresher \<Rightarrow> run_end \<times> refresher" where
  "copy_back E tool p start rotated w =
     (case commit_rotated_credentials E tool (pi_name p) start rotated (en_now E) w of
        (True, w1) \<Rightarrow> (RunOk, w1)
      | (False, w1) \<Rightarrow> (RunFailed, w1))"

definition claude_refresh_run :: "surroundings \<Rightarrow> listed_profile \<Rightarrow> refresher \<Rightarrow> run_end \<times> refresher" where
  "claude_refresh_run E p w =
     (if run_blocked E p w then (RunBlocked, w)
      else if pi_path p = [] then (RunFailed, w)
      else
        case read_credential w (pi_path p) of
          None \<Rightarrow> (RunFailed, w)
        | Some start \<Rightarrow>
            (case (validate_full_claude start, force_expire_claude start) of
               (Some old, Some copy) \<Rightarrow>
                 if \<not> en_reachable E then (RunFailed, w)
                 else
                   let (r, after) = en_run E copy in
                   (case after of
                      None \<Rightarrow> (RunFailed, w)
                    | Some rotated \<Rightarrow>
                        (case validate_claude_credentials rotated of
                           None \<Rightarrow> (RunFailed, w)
                         | Some new \<Rightarrow>
                             if new \<le> old then (if rr_error r \<noteq> None then RunFailed else RunNoop, w)
                             else copy_back E ''claude'' p start rotated w))
             | _ \<Rightarrow> (RunFailed, w)))"

definition classify_refresh :: "run_end \<Rightarrow> listed_profile \<Rightarrow> refresh_verdict" where
  "classify_refresh e p =
     (case e of
        RunOk \<Rightarrow> VerdictSuccess
      | RunBlocked \<Rightarrow> VerdictNoop None
      | RunNoop \<Rightarrow> VerdictNoop (lp_expires p)
      | RunFailed \<Rightarrow> VerdictFailure)"

definition claude_warm_run :: "surroundings \<Rightarrow> listed_profile \<Rightarrow> refresher \<Rightarrow> run_end \<times> refresher" where
  "claude_warm_run E p w =
     (if run_blocked E p w then (RunBlocked, w)
      else if pi_path p = [] then (RunFailed, w)
      else
        case read_credential w (pi_path p) of
          None \<Rightarrow> (RunFailed, w)
        | Some start \<Rightarrow>
            if validate_claude_credentials start = None \<or> \<not> en_reachable E then (RunFailed, w)
            else
              let (r, after) = en_run E start in
              if rr_error r \<noteq> None then (RunFailed, w)
              else
                case after of
                  None \<Rightarrow> (RunFailed, w)
                | Some rotated \<Rightarrow>
                    if rotated = start then (RunOk, w)
                    else if validate_claude_credentials rotated = None then (RunFailed, w)
                    else copy_back E ''claude'' p start rotated w)"

definition codex_rotated :: "codex_credentials \<Rightarrow> codex_credentials \<Rightarrow> bool" where
  "codex_rotated old new =
     (cx_access new \<noteq> cx_access old \<and>
      (case cx_last_refresh new of
         None \<Rightarrow> False
       | Some b \<Rightarrow> (case cx_last_refresh old of None \<Rightarrow> True | Some a \<Rightarrow> a < b)))"

definition codex_run :: "surroundings \<Rightarrow> bool \<Rightarrow> listed_profile \<Rightarrow> refresher \<Rightarrow> run_end \<times> refresher" where
  "codex_run E force p w =
     (if run_blocked E p w then (RunBlocked, w)
      else
        case read_credential w (pi_path p) of
          None \<Rightarrow> (RunFailed, w)
        | Some start \<Rightarrow>
            (case (parse_codex_auth_data_full (en_readers E) start,
                   if force then force_expire_codex start else Some start) of
               (Some old, Some copy) \<Rightarrow>
                 if \<not> en_reachable E then (RunFailed, w)
                 else
                   let (r, after) = en_run E copy; failed = (rr_error r \<noteq> None) in
                   (case after of
                      None \<Rightarrow> (RunFailed, w)
                    | Some rotated \<Rightarrow>
                        if \<not> failed \<and> \<not> force \<and> rotated = start then (RunOk, w)
                        else
                          (case parse_codex_auth_data_full (en_readers E) rotated of
                             None \<Rightarrow> (RunFailed, w)
                           | Some new \<Rightarrow>
                               if (failed \<or> force) \<and> \<not> codex_rotated old new then (RunFailed, w)
                               else copy_back E ''codex'' p start rotated w))
             | _ \<Rightarrow> (RunFailed, w)))"

subsection \<open>Invariants of the coordinators\<close>

fun kind_tool :: "job_kind \<Rightarrow> string" where
  "kind_tool ClaudeRefresh = ''claude''"
| "kind_tool ClaudeWarm = ''claude''"
| "kind_tool CodexRefresh = ''codex''"
| "kind_tool CodexWarm = ''codex''"

fun maybe_start :: "maint_world \<Rightarrow> job_kind \<Rightarrow> listed_profile \<Rightarrow> maintainers \<Rightarrow> bool \<times> maintainers" where
  "maybe_start M ClaudeRefresh = maybe_claude_refresh M"
| "maybe_start M ClaudeWarm = maybe_claude_warm M"
| "maybe_start M CodexRefresh = maybe_codex_refresh M"
| "maybe_start M CodexWarm = maybe_codex_warm M"

fun qualifies :: "maint_world \<Rightarrow> job_kind \<Rightarrow> listed_profile \<Rightarrow> bool" where
  "qualifies M ClaudeRefresh = claude_profile_needs_refresh M"
| "qualifies M ClaudeWarm = claude_profile_eligible_for_warmup M"
| "qualifies M CodexRefresh = codex_profile_needs_refresh M"
| "qualifies M CodexWarm = codex_profile_eligible_for_warmup M"

text \<open>
  A property of the coordinators that every start of an allowed job keeps, and that does not look at
  what the two modes remember, is kept by a whole tick.
\<close>

locale job_property =
  fixes M :: maint_world and good :: "maintainers \<Rightarrow> bool"
  assumes starts: "good m \<Longrightarrow> qualifies M k p \<Longrightarrow> \<not> wd_owns (mw_world M) (kind_tool k) \<Longrightarrow>
      good (snd (maybe_start M k p m))"
    and minute_free: "good (m\<lparr>mt_minute := a\<rparr>) = good m"
    and spaced_free: "good (m\<lparr>mt_spaced := a, mt_spaced_name := n\<rparr>) = good m"
    and codex_free: "good (m\<lparr>mt_codex_spaced := a, mt_codex_spaced_name := n\<rparr>) = good m"
begin

lemma fold_starts:
  assumes "good m" "\<And>x m. x \<in> set xs \<Longrightarrow> good m \<Longrightarrow> good (f x m)"
  shows "good (fold f xs m)"
  using assms by (induction xs arbitrary: m) auto

lemma claude_pass:
  assumes "claude_spaced_pass M gap skip ps m = Some m1" "good m" "\<not> wd_owns (mw_world M) ''claude''"
    "\<forall>p \<in> set ps. claude_profile_eligible_for_warmup M p"
  shows "good m1"
  using assms
proof (induction ps arbitrary: m)
  case (Cons p ps)
  obtain b m2 where s: "maybe_claude_warm M p m = (b, m2)" by (cases "maybe_claude_warm M p m")
  have "good m2" using starts [of m ClaudeWarm p] Cons.prems s by simp
  then show ?case using Cons s by (cases b) (auto simp: spaced_free split: if_splits)
qed simp

lemma codex_pass:
  assumes "good m" "\<not> wd_owns (mw_world M) ''codex''" "\<forall>p \<in> set ps. codex_profile_eligible_for_warmup M p"
  shows "good (codex_spaced_pass M several ps m)"
  using assms
proof (induction ps arbitrary: m)
  case (Cons p ps)
  obtain b m2 where s: "maybe_codex_warm M p m = (b, m2)" by (cases "maybe_codex_warm M p m")
  have "good m2" using starts [of m CodexWarm p] Cons.prems s by simp
  then show ?case using Cons s by (cases b) (auto simp: codex_free)
qed simp

end

lemma set_longest_idle [simp]: "set (longest_idle_first cs) = set cs"
  by (simp add: longest_idle_first_def)

lemma length_longest_idle [simp]: "length (longest_idle_first cs) = length cs"
  by (simp add: longest_idle_first_def)

lemma candidates_eligible:
  "c \<in> set (fst (warmup_candidates M eligible weekly es ps)) \<Longrightarrow> eligible (wc_profile c)"
  by (auto simp: warmup_candidates_def Let_def List.map_filter_def split: if_splits option.splits)

context job_property
begin

lemma claude_refresh_tick:
  "good m \<Longrightarrow> good (trigger_claude_refresh M u m)"
  using starts [where k = ClaudeRefresh]
  by (auto simp: trigger_claude_refresh_def split: option.split
      intro!: fold_starts)

lemma spaced_claude:
  assumes "good m" "\<not> wd_owns (mw_world M) ''claude''" "\<forall>c \<in> set cs. claude_profile_eligible_for_warmup M (wc_profile c)"
  shows "good (trigger_spaced_claude_warmup M cs n m)"
  using assms claude_pass [OF _ assms(1,2)]
  by (auto simp: trigger_spaced_claude_warmup_def Let_def split: option.split)

lemma claude_warm_tick:
  assumes "good m" shows "good (trigger_claude_warmup M u m)"
proof (cases "wd_owns (mw_world M) ''claude'' \<or> load_config (um_config u) = None")
  case True then show ?thesis using assms by (auto simp: trigger_claude_warmup_def)
next
  case False
  then obtain c where c: "load_config (um_config u) = Some c" and o: "\<not> wd_owns (mw_world M) ''claude''" by auto
  let ?cs = "warmup_candidates M (claude_profile_eligible_for_warmup M) [''weekly'']
       (get_or [] (load_cache (um_cache u)) ''claude-code'')
       (profiles_for_provider (mw_world M) (um_config u) ''claude-code'')"
  have el: "\<forall>x \<in> set (fst ?cs). claude_profile_eligible_for_warmup M (wc_profile x)"
    using candidates_eligible by blast
  have all: "good (fold (\<lambda>x m. snd (maybe_claude_warm M (wc_profile x) m)) (fst ?cs) m1)" if "good m1" for m1
    using starts [where k = ClaudeWarm] that el o by (auto intro!: fold_starts)
  have due: "good (snd (warmup_schedule_due M raw m))" for raw
    using assms by (auto simp: warmup_schedule_due_def Let_def minute_free split: option.split)
  show ?thesis
    using c o assms due all spaced_claude [OF _ o el]
    by (auto simp: trigger_claude_warmup_def Let_def case_prod_beta)
qed

lemma codex_tick:
  assumes "good m" shows "good (trigger_codex_maintenance M u m)"
proof (cases "load_config (um_config u)")
  case None then show ?thesis using assms by (simp add: trigger_codex_maintenance_def)
next
  case (Some c)
  let ?ps = "profiles_for_provider (mw_world M) (um_config u) ''codex''"
  let ?cs = "warmup_candidates M (codex_profile_eligible_for_warmup M) [''weekly'', ''codex_spark_weekly'']
       (get_or [] (load_cache (um_cache u)) ''codex'') ?ps"
  let ?m1 = "fold (\<lambda>p m. if \<not> wd_owns (mw_world M) ''codex'' \<and> codex_profile_needs_refresh M p
                        then snd (maybe_codex_refresh M p m) else m) ?ps m"
  have m1: "good ?m1"
    using starts [where k = CodexRefresh] assms
    by (auto intro!: fold_starts)
  have el: "\<forall>x \<in> set (fst ?cs). codex_profile_eligible_for_warmup M (wc_profile x)"
    using candidates_eligible by blast
  have all: "good (fold (\<lambda>x m. snd (maybe_codex_warm M (wc_profile x) m)) (fst ?cs) ?m1)"
    if "\<not> wd_owns (mw_world M) ''codex''"
    using starts [where k = CodexWarm] that el m1 by (auto intro!: fold_starts)
  have spaced: "good (trigger_spaced_codex_warmup M (fst ?cs) n ?m1)"
    if "\<not> wd_owns (mw_world M) ''codex''" for n
    using codex_pass [OF m1 that] el by (auto simp: trigger_spaced_codex_warmup_def m1)
  show ?thesis
    using Some assms m1 all spaced
    by (auto simp: trigger_codex_maintenance_def Let_def case_prod_beta)
qed

lemma tick: "good m \<Longrightarrow> good (maintenance_tick M u m)"
  by (simp add: maintenance_tick_def codex_tick claude_warm_tick claude_refresh_tick)

end

end
