(* ===== verification/Upkeep.thy ===== *)
theory Upkeep
  imports Maintenance StoreInv
begin

section \<open>What the maintenance of profiles promises\<close>

text \<open>
  One job at a time per account, no job on a profile in use, a warm-up at most once an hour and spaced
  in the smart mode, and no rotated token lost by a refresh; a warm-up can lose one.
\<close>

subsection \<open>Starting a job\<close>

definition kind_gap :: "job_kind \<Rightarrow> int" where
  "kind_gap k = (case k of CodexRefresh \<Rightarrow> refresh_fail_backoff | _ \<Rightarrow> warmup_cooldown)"

text \<open>A start changes the slot, takes the account and is logged; a refusal changes nothing.\<close>

lemma start_job_cases:
  assumes "start_job M kind tool waits stamp p m = (b, m1)"
  shows "\<not> b \<and> m1 = m \<or>
    b \<and> sl_held (slot_of m (kind, pi_name p)) = None \<and> \<not> waits (slot_of m (kind, pi_name p)) \<and>
    maintenance_identity M tool p \<notin> set (mt_busy m) \<and>
    m1 = m\<lparr>mt_slots := put (kind, pi_name p)
             ((stamp (slot_of m (kind, pi_name p)))\<lparr>sl_held := Some (maintenance_identity M tool p)\<rparr>)
             (mt_slots m),
           mt_busy := maintenance_identity M tool p # mt_busy m,
           mt_log := mt_log m @ [\<lparr>js_kind = kind, js_profile = p, js_at = mw_now M\<rparr>]\<rparr>"
  using assms
  by (auto simp: start_job_def acquire_account_def set_slot_def Let_def split: if_splits option.splits)

lemma maybe_start_cases:
  assumes "maybe_start M k p m = (b, m1)"
  shows "\<not> b \<and> m1 = m \<or>
    b \<and> wd_available (mw_world M) \<and> sl_held (slot_of m (k, pi_name p)) = None \<and>
    (k \<noteq> ClaudeRefresh \<longrightarrow> \<not> recent (kind_gap k) (mw_now M) (sl_last (slot_of m (k, pi_name p)))) \<and>
    (\<exists>s i. sl_held s = Some i \<and> i \<notin> set (mt_busy m) \<and>
      (k \<noteq> ClaudeRefresh \<longrightarrow> sl_last s = Some (mw_now M)) \<and>
      m1 = m\<lparr>mt_slots := put (k, pi_name p) s (mt_slots m), mt_busy := i # mt_busy m,
             mt_log := mt_log m @ [\<lparr>js_kind = k, js_profile = p, js_at = mw_now M\<rparr>]\<rparr>)"
proof (cases "wd_available (mw_world M)")
  case False
  then show ?thesis
    using assms
    by (cases k) (auto simp: maybe_claude_refresh_def maybe_claude_warm_def maybe_codex_refresh_def
        maybe_codex_warm_def when_available_def)
next
  case True
  define waits :: "job_slot \<Rightarrow> bool" where "waits = (case k of
      ClaudeRefresh \<Rightarrow> (\<lambda>s. recent refresh_fail_backoff (mw_now M) (sl_last s) \<or>
                           (case sl_retry s of None \<Rightarrow> False | Some t \<Rightarrow> mw_now M < t))
    | _ \<Rightarrow> (\<lambda>s. recent (kind_gap k) (mw_now M) (sl_last s)))"
  define stamp :: "job_slot \<Rightarrow> job_slot" where "stamp = (case k of ClaudeRefresh \<Rightarrow> (\<lambda>s::job_slot. s)
    | _ \<Rightarrow> (\<lambda>s. s\<lparr>sl_last := Some (mw_now M)\<rparr>))"
  have "start_job M k (kind_tool k) waits stamp p m = (b, m1)"
    using assms True
    by (cases k) (simp_all add: maybe_claude_refresh_def maybe_claude_warm_def maybe_codex_refresh_def
        maybe_codex_warm_def when_available_def claude_refresh_start_def claude_warm_start_def
        codex_claim_def waits_def stamp_def kind_gap_def)
  note cases = start_job_cases [OF this]
  have w: "k \<noteq> ClaudeRefresh \<Longrightarrow> waits s = recent (kind_gap k) (mw_now M) (sl_last s)" for s
    by (cases k) (simp_all add: waits_def)
  have st: "k \<noteq> ClaudeRefresh \<Longrightarrow> sl_last (stamp s) = Some (mw_now M)" for s
    by (cases k) (simp_all add: stamp_def)
  let ?i = "maintenance_identity M (kind_tool k) p"
  let ?s = "(stamp (slot_of m (k, pi_name p)))\<lparr>sl_held := Some ?i\<rparr>"
  from cases show ?thesis
  proof (elim disjE)
    assume r: "b \<and> sl_held (slot_of m (k, pi_name p)) = None \<and> \<not> waits (slot_of m (k, pi_name p)) \<and>
      ?i \<notin> set (mt_busy m) \<and>
      m1 = m\<lparr>mt_slots := put (k, pi_name p) ?s (mt_slots m), mt_busy := ?i # mt_busy m,
             mt_log := mt_log m @ [\<lparr>js_kind = k, js_profile = p, js_at = mw_now M\<rparr>]\<rparr>"
    note rs = conjunct1 [OF r] conjunct1 [OF conjunct2 [OF r]]
      conjunct1 [OF conjunct2 [OF conjunct2 [OF r]]]
      conjunct1 [OF conjunct2 [OF conjunct2 [OF conjunct2 [OF r]]]]
      conjunct2 [OF conjunct2 [OF conjunct2 [OF conjunct2 [OF r]]]]
    have s: "sl_held ?s = Some ?i" "k \<noteq> ClaudeRefresh \<longrightarrow> sl_last ?s = Some (mw_now M)"
      using st by simp_all
    have n: "k \<noteq> ClaudeRefresh \<longrightarrow> \<not> recent (kind_gap k) (mw_now M) (sl_last (slot_of m (k, pi_name p)))"
      using rs(3) w by metis
    show ?thesis
      by (rule disjI2) (intro conjI exI [of _ ?s] exI [of _ ?i]; rule rs True s n)
  qed blast
qed

subsection \<open>One job per account\<close>

abbreviation held_by :: "maintainers \<Rightarrow> job_kind \<times> string \<Rightarrow> string option" where
  "held_by m k \<equiv> sl_held (slot_of m k)"

definition guard_ok :: "maintainers \<Rightarrow> bool" where
  "guard_ok m =
     ((\<forall>k i. held_by m k = Some i \<longrightarrow> i \<in> set (mt_busy m)) \<and>
      (\<forall>i \<in> set (mt_busy m). \<exists>k. held_by m k = Some i) \<and>
      (\<forall>k k1 i. held_by m k = Some i \<and> held_by m k1 = Some i \<longrightarrow> k = k1))"

lemma guard_okD:
  assumes "guard_ok m"
  shows "held_by m k = Some i \<Longrightarrow> i \<in> set (mt_busy m)"
    and "i \<in> set (mt_busy m) \<Longrightarrow> \<exists>k. held_by m k = Some i"
    and "held_by m k = Some i \<Longrightarrow> held_by m k1 = Some i \<Longrightarrow> k = k1"
  using assms unfolding guard_ok_def by blast+

lemma slot_of_put: "slot_of (m\<lparr>mt_slots := put k s (mt_slots m)\<rparr>) k1 = (if k1 = k then s else slot_of m k1)"
  by (simp add: slot_of_def)

lemma guard_start:
  assumes "guard_ok m" shows "guard_ok (snd (maybe_start M k p m))"
proof -
  obtain b m1 where s: "maybe_start M k p m = (b, m1)" by (cases "maybe_start M k p m")
  from maybe_start_cases [OF s] show ?thesis
  proof (elim disjE conjE exE)
    fix s1 i
    assume h: "held_by m (k, pi_name p) = None" "sl_held s1 = Some i" "i \<notin> set (mt_busy m)"
      and m1: "m1 = m\<lparr>mt_slots := put (k, pi_name p) s1 (mt_slots m), mt_busy := i # mt_busy m,
             mt_log := mt_log m @ [\<lparr>js_kind = k, js_profile = p, js_at = mw_now M\<rparr>]\<rparr>"
    have slot: "slot_of m1 k1 = (if k1 = (k, pi_name p) then s1 else slot_of m k1)" for k1
      by (simp add: m1 slot_of_def)
    have busy: "set (mt_busy m1) = insert i (set (mt_busy m))" by (simp add: m1)
    have old: "k1 \<noteq> (k, pi_name p)" if "held_by m k1 = Some j" for k1 j using h(1) that by auto
    have "\<exists>k1. held_by m1 k1 = Some j" if "j \<in> set (mt_busy m1)" for j
    proof (cases "j = i")
      case True
      then have "held_by m1 (k, pi_name p) = Some j" using h(2) by (simp add: slot)
      then show ?thesis by blast
    next
      case False
      then have "j \<in> set (mt_busy m)" using that by (simp add: busy)
      then obtain k1 where "held_by m k1 = Some j" using guard_okD(2) [OF assms] by blast
      then have "held_by m1 k1 = Some j" using old by (simp add: slot)
      then show ?thesis by blast
    qed
    moreover have "j \<in> set (mt_busy m1)" if "held_by m1 k1 = Some j" for k1 j
    proof (cases "k1 = (k, pi_name p)")
      case True then show ?thesis using that h(2) busy by (simp add: slot)
    next
      case False
      then have "held_by m k1 = Some j" using that by (simp add: slot)
      then show ?thesis using guard_okD(1) [OF assms] by (simp add: busy)
    qed
    moreover have "k1 = k2" if "held_by m1 k1 = Some j" "held_by m1 k2 = Some j" for k1 k2 j
    proof -
      have new: "k3 = (k, pi_name p) \<and> j = i \<or> k3 \<noteq> (k, pi_name p) \<and> held_by m k3 = Some j \<and> j \<noteq> i"
        if "held_by m1 k3 = Some j" for k3
        using that h(2,3) guard_okD(1) [OF assms, of k3 j] by (cases "k3 = (k, pi_name p)") (auto simp: slot)
      show ?thesis using new [OF that(1)] new [OF that(2)] guard_okD(3) [OF assms] by blast
    qed
    ultimately have "guard_ok m1" unfolding guard_ok_def by blast
    then show ?thesis using s by simp
  qed (use s assms in simp)
qed

lemma release_slot_fields [simp]:
  "slot_of (release_slot k m) k1 = (if k1 = k then (slot_of m k)\<lparr>sl_held := None\<rparr> else slot_of m k1)"
  "set (mt_busy (release_slot k m)) = set (mt_busy m) - set_option (held_by m k)"
  "mt_log (release_slot k m) = mt_log m"
  by (auto simp: release_slot_def Let_def set_slot_def release_account_def slot_of_def split: option.split)

lemma guard_release:
  assumes "guard_ok m" shows "guard_ok (release_slot k m)"
proof -
  have "\<exists>k1. held_by (release_slot k m) k1 = Some i" if "i \<in> set (mt_busy (release_slot k m))" for i
  proof -
    have i: "i \<in> set (mt_busy m)" "held_by m k \<noteq> Some i" using that by auto
    then obtain k1 where "held_by m k1 = Some i" using guard_okD(2) [OF assms] by blast
    then show ?thesis using i(2) by (intro exI [of _ k1]) auto
  qed
  moreover have "i \<in> set (mt_busy (release_slot k m))" if "held_by (release_slot k m) k1 = Some i" for k1 i
  proof -
    have k: "k1 \<noteq> k" "held_by m k1 = Some i" using that by (auto split: if_splits)
    then have "held_by m k \<noteq> Some i" using guard_okD(3) [OF assms] by blast
    then show ?thesis using k guard_okD(1) [OF assms] by auto
  qed
  moreover have "k1 = k2"
    if "held_by (release_slot k m) k1 = Some i" "held_by (release_slot k m) k2 = Some i" for k1 k2 i
  proof -
    have "held_by m k1 = Some i" "held_by m k2 = Some i" using that by (auto split: if_splits)
    then show ?thesis by (rule guard_okD(3) [OF assms])
  qed
  ultimately show ?thesis unfolding guard_ok_def by blast
qed

subsection \<open>The pace of one profile\<close>

definition start_times :: "maintainers \<Rightarrow> job_kind \<Rightarrow> string \<Rightarrow> int list" where
  "start_times m k n =
     map js_at (filter (\<lambda>s. js_kind s = k \<and> pi_name (js_profile s) = n) (mt_log m))"

definition paced :: "int \<Rightarrow> int list \<Rightarrow> bool" where
  "paced gap ts = sorted_wrt (\<lambda>a b. gap \<le> b - a) ts"

lemma paced_snoc:
  assumes "paced gap ts" "0 \<le> gap" "ts \<noteq> [] \<Longrightarrow> gap \<le> t - last ts"
  shows "paced gap (ts @ [t])"
proof -
  have "gap \<le> t - a" if "a \<in> set ts" for a
  proof (cases "a = last ts")
    case False
    have "ts \<noteq> []" using that by auto
    then have ts: "ts = butlast ts @ [last ts]" by simp
    have "a \<in> set (butlast ts @ [last ts])" using that ts by simp
    then have "a \<in> set (butlast ts)" using False by simp
    moreover have "paced gap (butlast ts @ [last ts])" using assms(1) ts by simp
    ultimately have "gap \<le> last ts - a" by (simp add: paced_def sorted_wrt_append)
    then show ?thesis using assms(2,3) that by fastforce
  next
    case True
    have "ts \<noteq> []" using that by auto
    then show ?thesis using assms(3) True by simp
  qed
  then show ?thesis using assms(1) by (simp add: paced_def sorted_wrt_append)
qed

definition pace_ok :: "maintainers \<Rightarrow> bool" where
  "pace_ok m =
     (\<forall>k n. k \<noteq> ClaudeRefresh \<longrightarrow> paced (kind_gap k) (start_times m k n) \<and>
        sl_last (slot_of m (k, n)) =
          (if start_times m k n = [] then None else Some (last (start_times m k n))))"

lemma pace_start:
  assumes "pace_ok m" shows "pace_ok (snd (maybe_start M k p m))"
proof -
  obtain b m1 where s: "maybe_start M k p m = (b, m1)" by (cases "maybe_start M k p m")
  from maybe_start_cases [OF s] show ?thesis
  proof (elim disjE conjE exE)
    fix s1 i
    assume r: "k \<noteq> ClaudeRefresh \<longrightarrow> \<not> recent (kind_gap k) (mw_now M) (sl_last (slot_of m (k, pi_name p)))"
      and l: "k \<noteq> ClaudeRefresh \<longrightarrow> sl_last s1 = Some (mw_now M)"
      and m1: "m1 = m\<lparr>mt_slots := put (k, pi_name p) s1 (mt_slots m), mt_busy := i # mt_busy m,
             mt_log := mt_log m @ [\<lparr>js_kind = k, js_profile = p, js_at = mw_now M\<rparr>]\<rparr>"
    have slot: "slot_of m1 k1 = (if k1 = (k, pi_name p) then s1 else slot_of m k1)" for k1
      by (simp add: m1 slot_of_def)
    have times: "start_times m1 k1 n =
        start_times m k1 n @ (if k1 = k \<and> n = pi_name p then [mw_now M] else [])" for k1 n
      by (auto simp: m1 start_times_def)
    have "paced (kind_gap k1) (start_times m1 k1 n) \<and>
        sl_last (slot_of m1 (k1, n)) =
          (if start_times m1 k1 n = [] then None else Some (last (start_times m1 k1 n)))"
      if k1: "k1 \<noteq> ClaudeRefresh" for k1 n
    proof (cases "k1 = k \<and> n = pi_name p")
      case True
      let ?ts = "start_times m k (pi_name p)"
      have old: "paced (kind_gap k) ?ts"
        "sl_last (slot_of m (k, pi_name p)) = (if ?ts = [] then None else Some (last ?ts))"
        using assms True k1 by (simp_all add: pace_ok_def)
      have "paced (kind_gap k) (?ts @ [mw_now M])"
        using r True k1 old
        by (intro paced_snoc) (auto simp: recent_def kind_gap_def refresh_fail_backoff_def
            warmup_cooldown_def hour_def minute_def second_def split: job_kind.split)
      then show ?thesis using True l k1 by (simp add: times slot)
    next
      case False
      then show ?thesis using assms k1 by (auto simp: times slot pace_ok_def paced_def)
    qed
    then show ?thesis using s by (simp add: pace_ok_def)
  qed (use s assms in simp)
qed

text \<open>What a tick adds to the history.\<close>

definition allowed_start :: "maint_world \<Rightarrow> job_start \<Rightarrow> bool" where
  "allowed_start M s =
     (qualifies M (js_kind s) (js_profile s) \<and> \<not> wd_owns (mw_world M) (kind_tool (js_kind s)) \<and>
      wd_available (mw_world M) \<and> js_at s = mw_now M)"

definition extends_log :: "maint_world \<Rightarrow> job_start list \<Rightarrow> maintainers \<Rightarrow> bool" where
  "extends_log M h m = (\<exists>new. mt_log m = h @ new \<and> (\<forall>s \<in> set new. allowed_start M s))"

lemma log_start:
  assumes "extends_log M h m" "qualifies M k p" "\<not> wd_owns (mw_world M) (kind_tool k)"
  shows "extends_log M h (snd (maybe_start M k p m))"
proof -
  obtain b m1 where s: "maybe_start M k p m = (b, m1)" by (cases "maybe_start M k p m")
  obtain new where new: "mt_log m = h @ new" "\<forall>s \<in> set new. allowed_start M s"
    using assms(1) by (auto simp: extends_log_def)
  have "mt_log m1 = mt_log m \<or>
      mt_log m1 = mt_log m @ [\<lparr>js_kind = k, js_profile = p, js_at = mw_now M\<rparr>] \<and> wd_available (mw_world M)"
    using maybe_start_cases [OF s] by auto
  then show ?thesis
  proof (elim disjE conjE)
    assume "mt_log m1 = mt_log m @ [\<lparr>js_kind = k, js_profile = p, js_at = mw_now M\<rparr>]"
      "wd_available (mw_world M)"
    then show ?thesis
      using new assms(2,3) s unfolding extends_log_def
      by (intro exI [of _ "new @ [\<lparr>js_kind = k, js_profile = p, js_at = mw_now M\<rparr>]"])
        (auto simp: allowed_start_def)
  qed (use s assms(1) in \<open>simp add: extends_log_def\<close>)
qed

subsection \<open>Ticks and ends\<close>

interpretation guard: job_property M guard_ok for M
  by unfold_locales (simp_all add: guard_start, simp_all add: guard_ok_def slot_of_def)

interpretation pace: job_property M pace_ok for M
  by unfold_locales (simp_all add: pace_start, simp_all add: pace_ok_def slot_of_def start_times_def)

interpretation history: job_property M "extends_log M h" for M h
  by unfold_locales (simp_all add: log_start, simp_all add: extends_log_def)

inductive maint_step :: "maintainers \<Rightarrow> maintainers \<Rightarrow> bool" where
  tick: "maint_step m (maintenance_tick M u m)"
| refreshed: "maint_step m (claude_refresh_finish now name v m)"
| warmed: "maint_step m (claude_warm_finish name m)"
| codex_done: "k \<in> {CodexRefresh, CodexWarm} \<Longrightarrow> maint_step m (codex_finish k name m)"

lemma pace_release: "pace_ok m \<Longrightarrow> pace_ok (release_slot k m)"
  by (auto simp: pace_ok_def start_times_def)

lemma guard_same:
  assumes "guard_ok m" "mt_busy m1 = mt_busy m" "\<And>k. held_by m1 k = held_by m k"
  shows "guard_ok m1"
  using assms unfolding guard_ok_def by simp

definition upkeep_ok :: "maintainers \<Rightarrow> bool" where
  "upkeep_ok m = (guard_ok m \<and> pace_ok m)"

interpretation upkeep: invariant_relation maint_step upkeep_ok
proof unfold_locales
  show "upkeep_ok m1" if "maint_step m m1" "upkeep_ok m" for m m1
    using that
  proof (induction rule: maint_step.induct)
    case (refreshed m now name v)
    let ?k = "(ClaudeRefresh, name)"
    let ?m1 = "release_slot ?k m"
    let ?m2 = "claude_refresh_finish now name v m"
    have g: "guard_ok ?m1" and p: "pace_ok ?m1"
      using refreshed guard_release pace_release by (auto simp: upkeep_ok_def)
    have slot: "slot_of ?m2 k1 = (if k1 = ?k then slot_of ?m2 ?k else slot_of ?m1 k1)"
      and held: "held_by ?m2 ?k = held_by ?m1 ?k" for k1
      by (auto simp: claude_refresh_finish_def Let_def set_slot_def slot_of_def split: refresh_verdict.split)
    have rest: "mt_busy ?m2 = mt_busy ?m1" "mt_log ?m2 = mt_log ?m1"
      by (simp_all add: claude_refresh_finish_def Let_def set_slot_def)
    have "guard_ok ?m2" by (rule guard_same [OF g rest(1)]) (metis slot held)
    moreover have "pace_ok ?m2"
      using p unfolding pace_ok_def start_times_def rest(2) by (simp add: slot)
    ultimately show ?case by (simp add: upkeep_ok_def)
  qed (auto simp: upkeep_ok_def guard.tick pace.tick guard_release pace_release claude_warm_finish_def
      codex_finish_def)
qed

lemma upkeep_new: "upkeep_ok new_maintainers"
  by (simp add: upkeep_ok_def guard_ok_def pace_ok_def new_maintainers_def slot_of_def free_slot_def
      start_times_def paced_def)

subsection \<open>Properties\<close>


definition idle_profile :: "string \<Rightarrow> listed_profile" where
  "idle_profile n =
     \<lparr>pi_tool = ''claude'', pi_name = n, pi_active = False, pi_path = n @ ''.json'', pi_credentials = True,
      pi_away = None, lp_email = [], lp_expires = None\<rparr>"

definition quiet_world :: usage_world where
  "quiet_world =
     \<lparr>wd_now = 1000 * hour, wd_env = [], wd_listed = (\<lambda>tool. if tool = ''claude'' then Some [idle_profile ''a'', idle_profile ''b''] else Some []),
      wd_docs = [], wd_live = (\<lambda>t. t), wd_sha = (\<lambda>_. []),
      wd_readers = \<lparr>rd_jwt = (\<lambda>_. None), rd_time = (\<lambda>_. None)\<rparr>, wd_registered = (\<lambda>_. True),
      wd_eligible = (\<lambda>_. (True, False, [])), wd_switcher = True, wd_available = True, wd_owns = (\<lambda>_. False),
      wd_migrated = (\<lambda>_. False), wd_alerts = [], wd_scope = []\<rparr>"

definition quiet_maint :: maint_world where
  "quiet_maint =
     \<lparr>mw_world = quiet_world, mw_taken = (\<lambda>_. False), mw_link = (\<lambda>_. False), mw_hash = (\<lambda>s. s),
      mw_clock = \<lparr>cl_minute = 0, cl_hour = 4, cl_day = 1, cl_month = 1, cl_weekday = 0\<rparr>\<rparr>"

definition ok_entry :: "string \<Rightarrow> usage_entry" where
  "ok_entry n = entry_of (profile_from_snapshot (empty_snapshot\<lparr>sn_status := ''ok''\<rparr>) n)"

definition warm_config :: "string \<Rightarrow> config_file" where
  "warm_config mode =
     (case save_config (default_config\<lparr>uc_auto := True, uc_mode := mode\<rparr>) of Inr f \<Rightarrow> f | Inl _ \<Rightarrow> NoConfig)"

definition warm_manager :: "string \<Rightarrow> usage_manager" where
  "warm_manager mode =
     \<lparr>um_config = warm_config mode, um_cache = CacheFile [(''claude-code'', [ok_entry ''a'', ok_entry ''b''])],
      um_force = None, um_generation = [], um_fingerprints = [], um_tokens = [], um_epoch = 0,
      um_last_epoch = 0, um_last_attempt = None, um_requested = False\<rparr>"

definition warmed :: maintainers where
  "warmed = maintenance_tick quiet_maint (warm_manager ''force'') new_maintainers"

lemma warmed_log: "map (\<lambda>s. (js_kind s, pi_name (js_profile s))) (mt_log warmed) =
    [(ClaudeWarm, ''a''), (ClaudeWarm, ''b'')]"
  by code_simp

lemma warmed_reachable: "maint_step\<^sup>*\<^sup>* new_maintainers warmed"
  unfolding warmed_def by (rule r_into_rtranclp) (rule maint_step.tick)


text \<open>C12. Maintenance leaves the profiles in use alone. Every job that a tick starts runs on a profile
  of its tool that is not active, whose file is not a link to the live credentials, that has not been
  switched away from within eight hours and that has credentials; a refresh only near the expiry; and
  no job starts on a tool that the token refresher owns or without the container tools.\<close>

theorem maintenance_spares_profiles_in_use:
  "\<exists>new. mt_log (maintenance_tick M u m) = mt_log m @ new \<and>
     (\<forall>s \<in> set new.
        let p = js_profile s in
        pi_tool p = kind_tool (js_kind s) \<and> \<not> pi_active p \<and> (pi_path p = [] \<or> \<not> mw_link M (pi_path p)) \<and>
        (case pi_away p of None \<Rightarrow> True | Some t \<Rightarrow> switch_away_grace \<le> mw_now M - t) \<and> pi_credentials p \<and>
        (js_kind s = ClaudeRefresh \<or> js_kind s = CodexRefresh \<longrightarrow> near_expiry M p) \<and>
        \<not> wd_owns (mw_world M) (kind_tool (js_kind s)) \<and> wd_available (mw_world M) \<and> js_at s = mw_now M)"
proof -
  have "extends_log M (mt_log m) m" by (simp add: extends_log_def)
  from history.tick [OF this, of u] obtain new
    where new: "mt_log (maintenance_tick M u m) = mt_log m @ new" "\<forall>s \<in> set new. allowed_start M s"
    by (auto simp: extends_log_def)
  have q: "qualifies M k p \<Longrightarrow> maintainable M (kind_tool k) p \<and>
      (k = ClaudeRefresh \<or> k = CodexRefresh \<longrightarrow> near_expiry M p)" for k p
    by (cases k) (simp_all add: claude_profile_needs_refresh_def codex_profile_needs_refresh_def
        claude_profile_eligible_for_warmup_def codex_profile_eligible_for_warmup_def)
  show ?thesis
    using new q by (intro exI [of _ new])
      (fastforce simp: allowed_start_def maintainable_def maintenance_target_blocked_def
        maintenance_grace_blocked_def Let_def split: option.splits)
qed

lemma maintenance_spares_profiles_in_use_witness:
  "length (mt_log warmed) = 2 \<and> list_all (\<lambda>s. \<not> pi_active (js_profile s)) (mt_log warmed)"
proof -
  have "length (map (\<lambda>s. (js_kind s, pi_name (js_profile s))) (mt_log warmed)) = 2"
    unfolding warmed_log by simp
  moreover have "\<forall>s \<in> set (mt_log warmed). \<not> pi_active (js_profile s)"
    using maintenance_spares_profiles_in_use [of quiet_maint "warm_manager ''force''" new_maintainers]
    unfolding warmed_def Let_def by (auto simp: new_maintainers_def)
  ultimately show ?thesis by (simp add: list_all_iff)
qed

text \<open>C13. Warm-ups are paced. Whatever ticks and ends of jobs follow, and whatever the clock does, two
  warm-ups of the same profile start at least an hour apart, and two refreshes of the same Codex
  profile at least five minutes.\<close>

theorem maintenance_paced:
  assumes "maint_step\<^sup>*\<^sup>* new_maintainers m"
  shows "sorted_wrt (\<lambda>a b. hour \<le> b - a) (start_times m ClaudeWarm n) \<and>
    sorted_wrt (\<lambda>a b. hour \<le> b - a) (start_times m CodexWarm n) \<and>
    sorted_wrt (\<lambda>a b. 5 * minute \<le> b - a) (start_times m CodexRefresh n)"
proof -
  have "pace_ok m" using upkeep.reachable_good [OF assms upkeep_new] by (simp add: upkeep_ok_def)
  then have p: "paced (kind_gap k) (start_times m k n)" if "k \<noteq> ClaudeRefresh" for k
    using that by (simp add: pace_ok_def)
  show ?thesis
    using p [of ClaudeWarm] p [of CodexWarm] p [of CodexRefresh]
    by (simp add: paced_def kind_gap_def warmup_cooldown_def refresh_fail_backoff_def)
qed

definition hour_later :: maint_world where
  "hour_later = quiet_maint\<lparr>mw_world := quiet_world\<lparr>wd_now := 1001 * hour\<rparr>\<rparr>"

definition warmed_again :: maintainers where
  "warmed_again = maintenance_tick hour_later (warm_manager ''force'') (claude_warm_finish ''a'' warmed)"

lemma warmed_again_reachable: "maint_step\<^sup>*\<^sup>* new_maintainers warmed_again"
  unfolding warmed_again_def
  by (rule rtranclp.rtrancl_into_rtrancl [OF rtranclp.rtrancl_into_rtrancl [OF warmed_reachable]])
    (rule maint_step.warmed maint_step.tick)+

lemma maintenance_paced_witness:
  "start_times warmed_again ClaudeWarm ''a'' = [1000 * hour, 1001 * hour] \<and>
   sorted_wrt (\<lambda>a b. hour \<le> b - a) (start_times warmed_again ClaudeWarm ''a'')"
proof -
  have "start_times warmed_again ClaudeWarm ''a'' = [1000 * hour, 1001 * hour]" by code_simp
  then show ?thesis using maintenance_paced [OF warmed_again_reachable, of "''a''"] by blast
qed

text \<open>
  The pace is kept per profile name, not per account: the same account under another name is warmed
  up again at once when the first run is over.
\<close>

lemma rename_lifts_cooldown:
  assumes "maintenance_identity M ''claude'' p = maintenance_identity M ''claude'' q" "pi_name p \<noteq> pi_name q"
    "\<not> mw_taken M (maintenance_identity M ''claude'' p)" "wd_available (mw_world M)"
  shows "fst (maybe_start M ClaudeWarm q
    (claude_warm_finish (pi_name p) (snd (maybe_start M ClaudeWarm p new_maintainers))))"
  using assms
  by (simp add: maybe_claude_warm_def when_available_def claude_warm_start_def start_job_def acquire_account_def
      claude_warm_finish_def release_slot_def release_account_def set_slot_def slot_of_def free_slot_def
      new_maintainers_def recent_def Let_def)

subsection \<open>The smart mode\<close>

lemma maybe_start_refused: "maybe_start M k p m = (False, m1) \<Longrightarrow> m1 = m"
  using maybe_start_cases [of M k p m False m1] by simp

lemma maybe_start_log:
  "maybe_start M k p m = (True, m1) \<Longrightarrow>
   mt_log m1 = mt_log m @ [\<lparr>js_kind = k, js_profile = p, js_at = mw_now M\<rparr>]"
  using maybe_start_cases [of M k p m True m1] by auto

definition spaced_start ::
    "maint_world \<Rightarrow> bool \<Rightarrow> listed_profile \<Rightarrow> maintainers \<Rightarrow> maintainers \<Rightarrow> bool" where
  "spaced_start M free p m m1 =
     (mt_log m1 = mt_log m @ [\<lparr>js_kind = ClaudeWarm, js_profile = p, js_at = mw_now M\<rparr>] \<and>
      mt_spaced m1 = Some (mw_now M) \<and> mt_spaced_name m1 = pi_name p \<and>
      (free \<or> pi_name p = mt_spaced_name m))"

lemma claude_pass_outcome:
  assumes "claude_spaced_pass M gap skip ps m = r"
  shows "(case r of
      Some m1 \<Rightarrow> m1 = m \<and> recent gap (mw_now M) (mt_spaced m) \<or>
        (\<exists>p \<in> set ps. spaced_start M (\<not> recent gap (mw_now M) (mt_spaced m)) p m m1)
    | None \<Rightarrow> \<forall>p \<in> set ps. skip p \<or> \<not> fst (maybe_claude_warm M p m))"
  using assms
proof (induction ps)
  case (Cons p ps)
  obtain b m2 where s: "maybe_claude_warm M p m = (b, m2)" by (cases "maybe_claude_warm M p m")
  show ?case
  proof (cases "skip p \<or> \<not> (pi_name p \<noteq> mt_spaced_name m \<and> recent gap (mw_now M) (mt_spaced m)) \<and> \<not> b")
    case True
    then have "claude_spaced_pass M gap skip ps m = r"
      using Cons.prems s maybe_start_refused [of M ClaudeWarm p m m2] by (auto split: if_splits)
    from Cons.IH [OF this] show ?thesis using True s by (cases r) auto
  next
    case False
    then show ?thesis
      using Cons.prems s maybe_start_log [of M ClaudeWarm p m m2]
      by (auto simp: spaced_start_def split: if_splits)
  qed
qed auto

text \<open>The smart mode spreads the warm-ups. A scan starts at most one of the Claude candidates and
  remembers it; unless it is the one that was started last, the gap since the last start is at least
  five hours divided by the profiles that share the window. And when the gap has passed and any
  candidate can start, one of them does.\<close>

lemma smart_warmup_spaced:
  assumes "trigger_spaced_claude_warmup M cs n m = m1"
  shows "(m1 = m \<or> (\<exists>c \<in> set cs.
        mt_log m1 = mt_log m @ [\<lparr>js_kind = ClaudeWarm, js_profile = wc_profile c, js_at = mw_now M\<rparr>] \<and>
        mt_spaced m1 = Some (mw_now M) \<and> mt_spaced_name m1 = pi_name (wc_profile c) \<and>
        (pi_name (wc_profile c) = mt_spaced_name m \<or>
         (case mt_spaced m of None \<Rightarrow> True | Some t \<Rightarrow> 5 * hour div int n \<le> mw_now M - t)))) \<and>
    (n \<noteq> 0 \<and> (case mt_spaced m of None \<Rightarrow> True | Some t \<Rightarrow> 5 * hour div int n \<le> mw_now M - t) \<and>
      (\<exists>c \<in> set cs. fst (maybe_claude_warm M (wc_profile c) m)) \<longrightarrow> m1 \<noteq> m)"
proof (cases "cs = [] \<or> n = 0")
  case True
  then show ?thesis using assms by (auto simp: trigger_spaced_claude_warmup_def)
next
  case False
  let ?ps = "map wc_profile (longest_idle_first cs)"
  let ?gap = "spacing_gap n"
  let ?free = "\<not> recent ?gap (mw_now M) (mt_spaced m)"
  define r where "r = claude_spaced_pass M ?gap (\<lambda>p. 1 < length ?ps \<and> pi_name p = mt_spaced_name m) ?ps m"
  define r1 where "r1 = claude_spaced_pass M ?gap (\<lambda>p. pi_name p \<noteq> mt_spaced_name m) ?ps m"
  have m1: "m1 = (case r of Some m2 \<Rightarrow> m2 | None \<Rightarrow> case r1 of Some m2 \<Rightarrow> m2 | None \<Rightarrow> m)"
    using assms False unfolding trigger_spaced_claude_warmup_def Let_def r_def r1_def by simp
  note out = claude_pass_outcome [OF r_def [symmetric]] claude_pass_outcome [OF r1_def [symmetric]]
  have free: "?free = (case mt_spaced m of None \<Rightarrow> True | Some t \<Rightarrow> 5 * hour div int n \<le> mw_now M - t)"
    by (auto simp: recent_def spacing_gap_def session_window_def split: option.split)
  have started: "m2 \<noteq> m" if "spaced_start M b p m m2" for b p m2
    using that by (auto simp: spaced_start_def)
  have first: "m1 = m \<and> \<not> ?free \<or> m1 = m \<and> r = None \<and> r1 = None \<or>
      (\<exists>p \<in> set ?ps. spaced_start M ?free p m m1)"
    using out m1 by (cases r; cases r1) auto
  have "\<forall>p \<in> set ?ps. \<not> fst (maybe_claude_warm M p m)" if "r = None" "r1 = None"
    using out that by (cases "1 < length ?ps") auto
  then have second: "?free \<and> (\<exists>c \<in> set cs. fst (maybe_claude_warm M (wc_profile c) m)) \<longrightarrow> m1 \<noteq> m"
    using first started by auto
  show ?thesis
    using first second unfolding free [symmetric] by (auto simp: spaced_start_def)
qed

lemma smart_warmup_spaced_witness:
  "trigger_spaced_claude_warmup quiet_maint
     [\<lparr>wc_profile = idle_profile ''a'', wc_out = Some 3\<rparr>, \<lparr>wc_profile = idle_profile ''b'', wc_out = None\<rparr>] 2
     new_maintainers \<noteq> new_maintainers"
proof -
  let ?cs = "[\<lparr>wc_profile = idle_profile ''a'', wc_out = Some 3\<rparr>, \<lparr>wc_profile = idle_profile ''b'', wc_out = None\<rparr>]"
  have "fst (maybe_claude_warm quiet_maint (idle_profile ''a'') new_maintainers)" by code_simp
  then have "\<exists>c \<in> set ?cs. fst (maybe_claude_warm quiet_maint (wc_profile c) new_maintainers)" by simp
  moreover have "mt_spaced new_maintainers = None" by (simp add: new_maintainers_def)
  ultimately show ?thesis
    using smart_warmup_spaced [of quiet_maint ?cs 2 new_maintainers, OF refl] by auto
qed

text \<open>
  The smart mode of Codex does not come back to the account it warmed up last: while another candidate
  cannot start, nothing starts.
\<close>

lemma codex_smart_stuck:
  assumes "pi_name p = mt_codex_spaced_name m" "\<not> fst (maybe_codex_warm M q m)" "pi_name q \<noteq> pi_name p"
  shows "codex_spaced_pass M True [p, q] m = m \<and> codex_spaced_pass M True [q, p] m = m"
proof -
  obtain m1 where q: "maybe_codex_warm M q m = (False, m1)"
    using assms(2) by (cases "maybe_codex_warm M q m") auto
  then have "m1 = m" using maybe_start_refused [of M CodexWarm q m m1] by simp
  then show ?thesis using assms q by simp
qed

end
