(* ===== verification/Rotation.thy ===== *)
theory Rotation
  imports Upkeep
begin

section \<open>Rotated credentials are kept\<close>

text \<open>
  What the copy-back of a run does with the credentials that the CLI left: they reach the profile or a
  rescue file, unless the profile was removed meanwhile. A refresh therefore never loses the only
  usable token; a warm-up whose CLI fails after it rotated the token does.
\<close>

subsection \<open>Rescue files\<close>

lemma rescue_kept_prune:
  assumes "path \<notin> set paths"
  shows "map_of (k_rescues (fold remove_rescue paths w)) path = map_of (k_rescues w) path"
  using assms
proof (induction paths arbitrary: w)
  case (Cons q qs)
  have "map_of (k_rescues (remove_rescue q w)) path = map_of (k_rescues w) path"
    using Cons.prems by (auto simp: remove_rescue_def disk_def split: list.split fate.split)
  then show ?case using Cons by simp
qed simp

lemma newest_not_dropped:
  fixes f :: "'a \<Rightarrow> 'b::linorder"
  assumes "distinct xs" "x \<in> set xs" "\<forall>y \<in> set xs. y \<noteq> x \<longrightarrow> f y < f x" "0 < n"
  shows "x \<notin> set (drop n (rev (sort_key f xs)))"
proof -
  have "sort_key f xs \<noteq> []" using assms(2) by (metis empty_iff empty_set set_sort)
  then obtain zs z where ys: "sort_key f xs = zs @ [z]" by (metis rev_exhaust)
  have set: "set xs = insert z (set zs)" using ys by (metis Un_insert_right empty_set list.simps(15) set_append set_sort sup_bot_right)
  have "distinct (zs @ [z])" using assms(1) ys by (metis distinct_sort)
  then have z: "z \<notin> set zs" by simp
  have "sorted (map f (zs @ [z]))" using ys by (metis sorted_sort_key)
  then have le: "\<forall>y \<in> set zs. f y \<le> f z" by (simp add: sorted_append)
  have "x = z"
  proof (rule ccontr)
    assume n: "x \<noteq> z"
    then have "f z < f x" using assms(3) set by auto
    moreover have "f x \<le> f z" using n le assms(2) set by auto
    ultimately show False by simp
  qed
  moreover have "set (drop n (rev (zs @ [z]))) \<subseteq> set zs"
    using assms(4) set_drop_subset [of "n - 1" "rev zs"] by (cases n) auto
  ultimately show ?thesis using z ys by auto
qed

definition fresh_stamps :: "refresher \<Rightarrow> bool" where
  "fresh_stamps w =
     (distinct (keys (k_rescues w)) \<and> (\<forall>(t, n, s) \<in> set (keys (k_rescues w)). s < k_stamp w))"

lemma save_aborted_kept:
  assumes "w_fates w = Works # fs" "fresh_stamps w"
  shows "map_of (k_rescues (save_aborted_rotation tool name d w)) (tool, name, k_stamp w) = Some d"
proof -
  let ?path = "(tool, name, k_stamp w)"
  define v where "v = w\<lparr>w_fates := fs, k_rescues := put ?path d (k_rescues w), k_stamp := k_stamp w + 1\<rparr>"
  let ?xs = "rescues_of tool name v"
  have keys: "set (keys (k_rescues v)) = insert ?path (set (keys (k_rescues w)))"
    using set_keys_put [of ?path d "k_rescues w"] by (simp add: v_def)
  have "distinct (keys (k_rescues v))" using assms(2) by (simp add: v_def fresh_stamps_def)
  then have "distinct ?xs" by (simp add: rescues_of_def)
  moreover have "?path \<in> set ?xs" using keys by (simp add: rescues_of_def)
  moreover have "\<forall>y \<in> set ?xs. y \<noteq> ?path \<longrightarrow> (\<lambda>(_, _, stamp). stamp) y < (\<lambda>(_, _, stamp). stamp) ?path"
    using keys assms(2) by (auto simp: rescues_of_def fresh_stamps_def)
  ultimately have "?path \<notin> set (drop max_rotated_rescues (rev (sort_key (\<lambda>(_, _, stamp). stamp) ?xs)))"
    by (intro newest_not_dropped) (auto simp: max_rotated_rescues_def)
  then have "map_of (k_rescues (prune_rotated_rescues tool name v)) ?path = map_of (k_rescues v) ?path"
    unfolding prune_rotated_rescues_def by (rule rescue_kept_prune)
  moreover have "save_aborted_rotation tool name d w = prune_rotated_rescues tool name v"
    using assms(1) by (simp add: save_aborted_rotation_def write_rescue_def disk_def v_def)
  ultimately show ?thesis by (simp add: v_def)
qed

subsection \<open>The copy-back\<close>

text \<open>Where the rotated credentials are afterwards.\<close>

definition stored_rotation ::
    "string \<Rightarrow> string \<Rightarrow> document \<Rightarrow> document \<Rightarrow> refresher \<Rightarrow> refresher \<Rightarrow> bool" where
  "stored_rotation tool name start rotated w w1 =
     (\<exists>path current. read_credential w path = Some current \<and>
        refresh_token tool current = refresh_token tool start \<and>
        (read_credential w1 path = Some rotated \<or>
         (\<exists>merged. merge_rotated_credentials tool current rotated = Some merged \<and>
                   read_credential w1 path = Some merged)))"

definition rescued_rotation :: "string \<Rightarrow> string \<Rightarrow> document \<Rightarrow> refresher \<Rightarrow> bool" where
  "rescued_rotation tool name rotated w1 =
     (\<exists>stamp. map_of (k_rescues w1) (tool, name, stamp) = Some rotated)"

text \<open>The account was removed after the run began, and no profile holds its token.\<close>

definition account_removed :: "surroundings \<Rightarrow> string \<Rightarrow> string \<Rightarrow> document \<Rightarrow> int \<Rightarrow> refresher \<Rightarrow> bool" where
  "account_removed E tool name start began w =
     (\<exists>before. refresh_token tool start = Some before \<and> copy_back_path E tool name before began w = Some None)"

lemma write_stored_cases:
  assumes "write_stored_credential path d w = (ok, w1)" "w_fates w = Works # fs"
  shows "ok \<and> read_credential w1 path = Some d \<or> \<not> ok \<and> w1 = w"
  using assms
  by (auto simp: write_stored_credential_def disk_def read_credential_def resolved_path_def
      path_is_link_def split: if_splits)

lemma commit_outcome:
  assumes c: "commit_rotated_credentials E tool name start rotated began w = (ok, w1)"
    and f: "w_fates w = Works # fs" "fresh_stamps w"
  shows "ok \<and> stored_rotation tool name start rotated w w1 \<or>
    \<not> ok \<and> (rescued_rotation tool name rotated w1 \<or> w1 = w \<and> account_removed E tool name start began w)"
proof (cases "w1 = save_aborted_rotation tool name rotated w \<and> \<not> ok")
  case True
  then show ?thesis using save_aborted_kept [OF f] by (auto simp: rescued_rotation_def)
next
  case False
  note c1 = c [unfolded commit_rotated_credentials_def Let_def]
  have free: "en_switcher_free E" using c1 False by (cases "en_switcher_free E") auto
  obtain before where b: "refresh_token tool start = Some before"
    using c1 free False by (cases "refresh_token tool start") auto
  obtain found where p: "copy_back_path E tool name before began w = Some found"
    using c1 free b False by (cases "copy_back_path E tool name before began w") auto
  show ?thesis
  proof (cases found)
    case None
    then show ?thesis using c1 free b p by (auto simp: account_removed_def)
  next
    case (Some path)
    obtain cur where cur: "read_credential w path = Some cur"
      using c1 free b p Some False by (cases "read_credential w path") auto
    have same: "refresh_token tool cur = Some before"
      using c1 free b p Some cur False by (cases "refresh_token tool cur = Some before") auto
    obtain merged where m: "merge_rotated_credentials tool cur rotated = Some merged"
      using c1 free b p Some cur same False by (cases "merge_rotated_credentials tool cur rotated") auto
    define new where
      "new = (if cur = start \<and> (tool = ''codex'' \<or> only_claude_oauth cur) then rotated else merged)"
    obtain ok2 w2 where w2: "write_stored_credential path new w = (ok2, w2)"
      by (cases "write_stored_credential path new w")
    have r: "ok = ok2" "w1 = (if ok2 then w2 else save_aborted_rotation tool name rotated w2)"
      using c1 free b p Some cur same m w2 by (cases ok2; simp add: new_def)+
    from write_stored_cases [OF w2 f(1)] show ?thesis
    proof (elim disjE conjE)
      assume "ok2" "read_credential w2 path = Some new"
      moreover from this have "stored_rotation tool name start rotated w w1"
        using cur same b m r(2) unfolding stored_rotation_def
        by (intro exI [of _ path] exI [of _ cur]) (auto simp: new_def)
      ultimately show ?thesis using r(1) by simp
    next
      assume "\<not> ok2" "w2 = w"
      then show ?thesis using r False by simp
    qed
  qed
qed

lemma copy_back_outcome:
  assumes "copy_back E tool p start rotated w = (e, w1)" "w_fates w = Works # fs" "fresh_stamps w"
  shows "e = RunOk \<and> stored_rotation tool (pi_name p) start rotated w w1 \<or>
    e = RunFailed \<and> (rescued_rotation tool (pi_name p) rotated w1 \<or>
      w1 = w \<and> account_removed E tool (pi_name p) start (en_now E) w)"
proof -
  obtain ok w2 where c: "commit_rotated_credentials E tool (pi_name p) start rotated (en_now E) w = (ok, w2)"
    by (cases "commit_rotated_credentials E tool (pi_name p) start rotated (en_now E) w")
  then show ?thesis
    using commit_outcome [OF c assms(2,3)] assms(1) by (cases ok) (auto simp: copy_back_def)
qed

text \<open>What counts as a rotation, and the refresh of either tool.\<close>

definition cli_rotated :: "readers \<Rightarrow> string \<Rightarrow> document \<Rightarrow> document \<Rightarrow> bool" where
  "cli_rotated R tool start rotated =
     (if tool = ''codex'' then
        (case (parse_codex_auth_data_full R start, parse_codex_auth_data_full R rotated) of
           (Some old, Some new) \<Rightarrow> codex_rotated old new
         | _ \<Rightarrow> False)
      else
        (case (validate_full_claude start, validate_claude_credentials rotated) of
           (Some old, Some new) \<Rightarrow> old < new
         | _ \<Rightarrow> False))"

definition refresh_run :: "surroundings \<Rightarrow> string \<Rightarrow> listed_profile \<Rightarrow> refresher \<Rightarrow> run_end \<times> refresher" where
  "refresh_run E tool p w = (if tool = ''codex'' then codex_run E True p w else claude_refresh_run E p w)"


definition login_doc :: "string \<Rightarrow> int \<Rightarrow> document" where
  "login_doc token expires =
     Some (JObject [(''claudeAiOauth'',
       JObject [(''accessToken'', JString token), (''refreshToken'', JString token),
                (''expiresAt'', JNumber expires)])])"

text \<open>The CLI rotates the token and then fails or not.\<close>

definition rotating_cli :: "string option \<Rightarrow> document \<Rightarrow> run_result \<times> document option" where
  "rotating_cli err d = (\<lparr>rr_started = True, rr_output = [], rr_error = err\<rparr>, Some (login_doc ''new'' 9))"

definition rotating_world :: "string option \<Rightarrow> surroundings" where
  "rotating_world err =
     \<lparr>en_now = 1000 * hour, en_enabled = True, en_tool_on = (\<lambda>_. True), en_pending_login = (\<lambda>_. False),
      en_migrated = (\<lambda>_. None), en_lead = (\<lambda>_. 0), en_account_free = True, en_switcher_free = True,
      en_available = True, en_reachable = True, en_run = rotating_cli err, en_temp_dir = [],
      en_fan_out = (\<lambda>_ _ _. Fanned), en_hash = (\<lambda>s. s),
      en_readers = \<lparr>rd_jwt = (\<lambda>_. None), rd_time = (\<lambda>_. None)\<rparr>\<rparr>"

definition one_login :: refresher where
  "one_login =
     \<lparr>k_state = NoStateFile, k_profiles = [profile_info.truncate (idle_profile ''a'')], k_listing = True,
      k_files = [(''a.json'', login_doc ''old'' 5)], k_links = [], k_rescues = [], k_temps = [],
      k_dirs = [], k_removed = [], k_last = [], k_stamp = 0, p_view = new_state_data, p_unsaved = [],
      p_notices = [], p_repaired = False, p_attempts = [], p_alerted = [], p_alerts = [], p_pending = [],
      p_last = [], p_fanned = [], h_runs = [], w_fates = [Works, Works]\<rparr>"


text \<open>
  A warm-up has no such guarantee: when its CLI rotates the token and then fails, the copy is thrown
  away. The profile keeps the token that was spent, and no rescue file holds the new one.
\<close>

lemma failed_warm_up_commits_nothing:
  assumes "\<forall>d. rr_error (fst (en_run E d)) \<noteq> None"
  shows "snd (claude_warm_run E p w) = w"
  using assms by (auto simp: claude_warm_run_def case_prod_beta split: option.split)

lemma warm_up_loses_rotation:
  "cli_rotated (en_readers (rotating_world (Some ''exit 1''))) ''claude'' (login_doc ''old'' 5) (login_doc ''new'' 9) \<and>
   claude_warm_run (rotating_world (Some ''exit 1'')) (idle_profile ''a'') one_login = (RunFailed, one_login) \<and>
   read_credential one_login ''a.json'' = Some (login_doc ''old'' 5) \<and> k_rescues one_login = []"
proof -
  have "fst (claude_warm_run (rotating_world (Some ''exit 1'')) (idle_profile ''a'') one_login) = RunFailed"
    by code_simp
  moreover have "snd (claude_warm_run (rotating_world (Some ''exit 1'')) (idle_profile ''a'') one_login) = one_login"
    by (rule failed_warm_up_commits_nothing) (simp add: rotating_world_def rotating_cli_def)
  ultimately have "claude_warm_run (rotating_world (Some ''exit 1'')) (idle_profile ''a'') one_login = (RunFailed, one_login)"
    by (metis prod.collapse)
  moreover have "cli_rotated (en_readers (rotating_world (Some ''exit 1''))) ''claude'' (login_doc ''old'' 5) (login_doc ''new'' 9)"
    "read_credential one_login ''a.json'' = Some (login_doc ''old'' 5)" by code_simp+
  ultimately show ?thesis by (simp add: one_login_def)
qed

end
